(* ===== verification/Xdp_Prelude.thy ===== *)
theory Xdp_Prelude
  imports "HOL-Library.Word" "HOL-Library.Monad_Syntax"
begin

unbundle bit_operations_syntax

text \<open>
  Shared vocabulary of the development: the machine integers of the C sources, a packet as the
  bytes between \<open>data\<close> and \<open>data_end\<close>, native (little-endian) loads and stores that are
  \<^const>\<open>None\<close> outside these bytes, the byte-order macros of
  \<open>lib/libbpf/src/bpf_endian.h\<close>, the XDP verdicts and the error numbers, and the generic lemmas
  on words and options that the component theories use.

  A load or store yields \<^const>\<open>None\<close> exactly when the C code would touch memory outside the
  packet.  A component's function is therefore memory safe when it never evaluates to
  \<^const>\<open>None\<close>, and this is proved, not assumed, in each theory.
\<close>

subsection \<open>Machine integers, packets, verdicts\<close>

type_synonym u8 = "8 word"
type_synonym u16 = "16 word"
type_synonym u32 = "32 word"
type_synonym u64 = "64 word"
type_synonym packet = "u8 list"

named_theorems wire_simps "evaluation of loads, stores and byte order on in-bounds offsets"
named_theorems unat_simps "readings of word operations as natural numbers"

datatype xdp_action = XDP_ABORTED | XDP_DROP | XDP_PASS | XDP_TX | XDP_REDIRECT

fun xdp_action_code :: "xdp_action \<Rightarrow> u32" where
  "xdp_action_code XDP_ABORTED = 0"
| "xdp_action_code XDP_DROP = 1"
| "xdp_action_code XDP_PASS = 2"
| "xdp_action_code XDP_TX = 3"
| "xdp_action_code XDP_REDIRECT = 4"

subsection \<open>Error numbers and exit codes\<close>

abbreviation (input) ENOENT :: int where "ENOENT \<equiv> 2"
abbreviation (input) E2BIG :: int where "E2BIG \<equiv> 7"
abbreviation (input) EAGAIN :: int where "EAGAIN \<equiv> 11"
abbreviation (input) ENOMEM :: int where "ENOMEM \<equiv> 12"
abbreviation (input) EBUSY :: int where "EBUSY \<equiv> 16"
abbreviation (input) EEXIST :: int where "EEXIST \<equiv> 17"
abbreviation (input) EINVAL :: int where "EINVAL \<equiv> 22"
abbreviation (input) ENOSPC :: int where "ENOSPC \<equiv> 28"
abbreviation (input) ENAMETOOLONG :: int where "ENAMETOOLONG \<equiv> 36"
abbreviation (input) EOPNOTSUPP :: int where "EOPNOTSUPP \<equiv> 95"

subsection \<open>Native loads and stores\<close>

definition load8 :: "packet \<Rightarrow> nat \<Rightarrow> u8 option" where
  "load8 p i = (if i < length p then Some (p ! i) else None)"

definition word16_le :: "u8 \<Rightarrow> u8 \<Rightarrow> u16" where
  "word16_le b0 b1 = ucast b0 OR push_bit 8 (ucast b1)"

definition load16 :: "packet \<Rightarrow> nat \<Rightarrow> u16 option" where
  "load16 p i = (if i + 2 \<le> length p then Some (word16_le (p ! i) (p ! (i + 1))) else None)"

definition word32_le :: "u8 \<Rightarrow> u8 \<Rightarrow> u8 \<Rightarrow> u8 \<Rightarrow> u32" where
  "word32_le b0 b1 b2 b3 =
     ucast b0 OR push_bit 8 (ucast b1) OR push_bit 16 (ucast b2) OR push_bit 24 (ucast b3)"

definition load32 :: "packet \<Rightarrow> nat \<Rightarrow> u32 option" where
  "load32 p i =
     (if i + 4 \<le> length p
      then Some (word32_le (p ! i) (p ! (i + 1)) (p ! (i + 2)) (p ! (i + 3))) else None)"

definition load_bytes :: "packet \<Rightarrow> nat \<Rightarrow> nat \<Rightarrow> u8 list option" where
  "load_bytes p i n = (if i + n \<le> length p then Some (take n (drop i p)) else None)"

definition store_bytes :: "packet \<Rightarrow> nat \<Rightarrow> u8 list \<Rightarrow> packet option" where
  "store_bytes p i bs =
     (if i + length bs \<le> length p then Some (take i p @ bs @ drop (i + length bs) p) else None)"

definition store16 :: "packet \<Rightarrow> nat \<Rightarrow> u16 \<Rightarrow> packet option" where
  "store16 p i w = store_bytes p i [ucast w, ucast (drop_bit 8 w)]"

lemma load8_Some [wire_simps]: "i < length p \<Longrightarrow> load8 p i = Some (p ! i)"
  by (simp add: load8_def)

lemma load16_Some [wire_simps]:
  "i + 2 \<le> length p \<Longrightarrow> load16 p i = Some (word16_le (p ! i) (p ! (i + 1)))"
  by (simp add: load16_def)

lemma load32_Some [wire_simps]:
  "i + 4 \<le> length p \<Longrightarrow>
   load32 p i = Some (word32_le (p ! i) (p ! (i + 1)) (p ! (i + 2)) (p ! (i + 3)))"
  by (simp add: load32_def)

lemma load_bytes_Some [wire_simps]:
  "i + n \<le> length p \<Longrightarrow> load_bytes p i n = Some (take n (drop i p))"
  by (simp add: load_bytes_def)

lemma store_bytes_Some [wire_simps]:
  "i + length bs \<le> length p \<Longrightarrow>
   store_bytes p i bs = Some (take i p @ bs @ drop (i + length bs) p)"
  by (simp add: store_bytes_def)

lemma store_bytes_length: "store_bytes p i bs = Some q \<Longrightarrow> length q = length p"
  by (auto simp: store_bytes_def split: if_splits)

lemma store16_length: "store16 p i w = Some q \<Longrightarrow> length q = length p"
  by (auto simp: store16_def dest: store_bytes_length)

lemma store16_Some: "i + 2 \<le> length p \<Longrightarrow> \<exists>q. store16 p i w = Some q"
  by (simp add: store16_def store_bytes_def)

subsection \<open>Byte order\<close>

text \<open>The macros of \<open>bpf_endian.h\<close> on a little-endian host: both directions swap the bytes.\<close>

definition bpf_htons :: "u16 \<Rightarrow> u16" where
  "bpf_htons x = push_bit 8 x OR drop_bit 8 x"

definition bpf_ntohs :: "u16 \<Rightarrow> u16" where
  "bpf_ntohs x = push_bit 8 x OR drop_bit 8 x"

definition bpf_ntohl :: "u32 \<Rightarrow> u32" where
  "bpf_ntohl x = push_bit 24 x OR push_bit 8 (x AND 0xFF00) OR drop_bit 8 (x AND 0xFF0000)
                 OR drop_bit 24 x"

lemma bpf_ntohs_htons: "bpf_ntohs (bpf_htons x) = x"
  unfolding bpf_ntohs_def bpf_htons_def
  by (rule bit_word_eqI) (auto simp: bit_simps)

lemma bpf_ntohs_inj: "bpf_ntohs x = bpf_ntohs y \<longleftrightarrow> x = y"
  by (metis bpf_ntohs_htons bpf_htons_def bpf_ntohs_def)

text \<open>The swapped load is the big-endian (network order) reading of the two bytes.\<close>

lemma bpf_ntohs_word16_le: "bpf_ntohs (word16_le a b) = word16_le b a"
  unfolding bpf_ntohs_def word16_le_def
  by (rule bit_word_eqI) (auto simp: bit_simps dest: bit_imp_le_length)

lemma word16_le_bytes: "word16_le (ucast w) (ucast (drop_bit 8 w)) = w"
  unfolding word16_le_def
  by (rule bit_word_eqI) (auto simp: bit_simps)

lemma word16_le_inject: "word16_le a b = word16_le c d \<longleftrightarrow> a = c \<and> b = d"
proof
  assume eq: "word16_le a b = word16_le c d"
  have "a = ucast (word16_le a b)" "c = ucast (word16_le c d)"
    by (rule bit_word_eqI; auto simp: word16_le_def bit_simps)+
  moreover have "b = ucast (drop_bit 8 (word16_le a b))" "d = ucast (drop_bit 8 (word16_le c d))"
    by (rule bit_word_eqI; auto simp: word16_le_def bit_simps dest: bit_imp_le_length)+
  ultimately show "a = c \<and> b = d" using eq by simp
qed simp

lemma load16_store16:
  assumes "store16 p i w = Some q"
  shows "load16 q i = Some w"
proof -
  from assms have le: "i + 2 \<le> length p"
    and q: "q = take i p @ [ucast w, ucast (drop_bit 8 w)] @ drop (i + 2) p"
    by (auto simp: store16_def store_bytes_def split: if_splits)
  from le have "length q = length p" using assms by (auto dest: store16_length)
  moreover from le have "q ! i = ucast w" "q ! (i + 1) = ucast (drop_bit 8 w)"
    by (auto simp: q nth_append)
  ultimately show ?thesis using le by (simp add: load16_def word16_le_bytes)
qed

lemma length2E:
  assumes "length xs = 2"
  obtains x y where "xs = [x, y]"
  using assms that by (auto simp: numeral_2_eq_2 length_Suc_conv)

subsection \<open>Words read as numbers\<close>

lemma unat_ucast_up [unat_simps]:
  assumes "LENGTH('a::len) \<le> LENGTH('b::len)"
  shows "unat (ucast (x :: 'a word) :: 'b word) = unat x"
proof -
  have "unat x < 2 ^ LENGTH('a)" by (rule unsigned_less)
  also have "\<dots> \<le> 2 ^ LENGTH('b)" using assms by simp
  finally show ?thesis by (simp add: unsigned_ucast_eq take_bit_nat_eq_self)
qed

text \<open>Two positions in a window of a ring that share a slot are the same.\<close>

lemma mod_window: "c \<le> (i::nat) \<Longrightarrow> i < c + n \<Longrightarrow> c \<le> j \<Longrightarrow> j < c + n \<Longrightarrow> i mod n = j mod n \<Longrightarrow> i = j"
proof (induction i j rule: linorder_wlog)
  case (le i j)
  then have "n dvd j - i" by (metis mod_eq_dvd_iff_nat)
  moreover have "j - i < n" using le by linarith
  ultimately have "j - i = 0" using nat_dvd_not_less by blast
  with le show ?case by linarith
qed (metis)

lemma unat_bound: "unat (w :: 'a::len word) < 2 ^ LENGTH('a)"
  by (rule unsigned_less)

lemma unat_of_nat_64 [unat_simps]: "n < 2 ^ 64 \<Longrightarrow> unat (of_nat n :: u64) = n"
  by (simp add: unat_of_nat take_bit_nat_eq_self)

lemma unat_drop_bit_div [unat_simps]: "unat (drop_bit n w) = unat w div 2 ^ n"
  by (simp add: unat_drop_bit_eq drop_bit_nat_def)

lemma unat_push_bit_mod: "unat (push_bit n (w :: 'a::len word)) = unat w * 2 ^ n mod 2 ^ LENGTH('a)"
  by (simp add: unsigned_push_bit_eq push_bit_nat_def take_bit_eq_mod)

lemma unat_exp [unat_simps]: "k < LENGTH('a::len) \<Longrightarrow> unat (2 ^ k :: 'a word) = 2 ^ k"
proof -
  assume "k < LENGTH('a)"
  then have "(2::nat) ^ k mod 2 ^ LENGTH('a) = 2 ^ k" by (intro mod_less power_strict_increasing) auto
  then show ?thesis using unat_push_bit_mod[of k "1 :: 'a word"] by (simp add: push_bit_of_1)
qed

lemma ucast_of_nat_down:
  "LENGTH('b::len) \<le> LENGTH('a::len) \<Longrightarrow> ucast (of_nat n :: 'a word) = (of_nat n :: 'b word)"
  by (simp add: word_unat_eq_iff unsigned_ucast_eq unat_of_nat take_bit_eq_mod mod_mod_cancel
      le_imp_power_dvd)

lemma push_bit_or_eq_add:
  fixes a b :: "'a::len word"
  assumes "unat b < 2 ^ n"
  shows "push_bit n a OR b = push_bit n a + b"
proof -
  have "take_bit n b = b"
    using assms by (simp add: word_unat_eq_iff unsigned_take_bit_eq take_bit_nat_eq_self)
  then have low: "bit b i \<Longrightarrow> i < n" for i by (metis bit_take_bit_iff)
  have "push_bit n a AND b = 0"
    by (intro bit_word_eqI) (auto simp: bit_simps dest: low)
  then show ?thesis using word_plus_and_or[of "push_bit n a" b] by simp
qed

subsection \<open>Steps that may fail\<close>

lemma bind_SomeE:
  assumes "Option.bind m f = Some y"
  obtains x where "m = Some x" and "f x = Some y"
  using assms by (auto simp: bind_eq_Some_conv)

lemma bind_pair_SomeE:
  assumes "Option.bind m (\<lambda>(r, s). f r s) = Some y"
  obtains r s where "m = Some (r, s)" and "f r s = Some y"
  using assms by (auto simp: bind_eq_Some_conv)

end
