(* ===== verification/Fixed_Point.thy ===== *)
theory Fixed_Point
  imports Complex_Main Xdp_Prelude
begin

text \<open>
  The Q48.16 arithmetic of \<open>xdp_prog/common_kern_user.h\<close> at its 64-bit width.  The two conversions
  from and to \<open>double\<close> are modelled on the reals: scaling by \<open>65536.0\<close> is exact in binary
  floating point, the conversion of an unsigned 64-bit value rounds to 53 significant bits
  (to nearest, ties to even), and the conversion back truncates and is undefined out of range.
  The other operations are word arithmetic, wrap-around included.
\<close>

subsection \<open>Definitions\<close>

type_synonym fixed = u64

abbreviation (input) FIXED_SHIFT :: nat where "FIXED_SHIFT \<equiv> 16"
abbreviation (input) FIXED_SCALE :: nat where "FIXED_SCALE \<equiv> 65536"

definition fixed_from_uint :: "u64 \<Rightarrow> fixed" where
  "fixed_from_uint v = push_bit FIXED_SHIFT v"

definition fixed_to_uint :: "fixed \<Rightarrow> u64" where
  "fixed_to_uint v = drop_bit FIXED_SHIFT v"

definition fixed_add :: "fixed \<Rightarrow> fixed \<Rightarrow> fixed" where
  "fixed_add a b = a + b"

definition fixed_sub :: "fixed \<Rightarrow> fixed \<Rightarrow> fixed" where
  "fixed_sub a b = (if a > b then a - b else 0)"

definition fixed_mul :: "fixed \<Rightarrow> fixed \<Rightarrow> fixed" where
  "fixed_mul a b =
     (let a_int = drop_bit FIXED_SHIFT a;
          a_frac = a AND (push_bit FIXED_SHIFT 1 - 1);
          b_int = drop_bit FIXED_SHIFT b;
          b_frac = b AND (push_bit FIXED_SHIFT 1 - 1);
          result_int = a_int * b_int;
          result_frac = drop_bit FIXED_SHIFT (a_int * b_frac + a_frac * b_int);
          result_frac_frac = drop_bit (FIXED_SHIFT * 2) (a_frac * b_frac)
      in push_bit FIXED_SHIFT result_int + result_frac + result_frac_frac)"

definition fixed_div :: "fixed \<Rightarrow> fixed \<Rightarrow> fixed" where
  "fixed_div a b = (if b = 0 then 0 else push_bit FIXED_SHIFT a div b)"

text \<open>The loop \<open>while (tmp >>= 1) int_part++\<close>.\<close>

function log2_loop :: "u64 \<Rightarrow> u64 \<Rightarrow> u64" where
  "log2_loop tmp int_part =
     (let t = drop_bit 1 tmp in if t = 0 then int_part else log2_loop t (int_part + 1))"
  by pat_completeness auto

termination
proof (relation "measure (\<lambda>(tmp, _). unat tmp)", simp)
  fix tmp ip t :: u64
  assume t: "t = drop_bit 1 tmp" and "t \<noteq> 0"
  then have "unat t \<noteq> 0" by (simp only: unat_eq_zero not_False_eq_True)
  moreover have "unat t = unat tmp div 2" by (simp add: t unat_drop_bit_div)
  ultimately show "((t, ip + 1), (tmp, ip)) \<in> measure (\<lambda>(tmp, _). unat tmp)" by simp
qed

declare log2_loop.simps [simp del]

definition fixed_log2 :: "u64 \<Rightarrow> fixed" where
  "fixed_log2 x =
     (if x = 0 then 0
      else let int_part = log2_loop x 0;
               base = push_bit (unat int_part) 1;
               remainder = x - base;
               frac = push_bit FIXED_SHIFT remainder div base
           in push_bit FIXED_SHIFT int_part OR frac)"

text \<open>
  \<open>(double)value\<close> for an unsigned 64-bit value: exact below \<open>2^53\<close>, otherwise the 53 leading
  bits rounded to nearest, ties to even.
\<close>

definition round_even_div :: "nat \<Rightarrow> nat \<Rightarrow> nat" where
  "round_even_div n d =
     (let q = n div d; r = n mod d
      in if 2 * r < d \<or> (2 * r = d \<and> even q) then q else q + 1)"

definition u64_to_double :: "u64 \<Rightarrow> real" where
  "u64_to_double v =
     (let n = unat v
      in if n < 2 ^ 53 then real n
         else let e = unat (log2_loop v 0) - 52 in real (round_even_div n (2 ^ e) * 2 ^ e))"

definition fixed_to_float :: "fixed \<Rightarrow> real" where
  "fixed_to_float v = u64_to_double v / real FIXED_SCALE"

text \<open>The cast to \<open>__u64\<close> truncates; it is undefined behaviour (\<^const>\<open>None\<close>) out of range.\<close>

definition fixed_from_float :: "real \<Rightarrow> fixed option" where
  "fixed_from_float x =
     (let s = x * real FIXED_SCALE
      in if -1 < s \<and> s < 2 ^ 64 then Some (word_of_int (if s < 0 then 0 else \<lfloor>s\<rfloor>)) else None)"

subsection \<open>Readings as numbers\<close>

lemma unat_fixed_from_uint:
  "unat v < 2 ^ 48 \<Longrightarrow> unat (fixed_from_uint v) = unat v * 65536"
  by (simp add: fixed_from_uint_def unat_push_bit_mod)

lemma unat_fixed_frac: "unat ((a :: u64) AND (push_bit 16 1 - 1)) = unat a mod 65536"
proof -
  have "(push_bit 16 1 - 1 :: u64) = mask 16" by (simp add: mask_eq_exp_minus_1)
  then have "a AND (push_bit 16 1 - 1) = take_bit 16 a" by (simp only: take_bit_eq_mask)
  then show ?thesis by (simp only: unsigned_take_bit_eq) (simp add: take_bit_eq_mod)
qed

lemma fixed_from_uint_mono:
  assumes "unat v < 2 ^ 48" and "unat w < 2 ^ 48"
  shows "fixed_from_uint v \<le> fixed_from_uint w \<longleftrightarrow> v \<le> w"
  using assms by (simp add: word_le_nat_alt unat_fixed_from_uint)

lemma log2_loop_spec:
  assumes "x \<noteq> 0"
  shows "\<exists>k. unat (log2_loop x ip) = (unat ip + k) mod 2 ^ 64 \<and> 2 ^ k \<le> unat x
             \<and> unat x < 2 ^ Suc k \<and> k < 64"
  using assms
proof (induction x ip rule: log2_loop.induct)
  case (1 tmp ip)
  let ?t = "drop_bit 1 tmp"
  have half: "unat ?t = unat tmp div 2" by (simp add: unat_drop_bit_div)
  show ?case
  proof (cases "?t = 0")
    case True
    with half have "unat tmp div 2 = 0" by simp
    with "1.prems" have "unat tmp = 1" by (auto simp: unat_eq_zero div_eq_0_iff less_2_cases_iff)
    moreover have "unat ip mod 2 ^ 64 = unat ip" using unat_bound[of ip] by simp
    ultimately show ?thesis using True
      by (intro exI[of _ 0]) (simp add: log2_loop.simps[of tmp ip])
  next
    case False
    with "1.IH"[OF refl False False] obtain k where
      k: "unat (log2_loop ?t (ip + 1)) = (unat (ip + 1) + k) mod 2 ^ 64"
         "2 ^ k \<le> unat ?t" "unat ?t < 2 ^ Suc k" "k < 64" by auto
    have "2 ^ Suc k \<le> unat tmp" "unat tmp < 2 ^ Suc (Suc k)" using k(2,3) half by auto
    moreover have "Suc k < 64"
    proof (rule ccontr)
      assume "\<not> Suc k < 64"
      then have "(2::nat) ^ 64 \<le> 2 ^ Suc k" by (intro power_increasing) auto
      then show False using \<open>2 ^ Suc k \<le> unat tmp\<close> unat_bound[of tmp] by simp
    qed
    moreover have "(unat (ip + 1) + k) mod 2 ^ 64 = (unat ip + Suc k) mod 2 ^ 64"
      by (simp add: unat_word_ariths mod_add_left_eq)
    ultimately show ?thesis using False k(1)
      by (intro exI[of _ "Suc k"]) (simp add: log2_loop.simps[of tmp ip])
  qed
qed

lemma log2_loop_0:
  assumes "x \<noteq> 0"
  shows "2 ^ unat (log2_loop x 0) \<le> unat x \<and> unat x < 2 ^ Suc (unat (log2_loop x 0))
         \<and> unat (log2_loop x 0) < 64"
  using log2_loop_spec[OF assms, of 0] by auto

lemma fixed_log2_value:
  assumes "x \<noteq> 0" and "unat x < 2 ^ 49"
  shows "unat (fixed_log2 x) =
         unat (log2_loop x 0) * 65536
         + (unat x - 2 ^ unat (log2_loop x 0)) * 65536 div 2 ^ unat (log2_loop x 0)"
proof -
  let ?k = "unat (log2_loop x 0)"
  let ?base = "push_bit ?k 1 :: u64"
  let ?rem = "x - ?base"
  let ?frac = "push_bit 16 ?rem div ?base"
  from log2_loop_0[OF assms(1)] have k: "2 ^ ?k \<le> unat x" "unat x < 2 * 2 ^ ?k" "?k < 64"
    by auto
  have base: "unat ?base = 2 ^ ?k" using k(3) by (simp add: unat_exp)
  have rem: "unat ?rem = unat x - 2 ^ ?k"
    using k(1) base by (simp add: unat_sub word_le_nat_alt)
  have rem_lt: "unat ?rem < 2 ^ ?k" using rem k(2) by simp
  have "unat ?rem < 2 ^ 48"
  proof (cases "?k \<le> 48")
    case True
    then have "(2::nat) ^ ?k \<le> 2 ^ 48" by (intro power_increasing) auto
    then show ?thesis using rem_lt by simp
  next
    case False
    then have "(2::nat) ^ 49 \<le> 2 ^ ?k" by (intro power_increasing) auto
    then show ?thesis using k(1) assms(2) by simp
  qed
  then have frac: "unat ?frac = unat ?rem * 65536 div 2 ^ ?k"
    using k(3) by (simp add: unat_div unat_exp unat_push_bit_mod)
  also have "\<dots> < 65536" using rem_lt
    by (simp add: less_mult_imp_div_less mult.commute)
  finally have frac_lt: "unat ?frac < 65536" .
  have or_eq: "push_bit 16 (log2_loop x 0) OR ?frac = push_bit 16 (log2_loop x 0) + ?frac"
    using frac_lt by (intro push_bit_or_eq_add) simp
  have "unat (push_bit 16 (log2_loop x 0)) = ?k * 65536"
    using k(3) by (simp add: unat_push_bit_mod)
  then have "unat (push_bit 16 (log2_loop x 0) + ?frac) = ?k * 65536 + unat ?frac"
    using frac_lt k(3) by (simp add: unat_word_ariths)
  moreover have "fixed_log2 x = push_bit 16 (log2_loop x 0) OR ?frac"
    using assms(1) by (simp only: fixed_log2_def Let_def if_False)
  ultimately show ?thesis by (simp only: or_eq frac rem)
qed

subsection \<open>Properties\<close>

text \<open>Within 48 bits the integer conversions are inverse to each other, and the fixed-point
  order is the integer order (the comparison the decision tree relies on).\<close>

theorem fixed_uint_roundtrip:
  assumes "unat v < 2 ^ 48" and "unat w < 2 ^ 48"
  shows "fixed_to_uint (fixed_from_uint v) = v
         \<and> (fixed_from_uint v \<le> fixed_from_uint w \<longleftrightarrow> v \<le> w)"
proof
  show "fixed_to_uint (fixed_from_uint v) = v"
    using assms(1)
    by (simp add: fixed_to_uint_def word_unat_eq_iff unat_drop_bit_div unat_fixed_from_uint)
  show "fixed_from_uint v \<le> fixed_from_uint w \<longleftrightarrow> v \<le> w"
    using assms by (rule fixed_from_uint_mono)
qed

theorem fixed_uint_roundtrip_witness:
  "fixed_to_uint (fixed_from_uint 1500) = 1500
   \<and> (fixed_from_uint 1500 \<le> fixed_from_uint 64 \<longleftrightarrow> (1500 :: u64) \<le> 64)"
  using fixed_uint_roundtrip[of 1500 64] by simp

text \<open>The subtraction saturates at zero and the division is the exact quotient scaled by
  \<open>2^16\<close> (truncated) for dividends below \<open>2^48\<close>; a zero divisor gives zero.\<close>

theorem fixed_sub_div_value:
  assumes "unat a < 2 ^ 48"
  shows "unat (fixed_sub a b) = unat a - unat b
         \<and> unat (fixed_div a b) = (unat a * 65536) div unat b"
proof
  show "unat (fixed_sub a b) = unat a - unat b"
    by (auto simp: fixed_sub_def unat_sub word_less_nat_alt word_le_nat_alt)
  show "unat (fixed_div a b) = unat a * 65536 div unat b"
    using assms by (simp add: fixed_div_def unat_div unat_push_bit_mod)
qed

theorem fixed_sub_div_value_witness:
  "unat (fixed_sub 3 5) = unat (3 :: u64) - unat (5 :: u64)
   \<and> unat (fixed_div 3 5) = (unat (3 :: u64) * 65536) div unat (5 :: u64)"
  using fixed_sub_div_value[of 3 5] by simp

lemma fixed_mul_value:
  assumes "unat a < 2 ^ 40" and "unat b < 2 ^ 40"
  shows "unat (fixed_mul a b) =
         (unat a div 65536) * (unat b div 65536) * 65536
         + ((unat a div 65536) * (unat b mod 65536) + (unat a mod 65536) * (unat b div 65536))
           div 65536"
proof -
  define ai af bi bf where defs: "ai = unat a div 65536" "af = unat a mod 65536"
    "bi = unat b div 65536" "bf = unat b mod 65536"
  have lt: "ai < 2 ^ 24" "bi < 2 ^ 24" "af < 2 ^ 16" "bf < 2 ^ 16"
    using assms by (simp_all add: defs less_mult_imp_div_less)
  have ii: "ai * bi \<le> (2 ^ 24 - 1) * (2 ^ 24 - 1)" using lt by (intro mult_le_mono) auto
  have ib: "ai * bf \<le> 2 ^ 24 * 2 ^ 16" "af * bi \<le> 2 ^ 16 * 2 ^ 24" "af * bf \<le> (2 ^ 16 - 1) * (2 ^ 16 - 1)"
    using lt by (intro mult_le_mono; auto)+
  have w: "unat (drop_bit 16 a) = ai" "unat (drop_bit 16 b) = bi"
    "unat (a AND (push_bit 16 1 - 1)) = af" "unat (b AND (push_bit 16 1 - 1)) = bf"
    by (simp_all only: unat_fixed_frac unat_drop_bit_div defs) simp_all
  have p1: "unat (push_bit 16 (drop_bit 16 a * drop_bit 16 b)) = ai * bi * 65536"
    using ii by (simp add: unat_push_bit_mod unat_word_ariths w)
  have p2: "unat (drop_bit 16 (drop_bit 16 a * (b AND (push_bit 16 1 - 1))
              + (a AND (push_bit 16 1 - 1)) * drop_bit 16 b)) = (ai * bf + af * bi) div 65536"
  proof -
    have "unat (drop_bit 16 a * (b AND (push_bit 16 1 - 1))
              + (a AND (push_bit 16 1 - 1)) * drop_bit 16 b) = ai * bf + af * bi"
      unfolding unat_word_ariths w using ib by simp
    then show ?thesis by (simp only: unat_drop_bit_div) simp
  qed
  have p3: "unat (drop_bit (16 * 2) ((a AND (push_bit 16 1 - 1)) * (b AND (push_bit 16 1 - 1)))) = 0"
    using ib by (simp only: unat_drop_bit_div unat_word_ariths w) simp
  have "(ai * bf + af * bi) div 65536 \<le> 2 ^ 25" using ib by simp
  then show ?thesis
    using ii unfolding fixed_mul_def Let_def unat_word_ariths p1 p2 p3 defs[symmetric] by simp
qed

text \<open>C15: the product is never too large, and it is the exact (truncated) fixed-point product
  if and only if all the cross terms vanish: a product of an integral and a fractional operand
  loses the fraction (\<open>1.5 * 2.0\<close> is not \<open>3.0\<close>), because the cross terms are shifted right
  although they already carry the scale.\<close>

theorem fixed_mul_exact_iff:
  assumes "unat a < 2 ^ 40" and "unat b < 2 ^ 40"
  shows "unat (fixed_mul a b) \<le> unat a * unat b div 65536
         \<and> (unat (fixed_mul a b) = unat a * unat b div 65536 \<longleftrightarrow>
             (unat a div 65536) * (unat b mod 65536) + (unat a mod 65536) * (unat b div 65536) = 0
             \<and> (unat a mod 65536) * (unat b mod 65536) < 65536)"
proof -
  define ai af bi bf where defs: "ai = unat a div 65536" "af = unat a mod 65536"
    "bi = unat b div 65536" "bf = unat b mod 65536"
  have ab: "unat a = ai * 65536 + af" "unat b = bi * 65536 + bf" by (simp_all add: defs)
  have prod: "unat a * unat b = af * bf + (ai * bi * 65536 + (ai * bf + af * bi)) * 65536"
    by (simp add: ab algebra_simps)
  have exact: "unat a * unat b div 65536 = ai * bi * 65536 + (ai * bf + af * bi) + af * bf div 65536"
    unfolding prod by (subst div_mult_self1) simp_all
  have code: "unat (fixed_mul a b) = ai * bi * 65536 + (ai * bf + af * bi) div 65536"
    using fixed_mul_value[OF assms] by (simp add: defs)
  define c where "c = ai * bf + af * bi"
  have c: "c div 65536 \<le> c" "c div 65536 = c \<longleftrightarrow> c = 0" by arith+
  have "c div 65536 = c + af * bf div 65536 \<longleftrightarrow> c = 0 \<and> af * bf < 65536"
  proof -
    have "af * bf div 65536 = 0 \<longleftrightarrow> af * bf < 65536" by (simp add: div_eq_0_iff)
    then show ?thesis using c by linarith
  qed
  then show ?thesis using c(1)
    unfolding exact code defs[symmetric] c_def[symmetric] by simp
qed

theorem fixed_mul_exact_iff_witness:
  "unat (fixed_mul 98304 131072) \<le> unat (98304 :: u64) * unat (131072 :: u64) div 65536
   \<and> unat (fixed_mul 98304 131072) \<noteq> unat (98304 :: u64) * unat (131072 :: u64) div 65536"
  using fixed_mul_exact_iff[of 98304 131072] by simp

text \<open>On arguments below \<open>2^49\<close> the logarithm brackets the argument (its integer part is the
  binary logarithm rounded down) and is monotone.\<close>

theorem fixed_log2_floor_mono:
  assumes "x \<noteq> 0" and "x \<le> y" and "unat y < 2 ^ 49"
  shows "2 ^ (unat (fixed_log2 x) div 65536) \<le> unat x
         \<and> unat x < 2 ^ Suc (unat (fixed_log2 x) div 65536)
         \<and> fixed_log2 x \<le> fixed_log2 y"
proof -
  let ?k = "\<lambda>z. unat (log2_loop z 0)"
  have y: "y \<noteq> 0" and le: "unat x \<le> unat y" and x49: "unat x < 2 ^ 49"
    using assms by (auto simp: word_le_nat_alt unat_eq_zero)
  note kx = log2_loop_0[OF assms(1)] and ky = log2_loop_0[OF y]
  note vx = fixed_log2_value[OF assms(1) x49] and vy = fixed_log2_value[OF y assms(3)]
  have frac: "(unat x - 2 ^ ?k x) * 65536 div 2 ^ ?k x < 65536"
    using kx by (intro less_mult_imp_div_less) (simp, linarith)
  then have dx: "unat (fixed_log2 x) div 65536 = ?k x" by (simp add: vx)
  have "?k x \<le> ?k y"
  proof (rule ccontr)
    assume "\<not> ?k x \<le> ?k y"
    then have "(2::nat) ^ Suc (?k y) \<le> 2 ^ ?k x" by (intro power_increasing) auto
    then show False using kx ky le by linarith
  qed
  then consider "?k x = ?k y" | "Suc (?k x) \<le> ?k y" by linarith
  then have "unat (fixed_log2 x) \<le> unat (fixed_log2 y)"
  proof cases
    case 1
    then show ?thesis using le by (simp add: vx vy div_le_mono)
  next
    case 2
    then have "?k x * 65536 + 65536 \<le> ?k y * 65536" by simp
    then show ?thesis using frac by (simp add: vx vy)
  qed
  then show ?thesis using kx by (simp add: dx word_le_nat_alt)
qed

theorem fixed_log2_floor_mono_witness:
  "2 ^ (unat (fixed_log2 6) div 65536) \<le> unat (6 :: u64)
   \<and> unat (6 :: u64) < 2 ^ Suc (unat (fixed_log2 6) div 65536) \<and> fixed_log2 6 \<le> fixed_log2 7"
  using fixed_log2_floor_mono[of 6 7] by simp

text \<open>A fixed-point value below \<open>2^53\<close> survives the conversion to \<open>double\<close> and back.\<close>

theorem fixed_float_roundtrip:
  assumes "unat v < 2 ^ 53"
  shows "fixed_from_float (fixed_to_float v) = Some v"
proof -
  have f: "fixed_to_float v * 65536 = real (unat v)"
    using assms by (simp add: fixed_to_float_def u64_to_double_def del: of_nat_unat)
  have "real (unat v) < real (2 ^ 64)" using assms by (subst of_nat_less_iff) simp
  moreover have "word_of_int (int (unat v)) = v" by simp
  ultimately show ?thesis by (simp add: fixed_from_float_def f del: of_nat_unat)
qed

theorem fixed_float_roundtrip_witness:
  "fixed_from_float (fixed_to_float 98305) = Some 98305"
  using fixed_float_roundtrip[of 98305] by simp

end
