(* ===== verification/Decision_Tree.thy ===== *)
theory Decision_Tree
  imports Fixed_Point
begin

text \<open>
  The data model shared by the kernel program and its tools (\<open>xdp_prog/common_kern_user.h\<close>) and
  the decision-tree inference \<open>predict_dt\<close> of \<open>xdp_prog/xdp_prog_kern.c\<close>.  An array access outside
  the array is \<^const>\<open>None\<close>.  The abstract specification is a binary tree with its evaluation
  \<open>classify\<close>; the relation \<open>represents\<close> says that the node array lays out such a tree, and
  \<open>flatten\<close> is a preorder layout of any tree.
\<close>

subsection \<open>Data model\<close>

abbreviation (input) MAX_DT_NODES :: nat where "MAX_DT_NODES \<equiv> 5000"
abbreviation (input) MAX_DT_DEPTH :: nat where "MAX_DT_DEPTH \<equiv> 100"
abbreviation (input) MAX_FEATURES :: nat where "MAX_FEATURES \<equiv> 6"
abbreviation (input) MAX_FLOW_SAVED :: nat where "MAX_FLOW_SAVED \<equiv> 10000"

abbreviation (input) FEATURE_FLOW_DURATION :: nat where "FEATURE_FLOW_DURATION \<equiv> 0"
abbreviation (input) FEATURE_TOTAL_FWD_PACKET :: nat where "FEATURE_TOTAL_FWD_PACKET \<equiv> 1"
abbreviation (input) FEATURE_TOTAL_LENGTH_OF_FWD_PACKET :: nat where
  "FEATURE_TOTAL_LENGTH_OF_FWD_PACKET \<equiv> 2"
abbreviation (input) FEATURE_FWD_PACKET_LENGTH_MAX :: nat where "FEATURE_FWD_PACKET_LENGTH_MAX \<equiv> 3"
abbreviation (input) FEATURE_FWD_PACKET_LENGTH_MIN :: nat where "FEATURE_FWD_PACKET_LENGTH_MIN \<equiv> 4"
abbreviation (input) FEATURE_FWD_IAT_MIN :: nat where "FEATURE_FWD_IAT_MIN \<equiv> 5"

record flow_key =
  src_ip :: u32
  src_port :: u16
  dst_ip :: u32
  dst_port :: u16
  proto :: u8

record data_point =
  start_ts :: u64
  last_seen :: u64
  min_IAT :: u64
  total_pkts :: u32
  max_pkt_len :: u32
  min_pkt_len :: u32
  total_bytes :: u32
  features :: "fixed list"
  label :: int

record accounting =
  time_in :: u64
  proc_time :: u64
  ac_total_pkts :: u32
  ac_total_bytes :: u32

record dt_node =
  left_idx :: int
  right_idx :: int
  split_value :: fixed
  feature_idx :: int
  is_leaf :: u32
  node_label :: int

record dt_tree =
  nodes :: "dt_node list"
  num_nodes :: u32
  min_vals :: "fixed list"
  max_vals :: "fixed list"

definition nth_opt :: "'a list \<Rightarrow> nat \<Rightarrow> 'a option" where
  "nth_opt xs i = (if i < length xs then Some (xs ! i) else None)"

subsection \<open>Inference\<close>

text \<open>
  The \<open>for\<close> loop of \<open>predict_dt\<close>; the first argument is the number of iterations left,
  \<open>MAX_DT_DEPTH - depth\<close>.
\<close>

fun predict_loop :: "nat \<Rightarrow> data_point \<Rightarrow> dt_tree \<Rightarrow> u32 \<Rightarrow> int option" where
  "predict_loop 0 dp tree node_idx = Some 0"
| "predict_loop (Suc n) dp tree node_idx =
     (if node_idx \<ge> num_nodes tree \<or> node_idx \<ge> of_nat MAX_DT_NODES then Some 0
      else do {
        node \<leftarrow> nth_opt (nodes tree) (unat node_idx);
        if is_leaf node \<noteq> 0 then Some (node_label node)
        else if feature_idx node < 0 \<or> feature_idx node \<ge> int MAX_FEATURES then Some 0
        else do {
          raw_feat \<leftarrow> nth_opt (features dp) (nat (feature_idx node));
          if raw_feat \<le> split_value node
          then (if left_idx node < 0 \<or> left_idx node \<ge> int MAX_DT_NODES then Some 0
                else predict_loop n dp tree (word_of_int (left_idx node)))
          else (if right_idx node < 0 \<or> right_idx node \<ge> int MAX_DT_NODES then Some 0
                else predict_loop n dp tree (word_of_int (right_idx node)))
        }
      })"

text \<open>The tree pointer is \<^const>\<open>None\<close> for \<open>NULL\<close>.\<close>

definition predict_dt :: "data_point \<Rightarrow> dt_tree option \<Rightarrow> int option" where
  "predict_dt dp tree =
     (case tree of
        None \<Rightarrow> Some 0
      | Some t \<Rightarrow> if num_nodes t = 0 then Some 0 else predict_loop MAX_DT_DEPTH dp t 0)"

subsection \<open>Abstract decision trees\<close>

datatype dtree = Leaf int | Split nat fixed dtree dtree

fun classify :: "dtree \<Rightarrow> fixed list \<Rightarrow> int" where
  "classify (Leaf l) fs = l"
| "classify (Split f v l r) fs = (if fs ! f \<le> v then classify l fs else classify r fs)"

text \<open>The number of splits evaluated on the way to the leaf.\<close>

fun path_len :: "dtree \<Rightarrow> fixed list \<Rightarrow> nat" where
  "path_len (Leaf l) fs = 0"
| "path_len (Split f v l r) fs = Suc (if fs ! f \<le> v then path_len l fs else path_len r fs)"

fun node_count :: "dtree \<Rightarrow> nat" where
  "node_count (Leaf l) = 1"
| "node_count (Split f v l r) = Suc (node_count l + node_count r)"

fun feats_ok :: "dtree \<Rightarrow> bool" where
  "feats_ok (Leaf l) = True"
| "feats_ok (Split f v l r) = (f < MAX_FEATURES \<and> feats_ok l \<and> feats_ok r)"

definition node_at :: "dt_tree \<Rightarrow> nat \<Rightarrow> dt_node option" where
  "node_at tr i = (if i < unat (num_nodes tr) \<and> i < MAX_DT_NODES then nth_opt (nodes tr) i else None)"

fun represents :: "dt_tree \<Rightarrow> nat \<Rightarrow> dtree \<Rightarrow> bool" where
  "represents tr i (Leaf l) =
     (case node_at tr i of None \<Rightarrow> False | Some n \<Rightarrow> is_leaf n \<noteq> 0 \<and> node_label n = l)"
| "represents tr i (Split f v l r) =
     (case node_at tr i of None \<Rightarrow> False
      | Some n \<Rightarrow> is_leaf n = 0 \<and> feature_idx n = int f \<and> f < MAX_FEATURES \<and> split_value n = v
          \<and> 0 \<le> left_idx n \<and> 0 \<le> right_idx n
          \<and> represents tr (nat (left_idx n)) l \<and> represents tr (nat (right_idx n)) r)"

text \<open>A preorder layout, the order in which scikit-learn numbers the nodes of a tree.\<close>

fun flatten :: "nat \<Rightarrow> dtree \<Rightarrow> dt_node list" where
  "flatten i (Leaf l) =
     [\<lparr>left_idx = -1, right_idx = -1, split_value = 0, feature_idx = -1, is_leaf = 1,
       node_label = l\<rparr>]"
| "flatten i (Split f v l r) =
     \<lparr>left_idx = int (i + 1), right_idx = int (i + 1 + node_count l), split_value = v,
      feature_idx = int f, is_leaf = 0, node_label = -1\<rparr>
     # flatten (i + 1) l @ flatten (i + 1 + node_count l) r"

definition dt_pad :: dt_node where
  "dt_pad = \<lparr>left_idx = -1, right_idx = -1, split_value = 0, feature_idx = -1, is_leaf = 1,
             node_label = 0\<rparr>"

definition layout :: "dtree \<Rightarrow> dt_tree" where
  "layout t =
     \<lparr>nodes = flatten 0 t @ replicate (MAX_DT_NODES - node_count t) dt_pad,
      num_nodes = of_nat (node_count t),
      min_vals = replicate MAX_FEATURES 0, max_vals = replicate MAX_FEATURES 0\<rparr>"

subsection \<open>Lemmas\<close>

lemma nth_opt_Some [simp]: "i < length xs \<Longrightarrow> nth_opt xs i = Some (xs ! i)"
  by (simp add: nth_opt_def)

lemma node_at_step:
  assumes "node_at tr i = Some n"
  shows "predict_loop (Suc k) dp tr (of_nat i) =
     (if is_leaf n \<noteq> 0 then Some (node_label n)
      else if feature_idx n < 0 \<or> feature_idx n \<ge> int MAX_FEATURES then Some 0
      else do {
        raw_feat \<leftarrow> nth_opt (features dp) (nat (feature_idx n));
        if raw_feat \<le> split_value n
        then (if left_idx n < 0 \<or> left_idx n \<ge> int MAX_DT_NODES then Some 0
              else predict_loop k dp tr (word_of_int (left_idx n)))
        else (if right_idx n < 0 \<or> right_idx n \<ge> int MAX_DT_NODES then Some 0
              else predict_loop k dp tr (word_of_int (right_idx n)))
      })"
proof -
  from assms have i: "i < unat (num_nodes tr)" "i < MAX_DT_NODES" and n: "nth_opt (nodes tr) i = Some n"
    by (auto simp: node_at_def split: if_splits)
  then have u: "unat (of_nat i :: u32) = i" by (simp add: unat_of_nat take_bit_nat_eq_self)
  have "\<not> (num_nodes tr \<le> of_nat i \<or> of_nat MAX_DT_NODES \<le> (of_nat i :: u32))"
    using i by (simp add: word_le_nat_alt u)
  then show ?thesis using u n by simp
qed

lemma represents_node: "represents tr i t \<Longrightarrow> i < MAX_DT_NODES"
  by (cases t) (auto simp: node_at_def split: option.splits if_splits)

lemma represents_predict:
  assumes "represents tr i t" and "length (features dp) = MAX_FEATURES"
  shows "predict_loop k dp tr (of_nat i) =
         Some (if path_len t (features dp) < k then classify t (features dp) else 0)"
  using assms
proof (induction t arbitrary: i k)
  case (Leaf l)
  then obtain n where "node_at tr i = Some n" "is_leaf n \<noteq> 0" "node_label n = l"
    by (auto split: option.splits)
  then show ?case by (cases k) (simp_all only: node_at_step, simp_all)
next
  case (Split f v l r)
  from Split.prems obtain n where n: "node_at tr i = Some n" and
    nf: "is_leaf n = 0" "feature_idx n = int f" "f < MAX_FEATURES" "split_value n = v"
        "0 \<le> left_idx n" "0 \<le> right_idx n"
    and l: "represents tr (nat (left_idx n)) l" and r: "represents tr (nat (right_idx n)) r"
    by (auto split: option.splits)
  have idx: "left_idx n < int MAX_DT_NODES" "right_idx n < int MAX_DT_NODES"
    using represents_node[OF l] represents_node[OF r] by auto
  have ofi: "of_nat (nat (left_idx n)) = (word_of_int (left_idx n) :: u32)"
    "of_nat (nat (right_idx n)) = (word_of_int (right_idx n) :: u32)" using nf(5,6) by simp_all
  show ?case
  proof (cases k)
    case (Suc k')
    show ?thesis
      using Split.IH(1)[OF l Split.prems(2), of k'] Split.IH(2)[OF r Split.prems(2), of k']
        nf idx Split.prems(2)
      unfolding Suc node_at_step[OF n] ofi by auto
  qed simp
qed

lemma length_flatten [simp]: "length (flatten i t) = node_count t"
  by (induction t arbitrary: i) auto

lemma node_count_pos [simp]: "0 < node_count t"
  by (cases t) auto

lemma flatten_represents:
  assumes "\<And>j. j < node_count t \<Longrightarrow> node_at tr (i + j) = Some (flatten i t ! j)" and "feats_ok t"
  shows "represents tr i t"
  using assms
proof (induction t arbitrary: i)
  case (Leaf l)
  from Leaf.prems(1)[of 0] show ?case by simp
next
  case (Split f v l r)
  have root: "node_at tr i = Some (flatten i (Split f v l r) ! 0)"
    using Split.prems(1)[of 0] by simp
  have "represents tr (i + 1) l"
  proof (rule Split.IH(1))
    show "node_at tr (i + 1 + j) = Some (flatten (i + 1) l ! j)" if "j < node_count l" for j
      using Split.prems(1)[of "Suc j"] that by (simp add: nth_append)
  qed (use Split.prems(2) in simp)
  moreover have "represents tr (i + 1 + node_count l) r"
  proof (rule Split.IH(2))
    show "node_at tr (i + 1 + node_count l + j) = Some (flatten (i + 1 + node_count l) r ! j)"
      if "j < node_count r" for j
      using Split.prems(1)[of "Suc (node_count l + j)"] that
      by (simp add: nth_append add.assoc)
  qed (use Split.prems(2) in simp)
  ultimately show ?case using root Split.prems(2)
    by (simp add: nat_add_distrib add.assoc)
qed

lemma layout_represents:
  assumes "feats_ok t" and "node_count t \<le> MAX_DT_NODES"
  shows "represents (layout t) 0 t"
proof (rule flatten_represents[OF _ assms(1)])
  fix j assume "j < node_count t"
  moreover have "unat (of_nat (node_count t) :: u32) = node_count t"
    using assms(2) by (simp add: unat_of_nat take_bit_nat_eq_self)
  ultimately show "node_at (layout t) (0 + j) = Some (flatten 0 t ! j)"
    using assms(2) by (simp add: node_at_def layout_def nth_append)
qed

lemma predict_loop_total:
  assumes "length (nodes tr) = MAX_DT_NODES" and "length (features dp) = MAX_FEATURES"
  shows "\<exists>r. predict_loop k dp tr i = Some r
             \<and> (r = 0 \<or> (\<exists>j < unat (num_nodes tr). j < MAX_DT_NODES
                        \<and> is_leaf (nodes tr ! j) \<noteq> 0 \<and> r = node_label (nodes tr ! j)))"
proof (induction k arbitrary: i)
  case (Suc k)
  show ?case
  proof (cases "i \<ge> num_nodes tr \<or> i \<ge> of_nat MAX_DT_NODES")
    case False
    then have i: "unat i < unat (num_nodes tr)" "unat i < MAX_DT_NODES"
      by (auto simp: word_le_nat_alt)
    let ?n = "nodes tr ! unat i"
    have step: "nth_opt (nodes tr) (unat i) = Some ?n" using i assms(1) by simp
    show ?thesis
    proof (cases "is_leaf ?n \<noteq> 0 \<or> feature_idx ?n < 0 \<or> feature_idx ?n \<ge> int MAX_FEATURES")
      case True
      then show ?thesis using False i step by auto
    next
      case inner: False
      then have f: "nth_opt (features dp) (nat (feature_idx ?n))
                    = Some (features dp ! nat (feature_idx ?n))"
        using assms(2) by (intro nth_opt_Some) auto
      show ?thesis
        using Suc[of "word_of_int (left_idx ?n)"] Suc[of "word_of_int (right_idx ?n)"]
          False inner step f by simp
    qed
  qed simp
qed simp

lemma predict_dt_total:
  assumes "\<And>tr. tree = Some tr \<Longrightarrow> length (nodes tr) = MAX_DT_NODES"
    and "length (features dp) = MAX_FEATURES"
  shows "\<exists>r. predict_dt dp tree = Some r"
proof (cases tree)
  case (Some tr)
  then show ?thesis
    using predict_loop_total[OF assms(1)[OF Some] assms(2), of MAX_DT_DEPTH 0]
    by (cases "num_nodes tr = 0") (auto simp: predict_dt_def)
qed (simp add: predict_dt_def)

subsection \<open>Properties\<close>

text \<open>C3: when the node array lays out an abstract tree at index 0, \<open>predict_dt\<close> returns the
  abstract classification of the features if the leaf is reached within \<open>MAX_DT_DEPTH\<close> node
  visits, and Normal (0) otherwise.\<close>

theorem predict_dt_refines:
  assumes "represents tr 0 t" and "length (features dp) = MAX_FEATURES"
  shows "predict_dt dp (Some tr) =
         Some (if path_len t (features dp) < MAX_DT_DEPTH then classify t (features dp) else 0)"
proof -
  have "num_nodes tr \<noteq> 0"
    using assms(1) by (cases t) (auto simp: node_at_def split: option.splits if_splits)
  then show ?thesis
    using represents_predict[OF assms, of MAX_DT_DEPTH] by (simp add: predict_dt_def)
qed

theorem predict_dt_refines_witness:
  "predict_dt (data_point.make 0 0 0 1 60 60 60 [0, 65536, 0, 0, 0, 0] 0)
     (Some (layout (Split 1 131072 (Leaf 0) (Leaf 1)))) = Some 0"
proof -
  let ?t = "Split 1 131072 (Leaf 0) (Leaf 1)"
  have "represents (layout ?t) 0 ?t" by (rule layout_represents) simp_all
  then show ?thesis
    by (subst predict_dt_refines[where t = ?t]) (simp_all add: data_point.defs)
qed



text \<open>C10: inference is total and memory safe on an arbitrary, even malformed or cyclic, node
  array: it never reads outside the array or the feature vector, and its result is Normal (0)
  or the label of a leaf among the first \<open>num_nodes\<close> nodes.\<close>

theorem predict_dt_safe:
  assumes "\<And>tr. tree = Some tr \<Longrightarrow> length (nodes tr) = MAX_DT_NODES"
    and "length (features dp) = MAX_FEATURES"
  shows "\<exists>r. predict_dt dp tree = Some r
             \<and> (r = 0 \<or> (\<exists>tr. tree = Some tr \<and> (\<exists>j < unat (num_nodes tr).
                  is_leaf (nodes tr ! j) \<noteq> 0 \<and> r = node_label (nodes tr ! j))))"
proof (cases tree)
  case (Some tr)
  then show ?thesis
    using predict_loop_total[OF assms(1) assms(2), of tr MAX_DT_DEPTH 0]
    by (auto simp: predict_dt_def)
qed (simp add: predict_dt_def)

theorem predict_dt_safe_witness:
  "\<exists>r. predict_dt (data_point.make 0 0 0 1 60 60 60 (replicate 6 0) 0)
        (Some \<lparr>nodes = replicate 5000 dt_pad, num_nodes = 3, min_vals = [], max_vals = []\<rparr>) = Some r"
  using predict_dt_safe[of "Some \<lparr>nodes = replicate 5000 dt_pad, num_nodes = 3, min_vals = [],
      max_vals = []\<rparr>" "data_point.make 0 0 0 1 60 60 60 (replicate 6 0) 0"]
  by (auto simp: data_point.defs)



end
