(* ===== verification/Bpf_Maps.thy ===== *)
theory Bpf_Maps
  imports Xdp_Prelude
begin

text \<open>
  The BPF map helpers are kernel code: a program reaches a map only through
  \<open>bpf_map_lookup_elem\<close> (a pointer into the map, or \<open>NULL\<close>), writes through that pointer, and
  \<open>bpf_map_update_elem\<close> with \<open>BPF_ANY\<close> (zero or a negative error).  These three operations are
  a parameter, a record of functions over an unspecified map state.  What the helper documentation
  in \<open>lib/libbpf/include/uapi/linux/bpf.h\<close> promises of them is the locale \<open>bpf_map\<close>; the locale
  \<open>bpf_hash_map\<close> adds the capacity given by \<open>max_entries\<close>.  Two concrete maps satisfy these
  laws: a bounded association list for \<open>BPF_MAP_TYPE_HASH\<close> and a fixed array for
  \<open>BPF_MAP_TYPE_ARRAY\<close>.
\<close>

record ('m, 'k, 'v) bpf_map_ops =
  map_lookup :: "'m \<Rightarrow> 'k \<Rightarrow> 'v option"
  map_poke :: "'m \<Rightarrow> 'k \<Rightarrow> 'v \<Rightarrow> 'm"
  map_update :: "'m \<Rightarrow> 'k \<Rightarrow> 'v \<Rightarrow> int \<times> 'm"

locale bpf_map =
  fixes ops :: "('m, 'k, 'v) bpf_map_ops"
  assumes lookup_poke: "map_lookup ops m k = Some v0 \<Longrightarrow>
      map_lookup ops (map_poke ops m k v) = (map_lookup ops m)(k \<mapsto> v)"
    and update_ok: "map_update ops m k v = (0, m') \<Longrightarrow>
      map_lookup ops m' = (map_lookup ops m)(k \<mapsto> v)"
    and update_err: "map_update ops m k v = (e, m') \<Longrightarrow> e \<noteq> 0 \<Longrightarrow>
      map_lookup ops m' = map_lookup ops m"
begin

text \<open>An update leaves every other key alone, whether it succeeds or not.\<close>

lemma update_frame: "map_update ops m k v = (e, m') \<Longrightarrow> k' \<noteq> k \<Longrightarrow>
    map_lookup ops m' k' = map_lookup ops m k'"
  by (cases "e = 0") (auto dest: update_ok update_err)

lemma update_values: "map_update ops m k v = (e, m') \<Longrightarrow> map_lookup ops m' k' = Some w \<Longrightarrow>
    map_lookup ops m k' = Some w \<or> (k' = k \<and> w = v)"
  by (cases "e = 0") (auto dest: update_ok update_err split: if_splits)

text \<open>
  Writing through the pointer and then updating the key with the same value stores the value,
  even if the update fails.
\<close>

lemma poke_update: "map_lookup ops m k = Some v0 \<Longrightarrow>
    map_update ops (map_poke ops m k v) k v = (e, m') \<Longrightarrow>
    map_lookup ops m' = (map_lookup ops m)(k \<mapsto> v)"
  by (cases "e = 0") (auto dest!: update_ok update_err simp: lookup_poke)

end

locale bpf_hash_map = bpf_map +
  fixes max_entries :: nat
  assumes finite_dom: "finite (dom (map_lookup ops m))"
    and update_present: "map_lookup ops m k = Some v0 \<Longrightarrow> fst (map_update ops m k v) = 0"
    and update_room: "card (dom (map_lookup ops m)) < max_entries \<Longrightarrow>
      fst (map_update ops m k v) = 0"
    and update_full: "max_entries \<le> card (dom (map_lookup ops m)) \<Longrightarrow>
      map_lookup ops m k = None \<Longrightarrow> fst (map_update ops m k v) \<noteq> 0"
begin

lemma update_new_iff: "map_lookup ops m k = None \<Longrightarrow>
    fst (map_update ops m k v) = 0 \<longleftrightarrow> card (dom (map_lookup ops m)) < max_entries"
  using update_full[of m k v] update_room[of m k v] by linarith

lemma update_capacity:
  assumes "card (dom (map_lookup ops m)) \<le> max_entries" and "map_update ops m k v = (e, m')"
  shows "card (dom (map_lookup ops m')) \<le> max_entries"
proof (cases "e = 0")
  case True
  with assms(2) have m': "dom (map_lookup ops m') = insert k (dom (map_lookup ops m))"
    by (auto dest: update_ok)
  show ?thesis
  proof (cases "map_lookup ops m k")
    case None
    then have "card (dom (map_lookup ops m)) < max_entries"
      using update_new_iff[OF None, of v] assms(2) True by simp
    then show ?thesis using m' finite_dom[of m] None by (simp add: card_insert_if domIff)
  next
    case (Some w)
    then show ?thesis using m' assms(1) by (simp add: insert_absorb domI)
  qed
qed (use assms in \<open>auto dest: update_err\<close>)

lemma poke_dom: "map_lookup ops m k = Some v0 \<Longrightarrow>
    dom (map_lookup ops (map_poke ops m k v)) = dom (map_lookup ops m)"
  by (auto simp: lookup_poke)

end

subsection \<open>A bounded hash map\<close>

definition kh_size :: "('k \<times> 'v) list \<Rightarrow> nat" where
  "kh_size m = length (remdups (map fst m))"

definition kh_put :: "('k \<times> 'v) list \<Rightarrow> 'k \<Rightarrow> 'v \<Rightarrow> ('k \<times> 'v) list" where
  "kh_put m k v = (k, v) # filter (\<lambda>(k', _). k' \<noteq> k) m"

definition kh_ops :: "nat \<Rightarrow> (('k \<times> 'v) list, 'k, 'v) bpf_map_ops" where
  "kh_ops cap =
     \<lparr>map_lookup = map_of,
      map_poke = kh_put,
      map_update = (\<lambda>m k v. if map_of m k \<noteq> None \<or> kh_size m < cap then (0, kh_put m k v)
                            else (-7, m))\<rparr>"

lemma map_of_kh_put: "map_of (kh_put m k v) = (map_of m)(k \<mapsto> v)"
proof
  fix x
  have "x \<noteq> k \<Longrightarrow> map_of (filter (\<lambda>(k', _). k' \<noteq> k) m) x = map_of m x"
    by (induction m) auto
  then show "map_of (kh_put m k v) x = ((map_of m)(k \<mapsto> v)) x"
    by (simp add: kh_put_def)
qed

lemma kh_size_card: "kh_size m = card (dom (map_of m))"
  by (simp add: kh_size_def dom_map_of_conv_image_fst length_remdups_card_conv)

interpretation kh: bpf_hash_map "kh_ops cap" cap for cap :: nat
  by unfold_locales
    (auto simp: kh_ops_def map_of_kh_put kh_size_card finite_dom_map_of split: if_splits)

subsection \<open>A fixed array\<close>

definition ka_ops :: "('v list, u32, 'v) bpf_map_ops" where
  "ka_ops =
     \<lparr>map_lookup = (\<lambda>m k. if unat k < length m then Some (m ! unat k) else None),
      map_poke = (\<lambda>m k v. m[unat k := v]),
      map_update = (\<lambda>m k v. if unat k < length m then (0, m[unat k := v]) else (-7, m))\<rparr>"

interpretation ka: bpf_map ka_ops
  by unfold_locales (auto simp: ka_ops_def fun_eq_iff nth_list_update word_unat_eq_iff split: if_splits)

end
