(* ===== verification/Xdp_Prog.thy ===== *)
theory Xdp_Prog
  imports Decision_Tree Bpf_Maps
begin

text \<open>
  The kernel program \<open>xdp_prog/xdp_prog_kern.c\<close>: packet parsing into a flow key, per-flow
  statistics with classification, and the XDP entry point.  The three maps are reached through
  the operations of \<open>Bpf_Maps\<close>; the readings of \<open>bpf_ktime_get_ns\<close> are arguments, one per call
  (\<open>ts_ns\<close> in \<open>update_stats\<close>, \<open>time_out\<close> in the accounting).  \<^const>\<open>None\<close> is an access
  outside the packet or an array.
\<close>

subsection \<open>Packet parsing\<close>

abbreviation (input) IPPROTO_ICMP :: u8 where "IPPROTO_ICMP \<equiv> 1"
abbreviation (input) IPPROTO_TCP :: u8 where "IPPROTO_TCP \<equiv> 6"
abbreviation (input) IPPROTO_UDP :: u8 where "IPPROTO_UDP \<equiv> 17"
abbreviation (input) ETH_P_IP :: u16 where "ETH_P_IP \<equiv> 0x0800"
abbreviation (input) ETH_P_LLDP :: u16 where "ETH_P_LLDP \<equiv> 0x88cc"

text \<open>
  Offsets into the packet: the Ethernet header has 14 bytes with \<open>h_proto\<close> at 12, the IPv4 header
  starts at 14 (\<open>ihl\<close> in the low nibble of its first byte, \<open>protocol\<close> at 9, \<open>saddr\<close> at 12,
  \<open>daddr\<close> at 16) and has 20 bytes without options; the ICMP, TCP and UDP headers have 8, 20 and
  8 bytes.  The transport header starts \<open>ihl * 4\<close> bytes after the IPv4 header starts.
\<close>

definition parse_packet_get_data ::
  "packet \<Rightarrow> flow_key \<Rightarrow> u64 \<Rightarrow> (int \<times> flow_key \<times> u64) option" where
  "parse_packet_get_data p key pkt_len =
     (let data_end = length p in
      if 14 > data_end then Some (-1, key, pkt_len)
      else do {
        h_proto \<leftarrow> load16 p 12;
        if h_proto = bpf_htons ETH_P_LLDP then Some (-2, key, pkt_len)
        else if h_proto \<noteq> bpf_htons ETH_P_IP then Some (-1, key, pkt_len)
        else if 14 + 20 > data_end then Some (-1, key, pkt_len)
        else do {
          saddr \<leftarrow> load32 p (14 + 12);
          daddr \<leftarrow> load32 p (14 + 16);
          protocol \<leftarrow> load8 p (14 + 9);
          vihl \<leftarrow> load8 p 14;
          let l4 = 14 + unat (vihl AND 0x0F) * 4;
          let key = key\<lparr>src_ip := saddr, dst_ip := daddr, proto := protocol\<rparr>;
          special \<leftarrow> (if protocol = IPPROTO_ICMP
             then (if l4 + 8 > data_end then Some (Some (-1))
                   else do {
                     icmp_type \<leftarrow> load8 p l4;
                     let src = bpf_ntohl saddr;
                     let dst = bpf_ntohl daddr;
                     if (src = 0xC0A83203 \<and> dst = 0xC0A83204 \<and> icmp_type = 8)
                        \<or> (src = 0xC0A83204 \<and> dst = 0xC0A83203 \<and> icmp_type = 0)
                     then Some (Some 1) else Some None
                   })
             else Some None);
          case special of
            Some ret \<Rightarrow> Some (ret, key, pkt_len)
          | None \<Rightarrow> do {
              ports \<leftarrow> (if protocol = IPPROTO_TCP
                 then (if l4 + 20 > data_end then Some None
                       else do { s \<leftarrow> load16 p l4; d \<leftarrow> load16 p (l4 + 2); Some (Some (s, d)) })
                 else if protocol = IPPROTO_UDP
                 then (if l4 + 8 > data_end then Some None
                       else do { s \<leftarrow> load16 p l4; d \<leftarrow> load16 p (l4 + 2); Some (Some (s, d)) })
                 else Some (Some (0, 0)));
              case ports of
                None \<Rightarrow> Some (-1, key, pkt_len)
              | Some (s, d) \<Rightarrow>
                  Some (0, key\<lparr>src_port := bpf_ntohs s, dst_port := bpf_ntohs d\<rparr>, of_nat data_end)
            }
        }
      })"

subsection \<open>Flow statistics\<close>

definition init_flow :: "u64 \<Rightarrow> u64 \<Rightarrow> data_point" where
  "init_flow ts_ns pkt_len =
     \<lparr>start_ts = ts_ns, last_seen = ts_ns, min_IAT = 0xFFFFFFFFFFFFFFFF, total_pkts = 1,
      max_pkt_len = ucast pkt_len, min_pkt_len = ucast pkt_len, total_bytes = ucast pkt_len,
      features = replicate MAX_FEATURES 0, label = 0\<rparr>"

definition account_packet :: "u64 \<Rightarrow> u64 \<Rightarrow> data_point \<Rightarrow> data_point" where
  "account_packet ts_ns pkt_len dp =
     (let iat_ns = (if last_seen dp > 0 \<and> ts_ns \<ge> last_seen dp then ts_ns - last_seen dp else 0);
          dp = dp\<lparr>total_pkts := total_pkts dp + 1\<rparr>;
          dp = dp\<lparr>total_bytes := total_bytes dp + ucast pkt_len\<rparr>;
          dp = (if iat_ns > 0 \<and> iat_ns < min_IAT dp then dp\<lparr>min_IAT := iat_ns\<rparr> else dp);
          dp = (if pkt_len > ucast (max_pkt_len dp) then dp\<lparr>max_pkt_len := ucast pkt_len\<rparr> else dp);
          dp = (if pkt_len < ucast (min_pkt_len dp) then dp\<lparr>min_pkt_len := ucast pkt_len\<rparr> else dp)
      in dp)"

definition compute_features :: "data_point \<Rightarrow> data_point" where
  "compute_features dp =
     (let duration_us = (last_seen dp - start_ts dp) div 1000;
          iat_us = (if min_IAT dp \<noteq> 0xFFFFFFFFFFFFFFFF then min_IAT dp div 1000 else 0);
          fs = (features dp)
            [FEATURE_FLOW_DURATION := fixed_from_uint duration_us,
             FEATURE_TOTAL_FWD_PACKET := fixed_from_uint (ucast (total_pkts dp)),
             FEATURE_TOTAL_LENGTH_OF_FWD_PACKET := fixed_from_uint (ucast (total_bytes dp)),
             FEATURE_FWD_PACKET_LENGTH_MAX := fixed_from_uint (ucast (max_pkt_len dp)),
             FEATURE_FWD_PACKET_LENGTH_MIN := fixed_from_uint (ucast (min_pkt_len dp)),
             FEATURE_FWD_IAT_MIN := fixed_from_uint iat_us]
      in dp\<lparr>features := fs\<rparr>)"

record ('f, 'd, 'a) xdp_maps =
  xdp_flow_tracking :: 'f
  dt_map :: 'd
  accounting_map :: 'a

type_synonym 'f flow_ops = "('f, flow_key, data_point) bpf_map_ops"
type_synonym 'd dt_ops = "('d, u32, dt_tree) bpf_map_ops"
type_synonym 'a ac_ops = "('a, u32, accounting) bpf_map_ops"

definition update_stats ::
  "'f flow_ops \<Rightarrow> 'd dt_ops \<Rightarrow> flow_key \<Rightarrow> packet \<Rightarrow> u64 \<Rightarrow> ('f, 'd, 'a) xdp_maps
   \<Rightarrow> (xdp_action \<times> ('f, 'd, 'a) xdp_maps) option" where
  "update_stats fops dops key p ts_ns st =
     (let pkt_len = of_nat (length p);
          m0 = xdp_flow_tracking st;
          acquired =
            (case map_lookup fops m0 key of
               Some dp \<Rightarrow> Inr (m0, dp, False)
             | None \<Rightarrow>
                 (let (err, m1) = map_update fops m0 key (init_flow ts_ns pkt_len)
                  in if err \<noteq> 0 then Inl m1
                     else case map_lookup fops m1 key of
                            None \<Rightarrow> Inl m1
                          | Some dp \<Rightarrow> Inr (m1, dp, True)))
      in case acquired of
           Inl m \<Rightarrow> Some (XDP_PASS, st\<lparr>xdp_flow_tracking := m\<rparr>)
         | Inr (m, dp, is_new_flow) \<Rightarrow> do {
             let dp = (if \<not> is_new_flow then account_packet ts_ns pkt_len dp else dp);
             let dp = dp\<lparr>last_seen := ts_ns\<rparr>;
             let dp = compute_features dp;
             lab \<leftarrow> (case map_lookup dops (dt_map st) 0 of
                Some dt \<Rightarrow> predict_dt dp (Some dt)
              | None \<Rightarrow> Some 0);
             let dp = dp\<lparr>label := lab\<rparr>;
             let m = map_poke fops m key dp;
             let (err, m) = map_update fops m key dp;
             Some (XDP_PASS, st\<lparr>xdp_flow_tracking := m\<rparr>)
           })"

subsection \<open>XDP entry\<close>

definition update_accounting ::
  "'a ac_ops \<Rightarrow> u64 \<Rightarrow> u64 \<Rightarrow> ('f, 'd, 'a) xdp_maps \<Rightarrow> ('f, 'd, 'a) xdp_maps" where
  "update_accounting aops pkt_len time_out st =
     (case map_lookup aops (accounting_map st) 0 of
        None \<Rightarrow> st
      | Some ac \<Rightarrow>
          (let ac = ac\<lparr>proc_time := proc_time ac + (time_out - time_in ac)\<rparr>;
               ac = ac\<lparr>ac_total_bytes := ac_total_bytes ac + ucast pkt_len\<rparr>;
               ac = ac\<lparr>ac_total_pkts := ac_total_pkts ac + 1\<rparr>;
               m = map_poke aops (accounting_map st) 0 ac
           in st\<lparr>accounting_map := snd (map_update aops m 0 ac)\<rparr>))"

definition zero_key :: flow_key where
  "zero_key = \<lparr>src_ip = 0, src_port = 0, dst_ip = 0, dst_port = 0, proto = 0\<rparr>"

definition xdp_anomaly_detector ::
  "'f flow_ops \<Rightarrow> 'd dt_ops \<Rightarrow> 'a ac_ops \<Rightarrow> packet \<Rightarrow> u64 \<Rightarrow> u64 \<Rightarrow> ('f, 'd, 'a) xdp_maps
   \<Rightarrow> (xdp_action \<times> ('f, 'd, 'a) xdp_maps) option" where
  "xdp_anomaly_detector fops dops aops p ts_ns time_out st = do {
     (ret, key, pkt_len) \<leftarrow> parse_packet_get_data p zero_key 0;
     if ret = -2 then Some (XDP_DROP, st)
     else if ret < 0 then Some (XDP_PASS, st)
     else do {
       (verdict, st) \<leftarrow> update_stats fops dops key p ts_ns st;
       Some (verdict, update_accounting aops pkt_len time_out st)
     }
   }"

subsection \<open>Parsing: lemmas\<close>

definition is_lldp :: "packet \<Rightarrow> bool" where
  "is_lldp p \<longleftrightarrow> 14 \<le> length p \<and> p ! 12 = 0x88 \<and> p ! 13 = 0xcc"

lemma lldp_load: "14 \<le> length p \<Longrightarrow>
    load16 p 12 = Some (bpf_htons ETH_P_LLDP) \<longleftrightarrow> p ! 12 = 0x88 \<and> p ! 13 = 0xcc"
proof -
  assume "14 \<le> length p"
  moreover have "bpf_htons ETH_P_LLDP = word16_le 0x88 0xcc"
    by (simp add: bpf_htons_def word16_le_def)
  ultimately show ?thesis by (simp add: load16_Some word16_le_inject)
qed

lemma ip_load: "14 \<le> length p \<Longrightarrow>
    load16 p 12 = Some (bpf_htons ETH_P_IP) \<longleftrightarrow> p ! 12 = 0x08 \<and> p ! 13 = 0"
proof -
  assume "14 \<le> length p"
  moreover have "bpf_htons ETH_P_IP = word16_le 0x08 0"
    by (simp add: bpf_htons_def word16_le_def)
  ultimately show ?thesis by (simp add: load16_Some word16_le_inject)
qed

lemma eth_proto_distinct: "bpf_htons ETH_P_IP \<noteq> bpf_htons ETH_P_LLDP"
  by (simp add: bpf_htons_def)

definition is_ipv4 :: "packet \<Rightarrow> bool" where
  "is_ipv4 p \<longleftrightarrow> 34 \<le> length p \<and> p ! 12 = 0x08 \<and> p ! 13 = 0"

definition l4_offset :: "packet \<Rightarrow> nat" where
  "l4_offset p = 14 + unat (p ! 14 AND 0x0F) * 4"

definition addr_key :: "packet \<Rightarrow> flow_key \<Rightarrow> flow_key" where
  "addr_key p key =
     key\<lparr>src_ip := word32_le (p ! 26) (p ! 27) (p ! 28) (p ! 29),
         dst_ip := word32_le (p ! 30) (p ! 31) (p ! 32) (p ! 33), proto := p ! 23\<rparr>"

text \<open>The two echo directions between 192.168.50.3 and 192.168.50.4.\<close>

definition lab_echo :: "packet \<Rightarrow> bool" where
  "lab_echo p \<longleftrightarrow>
     (let src = bpf_ntohl (word32_le (p ! 26) (p ! 27) (p ! 28) (p ! 29));
          dst = bpf_ntohl (word32_le (p ! 30) (p ! 31) (p ! 32) (p ! 33));
          t = p ! l4_offset p
      in (src = 0xC0A83203 \<and> dst = 0xC0A83204 \<and> t = 8)
         \<or> (src = 0xC0A83204 \<and> dst = 0xC0A83203 \<and> t = 0))"

definition l4_ports :: "packet \<Rightarrow> flow_key \<Rightarrow> flow_key" where
  "l4_ports p key =
     key\<lparr>src_port := word16_le (p ! (l4_offset p + 1)) (p ! l4_offset p),
         dst_port := word16_le (p ! (l4_offset p + 3)) (p ! (l4_offset p + 2))\<rparr>"

text \<open>What the parser computes on an IPv4 packet, one line per protocol.\<close>

lemma parse_packet_ipv4:
  assumes "is_ipv4 p"
  shows "parse_packet_get_data p key len =
    (if p ! 23 = IPPROTO_ICMP then
       (if length p < l4_offset p + 8 then Some (-1, addr_key p key, len)
        else if lab_echo p then Some (1, addr_key p key, len)
        else Some (0, (addr_key p key)\<lparr>src_port := 0, dst_port := 0\<rparr>, of_nat (length p)))
     else if p ! 23 = IPPROTO_TCP then
       (if length p < l4_offset p + 20 then Some (-1, addr_key p key, len)
        else Some (0, l4_ports p (addr_key p key), of_nat (length p)))
     else if p ! 23 = IPPROTO_UDP then
       (if length p < l4_offset p + 8 then Some (-1, addr_key p key, len)
        else Some (0, l4_ports p (addr_key p key), of_nat (length p)))
     else Some (0, (addr_key p key)\<lparr>src_port := 0, dst_port := 0\<rparr>, of_nat (length p)))"
proof -
  from assms have len: "34 \<le> length p" and ip: "load16 p 12 = Some (bpf_htons ETH_P_IP)"
    by (auto simp: is_ipv4_def ip_load)
  have z: "bpf_ntohs 0 = 0" by (simp add: bpf_ntohs_def)
  show ?thesis
    using len
    by (simp add: parse_packet_get_data_def ip eth_proto_distinct wire_simps Let_def
        l4_offset_def[symmetric] addr_key_def lab_echo_def l4_ports_def z bpf_ntohs_word16_le numeral_3_eq_3)
qed

lemma parse_packet_not_ipv4:
  assumes "\<not> is_ipv4 p"
  shows "parse_packet_get_data p key len = Some (if is_lldp p then -2 else -1, key, len)"
proof (cases "14 \<le> length p")
  case False
  then show ?thesis by (simp add: parse_packet_get_data_def is_lldp_def)
next
  case True
  then obtain h where h: "load16 p 12 = Some h" by (simp add: load16_Some)
  then show ?thesis
    using True lldp_load[OF True] ip_load[OF True] assms
    by (auto simp: parse_packet_get_data_def is_lldp_def is_ipv4_def)
qed

lemma lldp_not_ipv4: "is_lldp p \<Longrightarrow> \<not> is_ipv4 p"
  by (simp add: is_lldp_def is_ipv4_def)

lemma parse_packet_total:
  "\<exists>ret key' len'. parse_packet_get_data p key len = Some (ret, key', len')
     \<and> ret \<in> {-2, -1, 0, 1} \<and> (ret = -2 \<longleftrightarrow> is_lldp p) \<and> (0 \<le> ret \<longrightarrow> is_ipv4 p)"
proof (cases "is_ipv4 p")
  case True
  then have "\<not> is_lldp p" using lldp_not_ipv4 by blast
  with True show ?thesis by (auto simp: parse_packet_ipv4)
qed (simp add: parse_packet_not_ipv4)

subsection \<open>Flow statistics: lemmas\<close>

text \<open>
  The feature vector that belongs to a record's counters, and the invariant of a flow record:
  its features are that vector, the minimum length does not exceed the maximum, and the
  minimum inter-arrival time is positive (its initial value is the largest 64-bit number).
\<close>

definition feature_vector :: "data_point \<Rightarrow> fixed list" where
  "feature_vector dp =
    [fixed_from_uint ((last_seen dp - start_ts dp) div 1000),
     fixed_from_uint (ucast (total_pkts dp)), fixed_from_uint (ucast (total_bytes dp)),
     fixed_from_uint (ucast (max_pkt_len dp)), fixed_from_uint (ucast (min_pkt_len dp)),
     fixed_from_uint (if min_IAT dp \<noteq> 0xFFFFFFFFFFFFFFFF then min_IAT dp div 1000 else 0)]"

definition counters_ok :: "data_point \<Rightarrow> bool" where
  "counters_ok dp \<longleftrightarrow> length (features dp) = MAX_FEATURES \<and> min_pkt_len dp \<le> max_pkt_len dp
     \<and> min_IAT dp > 0"

definition flow_ok :: "data_point \<Rightarrow> bool" where
  "flow_ok dp \<longleftrightarrow> counters_ok dp \<and> features dp = feature_vector dp"

lemma list6:
  "length fs = 6 \<Longrightarrow> fs[0 := a, Suc 0 := b, 2 := c, 3 := d, 4 := e, 5 := f] = [a, b, c, d, e, f]"
  by (auto simp: numeral_eq_Suc length_Suc_conv)

lemma compute_features_eq:
  assumes "length (features dp) = MAX_FEATURES"
  shows "features (compute_features dp) = feature_vector dp"
  using assms by (simp add: compute_features_def feature_vector_def Let_def list6)

lemma compute_features_simps [simp]:
  "length (features (compute_features dp)) = length (features dp)"
  "start_ts (compute_features dp) = start_ts dp" "last_seen (compute_features dp) = last_seen dp"
  "min_IAT (compute_features dp) = min_IAT dp" "total_pkts (compute_features dp) = total_pkts dp"
  "max_pkt_len (compute_features dp) = max_pkt_len dp"
  "min_pkt_len (compute_features dp) = min_pkt_len dp"
  "total_bytes (compute_features dp) = total_bytes dp" "label (compute_features dp) = label dp"
  by (simp_all add: compute_features_def Let_def)

lemma account_packet_simps [simp]:
  "total_pkts (account_packet ts l dp) = total_pkts dp + 1"
  "total_bytes (account_packet ts l dp) = total_bytes dp + ucast l"
  "start_ts (account_packet ts l dp) = start_ts dp"
  "features (account_packet ts l dp) = features dp"
  "label (account_packet ts l dp) = label dp"
  "last_seen (account_packet ts l dp) = last_seen dp"
  by (simp_all add: account_packet_def Let_def)

lemma account_packet_lens:
  "max_pkt_len (account_packet ts l dp) =
     (if l > ucast (max_pkt_len dp) then ucast l else max_pkt_len dp)"
  "min_pkt_len (account_packet ts l dp) =
     (if l < ucast (min_pkt_len dp) then ucast l else min_pkt_len dp)"
  by (simp_all add: account_packet_def Let_def)

lemma account_packet_iat:
  "min_IAT (account_packet ts l dp) =
     (if last_seen dp > 0 \<and> ts > last_seen dp \<and> ts - last_seen dp < min_IAT dp
      then ts - last_seen dp else min_IAT dp)"
proof -
  have "last_seen dp \<le> ts \<Longrightarrow> 0 < ts - last_seen dp \<longleftrightarrow> last_seen dp < ts"
    by (auto simp: word_gt_0)
  then show ?thesis by (auto simp: account_packet_def Let_def)
qed

text \<open>Packet lengths that fit 32 bits, as every frame length does.\<close>

lemma ucast_len: "unat (l :: u64) < 2 ^ 32 \<Longrightarrow> unat (ucast l :: u32) = unat l"
  by (simp add: unsigned_ucast_eq take_bit_nat_eq_self)

lemma counters_ok_init: "counters_ok (init_flow ts l)"
  by (simp add: counters_ok_def init_flow_def)

lemma counters_ok_account:
  assumes "counters_ok dp" and "unat l < 2 ^ 32"
  shows "counters_ok (account_packet ts l dp)"
proof -
  have "min_pkt_len (account_packet ts l dp) \<le> max_pkt_len (account_packet ts l dp)"
    using assms by (auto simp: counters_ok_def account_packet_lens word_le_nat_alt word_less_nat_alt
        ucast_len unat_ucast_up)
  moreover have "min_IAT (account_packet ts l dp) > 0"
    using assms(1) by (auto simp: counters_ok_def account_packet_iat word_gt_0)
  ultimately show ?thesis using assms(1) by (simp add: counters_ok_def)
qed

lemma length_feature_vector [simp]: "length (feature_vector dp) = MAX_FEATURES"
  by (simp add: feature_vector_def)

lemma feature_vector_label [simp]: "feature_vector (dp\<lparr>label := x\<rparr>) = feature_vector dp"
  by (simp add: feature_vector_def)

lemma feature_vector_compute [simp]: "feature_vector (compute_features dp) = feature_vector dp"
  by (simp add: feature_vector_def)

text \<open>The record a packet leaves behind, given the tree that classifies it.\<close>

definition flow_after :: "dt_tree option \<Rightarrow> u64 \<Rightarrow> u64 \<Rightarrow> data_point option \<Rightarrow> data_point option" where
  "flow_after tree ts l old = do {
     let dp = (case old of None \<Rightarrow> init_flow ts l | Some dp \<Rightarrow> account_packet ts l dp);
     let dp = compute_features (dp\<lparr>last_seen := ts\<rparr>);
     lab \<leftarrow> predict_dt dp tree;
     Some (dp\<lparr>label := lab\<rparr>)
   }"

definition trees_ok :: "'d dt_ops \<Rightarrow> 'd \<Rightarrow> bool" where
  "trees_ok dops m \<longleftrightarrow> (case map_lookup dops m 0 of None \<Rightarrow> True
     | Some tr \<Rightarrow> length (nodes tr) = MAX_DT_NODES)"

lemma flow_after_total:
  assumes "\<And>tr. tree = Some tr \<Longrightarrow> length (nodes tr) = MAX_DT_NODES"
    and "\<And>dp. old = Some dp \<Longrightarrow> flow_ok dp" and "unat l < 2 ^ 32"
  shows "\<exists>dp. flow_after tree ts l old = Some dp \<and> flow_ok dp"
proof -
  let ?d = "case old of None \<Rightarrow> init_flow ts l | Some dp \<Rightarrow> account_packet ts l dp"
  let ?dp = "compute_features (?d\<lparr>last_seen := ts\<rparr>)"
  have ok: "counters_ok ?d"
    using assms(2,3)
    by (auto simp: counters_ok_init counters_ok_account flow_ok_def split: option.split)
  then have len: "length (features ?dp) = MAX_FEATURES" by (simp add: counters_ok_def)
  obtain r where r: "predict_dt ?dp tree = Some r"
    using predict_dt_total[OF assms(1) len] by blast
  have "features ?dp = feature_vector ?dp"
    using ok by (simp add: compute_features_eq counters_ok_def)
  then have "flow_ok (?dp\<lparr>label := r\<rparr>)" using ok by (simp add: flow_ok_def counters_ok_def)
  then show ?thesis by (simp add: flow_after_def r Let_def)
qed

end
