(* ===== verification/Flow_Table.thy ===== *)
theory Flow_Table
  imports Xdp_Prog
begin

text \<open>
  The flow table as a client of the BPF map interface, one packet at a time and over a whole
  sequence of packets.  The locale \<open>flow_table\<close> holds the kernel program's lemmas that need only
  the laws of \<open>bpf_map\<close>; \<open>flow_table_bounded\<close> adds the capacity.  Both are interpreted on the
  bounded hash map of \<open>Bpf_Maps\<close> with \<open>MAX_FLOW_SAVED\<close> entries.
\<close>

subsection \<open>Sequences of packets\<close>

text \<open>An event is a received frame with the two clock readings of its processing.\<close>

type_synonym event = "packet \<times> u64 \<times> u64"

fun run_detector ::
  "'f flow_ops \<Rightarrow> 'd dt_ops \<Rightarrow> 'a ac_ops \<Rightarrow> event list \<Rightarrow> ('f, 'd, 'a) xdp_maps
   \<Rightarrow> ('f, 'd, 'a) xdp_maps option" where
  "run_detector fops dops aops [] st = Some st"
| "run_detector fops dops aops ((p, ts, time_out) # es) st = do {
     (_, st) \<leftarrow> xdp_anomaly_detector fops dops aops p ts time_out st;
     run_detector fops dops aops es st
   }"

text \<open>The flow key of a frame, \<^const>\<open>None\<close> when the program does not track it.\<close>

definition key_of :: "packet \<Rightarrow> flow_key option" where
  "key_of p = (case parse_packet_get_data p zero_key 0 of
     Some (ret, key, _) \<Rightarrow> if 0 \<le> ret then Some key else None
   | None \<Rightarrow> None)"

definition flow_events :: "flow_key \<Rightarrow> event list \<Rightarrow> (u64 \<times> u64) list" where
  "flow_events k es =
     map (\<lambda>(p, ts, _). (ts, of_nat (length p))) (filter (\<lambda>(p, _). key_of p = Some k) es)"

fun run_flow :: "dt_tree option \<Rightarrow> (u64 \<times> u64) list \<Rightarrow> data_point option \<Rightarrow> data_point option option" where
  "run_flow tree [] old = Some old"
| "run_flow tree ((ts, l) # evs) old = do { dp \<leftarrow> flow_after tree ts l old; run_flow tree evs (Some dp) }"

definition frame_ok :: "packet \<Rightarrow> bool" where
  "frame_ok p \<longleftrightarrow> length p < 2 ^ 32"

subsection \<open>One packet\<close>

text \<open>
  Every record of the table satisfies the invariant, and the model map holds a full-size tree.
\<close>

definition table_ok :: "'f flow_ops \<Rightarrow> 'd dt_ops \<Rightarrow> ('f, 'd, 'a) xdp_maps \<Rightarrow> bool" where
  "table_ok fops dops st \<longleftrightarrow> trees_ok dops (dt_map st)
     \<and> (\<forall>k dp. map_lookup fops (xdp_flow_tracking st) k = Some dp \<longrightarrow> flow_ok dp)"

locale flow_table = bpf_map fops for fops :: "'f flow_ops"
begin

lemma classify_case:
  "(case t of Some dt \<Rightarrow> predict_dt dp (Some dt) | None \<Rightarrow> Some 0) = predict_dt dp t"
  by (cases t) (simp_all add: predict_dt_def)

lemma update_stats_stored:
  assumes "flow_after (map_lookup dops (dt_map st) 0) ts (of_nat (length p))
             (map_lookup fops (xdp_flow_tracking st) key) = Some dp'"
    and "map_lookup fops (xdp_flow_tracking st) key = None \<Longrightarrow>
         fst (map_update fops (xdp_flow_tracking st) key (init_flow ts (of_nat (length p)))) = 0"
  shows "\<exists>m'. update_stats fops dops key p ts st = Some (XDP_PASS, st\<lparr>xdp_flow_tracking := m'\<rparr>)
              \<and> map_lookup fops m' = (map_lookup fops (xdp_flow_tracking st))(key \<mapsto> dp')"
proof -
  let ?m = "xdp_flow_tracking st" and ?l = "of_nat (length p) :: u64"
  let ?tree = "map_lookup dops (dt_map st) 0"
  show ?thesis
  proof (cases "map_lookup fops ?m key")
    case (Some dp)
    let ?dp = "compute_features ((account_packet ts ?l dp)\<lparr>last_seen := ts\<rparr>)"
    from assms(1) Some obtain lab where lab: "predict_dt ?dp ?tree = Some lab"
      and dp': "dp' = ?dp\<lparr>label := lab\<rparr>"
      by (auto simp: flow_after_def bind_eq_Some_conv Let_def)
    obtain e m' where u: "map_update fops (map_poke fops ?m key dp') key dp' = (e, m')"
      by (meson prod.exhaust_sel)
    then have "map_lookup fops m' = (map_lookup fops ?m)(key \<mapsto> dp')"
      using poke_update[OF Some u] by simp
    then show ?thesis
      using Some lab u dp' by (intro exI[of _ m']) (simp add: update_stats_def classify_case Let_def)
  next
    case None
    let ?fresh = "init_flow ts ?l"
    let ?dp = "compute_features (?fresh\<lparr>last_seen := ts\<rparr>)"
    obtain m1 where u1: "map_update fops ?m key ?fresh = (0, m1)"
      using assms(2)[OF None] by (cases "map_update fops ?m key ?fresh") auto
    then have l1: "map_lookup fops m1 = (map_lookup fops ?m)(key \<mapsto> ?fresh)" by (rule update_ok)
    then have k1: "map_lookup fops m1 key = Some ?fresh" by simp
    from assms(1) None obtain lab where lab: "predict_dt ?dp ?tree = Some lab"
      and dp': "dp' = ?dp\<lparr>label := lab\<rparr>"
      by (auto simp: flow_after_def bind_eq_Some_conv Let_def)
    obtain e m' where u: "map_update fops (map_poke fops m1 key dp') key dp' = (e, m')"
      by (meson prod.exhaust_sel)
    then have "map_lookup fops m' = (map_lookup fops ?m)(key \<mapsto> dp')"
      using poke_update[OF k1 u] l1 by simp
    then show ?thesis
      using None lab u dp' u1 k1
      by (intro exI[of _ m']) (simp add: update_stats_def classify_case Let_def)
  qed
qed

lemma update_stats_refused:
  assumes "map_lookup fops (xdp_flow_tracking st) key = None"
    and "fst (map_update fops (xdp_flow_tracking st) key (init_flow ts (of_nat (length p)))) \<noteq> 0"
  shows "\<exists>m'. update_stats fops dops key p ts st = Some (XDP_PASS, st\<lparr>xdp_flow_tracking := m'\<rparr>)
              \<and> map_lookup fops m' = map_lookup fops (xdp_flow_tracking st)"
proof -
  obtain e m' where u: "map_update fops (xdp_flow_tracking st) key
      (init_flow ts (of_nat (length p))) = (e, m')" by (meson prod.exhaust_sel)
  with assms(2) have "e \<noteq> 0" by simp
  with u show ?thesis using assms(1) update_err[OF u]
    by (intro exI[of _ m']) (simp add: update_stats_def Let_def)
qed

end

subsection \<open>Verdict\<close>

lemma update_accounting_simps [simp]:
  "xdp_flow_tracking (update_accounting aops l t st) = xdp_flow_tracking st"
  "dt_map (update_accounting aops l t st) = dt_map st"
  by (simp_all add: update_accounting_def Let_def split: option.split)

context flow_table
begin

lemma flow_after_ok:
  assumes "table_ok fops dops st" and "frame_ok p"
  shows "\<exists>dp'. flow_after (map_lookup dops (dt_map st) 0) ts (of_nat (length p))
            (map_lookup fops (xdp_flow_tracking st) key) = Some dp' \<and> flow_ok dp'"
proof (rule flow_after_total)
  show "length (nodes tr) = MAX_DT_NODES" if "map_lookup dops (dt_map st) 0 = Some tr" for tr
    using assms(1) that by (simp add: table_ok_def trees_ok_def)
  show "flow_ok dp" if "map_lookup fops (xdp_flow_tracking st) key = Some dp" for dp
    using assms(1) that by (auto simp: table_ok_def)
  show "unat (of_nat (length p) :: u64) < 2 ^ 32"
    using assms(2) by (simp add: frame_ok_def unat_of_nat_64)
qed

text \<open>Whether the map refuses the record of a new flow.\<close>

lemma update_stats_cases:
  assumes "table_ok fops dops st" and "frame_ok p"
  shows "\<exists>m' dp'. update_stats fops dops k p ts st = Some (XDP_PASS, st\<lparr>xdp_flow_tracking := m'\<rparr>)
      \<and> flow_ok dp'
      \<and> flow_after (map_lookup dops (dt_map st) 0) ts (of_nat (length p))
            (map_lookup fops (xdp_flow_tracking st) k) = Some dp'
      \<and> map_lookup fops m' =
          (if map_lookup fops (xdp_flow_tracking st) k = None
              \<and> fst (map_update fops (xdp_flow_tracking st) k (init_flow ts (of_nat (length p)))) \<noteq> 0
           then map_lookup fops (xdp_flow_tracking st)
           else (map_lookup fops (xdp_flow_tracking st))(k \<mapsto> dp'))"
proof -
  obtain dp' where dp': "flow_after (map_lookup dops (dt_map st) 0) ts (of_nat (length p))
            (map_lookup fops (xdp_flow_tracking st) k) = Some dp'" and ok: "flow_ok dp'"
    using flow_after_ok[OF assms] by blast
  let ?refused = "map_lookup fops (xdp_flow_tracking st) k = None
    \<and> fst (map_update fops (xdp_flow_tracking st) k (init_flow ts (of_nat (length p)))) \<noteq> 0"
  show ?thesis
    using dp' ok update_stats_stored[OF dp'] update_stats_refused[of st k ts p dops]
    by (cases ?refused) auto
qed

text \<open>
  One packet: the program terminates without a fault, the verdict is fixed by the frame alone,
  the flow of the frame is either summarised in the table or, for a new flow that the map
  refuses, left out, and every other flow is untouched.
\<close>

lemma detector_step:
  assumes "table_ok fops dops st" and "frame_ok p"
  shows "\<exists>st'. xdp_anomaly_detector fops dops aops p ts time_out st =
            Some (if is_lldp p then XDP_DROP else XDP_PASS, st')
          \<and> dt_map st' = dt_map st \<and> table_ok fops dops st'
          \<and> (case key_of p of
               None \<Rightarrow> st' = st
             | Some k \<Rightarrow>
                 (map_lookup fops (xdp_flow_tracking st) k = None
                  \<and> fst (map_update fops (xdp_flow_tracking st) k (init_flow ts (of_nat (length p)))) \<noteq> 0
                  \<and> map_lookup fops (xdp_flow_tracking st') = map_lookup fops (xdp_flow_tracking st))
               \<or> (\<exists>dp'. flow_after (map_lookup dops (dt_map st) 0) ts (of_nat (length p))
                           (map_lookup fops (xdp_flow_tracking st) k) = Some dp'
                      \<and> map_lookup fops (xdp_flow_tracking st')
                        = (map_lookup fops (xdp_flow_tracking st))(k \<mapsto> dp')))"
proof -
  obtain ret k l where parse: "parse_packet_get_data p zero_key 0 = Some (ret, k, l)"
    and ret: "ret \<in> {-2, -1, 0, 1}" "ret = -2 \<longleftrightarrow> is_lldp p"
    using parse_packet_total[of p zero_key 0] by blast
  show ?thesis
  proof (cases "0 \<le> ret")
    case False
    then show ?thesis
      using parse ret assms(1) by (auto simp: xdp_anomaly_detector_def key_of_def)
  next
    case True
    then have key: "key_of p = Some k" and pass: "\<not> is_lldp p" using parse ret by (auto simp: key_of_def)
    let ?refused = "map_lookup fops (xdp_flow_tracking st) k = None
      \<and> fst (map_update fops (xdp_flow_tracking st) k (init_flow ts (of_nat (length p)))) \<noteq> 0"
    obtain m' dp' where
      u: "update_stats fops dops k p ts st = Some (XDP_PASS, st\<lparr>xdp_flow_tracking := m'\<rparr>)" and
      ok: "flow_ok dp'" and
      dp': "flow_after (map_lookup dops (dt_map st) 0) ts (of_nat (length p))
            (map_lookup fops (xdp_flow_tracking st) k) = Some dp'" and
      m': "map_lookup fops m' = (if ?refused then map_lookup fops (xdp_flow_tracking st)
                               else (map_lookup fops (xdp_flow_tracking st))(k \<mapsto> dp'))"
      using update_stats_cases[OF assms, of k ts] by blast
    let ?st' = "update_accounting aops l time_out (st\<lparr>xdp_flow_tracking := m'\<rparr>)"
    have "xdp_anomaly_detector fops dops aops p ts time_out st = Some (XDP_PASS, ?st')"
      using parse True u by (simp add: xdp_anomaly_detector_def)
    moreover have "table_ok fops dops ?st'"
      using assms(1) ok m' by (auto simp: table_ok_def split: if_splits)
    ultimately show ?thesis using key pass m' dp' by auto
  qed
qed

end

subsection \<open>Sequences: lemmas\<close>

definition event_keys :: "event list \<Rightarrow> flow_key set" where
  "event_keys es = set (List.map_filter (\<lambda>(p, _). key_of p) es)"

lemma event_keys_simps [simp]:
  "event_keys [] = {}"
  "event_keys ((p, ts, t) # es) =
     (case key_of p of None \<Rightarrow> event_keys es | Some k \<Rightarrow> insert k (event_keys es))"
  by (auto simp: event_keys_def map_filter_simps split: option.split)

lemma finite_event_keys [simp]: "finite (event_keys es)"
  by (simp add: event_keys_def)

lemma card_event_keys: "card (event_keys es) \<le> length es"
proof -
  have "length (List.map_filter f xs) \<le> length xs" for f :: "event \<Rightarrow> flow_key option" and xs
    by (simp add: map_filter_def)
  then show ?thesis unfolding event_keys_def by (meson card_length order_trans)
qed

lemma flow_events_Cons [simp]:
  "flow_events k [] = []"
  "flow_events k ((p, ts, t) # es) =
     (if key_of p = Some k then (ts, of_nat (length p)) # flow_events k es else flow_events k es)"
  by (simp_all add: flow_events_def)

locale flow_table_bounded = flow_table fops + bpf_hash_map fops max_entries
  for fops :: "'f flow_ops" and max_entries
begin

lemma run_detector_flows:
  assumes "table_ok fops dops st" and "\<forall>(p, _) \<in> set es. frame_ok p"
    and "card (dom (map_lookup fops (xdp_flow_tracking st)) \<union> event_keys es) \<le> max_entries"
  shows "\<exists>st'. run_detector fops dops aops es st = Some st'
          \<and> dt_map st' = dt_map st \<and> table_ok fops dops st'
          \<and> (\<forall>k. run_flow (map_lookup dops (dt_map st) 0) (flow_events k es)
                    (map_lookup fops (xdp_flow_tracking st) k)
                  = Some (map_lookup fops (xdp_flow_tracking st') k))"
  using assms
proof (induction es arbitrary: st)
  case (Cons e es)
  obtain p ts t where e: "e = (p, ts, t)" by (cases e) auto
  let ?L = "\<lambda>s. map_lookup fops (xdp_flow_tracking s)"
  from Cons.prems have fr: "frame_ok p" and frs: "\<forall>(p, _) \<in> set es. frame_ok p" by (auto simp: e)
  obtain st1 where step: "xdp_anomaly_detector fops dops aops p ts t st =
        Some (if is_lldp p then XDP_DROP else XDP_PASS, st1)"
    and dt: "dt_map st1 = dt_map st" and ok1: "table_ok fops dops st1"
    and upd: "case key_of p of None \<Rightarrow> st1 = st
      | Some k \<Rightarrow> (?L st k = None
            \<and> fst (map_update fops (xdp_flow_tracking st) k (init_flow ts (of_nat (length p)))) \<noteq> 0
            \<and> ?L st1 = ?L st)
          \<or> (\<exists>dp'. flow_after (map_lookup dops (dt_map st) 0) ts (of_nat (length p)) (?L st k)
                 = Some dp' \<and> ?L st1 = (?L st)(k \<mapsto> dp'))"
    using detector_step[OF Cons.prems(1) fr, of aops ts t] by blast
  have fin: "finite (dom (?L st) \<union> event_keys (e # es))"
    using finite_dom by (simp add: finite_event_keys)
  have not_refused: "fst (map_update fops (xdp_flow_tracking st) k v) = 0"
    if "key_of p = Some k" "?L st k = None" for k v
  proof (rule update_room)
    have "insert k (dom (?L st)) \<subseteq> dom (?L st) \<union> event_keys (e # es)"
      using that(1) by (auto simp: e)
    then have "card (insert k (dom (?L st))) \<le> max_entries"
      using card_mono[OF fin] Cons.prems(3) by (meson order_trans)
    then show "card (dom (?L st)) < max_entries"
      using that(2) finite_dom[of "xdp_flow_tracking st"] by (simp add: domIff)
  qed
  have flows1: "\<forall>k. (if key_of p = Some k
        then flow_after (map_lookup dops (dt_map st) 0) ts (of_nat (length p)) (?L st k) = ?L st1 k
             \<and> ?L st1 k \<noteq> None
        else ?L st1 k = ?L st k)"
    using upd not_refused by (auto split: option.splits)
  have "dom (?L st1) \<union> event_keys es \<subseteq> dom (?L st) \<union> event_keys (e # es)"
    using flows1 by (auto simp: e domIff split: option.splits if_splits) (metis option.inject)+
  then have "card (dom (?L st1) \<union> event_keys es) \<le> max_entries"
    using card_mono[OF fin] Cons.prems(3) by (meson order_trans)
  from Cons.IH[OF ok1 frs this] obtain st' where
    run: "run_detector fops dops aops es st1 = Some st'" and dt': "dt_map st' = dt_map st1"
    and ok': "table_ok fops dops st'"
    and fl: "\<And>k. run_flow (map_lookup dops (dt_map st1) 0) (flow_events k es) (?L st1 k)
              = Some (?L st' k)" by blast
  have "run_flow (map_lookup dops (dt_map st) 0) (flow_events k (e # es)) (?L st k) = Some (?L st' k)"
    for k
    using flows1[rule_format, of k] fl[of k] by (auto simp: e dt split: if_splits)
  then show ?case using step run dt dt' ok' by (simp add: e)
qed simp

end

interpretation kf: flow_table_bounded "kh_ops MAX_FLOW_SAVED" MAX_FLOW_SAVED
  by unfold_locales

subsection \<open>What a flow record summarises\<close>

text \<open>The positive gaps between consecutive timestamps, the first measured from \<open>prev\<close>.\<close>

fun pos_gaps :: "u64 \<Rightarrow> u64 list \<Rightarrow> u64 list" where
  "pos_gaps prev [] = []"
| "pos_gaps prev (t # ts) = (if prev > 0 \<and> t > prev then [t - prev] else []) @ pos_gaps t ts"

definition lens_ok :: "(u64 \<times> u64) list \<Rightarrow> bool" where
  "lens_ok evs \<longleftrightarrow> (\<forall>(ts, l) \<in> set evs. unat l < 2 ^ 32)"

lemma flow_after_Some:
  assumes "flow_after tree ts l (Some dp) = Some dp'" and "unat l < 2 ^ 32"
  shows "total_pkts dp' = total_pkts dp + 1" "total_bytes dp' = total_bytes dp + ucast l"
    "unat (max_pkt_len dp') = max (unat (max_pkt_len dp)) (unat l)"
    "unat (min_pkt_len dp') = min (unat (min_pkt_len dp)) (unat l)"
    "start_ts dp' = start_ts dp" "last_seen dp' = ts"
    "min_IAT dp' = fold min (pos_gaps (last_seen dp) [ts]) (min_IAT dp)"
proof -
  from assms(1) obtain lab where
    dp': "dp' = (compute_features ((account_packet ts l dp)\<lparr>last_seen := ts\<rparr>))\<lparr>label := lab\<rparr>"
    by (auto simp: flow_after_def bind_eq_Some_conv Let_def)
  show "unat (max_pkt_len dp') = max (unat (max_pkt_len dp)) (unat l)"
    "unat (min_pkt_len dp') = min (unat (min_pkt_len dp)) (unat l)"
    using assms(2)
    by (auto simp: dp' account_packet_lens word_less_nat_alt unat_ucast_up ucast_len)
  show "min_IAT dp' = fold min (pos_gaps (last_seen dp) [ts]) (min_IAT dp)"
    by (auto simp: dp' account_packet_iat min_def)
  show "total_pkts dp' = total_pkts dp + 1" "total_bytes dp' = total_bytes dp + ucast l"
    "start_ts dp' = start_ts dp" "last_seen dp' = ts"
    by (simp_all add: dp')
qed

lemma flow_after_None:
  assumes "flow_after tree ts l None = Some dp'" and "unat l < 2 ^ 32"
  shows "total_pkts dp' = 1" "total_bytes dp' = ucast l" "unat (max_pkt_len dp') = unat l"
    "unat (min_pkt_len dp') = unat l" "start_ts dp' = ts" "last_seen dp' = ts" "min_IAT dp' = -1"
  using assms
  by (auto simp: flow_after_def bind_eq_Some_conv Let_def init_flow_def ucast_len)

lemma run_flow_from:
  assumes "run_flow tree evs (Some dp) = Some old" and "lens_ok evs"
  shows "\<exists>dp'. old = Some dp' \<and> total_pkts dp' = total_pkts dp + of_nat (length evs)
     \<and> total_bytes dp' = total_bytes dp + (\<Sum>(ts, l) \<leftarrow> evs. ucast l)
     \<and> unat (max_pkt_len dp') = fold max (map (unat \<circ> snd) evs) (unat (max_pkt_len dp))
     \<and> unat (min_pkt_len dp') = fold min (map (unat \<circ> snd) evs) (unat (min_pkt_len dp))
     \<and> start_ts dp' = start_ts dp
     \<and> last_seen dp' = last (last_seen dp # map fst evs)
     \<and> min_IAT dp' = fold min (pos_gaps (last_seen dp) (map fst evs)) (min_IAT dp)"
  using assms
proof (induction evs arbitrary: dp)
  case (Cons e evs)
  obtain ts l where e: "e = (ts, l)" by (cases e) auto
  from Cons.prems obtain dp1 where a: "flow_after tree ts l (Some dp) = Some dp1"
    and r: "run_flow tree evs (Some dp1) = Some old"
    by (auto simp: e bind_eq_Some_conv)
  from Cons.prems have l: "unat l < 2 ^ 32" and ls: "lens_ok evs" by (auto simp: e lens_ok_def)
  from Cons.IH[OF r ls] flow_after_Some[OF a l] show ?case
    by (auto simp: e max.commute min.commute add_ac)
qed auto

lemma flow_after_label:
  "flow_after tree ts l old = Some dp \<Longrightarrow> predict_dt (dp\<lparr>label := x\<rparr>) tree = Some (label dp)"
proof -
  assume a: "flow_after tree ts l old = Some dp"
  have "predict_loop n (d\<lparr>label := y\<rparr>) tr i = predict_loop n d tr i" for n d y tr i
    by (induction n arbitrary: i) (simp_all cong: if_cong)
  then have "predict_dt (d\<lparr>label := y\<rparr>) tree = predict_dt d tree" for d y
    by (simp add: predict_dt_def split: option.split)
  then show ?thesis using a by (auto simp: flow_after_def bind_eq_Some_conv Let_def)
qed

lemma run_flow_label:
  assumes "run_flow tree evs (Some dp) = Some (Some dp')" and "predict_dt dp tree = Some (label dp)"
  shows "predict_dt dp' tree = Some (label dp')"
  using assms
proof (induction evs arbitrary: dp)
  case (Cons e evs)
  obtain ts l where e: "e = (ts, l)" by (cases e) auto
  from Cons.prems(1) obtain dp1 where a: "flow_after tree ts l (Some dp) = Some dp1"
    and r: "run_flow tree evs (Some dp1) = Some (Some dp')"
    by (auto simp: e bind_eq_Some_conv)
  have "predict_dt dp1 tree = Some (label dp1)"
    using flow_after_label[OF a, of "label dp1"] by simp
  then show ?case by (rule Cons.IH[OF r])
qed simp

subsection \<open>Properties of the kernel program\<close>

text \<open>Parsing is memory safe on every frame: it never reads outside the packet, it returns
  one of its four codes, and the code \<open>-2\<close> (drop) is returned for LLDP frames only.\<close>

theorem parse_packet_safe:
  "\<exists>ret key' len'. parse_packet_get_data p key len = Some (ret, key', len')
     \<and> ret \<in> {-2, -1, 0, 1} \<and> (ret = -2 \<longleftrightarrow> is_lldp p)"
  using parse_packet_total[of p key len] by blast

text \<open>C12: on an IPv4 TCP or UDP frame whose transport header is inside the frame, the flow key
  holds the addresses as loaded, the protocol, and the two ports read in network byte order,
  and the packet length is the frame length.\<close>

theorem parse_packet_ports:
  assumes "is_ipv4 p"
    and "p ! 23 = IPPROTO_TCP \<and> l4_offset p + 20 \<le> length p
         \<or> p ! 23 = IPPROTO_UDP \<and> l4_offset p + 8 \<le> length p"
  shows "parse_packet_get_data p key len =
    Some (0, \<lparr>src_ip = word32_le (p ! 26) (p ! 27) (p ! 28) (p ! 29),
             src_port = word16_le (p ! (l4_offset p + 1)) (p ! l4_offset p),
             dst_ip = word32_le (p ! 30) (p ! 31) (p ! 32) (p ! 33),
             dst_port = word16_le (p ! (l4_offset p + 3)) (p ! (l4_offset p + 2)),
             proto = p ! 23\<rparr>, of_nat (length p))"
  using assms by (auto simp: parse_packet_ipv4 addr_key_def l4_ports_def)

definition udp_frame :: packet where
  "udp_frame = replicate 12 0 @ [0x08, 0, 0x45, 0, 0, 28, 0, 0, 0, 0, 64, 17, 0, 0,
     10, 0, 0, 1, 10, 0, 0, 2, 0x1F, 0x90, 0, 53, 0, 8, 0, 0]"

theorem parse_packet_ports_witness:
  "parse_packet_get_data udp_frame zero_key 0 =
    Some (0, \<lparr>src_ip = 0x0100000A, src_port = 8080, dst_ip = 0x0200000A, dst_port = 53,
             proto = 17\<rparr>, 42)"
proof -
  have "is_ipv4 udp_frame" "l4_offset udp_frame = 34"
    by (simp_all add: udp_frame_def is_ipv4_def l4_offset_def nth_append)
  then show ?thesis
    by (subst parse_packet_ports) (simp_all add: udp_frame_def word32_le_def word16_le_def nth_append)
qed

text \<open>C4: the verdict.  For every frame and every state with intact records, the program
  terminates without a fault and drops the frame if and only if it is an LLDP frame; every
  other frame is passed, whatever its classification.\<close>

theorem detector_verdict:
  assumes "bpf_map fops" and "table_ok fops dops st" and "frame_ok p"
  shows "\<exists>st'. xdp_anomaly_detector fops dops aops p ts time_out st =
            Some (if is_lldp p then XDP_DROP else XDP_PASS, st')
          \<and> table_ok fops dops st'"
proof -
  have "flow_table fops" using assms(1) by (simp add: flow_table_def)
  from flow_table.detector_step[OF this assms(2,3), of aops ts time_out] show ?thesis by blast
qed

definition empty_maps :: "((flow_key \<times> data_point) list, dt_tree list, accounting list) xdp_maps" where
  "empty_maps = \<lparr>xdp_flow_tracking = [], dt_map = [layout (Split 1 131072 (Leaf 0) (Leaf 1))],
     accounting_map = [\<lparr>time_in = 0, proc_time = 0, ac_total_pkts = 0, ac_total_bytes = 0\<rparr>]\<rparr>"

lemma length_layout: "node_count t \<le> MAX_DT_NODES \<Longrightarrow> length (nodes (layout t)) = MAX_DT_NODES"
  by (simp add: layout_def)

lemma empty_maps_ok: "table_ok (kh_ops MAX_FLOW_SAVED) ka_ops empty_maps"
  by (simp add: table_ok_def trees_ok_def empty_maps_def kh_ops_def ka_ops_def length_layout)

theorem detector_verdict_witness:
  "\<exists>st'. xdp_anomaly_detector (kh_ops MAX_FLOW_SAVED) ka_ops ka_ops udp_frame 5000 5100 empty_maps
     = Some (XDP_PASS, st') \<and> table_ok (kh_ops MAX_FLOW_SAVED) ka_ops st'"
proof -
  have "\<not> is_lldp udp_frame" "frame_ok udp_frame"
    by (simp_all add: is_lldp_def udp_frame_def frame_ok_def nth_append)
  then show ?thesis
    using detector_verdict[OF kh.bpf_map_axioms empty_maps_ok, of udp_frame ka_ops 5000 5100] by simp
qed

text \<open>One packet changes the record of its own flow only: every other key of the flow table
  keeps its record, and an untracked frame changes no map at all.\<close>

theorem detector_frame:
  assumes "bpf_map fops" and "table_ok fops dops st" and "frame_ok p"
    and "xdp_anomaly_detector fops dops aops p ts time_out st = Some (v, st')"
  shows "dt_map st' = dt_map st \<and> (key_of p = None \<longrightarrow> st' = st)
         \<and> (\<forall>k. key_of p \<noteq> Some k \<longrightarrow> map_lookup fops (xdp_flow_tracking st') k
                                 = map_lookup fops (xdp_flow_tracking st) k)"
proof -
  have "flow_table fops" using assms(1) by (simp add: flow_table_def)
  from flow_table.detector_step[OF this assms(2,3), of aops ts time_out] assms(4)
  show ?thesis by (auto split: option.splits)
qed

theorem detector_frame_witness:
  "\<exists>st'. xdp_anomaly_detector (kh_ops MAX_FLOW_SAVED) ka_ops ka_ops [] 1 2 empty_maps
           = Some (XDP_PASS, st') \<and> st' = empty_maps"
proof -
  have p: "parse_packet_get_data [] zero_key 0 = Some (-1, zero_key, 0)"
    by (simp add: parse_packet_get_data_def)
  then have r: "xdp_anomaly_detector (kh_ops MAX_FLOW_SAVED) ka_ops ka_ops [] 1 2 empty_maps
      = Some (XDP_PASS, empty_maps)" by (simp add: xdp_anomaly_detector_def)
  then show ?thesis
    using detector_frame[OF kh.bpf_map_axioms empty_maps_ok _ r] p
    by (simp add: frame_ok_def key_of_def)
qed

text \<open>C1: over any sequence of frames, as long as the flows seen fit the table, the program never
  faults, and the record of every flow key is exactly the one obtained by feeding that flow's
  own packets, in order, to the flow's previous record: the flows do not interfere.\<close>

theorem run_detector_refines:
  assumes "bpf_hash_map fops n" and "table_ok fops dops st"
    and "\<forall>(p, _) \<in> set es. frame_ok p"
    and "card (dom (map_lookup fops (xdp_flow_tracking st)) \<union> event_keys es) \<le> n"
  shows "\<exists>st'. run_detector fops dops aops es st = Some st' \<and> table_ok fops dops st'
          \<and> (\<forall>k. run_flow (map_lookup dops (dt_map st) 0) (flow_events k es)
                    (map_lookup fops (xdp_flow_tracking st) k)
                  = Some (map_lookup fops (xdp_flow_tracking st') k))"
proof -
  have "bpf_map fops" using assms(1) by (simp add: bpf_hash_map_def)
  then have "flow_table_bounded fops n"
    using assms(1) by (simp add: flow_table_bounded_def flow_table_def)
  from flow_table_bounded.run_detector_flows[OF this assms(2-4), of aops] show ?thesis by blast
qed

theorem run_detector_refines_witness:
  "\<exists>st'. run_detector (kh_ops MAX_FLOW_SAVED) ka_ops ka_ops
            [(udp_frame, 5000, 5100), (udp_frame, 9000, 9100)] empty_maps = Some st'"
proof -
  let ?es = "[(udp_frame, 5000, 5100), (udp_frame, 9000, 9100)] :: event list"
  have "dom (map_lookup (kh_ops MAX_FLOW_SAVED) (xdp_flow_tracking empty_maps)) = {}"
    by (simp add: kh_ops_def empty_maps_def)
  then have "card (dom (map_lookup (kh_ops MAX_FLOW_SAVED) (xdp_flow_tracking empty_maps))
      \<union> event_keys ?es) \<le> MAX_FLOW_SAVED"
    using card_event_keys[of ?es] by (simp del: event_keys_simps)
  moreover have "\<forall>(p, _) \<in> set ?es. frame_ok p" by (simp add: frame_ok_def udp_frame_def)
  ultimately show ?thesis
    using run_detector_refines[OF kh.bpf_hash_map_axioms empty_maps_ok, of ?es ka_ops] by blast
qed

text \<open>C2: the record built from the packets of a new flow summarises them: packet count and byte
  count (modulo \<open>2^32\<close>), largest and smallest length, first and last timestamp, the smallest
  positive gap between consecutive timestamps, the feature vector of these counters, and the
  tree's verdict on that feature vector.\<close>

theorem flow_record_summary:
  assumes "lens_ok ((ts, l) # evs)" and "\<And>tr. tree = Some tr \<Longrightarrow> length (nodes tr) = MAX_DT_NODES"
  shows "\<exists>dp. run_flow tree ((ts, l) # evs) None = Some (Some dp) \<and> flow_ok dp
     \<and> total_pkts dp = of_nat (Suc (length evs))
     \<and> total_bytes dp = (\<Sum>(ts, l) \<leftarrow> (ts, l) # evs. ucast l)
     \<and> unat (max_pkt_len dp) = Max (set (map (unat \<circ> snd) ((ts, l) # evs)))
     \<and> unat (min_pkt_len dp) = Min (set (map (unat \<circ> snd) ((ts, l) # evs)))
     \<and> start_ts dp = ts \<and> last_seen dp = last (ts # map fst evs)
     \<and> min_IAT dp = fold min (pos_gaps ts (map fst evs)) (-1)
     \<and> predict_dt dp tree = Some (label dp)"
proof -
  have l: "unat l < 2 ^ 32" and ls: "lens_ok evs" using assms(1) by (auto simp: lens_ok_def)
  obtain dp0 where a: "flow_after tree ts l None = Some dp0" and ok0: "flow_ok dp0"
    using flow_after_total[OF assms(2) _ l, of tree None ts] by auto
  have total: "\<exists>dp. run_flow tree evs (Some d) = Some (Some dp) \<and> flow_ok dp"
    if "flow_ok d" "lens_ok evs" for d evs
    using that
  proof (induction evs arbitrary: d)
    case (Cons e evs)
    then show ?case
      using flow_after_total[OF assms(2), of tree "Some d" "snd e" "fst e"]
      by (cases e) (auto simp: lens_ok_def)
  qed simp
  obtain dp where r: "run_flow tree evs (Some dp0) = Some (Some dp)" and ok: "flow_ok dp"
    using total[OF ok0 ls] by blast
  have "predict_dt dp0 tree = Some (label dp0)" using flow_after_label[OF a, of "label dp0"] by simp
  then have "predict_dt dp tree = Some (label dp)" by (rule run_flow_label[OF r])
  moreover note run_flow_from[OF r ls] flow_after_None[OF a l]
  moreover have "run_flow tree ((ts, l) # evs) None = Some (Some dp)" using a r by simp
  ultimately show ?thesis
    using ok by (auto simp: Max.set_eq_fold Min.set_eq_fold simp del: fold_simps list.set)
qed

theorem flow_record_summary_witness:
  "\<exists>dp. run_flow None [(1000, 60), (5000, 1500)] None = Some (Some dp)
     \<and> total_pkts dp = 2 \<and> total_bytes dp = 1560 \<and> min_IAT dp = 4000"
proof -
  have "lens_ok [(1000, 60), (5000, 1500)]" by (simp add: lens_ok_def)
  from flow_record_summary[OF this, of None] show ?thesis by auto
qed

text \<open>a new flow that does not fit the full table is passed without a record: the verdict is
  \<open>XDP_PASS\<close> and the flow table is unchanged.\<close>

theorem detector_table_full:
  assumes "bpf_hash_map fops n" and "table_ok fops dops st" and "frame_ok p"
    and "card (dom (map_lookup fops (xdp_flow_tracking st))) = n"
    and "key_of p = Some k" and "map_lookup fops (xdp_flow_tracking st) k = None"
  shows "\<exists>st'. xdp_anomaly_detector fops dops aops p ts time_out st = Some (XDP_PASS, st')
          \<and> map_lookup fops (xdp_flow_tracking st') = map_lookup fops (xdp_flow_tracking st)"
proof -
  have bm: "bpf_map fops" using assms(1) by (simp add: bpf_hash_map_def)
  then have ft: "flow_table fops" by (simp add: flow_table_def)
  obtain ret l where parse: "parse_packet_get_data p zero_key 0 = Some (ret, k, l)" "0 \<le> ret"
    using assms(5) by (auto simp: key_of_def split: option.splits if_splits)
  have "fst (map_update fops (xdp_flow_tracking st) k (init_flow ts (of_nat (length p)))) \<noteq> 0"
    using bpf_hash_map.update_full[OF assms(1)] assms(4,6) by simp
  from flow_table.update_stats_refused[OF ft assms(6) this, of dops] parse show ?thesis
    by (auto simp: xdp_anomaly_detector_def)
qed

theorem detector_table_full_witness:
  "\<exists>st'. xdp_anomaly_detector (kh_ops 0) ka_ops ka_ops udp_frame 1 2 empty_maps
           = Some (XDP_PASS, st') \<and> map_of (xdp_flow_tracking st') = Map.empty"
proof -
  have k: "\<exists>k. key_of udp_frame = Some k"
  proof -
    have "is_ipv4 udp_frame" "l4_offset udp_frame = 34"
      by (simp_all add: udp_frame_def is_ipv4_def l4_offset_def nth_append)
    then show ?thesis by (simp add: key_of_def parse_packet_ipv4) (simp add: udp_frame_def nth_append)
  qed
  have "table_ok (kh_ops 0) ka_ops empty_maps"
    by (simp add: table_ok_def trees_ok_def empty_maps_def kh_ops_def ka_ops_def length_layout)
  moreover have "frame_ok udp_frame" by (simp add: frame_ok_def udp_frame_def)
  moreover have "map_lookup (kh_ops 0) (xdp_flow_tracking empty_maps) = Map.empty"
    by (simp add: kh_ops_def empty_maps_def)
  ultimately show ?thesis
    using k detector_table_full[OF kh.bpf_hash_map_axioms, of 0 ka_ops empty_maps udp_frame _ ka_ops 1 2]
    by (auto simp: kh_ops_def)
qed

text \<open>C13: the accounting record after a tracked packet: one more packet, the frame's bytes unless
  it is the special echo packet (which is counted with length 0), and a processing time that
  grows by the distance to \<open>time_in\<close>, a field the program never writes.\<close>

theorem detector_accounting:
  assumes "bpf_map fops" and "bpf_map aops" and "table_ok fops dops st" and "frame_ok p"
    and "parse_packet_get_data p zero_key 0 = Some (ret, k, l)" and "0 \<le> ret"
    and "map_lookup aops (accounting_map st) 0 = Some ac"
  shows "\<exists>st' ac'. xdp_anomaly_detector fops dops aops p ts time_out st = Some (XDP_PASS, st')
          \<and> map_lookup aops (accounting_map st') 0 = Some ac'
          \<and> ac_total_pkts ac' = ac_total_pkts ac + 1
          \<and> ac_total_bytes ac' = ac_total_bytes ac + (if ret = 1 then 0 else of_nat (length p))
          \<and> proc_time ac' = proc_time ac + (time_out - time_in ac) \<and> time_in ac' = time_in ac"
proof -
  have ft: "flow_table fops" using assms(1) by (simp add: flow_table_def)
  obtain m' where u: "update_stats fops dops k p ts st = Some (XDP_PASS, st\<lparr>xdp_flow_tracking := m'\<rparr>)"
    using flow_table.update_stats_cases[OF ft assms(3,4), of k ts] by blast
  let ?ac = "ac\<lparr>proc_time := proc_time ac + (time_out - time_in ac),
    ac_total_bytes := ac_total_bytes ac + ucast l, ac_total_pkts := ac_total_pkts ac + 1\<rparr>"
  obtain e am where am: "map_update aops (map_poke aops (accounting_map st) 0 ?ac) 0 ?ac = (e, am)"
    by (meson prod.exhaust_sel)
  then have "map_lookup aops am 0 = Some ?ac" using bpf_map.poke_update[OF assms(2,7) am] by simp
  moreover have "ucast l = (if ret = 1 then 0 else of_nat (length p) :: u32)"
  proof -
    have "is_ipv4 p"
      using parse_packet_total[of p zero_key 0] assms(5,6) by auto
    then have "ret = 1 \<and> l = 0 \<or> ret = 0 \<and> l = of_nat (length p)"
      using assms(5,6) by (auto simp: parse_packet_ipv4 split: if_splits)
    moreover have "ucast (of_nat (length p) :: u64) = (of_nat (length p) :: u32)"
      by (rule ucast_of_nat_down) simp
    ultimately show ?thesis by auto
  qed
  ultimately show ?thesis
    using assms(5,6,7) u am by (simp add: xdp_anomaly_detector_def update_accounting_def Let_def)
qed

theorem detector_accounting_witness:
  "\<exists>st' ac'. xdp_anomaly_detector (kh_ops MAX_FLOW_SAVED) ka_ops ka_ops udp_frame 5000 5100 empty_maps
       = Some (XDP_PASS, st') \<and> map_lookup ka_ops (accounting_map st') 0 = Some ac'
       \<and> ac_total_pkts ac' = 1 \<and> ac_total_bytes ac' = 42 \<and> proc_time ac' = 5100"
proof -
  have "is_ipv4 udp_frame" "l4_offset udp_frame = 34"
    by (simp_all add: udp_frame_def is_ipv4_def l4_offset_def nth_append)
  then obtain k l where p: "parse_packet_get_data udp_frame zero_key 0 = Some (0, k, l)"
    by (simp add: parse_packet_ipv4) (simp add: udp_frame_def nth_append)
  have "map_lookup ka_ops (accounting_map empty_maps) 0
      = Some \<lparr>time_in = 0, proc_time = 0, ac_total_pkts = 0, ac_total_bytes = 0\<rparr>"
    by (simp add: ka_ops_def empty_maps_def)
  moreover have "frame_ok udp_frame" "length udp_frame = 42" by (simp_all add: frame_ok_def udp_frame_def)
  ultimately show ?thesis
    using detector_accounting[OF kh.bpf_map_axioms ka.bpf_map_axioms empty_maps_ok _ p] by force
qed

end
