(* ===== verification/C_Strings.thy ===== *)
theory C_Strings
  imports Xdp_Prelude
begin

text \<open>
  The C string functions the user-space sources call.  A character array is a list of \<open>char\<close> of
  its declared size; a C string inside it ends at the first NUL, and reading an array without a NUL
  as a string is \<^const>\<open>None\<close> (the C code would run past the array).  String arguments that do not
  come from such an array are plain strings without a NUL.
\<close>

abbreviation (input) NUL :: char where "NUL \<equiv> CHR 0x00"

definition cstr :: "char list \<Rightarrow> string option" where
  "cstr b = (if NUL \<in> set b then Some (takeWhile (\<lambda>c. c \<noteq> NUL) b) else None)"

definition strncpy :: "string \<Rightarrow> nat \<Rightarrow> char list" where
  "strncpy src n = take n src @ replicate (n - length src) NUL"

text \<open>\<open>snprintf(&buf[pos], n, "%s", s)\<close>: the buffer after the call; the call's value is the length of
  \<open>s\<close>, whether or not it fits.\<close>

definition snprintf_at :: "char list \<Rightarrow> nat \<Rightarrow> nat \<Rightarrow> string \<Rightarrow> char list option" where
  "snprintf_at buf pos n s =
     (if n = 0 then Some buf
      else let w = take (n - 1) s @ [NUL]
           in if pos + length w \<le> length buf
              then Some (take pos buf @ w @ drop (pos + length w) buf) else None)"

definition put_char :: "char list \<Rightarrow> nat \<Rightarrow> char \<Rightarrow> char list option" where
  "put_char buf pos c = (if pos < length buf then Some (buf[pos := c]) else None)"

text \<open>\<open>strcmp\<close> and \<open>memcmp\<close> promise only the sign of their result; bytes compare as unsigned.\<close>

fun cmp_bytes :: "nat list \<Rightarrow> nat list \<Rightarrow> int" where
  "cmp_bytes [] [] = 0"
| "cmp_bytes [] (y # ys) = -1"
| "cmp_bytes (x # xs) [] = 1"
| "cmp_bytes (x # xs) (y # ys) = (if x < y then -1 else if y < x then 1 else cmp_bytes xs ys)"

definition strcmp :: "string \<Rightarrow> string \<Rightarrow> int" where
  "strcmp a b = cmp_bytes (map of_char a) (map of_char b)"

definition memcmp :: "u8 list \<Rightarrow> u8 list \<Rightarrow> int" where
  "memcmp a b = cmp_bytes (map unat a) (map unat b)"

text \<open>\<open>try_snprintf\<close> of \<open>libxdp_internal.h\<close> for a result that is already formatted.\<close>

definition try_snprintf :: "nat \<Rightarrow> string \<Rightarrow> int" where
  "try_snprintf buf_len s = (if length s \<ge> buf_len then - ENAMETOOLONG else 0)"

subsection \<open>Decimal numbers\<close>

fun dec_digits :: "nat \<Rightarrow> string" where
  "dec_digits n = (if n < 10 then [char_of (48 + n)] else dec_digits (n div 10) @ [char_of (48 + n mod 10)])"

declare dec_digits.simps [simp del]

definition dec_int :: "int \<Rightarrow> string" where
  "dec_int i = (if i < 0 then CHR 0x2D # dec_digits (nat (- i)) else dec_digits (nat i))"

definition is_digit :: "char \<Rightarrow> bool" where
  "is_digit c \<longleftrightarrow> 48 \<le> (of_char c :: nat) \<and> (of_char c :: nat) \<le> 57"

definition digits_value :: "string \<Rightarrow> int" where
  "digits_value s = foldl (\<lambda>a c. a * 10 + (of_char c - 48)) 0 s"

definition is_space :: "char \<Rightarrow> bool" where
  "is_space c \<longleftrightarrow> (of_char c :: nat) \<in> {9, 10, 11, 12, 13, 32}"

text \<open>\<open>atoi\<close> is \<open>(int) strtol(s, NULL, 10)\<close>: white space, an optional sign, digits; a value outside
  the 64-bit range is clamped, and the conversion to \<open>int\<close> keeps the low 32 bits.\<close>

definition strtol :: "string \<Rightarrow> int" where
  "strtol s =
     (let s = dropWhile is_space s;
          (neg, s) = (case s of c # cs \<Rightarrow>
                        if c = CHR 0x2D then (True, cs) else if c = CHR 0x2B then (False, cs) else (False, s)
                      | [] \<Rightarrow> (False, s));
          v = digits_value (takeWhile is_digit s);
          v = (if neg then - v else v)
      in max (- (2 ^ 63)) (min (2 ^ 63 - 1) v))"

definition atoi :: "string \<Rightarrow> int" where
  "atoi s = sint (word_of_int (strtol s) :: 32 word)"

subsection \<open>Lemmas\<close>

lemma cmp_bytes_range: "cmp_bytes a b \<in> {-1, 0, 1}"
  by (induction a b rule: cmp_bytes.induct) auto

lemma cmp_bytes_refl [simp]: "cmp_bytes a a = 0"
  by (induction a) auto

lemma cmp_bytes_0_iff [simp]: "cmp_bytes a b = 0 \<longleftrightarrow> a = b"
  by (induction a b rule: cmp_bytes.induct) auto

lemma cmp_bytes_flip: "cmp_bytes b a = - cmp_bytes a b"
  by (induction a b rule: cmp_bytes.induct) auto

lemma cmp_bytes_trans: "cmp_bytes a b < 0 \<Longrightarrow> cmp_bytes b c < 0 \<Longrightarrow> cmp_bytes a c < 0"
proof (induction a c arbitrary: b rule: cmp_bytes.induct)
  case (4 x xs y ys)
  then show ?case by (cases b) (auto split: if_splits)
next
  case (3 x xs)
  then show ?case by (cases b) (auto split: if_splits)
next
  case 1
  then show ?case by (cases b) auto
qed auto

lemma strcmp_0_iff [simp]: "strcmp a b = 0 \<longleftrightarrow> a = b"
  by (simp add: strcmp_def inj_map_eq_map inj_on_def)

lemma strcmp_flip: "strcmp b a = - strcmp a b"
  by (simp add: strcmp_def cmp_bytes_flip[of "map of_char a"])

lemma strcmp_trans: "strcmp a b < 0 \<Longrightarrow> strcmp b c < 0 \<Longrightarrow> strcmp a c < 0"
  unfolding strcmp_def by (rule cmp_bytes_trans)

lemma memcmp_0_iff [simp]: "memcmp a b = 0 \<longleftrightarrow> a = b"
proof -
  have "inj (unat :: u8 \<Rightarrow> nat)" by (simp add: inj_on_def word_unat_eq_iff)
  then show ?thesis by (simp add: memcmp_def inj_map_eq_map)
qed

lemma memcmp_flip: "memcmp b a = - memcmp a b"
  by (simp add: memcmp_def cmp_bytes_flip[of "map unat a"])

lemma memcmp_trans: "memcmp a b < 0 \<Longrightarrow> memcmp b c < 0 \<Longrightarrow> memcmp a c < 0"
  unfolding memcmp_def by (rule cmp_bytes_trans)

lemma length_strncpy [simp]: "length (strncpy s n) = n"
  by (simp add: strncpy_def)

lemma takeWhile_append_stop: "(\<And>x. x \<in> set xs \<Longrightarrow> P x) \<Longrightarrow> \<not> P y \<Longrightarrow> takeWhile P (xs @ y # ys) = xs"
  by (simp add: takeWhile_append)

lemma cstr_strncpy:
  assumes "NUL \<notin> set s"
  shows "cstr (strncpy s n) = (if length s < n then Some s else None)"
proof (cases "length s < n")
  case True
  then obtain k where "n - length s = Suc k" by (cases "n - length s") auto
  with True assms show ?thesis
    by (auto simp: cstr_def strncpy_def intro!: takeWhile_append_stop)
next
  case False
  with assms have "NUL \<notin> set (strncpy s n)" by (auto simp: strncpy_def dest: in_set_takeD)
  with False show ?thesis by (simp add: cstr_def)
qed

lemma cstr_no_nul: "cstr b = Some s \<Longrightarrow> NUL \<notin> set s"
  by (auto simp: cstr_def split: if_splits dest: set_takeWhileD)

lemma of_char_digit: "k < 10 \<Longrightarrow> (of_char (char_of (48 + k :: nat)) :: nat) = 48 + k"
  by simp

lemma digits_value_snoc: "digits_value (s @ [c]) = digits_value s * 10 + (of_char c - 48)"
  by (simp add: digits_value_def)

lemma of_char_digit_int: "k < 10 \<Longrightarrow> (of_char (char_of (48 + k :: nat)) :: int) = 48 + int k"
  by (metis (mono_tags) of_char_digit of_char_of of_nat_add of_nat_numeral of_nat_of_char)

lemma dec_digits_digit: "c \<in> set (dec_digits n) \<Longrightarrow> is_digit c"
proof (induction n rule: dec_digits.induct)
  case (1 n)
  have d: "is_digit (char_of (48 + k))" if "k < 10" for k :: nat
    using that by (simp add: is_digit_def of_char_digit)
  show ?case
  proof (cases "n < 10")
    case True
    with 1 d show ?thesis by (simp add: dec_digits.simps[of n])
  next
    case False
    with 1 d[of "n mod 10"] show ?thesis by (auto simp: dec_digits.simps[of n])
  qed
qed

lemma digits_value_dec_digits: "digits_value (dec_digits n) = int n"
proof (induction n rule: dec_digits.induct)
  case (1 n)
  show ?case
  proof (cases "n < 10")
    case True
    then show ?thesis using of_char_digit_int[of n]
      by (simp add: dec_digits.simps[of n] digits_value_def)
  next
    case False
    have "int (n div 10) * 10 + int (n mod 10) = int n"
      by (metis div_mult_mod_eq of_nat_add of_nat_mult of_nat_numeral)
    with 1 False show ?thesis using of_char_digit_int[of "n mod 10"]
      by (simp add: dec_digits.simps[of n] digits_value_snoc)
  qed
qed

lemma dec_digits_ne: "dec_digits n \<noteq> []"
  by (simp add: dec_digits.simps[of n])

lemma is_digit_not_space: "is_digit c \<Longrightarrow> \<not> is_space c \<and> c \<noteq> CHR 0x2D \<and> c \<noteq> CHR 0x2B \<and> c \<noteq> NUL"
  by (auto simp: is_digit_def is_space_def)

lemma strtol_dec_digits:
  assumes "int n < 2 ^ 63"
  shows "strtol (dec_digits n) = int n"
proof -
  obtain c cs where c: "dec_digits n = c # cs" using dec_digits_ne by (cases "dec_digits n") auto
  have all: "\<forall>x\<in>set (dec_digits n). is_digit x" using dec_digits_digit by blast
  then have "is_digit c" using c by simp
  then have "dropWhile is_space (dec_digits n) = dec_digits n" and "c \<noteq> CHR 0x2D" and "c \<noteq> CHR 0x2B"
    using is_digit_not_space c by auto
  moreover have "takeWhile is_digit (c # cs) = c # cs"
    using all unfolding c by (simp add: takeWhile_eq_all_conv)
  ultimately show ?thesis
    using assms digits_value_dec_digits[of n] unfolding strtol_def c Let_def by simp
qed

lemma atoi_dec_digits: "n < 2 ^ 31 \<Longrightarrow> atoi (dec_digits n) = int n"
  by (simp add: atoi_def strtol_dec_digits signed_of_nat signed_take_bit_int_eq_self)

end
