(* ===== verification/Flow_Dump.thy ===== *)
theory Flow_Dump
  imports Flow_Table C_Strings
begin

text \<open>
  The export of the flow table, \<open>xdp_prog/dump_map_to_csv.c\<close>.  The kernel's map iteration, the file
  system and the output file are the fields of \<open>dump_env\<close>, functions on a state \<open>'w\<close> of the outside
  world.  The iteration loop asks the kernel for the next key until there is none and may run for ever
  when the map changes under it, so it is a partial function; on a map that nobody changes meanwhile it
  ends, which is proved.

  The locale \<open>bpf_map_iter\<close> states what \<open>BPF_MAP_GET_NEXT_KEY\<close> promises in
  \<open>include/uapi/linux/bpf.h\<close>: the first key for a key that is not in the map, the following one for a key
  that is.  The locale \<open>quiet_export\<close> adds a world in which the exporter alone runs.
\<close>

subsection \<open>Text of a row\<close>

text \<open>\<open>inet_ntop(AF_INET, ...)\<close> prints the four bytes of the address in memory order.\<close>

definition inet_ntop :: "u32 \<Rightarrow> string" where
  "inet_ntop a = (let b = (\<lambda>i. dec_digits (unat (ucast (drop_bit (8 * i) a) :: u8)))
                  in b 0 @ ''.'' @ b 1 @ ''.'' @ b 2 @ ''.'' @ b 3)"

text \<open>\<open>%.5f\<close> of a non-negative double: its exact value rounded to five places, ties to even.\<close>

definition round_half_even :: "real \<Rightarrow> int" where
  "round_half_even y =
     (let f = \<lfloor>y\<rfloor>; d = y - of_int f
      in if d < 1/2 then f else if d > 1/2 then f + 1 else if even f then f else f + 1)"

definition format_f5 :: "real \<Rightarrow> string" where
  "format_f5 x =
     (let n = nat (round_half_even (x * 100000)); frac = dec_digits (n mod 100000)
      in dec_digits (n div 100000) @ ''.'' @ replicate (5 - length frac) (CHR ''0'') @ frac)"

definition print_flow_csv :: "flow_key \<Rightarrow> data_point \<Rightarrow> string option" where
  "print_flow_csv key dp = do {
     f0 \<leftarrow> nth_opt (features dp) 0;
     f1 \<leftarrow> nth_opt (features dp) 1;
     f2 \<leftarrow> nth_opt (features dp) 2;
     f3 \<leftarrow> nth_opt (features dp) 3;
     f4 \<leftarrow> nth_opt (features dp) 4;
     f5 \<leftarrow> nth_opt (features dp) 5;
     Some (inet_ntop (src_ip key) @ '','' @ dec_digits (unat (src_port key)) @ '',''
           @ inet_ntop (dst_ip key) @ '','' @ dec_digits (unat (dst_port key)) @ '',''
           @ dec_digits (unat (proto key)) @ '',''
           @ format_f5 (fixed_to_float f0) @ '','' @ format_f5 (fixed_to_float f1) @ '',''
           @ format_f5 (fixed_to_float f2) @ '','' @ format_f5 (fixed_to_float f3) @ '',''
           @ format_f5 (fixed_to_float f4) @ '','' @ format_f5 (fixed_to_float f5) @ '',''
           @ dec_int (label dp) @ [CHR 0x0A])
   }"

definition csv_header :: string where
  "csv_header =
     ''SrcIP,SrcPort,DstIP,DstPort,Proto,FlowDur,TotalPkts,TotalBytes,MaxLen,MinLen,IAT_min,Label'' @ [CHR 0x0A]"

subsection \<open>The exporter\<close>

record 'w dump_env =
  d_access :: "string \<Rightarrow> 'w \<Rightarrow> int \<times> 'w"
  d_obj_get :: "string \<Rightarrow> 'w \<Rightarrow> int \<times> 'w"
  d_fopen :: "string \<Rightarrow> 'w \<Rightarrow> bool \<times> 'w"
  d_fprintf :: "string \<Rightarrow> 'w \<Rightarrow> 'w"
  d_fclose :: "'w \<Rightarrow> 'w"
  d_close :: "int \<Rightarrow> 'w \<Rightarrow> 'w"
  d_next_key :: "int \<Rightarrow> flow_key \<Rightarrow> 'w \<Rightarrow> flow_key option \<times> 'w"
  d_lookup :: "int \<Rightarrow> flow_key \<Rightarrow> 'w \<Rightarrow> data_point option \<times> 'w"

partial_function (option) dump_loop :: "'w dump_env \<Rightarrow> int \<Rightarrow> flow_key \<Rightarrow> 'w \<Rightarrow> 'w option" where
  "dump_loop env map_fd key w =
     (case d_next_key env map_fd key w of
        (None, w) \<Rightarrow> Some w
      | (Some next_key, w) \<Rightarrow>
          (case d_lookup env map_fd next_key w of
             (None, w) \<Rightarrow> dump_loop env map_fd next_key w
           | (Some dp, w) \<Rightarrow>
               (case print_flow_csv next_key dp of
                  None \<Rightarrow> None
                | Some line \<Rightarrow> dump_loop env map_fd next_key (d_fprintf env line w))))"

definition dump_flow_map_to_csv :: "'w dump_env \<Rightarrow> int \<Rightarrow> 'w \<Rightarrow> 'w option" where
  "dump_flow_map_to_csv env map_fd w = dump_loop env map_fd zero_key (d_fprintf env csv_header w)"

abbreviation (input) pin_basedir :: string where "pin_basedir \<equiv> ''/sys/fs/bpf''"

definition dump_main :: "'w dump_env \<Rightarrow> string list \<Rightarrow> 'w \<Rightarrow> (int \<times> 'w) option" where
  "dump_main env argv w =
     (if length argv < 3 then Some (1, w)
      else
        let ifname = argv ! 1; filename = argv ! 2;
            map_path = take 4095 (pin_basedir @ ''/'' @ ifname @ ''/xdp_flow_tracking'')
        in case d_access env map_path w of (r, w) \<Rightarrow>
           if r \<noteq> 0 then Some (1, w)
           else case d_obj_get env map_path w of (fd, w) \<Rightarrow>
             if fd < 0 then Some (1, w)
             else case d_fopen env filename w of (ok, w) \<Rightarrow>
               if \<not> ok then Some (1, d_close env fd w)
               else do {
                 w \<leftarrow> dump_flow_map_to_csv env fd w;
                 Some (0, d_close env fd (d_fclose env w))
               })"

subsection \<open>Iteration of a map that does not change\<close>

definition first_of :: "'a list \<Rightarrow> 'a option" where
  "first_of xs = (case xs of [] \<Rightarrow> None | x # _ \<Rightarrow> Some x)"

lemma first_of_simps [simp]: "first_of [] = None" "first_of (x # xs) = Some x"
  by (simp_all add: first_of_def)

locale bpf_map_iter = bpf_map ops for ops :: "('m, 'k, 'v) bpf_map_ops" +
  fixes next_key :: "'m \<Rightarrow> 'k \<Rightarrow> 'k option" and keys :: "'m \<Rightarrow> 'k list"
  assumes distinct_keys: "distinct (keys m)"
    and set_keys: "set (keys m) = dom (map_lookup ops m)"
    and next_absent: "k \<notin> set (keys m) \<Longrightarrow> next_key m k = first_of (keys m)"
    and next_present: "keys m = xs @ k # ys \<Longrightarrow> next_key m k = first_of ys"

text \<open>The keys an iteration visits when it starts from \<open>k\<close>.\<close>

definition keys_after :: "'k \<Rightarrow> 'k list \<Rightarrow> 'k list" where
  "keys_after k ks = (if k \<in> set ks then tl (dropWhile (\<lambda>x. x \<noteq> k) ks) else ks)"

definition csv_row :: "flow_key \<Rightarrow> data_point \<Rightarrow> string" where
  "csv_row k dp = the (print_flow_csv k dp)"

lemma print_flow_csv_total: "length (features dp) = MAX_FEATURES \<Longrightarrow> print_flow_csv k dp = Some (csv_row k dp)"
  by (simp add: csv_row_def print_flow_csv_def nth_opt_def)

locale quiet_export = bpf_map_iter ops next_key keys
  for ops :: "'m flow_ops" and next_key :: "'m \<Rightarrow> flow_key \<Rightarrow> flow_key option" and keys +
  fixes env :: "'w dump_env" and table :: "'w \<Rightarrow> 'm" and outp :: "'w \<Rightarrow> string"
  assumes env_next: "d_next_key env fd k w = (next_key (table w) k, w)"
    and env_lookup: "d_lookup env fd k w = (map_lookup ops (table w) k, w)"
    and env_print: "table (d_fprintf env s w) = table w" "outp (d_fprintf env s w) = outp w @ s"
begin

definition rows :: "'m \<Rightarrow> flow_key list \<Rightarrow> string" where
  "rows m ks = concat (map (\<lambda>k. csv_row k (the (map_lookup ops m k))) ks)"

lemma dump_loop_rows:
  assumes "\<forall>k dp. map_lookup ops (table w) k = Some dp \<longrightarrow> length (features dp) = MAX_FEATURES"
    and "next_key (table w) key = first_of ks" and "keys (table w) = xs @ ks"
  shows "\<exists>w'. dump_loop env fd key w = Some w' \<and> table w' = table w \<and> outp w' = outp w @ rows (table w) ks"
  using assms
proof (induction ks arbitrary: key w xs)
  case Nil
  then show ?case by (subst dump_loop.simps) (simp add: env_next rows_def)
next
  case (Cons k ks)
  have "k \<in> dom (map_lookup ops (table w))"
    using Cons.prems(3) set_keys[of "table w"] by auto
  then obtain dp where dp: "map_lookup ops (table w) k = Some dp" by blast
  with Cons.prems(1) have row: "print_flow_csv k dp = Some (csv_row k dp)"
    by (auto intro: print_flow_csv_total)
  let ?w = "d_fprintf env (csv_row k dp) w"
  have "next_key (table ?w) k = first_of ks" "keys (table ?w) = (xs @ [k]) @ ks"
    using Cons.prems(3) by (simp_all add: env_print next_present)
  moreover have "\<forall>k dp. map_lookup ops (table ?w) k = Some dp \<longrightarrow> length (features dp) = MAX_FEATURES"
    using Cons.prems(1) by (simp add: env_print)
  ultimately obtain w' where "dump_loop env fd k ?w = Some w'" "table w' = table ?w"
    "outp w' = outp ?w @ rows (table ?w) ks" using Cons.IH by blast
  then show ?case
    using Cons.prems(2) by (subst dump_loop.simps) (simp add: env_next env_lookup dp row env_print rows_def)
qed

lemma export_rows:
  assumes "\<forall>k dp. map_lookup ops (table w) k = Some dp \<longrightarrow> length (features dp) = MAX_FEATURES"
  shows "\<exists>w'. dump_flow_map_to_csv env fd w = Some w' \<and> table w' = table w
     \<and> outp w' = outp w @ csv_header @ rows (table w) (keys_after zero_key (keys (table w)))"
proof -
  let ?w = "d_fprintf env csv_header w" and ?ks = "keys (table w)"
  obtain xs where "next_key (table w) zero_key = first_of (keys_after zero_key ?ks)"
    and "?ks = xs @ keys_after zero_key ?ks"
  proof (cases "zero_key \<in> set ?ks")
    case True
    then obtain as bs where ab: "?ks = as @ zero_key # bs" "zero_key \<notin> set as" by (meson split_list_first)
    have "dropWhile (\<lambda>x. x \<noteq> zero_key) (as @ zero_key # bs) = zero_key # bs"
      by (subst dropWhile_append2) (use ab(2) in auto)
    with ab True have "keys_after zero_key ?ks = bs" by (simp add: keys_after_def)
    with ab show ?thesis using that[of "as @ [zero_key]"] by (simp add: next_present)
  next
    case False
    then show ?thesis using that[of "[]"] by (simp add: next_absent keys_after_def)
  qed
  with dump_loop_rows[of ?w zero_key "keys_after zero_key ?ks" xs fd] assms show ?thesis
    by (auto simp: dump_flow_map_to_csv_def env_print)
qed

end

subsection \<open>Iteration of the bounded hash map\<close>

definition kh_keys :: "('k \<times> 'v) list \<Rightarrow> 'k list" where
  "kh_keys m = remdups (map fst m)"

definition kh_next :: "('k \<times> 'v) list \<Rightarrow> 'k \<Rightarrow> 'k option" where
  "kh_next m k = first_of (keys_after k (kh_keys m))"

lemma keys_after_append: "distinct (xs @ k # ys) \<Longrightarrow> keys_after k (xs @ k # ys) = ys"
proof -
  assume "distinct (xs @ k # ys)"
  then have "dropWhile (\<lambda>x. x \<noteq> k) (xs @ k # ys) = k # ys" by (subst dropWhile_append2) auto
  then show ?thesis by (simp add: keys_after_def)
qed

lemma kh_next_present: "kh_keys m = xs @ k # ys \<Longrightarrow> kh_next m k = first_of ys"
  using keys_after_append[of xs k ys] distinct_remdups[of "map fst m"] unfolding kh_next_def kh_keys_def by simp

lemma kh_next_absent: "k \<notin> set (kh_keys m) \<Longrightarrow> kh_next m k = first_of (kh_keys m)"
  by (simp add: kh_next_def keys_after_def)

lemma set_kh_keys: "set (kh_keys m) = dom (map_lookup (kh_ops cap) m)"
  by (simp add: kh_keys_def kh_ops_def dom_map_of_conv_image_fst)

lemma distinct_kh_keys: "distinct (kh_keys m)"
  by (simp add: kh_keys_def)

interpretation kh_iter: bpf_map_iter "kh_ops cap" kh_next kh_keys for cap :: nat
  by unfold_locales (rule distinct_kh_keys set_kh_keys kh_next_absent kh_next_present; assumption?)+

text \<open>A world with one pinned flow table and one output file.\<close>

record dump_world =
  dw_table :: "(flow_key \<times> data_point) list"
  dw_pins :: "string list"
  dw_out :: string

definition kd_env :: "dump_world dump_env" where
  "kd_env = \<lparr>d_access = (\<lambda>p w. (if p \<in> set (dw_pins w) then 0 else -1, w)),
     d_obj_get = (\<lambda>p w. (if p \<in> set (dw_pins w) then 3 else - ENOENT, w)),
     d_fopen = (\<lambda>f w. (True, w\<lparr>dw_out := []\<rparr>)),
     d_fprintf = (\<lambda>s w. w\<lparr>dw_out := dw_out w @ s\<rparr>), d_fclose = (\<lambda>w. w), d_close = (\<lambda>_ w. w),
     d_next_key = (\<lambda>_ k w. (kh_next (dw_table w) k, w)),
     d_lookup = (\<lambda>_ k w. (map_of (dw_table w) k, w))\<rparr>"

interpretation kd: quiet_export "kh_ops MAX_FLOW_SAVED" kh_next kh_keys kd_env dw_table dw_out
  by unfold_locales (simp_all add: kd_env_def kh_ops_def)

subsection \<open>Properties\<close>

lemma set_keys_after:
  assumes "distinct ks"
  shows "set (keys_after k ks) \<subseteq> set ks" and "distinct (keys_after k ks)" and "k \<notin> set (keys_after k ks)"
proof -
  have "set (keys_after k ks) \<subseteq> set ks \<and> distinct (keys_after k ks) \<and> k \<notin> set (keys_after k ks)"
  proof (cases "k \<in> set ks")
    case True
    then obtain xs ys where ks: "ks = xs @ k # ys" by (meson split_list)
    with assms show ?thesis using keys_after_append[of xs k ys] by auto
  qed (use assms in \<open>simp add: keys_after_def\<close>)
  then show "set (keys_after k ks) \<subseteq> set ks" and "distinct (keys_after k ks)" and "k \<notin> set (keys_after k ks)"
    by blast+
qed

text \<open>C11: exporting a flow table that nobody changes ends, whatever its contents, and writes the header
  and then one line per visited key, each key at most once.  The lines carry the records of the table.
  Without an entry for the all-zero key every flow is written; an entry for that key is never written, and
  neither are the entries the kernel lists before it.\<close>

theorem dump_flow_map_complete:
  assumes "quiet_export ops next_key keys env table outp"
    and "\<forall>k dp. map_lookup ops (table w) k = Some dp \<longrightarrow> length (features dp) = MAX_FEATURES"
  shows "\<exists>w' ks. dump_flow_map_to_csv env fd w = Some w' \<and> table w' = table w
     \<and> outp w' = outp w @ csv_header @ concat (map (\<lambda>k. csv_row k (the (map_lookup ops (table w) k))) ks)
     \<and> distinct ks \<and> set ks \<subseteq> dom (map_lookup ops (table w)) \<and> zero_key \<notin> set ks
     \<and> (zero_key \<notin> dom (map_lookup ops (table w)) \<longrightarrow> set ks = dom (map_lookup ops (table w)))"
proof -
  have iter: "bpf_map_iter ops next_key keys" using assms(1) by (simp add: quiet_export_def)
  note keys = bpf_map_iter.distinct_keys[OF iter, of "table w"] bpf_map_iter.set_keys[OF iter, of "table w"]
  let ?ks = "keys_after zero_key (keys (table w))"
  from quiet_export.export_rows[OF assms(1), of w fd] assms(2)
  obtain w' where "dump_flow_map_to_csv env fd w = Some w'" "table w' = table w"
    "outp w' = outp w @ csv_header @ quiet_export.rows ops (table w) ?ks" by blast
  moreover note quiet_export.rows_def[OF assms(1)]
  moreover have "zero_key \<notin> dom (map_lookup ops (table w)) \<longrightarrow> ?ks = keys (table w)"
    using keys(2) by (simp add: keys_after_def)
  ultimately show ?thesis using set_keys_after[OF keys(1), of zero_key] keys(2)
    by (intro exI[of _ w'] exI[of _ ?ks]) simp
qed

definition sample_flow :: data_point where
  "sample_flow = \<lparr>start_ts = 5, last_seen = 5, min_IAT = 1, total_pkts = 1, max_pkt_len = 60, min_pkt_len = 60,
     total_bytes = 60, features = replicate MAX_FEATURES 0, label = 0\<rparr>"

text \<open>A table whose first entry has the all-zero key: only the entry behind it is written.\<close>

theorem dump_flow_map_complete_witness:
  "\<exists>w'. dump_flow_map_to_csv kd_env 3
      \<lparr>dw_table = [(zero_key, sample_flow), (zero_key\<lparr>proto := 6\<rparr>, sample_flow)], dw_pins = [], dw_out = []\<rparr> = Some w'
    \<and> (\<exists>ks. dw_out w' = csv_header @ concat (map (\<lambda>k. csv_row k sample_flow) ks)
           \<and> distinct ks \<and> set ks \<subseteq> {zero_key\<lparr>proto := 6\<rparr>})"
proof -
  let ?w = "\<lparr>dw_table = [(zero_key, sample_flow), (zero_key\<lparr>proto := 6\<rparr>, sample_flow)], dw_pins = [], dw_out = []\<rparr>"
  have feat: "\<forall>k dp. map_lookup (kh_ops MAX_FLOW_SAVED) (dw_table ?w) k = Some dp \<longrightarrow>
      length (features dp) = MAX_FEATURES"
    by (auto simp: kh_ops_def sample_flow_def split: if_splits)
  from dump_flow_map_complete[OF kd.quiet_export_axioms feat, of 3] obtain w' ks where
    r: "dump_flow_map_to_csv kd_env 3 ?w = Some w'"
      "dw_out w' = csv_header @ concat (map (\<lambda>k. csv_row k (the (map_lookup (kh_ops MAX_FLOW_SAVED) (dw_table ?w) k))) ks)"
      "distinct ks" "set ks \<subseteq> dom (map_lookup (kh_ops MAX_FLOW_SAVED) (dw_table ?w))" "zero_key \<notin> set ks"
    by auto
  have sub: "set ks \<subseteq> {zero_key\<lparr>proto := 6\<rparr>}" using r(4,5) by (auto simp: kh_ops_def split: if_splits)
  have m: "map (\<lambda>k. csv_row k (the (map_lookup (kh_ops MAX_FLOW_SAVED) (dw_table ?w) k))) ks
      = map (\<lambda>k. csv_row k sample_flow) ks"
    using sub by (intro map_cong) (auto simp: kh_ops_def)
  from r(1) r(2)[unfolded m] r(3) sub show ?thesis by blast
qed

end
