(* ===== verification/Flow_Race.thy ===== *)
theory Flow_Race
  imports Flow_Table
begin

text \<open>
  Several processors that run \<open>update_stats\<close> of \<open>xdp_prog_kern.c\<close> for packets of the same flow at the same time.
  A processor works on the record through the pointer \<open>bpf_map_lookup_elem\<close> gave it, one memory access at a time;
  the accesses of different processors interleave in any order.  Only the two \<open>__sync_fetch_and_add\<close> are
  a read and a write in one.

  What the kernel does in \<open>bpf_map_update_elem\<close> is a parameter: \<open>pub c a\<close> says that a new value may be put at
  address \<open>a\<close> when the entry of the flow is at \<open>c\<close>.  A hash table that replaces the element has \<open>a\<close> different from the
  current address, one that overwrites it has them equal.  The value is copied from the record before, field by
  field, and an update may also fail.  Entries of the flow are not deleted, and a retired element may be used
  again for this flow, but not for another.
\<close>

subsection \<open>The accesses of one processor\<close>

text \<open>The local variables; \<open>r_c\<close> and \<open>r_v\<close> hold a comparison and a value between two accesses, \<open>r_buf\<close> is the copy
  that the update makes, \<open>r_nr\<close> the number of the packet.\<close>

record regs =
  r_nr :: nat
  r_ts :: u64
  r_len :: u64
  r_c :: bool
  r_v :: u64
  r_iat :: u64
  r_buf :: data_point

type_synonym access = "regs \<Rightarrow> data_point \<Rightarrow> regs \<times> data_point"

definition rd :: "(regs \<Rightarrow> data_point \<Rightarrow> regs) \<Rightarrow> access" where
  "rd f r dp = (f r dp, dp)"

definition wr :: "(regs \<Rightarrow> data_point \<Rightarrow> data_point) \<Rightarrow> access" where
  "wr f r dp = (r, f r dp)"

datatype instr = Access access | Add_pkts | Add_bytes | Classify

text \<open>\<open>last_seen\<close> is read for each of its three occurrences in the expression for \<open>iat_ns\<close>.\<close>

definition account_instrs :: "instr list" where
  "account_instrs =
    [Access (rd (\<lambda>r dp. r\<lparr>r_c := last_seen dp > 0\<rparr>)),
     Access (rd (\<lambda>r dp. r\<lparr>r_c := r_c r \<and> r_ts r \<ge> last_seen dp\<rparr>)),
     Access (rd (\<lambda>r dp. r\<lparr>r_iat := if r_c r then r_ts r - last_seen dp else 0\<rparr>)),
     Add_pkts, Add_bytes,
     Access (rd (\<lambda>r dp. r\<lparr>r_c := r_iat r > 0 \<and> r_iat r < min_IAT dp\<rparr>)),
     Access (wr (\<lambda>r dp. if r_c r then dp\<lparr>min_IAT := r_iat r\<rparr> else dp)),
     Access (rd (\<lambda>r dp. r\<lparr>r_c := r_len r > ucast (max_pkt_len dp)\<rparr>)),
     Access (wr (\<lambda>r dp. if r_c r then dp\<lparr>max_pkt_len := ucast (r_len r)\<rparr> else dp)),
     Access (rd (\<lambda>r dp. r\<lparr>r_c := r_len r < ucast (min_pkt_len dp)\<rparr>)),
     Access (wr (\<lambda>r dp. if r_c r then dp\<lparr>min_pkt_len := ucast (r_len r)\<rparr> else dp))]"

definition feature_instr :: "(data_point \<Rightarrow> u64) \<Rightarrow> nat \<Rightarrow> instr list" where
  "feature_instr f i =
    [Access (rd (\<lambda>r dp. r\<lparr>r_v := f dp\<rparr>)),
     Access (wr (\<lambda>r dp. dp\<lparr>features := (features dp)[i := fixed_from_uint (r_v r)]\<rparr>))]"

definition feature_instrs :: "instr list" where
  "feature_instrs =
    [Access (wr (\<lambda>r dp. dp\<lparr>last_seen := r_ts r\<rparr>)),
     Access (rd (\<lambda>r dp. r\<lparr>r_v := last_seen dp\<rparr>)),
     Access (rd (\<lambda>r dp. r\<lparr>r_v := (r_v r - start_ts dp) div 1000\<rparr>)),
     Access (wr (\<lambda>r dp. dp\<lparr>features := (features dp)[FEATURE_FLOW_DURATION := fixed_from_uint (r_v r)]\<rparr>))]
    @ feature_instr (\<lambda>dp. ucast (total_pkts dp)) FEATURE_TOTAL_FWD_PACKET
    @ feature_instr (\<lambda>dp. ucast (total_bytes dp)) FEATURE_TOTAL_LENGTH_OF_FWD_PACKET
    @ feature_instr (\<lambda>dp. ucast (max_pkt_len dp)) FEATURE_FWD_PACKET_LENGTH_MAX
    @ feature_instr (\<lambda>dp. ucast (min_pkt_len dp)) FEATURE_FWD_PACKET_LENGTH_MIN
    @ [Access (rd (\<lambda>r dp. r\<lparr>r_c := min_IAT dp \<noteq> 0xFFFFFFFFFFFFFFFF\<rparr>)),
       Access (rd (\<lambda>r dp. r\<lparr>r_v := if r_c r then min_IAT dp div 1000 else 0\<rparr>)),
       Access (wr (\<lambda>r dp. dp\<lparr>features := (features dp)[FEATURE_FWD_IAT_MIN := fixed_from_uint (r_v r)]\<rparr>))]"

definition copy_feature :: "nat \<Rightarrow> instr" where
  "copy_feature i = Access (rd (\<lambda>r dp. r\<lparr>r_buf := (r_buf r)\<lparr>features := (features (r_buf r))[i := features dp ! i]\<rparr>\<rparr>))"

definition copy_instrs :: "instr list" where
  "copy_instrs =
    [Access (rd (\<lambda>r dp. r\<lparr>r_buf := (r_buf r)\<lparr>start_ts := start_ts dp\<rparr>\<rparr>)),
     Access (rd (\<lambda>r dp. r\<lparr>r_buf := (r_buf r)\<lparr>last_seen := last_seen dp\<rparr>\<rparr>)),
     Access (rd (\<lambda>r dp. r\<lparr>r_buf := (r_buf r)\<lparr>min_IAT := min_IAT dp\<rparr>\<rparr>)),
     Access (rd (\<lambda>r dp. r\<lparr>r_buf := (r_buf r)\<lparr>total_pkts := total_pkts dp\<rparr>\<rparr>)),
     Access (rd (\<lambda>r dp. r\<lparr>r_buf := (r_buf r)\<lparr>max_pkt_len := max_pkt_len dp\<rparr>\<rparr>)),
     Access (rd (\<lambda>r dp. r\<lparr>r_buf := (r_buf r)\<lparr>min_pkt_len := min_pkt_len dp\<rparr>\<rparr>)),
     Access (rd (\<lambda>r dp. r\<lparr>r_buf := (r_buf r)\<lparr>total_bytes := total_bytes dp\<rparr>\<rparr>))]
    @ map copy_feature [0..<MAX_FEATURES]
    @ [Access (rd (\<lambda>r dp. r\<lparr>r_buf := (r_buf r)\<lparr>label := label dp\<rparr>\<rparr>))]"

definition update_instrs :: "bool \<Rightarrow> instr list" where
  "update_instrs is_new_flow =
     (if is_new_flow then [] else account_instrs) @ feature_instrs @ [Classify] @ copy_instrs"

subsection \<open>Interleaved execution\<close>

datatype phase =
    Idle
  | Start regs
  | Missing regs
  | Created regs
  | Running nat regs "instr list"

text \<open>\<open>pkts\<close> lists the received packets, time and length; \<open>counted\<close> and \<open>weighed\<close> are the numbers of those whose count and
  length some record includes or once included.\<close>

record race =
  cells :: "nat \<Rightarrow> data_point"
  entry :: "nat option"
  cpu :: "nat \<Rightarrow> phase"
  pkts :: "(u64 \<times> u64) list"
  counted :: "nat set"
  weighed :: "nat set"
  used :: "nat set"

definition race_init :: "(nat \<Rightarrow> data_point) \<Rightarrow> race" where
  "race_init junk = \<lparr>cells = junk, entry = None, cpu = \<lambda>_. Idle, pkts = [], counted = {}, weighed = {}, used = {}\<rparr>"

definition new_regs :: "race \<Rightarrow> u64 \<Rightarrow> u64 \<Rightarrow> regs" where
  "new_regs s ts len = \<lparr>r_nr = length (pkts s), r_ts = ts, r_len = len, r_c = False, r_v = 0, r_iat = 0,
     r_buf = init_flow ts len\<rparr>"

text \<open>The walk through the tree reads the features one by one while other processors may change them: \<open>classify\<close> uses
  any six values.  The update starts its copy from the record; every field is copied again before it is used.\<close>

inductive race_step :: "dt_tree option \<Rightarrow> (nat option \<Rightarrow> nat \<Rightarrow> bool) \<Rightarrow> nat \<Rightarrow> race \<Rightarrow> race \<Rightarrow> bool"
  for tree :: "dt_tree option" and pub :: "nat option \<Rightarrow> nat \<Rightarrow> bool" and i :: nat where
  receive: "cpu s i = Idle \<Longrightarrow> unat len < 2 ^ 32 \<Longrightarrow>
    race_step tree pub i s (s\<lparr>cpu := (cpu s)(i := Start (new_regs s ts len)), pkts := pkts s @ [(ts, len)]\<rparr>)"
| lookup_hit: "cpu s i = Start r \<Longrightarrow> entry s = Some a \<Longrightarrow>
    race_step tree pub i s (s\<lparr>cpu := (cpu s)(i := Running a (r\<lparr>r_buf := cells s a\<rparr>) (update_instrs False))\<rparr>)"
| lookup_miss: "cpu s i = Start r \<Longrightarrow> entry s = None \<Longrightarrow>
    race_step tree pub i s (s\<lparr>cpu := (cpu s)(i := Missing r)\<rparr>)"
| create: "cpu s i = Missing r \<Longrightarrow> pub (entry s) a \<Longrightarrow>
    race_step tree pub i s (s\<lparr>cells := (cells s)(a := init_flow (r_ts r) (r_len r)), entry := Some a, used := insert a (used s),
      cpu := (cpu s)(i := Created r), counted := insert (r_nr r) (counted s), weighed := insert (r_nr r) (weighed s)\<rparr>)"
| create_fails: "cpu s i = Missing r \<Longrightarrow> race_step tree pub i s (s\<lparr>cpu := (cpu s)(i := Idle)\<rparr>)"
| lookup_again: "cpu s i = Created r \<Longrightarrow> entry s = Some a \<Longrightarrow>
    race_step tree pub i s (s\<lparr>cpu := (cpu s)(i := Running a (r\<lparr>r_buf := cells s a\<rparr>) (update_instrs True))\<rparr>)"
| access: "cpu s i = Running a r (Access f # is) \<Longrightarrow> f r (cells s a) = (r', dp') \<Longrightarrow>
    race_step tree pub i s (s\<lparr>cells := (cells s)(a := dp'), cpu := (cpu s)(i := Running a r' is)\<rparr>)"
| add_pkts: "cpu s i = Running a r (Add_pkts # is) \<Longrightarrow>
    race_step tree pub i s (s\<lparr>cells := (cells s)(a := (cells s a)\<lparr>total_pkts := total_pkts (cells s a) + 1\<rparr>),
      cpu := (cpu s)(i := Running a r is), counted := insert (r_nr r) (counted s)\<rparr>)"
| add_bytes: "cpu s i = Running a r (Add_bytes # is) \<Longrightarrow>
    race_step tree pub i s (s\<lparr>cells := (cells s)(a := (cells s a)\<lparr>total_bytes := total_bytes (cells s a) + ucast (r_len r)\<rparr>),
      cpu := (cpu s)(i := Running a r is), weighed := insert (r_nr r) (weighed s)\<rparr>)"
| classify: "cpu s i = Running a r (Classify # is) \<Longrightarrow> length fs = MAX_FEATURES \<Longrightarrow>
    predict_dt ((cells s a)\<lparr>features := fs\<rparr>) tree = Some l \<Longrightarrow>
    race_step tree pub i s (s\<lparr>cells := (cells s)(a := (cells s a)\<lparr>label := l\<rparr>), cpu := (cpu s)(i := Running a r is)\<rparr>)"
| publish: "cpu s i = Running a r [] \<Longrightarrow> pub (entry s) b \<Longrightarrow>
    race_step tree pub i s (s\<lparr>cells := (cells s)(b := r_buf r), entry := Some b, used := insert b (used s), cpu := (cpu s)(i := Idle)\<rparr>)"
| publish_fails: "cpu s i = Running a r [] \<Longrightarrow> race_step tree pub i s (s\<lparr>cpu := (cpu s)(i := Idle)\<rparr>)"

inductive_cases race_stepE: "race_step tree pub i s s'"

inductive race_reachable :: "dt_tree option \<Rightarrow> (nat option \<Rightarrow> nat \<Rightarrow> bool) \<Rightarrow> race \<Rightarrow> bool" for tree pub where
  start: "race_reachable tree pub (race_init junk)"
| step: "race_reachable tree pub s \<Longrightarrow> race_step tree pub i s s' \<Longrightarrow> race_reachable tree pub s'"

subsection \<open>The records of a flow\<close>

text \<open>What holds of every record at every moment: the counts stay below what was received, and each remaining field
  stems from a received packet or, for the label, from the tree.\<close>

definition labels_of :: "dt_tree option \<Rightarrow> int set" where
  "labels_of tree = insert 0 (case tree of None \<Rightarrow> {} | Some tr \<Rightarrow> node_label ` set (nodes tr))"

definition weight :: "race \<Rightarrow> nat set \<Rightarrow> nat" where
  "weight s J = (\<Sum>j\<in>J. unat (snd (pkts s ! j)))"

definition rec_ok :: "dt_tree option \<Rightarrow> race \<Rightarrow> data_point \<Rightarrow> bool" where
  "rec_ok tree s dp \<longleftrightarrow>
     (length (pkts s) < 2 ^ 32 \<longrightarrow> 1 \<le> unat (total_pkts dp))
     \<and> unat (total_pkts dp) \<le> card (counted s)
     \<and> unat (total_bytes dp) \<le> weight s (weighed s)
     \<and> max_pkt_len dp \<in> (ucast \<circ> snd) ` set (pkts s) \<and> min_pkt_len dp \<in> (ucast \<circ> snd) ` set (pkts s)
     \<and> start_ts dp \<in> fst ` set (pkts s) \<and> last_seen dp \<in> fst ` set (pkts s)
     \<and> length (features dp) = MAX_FEATURES \<and> label dp \<in> labels_of tree"

definition nums_ok :: "race \<Rightarrow> bool" where
  "nums_ok s \<longleftrightarrow> counted s \<subseteq> {..<length (pkts s)} \<and> weighed s \<subseteq> {..<length (pkts s)}"

text \<open>A processor holds one received packet, and the packet is not counted before the processor does it.\<close>

definition regs_ok :: "race \<Rightarrow> regs \<Rightarrow> bool" where
  "regs_ok s r \<longleftrightarrow> r_nr r < length (pkts s) \<and> pkts s ! r_nr r = (r_ts r, r_len r)"

definition code_ok :: "race \<Rightarrow> regs \<Rightarrow> instr list \<Rightarrow> bool" where
  "code_ok s r is \<longleftrightarrow> set is \<subseteq> set (update_instrs False)
     \<and> count_list is Add_pkts \<le> 1 \<and> (Add_pkts \<in> set is \<longrightarrow> r_nr r \<notin> counted s)
     \<and> count_list is Add_bytes \<le> 1 \<and> (Add_bytes \<in> set is \<longrightarrow> r_nr r \<notin> weighed s)"

fun cpu_ok :: "dt_tree option \<Rightarrow> race \<Rightarrow> phase \<Rightarrow> bool" where
  "cpu_ok tree s Idle = True"
| "cpu_ok tree s (Start r) = (regs_ok s r \<and> r_nr r \<notin> counted s \<and> r_nr r \<notin> weighed s)"
| "cpu_ok tree s (Missing r) = (regs_ok s r \<and> r_nr r \<notin> counted s \<and> r_nr r \<notin> weighed s)"
| "cpu_ok tree s (Created r) = (regs_ok s r \<and> entry s \<noteq> None)"
| "cpu_ok tree s (Running a r is) = (regs_ok s r \<and> a \<in> used s \<and> rec_ok tree s (r_buf r) \<and> code_ok s r is)"

fun carried :: "phase \<Rightarrow> nat option" where
  "carried Idle = None"
| "carried (Start r) = Some (r_nr r)"
| "carried (Missing r) = Some (r_nr r)"
| "carried (Created r) = Some (r_nr r)"
| "carried (Running a r is) = Some (r_nr r)"

definition race_ok :: "dt_tree option \<Rightarrow> race \<Rightarrow> bool" where
  "race_ok tree s \<longleftrightarrow> nums_ok s \<and> (\<forall>a\<in>used s. rec_ok tree s (cells s a))
     \<and> (\<forall>a. entry s = Some a \<longrightarrow> a \<in> used s)
     \<and> (\<forall>i. cpu_ok tree s (cpu s i))
     \<and> (\<forall>i j k. carried (cpu s i) = Some k \<and> carried (cpu s j) = Some k \<longrightarrow> i = j)"

text \<open>Accesses that keep a record well formed; all those of \<^const>\<open>update_instrs\<close> do.\<close>

definition keeps :: "dt_tree option \<Rightarrow> race \<Rightarrow> access \<Rightarrow> bool" where
  "keeps tree s f \<longleftrightarrow> (\<forall>r dp. regs_ok s r \<and> rec_ok tree s (r_buf r) \<and> rec_ok tree s dp \<longrightarrow>
     regs_ok s (fst (f r dp)) \<and> rec_ok tree s (r_buf (fst (f r dp))) \<and> rec_ok tree s (snd (f r dp))
     \<and> r_nr (fst (f r dp)) = r_nr r)"

lemma regs_ok_received:
  "regs_ok s r \<Longrightarrow> r_ts r \<in> fst ` set (pkts s)"
  "regs_ok s r \<Longrightarrow> ucast (r_len r) \<in> (ucast \<circ> snd) ` set (pkts s)"
  unfolding regs_ok_def by (force dest: nth_mem)+

lemma rec_ok_update:
  "rec_ok tree s (dp\<lparr>min_IAT := x\<rparr>) = rec_ok tree s dp"
  "rec_ok tree s dp \<Longrightarrow> length fs = MAX_FEATURES \<Longrightarrow> rec_ok tree s (dp\<lparr>features := fs\<rparr>)"
  "rec_ok tree s dp \<Longrightarrow> t \<in> fst ` set (pkts s) \<Longrightarrow> rec_ok tree s (dp\<lparr>last_seen := t\<rparr>)"
  "rec_ok tree s dp \<Longrightarrow> l \<in> (ucast \<circ> snd) ` set (pkts s) \<Longrightarrow> rec_ok tree s (dp\<lparr>max_pkt_len := l\<rparr>)"
  "rec_ok tree s dp \<Longrightarrow> l \<in> (ucast \<circ> snd) ` set (pkts s) \<Longrightarrow> rec_ok tree s (dp\<lparr>min_pkt_len := l\<rparr>)"
  "rec_ok tree s dp \<Longrightarrow> lab \<in> labels_of tree \<Longrightarrow> rec_ok tree s (dp\<lparr>label := lab\<rparr>)"
  by (simp_all add: rec_ok_def)

lemma rec_ok_copy:
  "rec_ok tree s b \<Longrightarrow> rec_ok tree s dp \<Longrightarrow> rec_ok tree s (b\<lparr>start_ts := start_ts dp\<rparr>)"
  "rec_ok tree s b \<Longrightarrow> rec_ok tree s dp \<Longrightarrow> rec_ok tree s (b\<lparr>last_seen := last_seen dp\<rparr>)"
  "rec_ok tree s b \<Longrightarrow> rec_ok tree s dp \<Longrightarrow> rec_ok tree s (b\<lparr>total_pkts := total_pkts dp\<rparr>)"
  "rec_ok tree s b \<Longrightarrow> rec_ok tree s dp \<Longrightarrow> rec_ok tree s (b\<lparr>max_pkt_len := max_pkt_len dp\<rparr>)"
  "rec_ok tree s b \<Longrightarrow> rec_ok tree s dp \<Longrightarrow> rec_ok tree s (b\<lparr>min_pkt_len := min_pkt_len dp\<rparr>)"
  "rec_ok tree s b \<Longrightarrow> rec_ok tree s dp \<Longrightarrow> rec_ok tree s (b\<lparr>total_bytes := total_bytes dp\<rparr>)"
  "rec_ok tree s b \<Longrightarrow> rec_ok tree s dp \<Longrightarrow> rec_ok tree s (b\<lparr>label := label dp\<rparr>)"
  by (simp_all add: rec_ok_def)

lemma rec_ok_features: "rec_ok tree s dp \<Longrightarrow> length (features dp) = MAX_FEATURES"
  by (simp add: rec_ok_def)

lemma keeps_rd:
  assumes "\<And>r dp. r_nr (f r dp) = r_nr r \<and> r_ts (f r dp) = r_ts r \<and> r_len (f r dp) = r_len r"
    and "\<And>r dp. rec_ok tree s (r_buf r) \<Longrightarrow> rec_ok tree s dp \<Longrightarrow> rec_ok tree s (r_buf (f r dp))"
  shows "keeps tree s (rd f)"
  using assms by (simp add: keeps_def rd_def regs_ok_def)

lemma keeps_wr:
  assumes "\<And>r dp. regs_ok s r \<Longrightarrow> rec_ok tree s dp \<Longrightarrow> rec_ok tree s (f r dp)"
  shows "keeps tree s (wr f)"
  using assms by (simp add: keeps_def wr_def)

fun keeps_instr :: "dt_tree option \<Rightarrow> race \<Rightarrow> instr \<Rightarrow> bool" where
  "keeps_instr tree s (Access f) = keeps tree s f"
| "keeps_instr tree s _ = True"

lemma keeps_account: "list_all (keeps_instr tree s) account_instrs"
  unfolding account_instrs_def
  by (simp, intro conjI keeps_rd keeps_wr)
    (simp_all add: rec_ok_update regs_ok_received del: image_comp comp_apply)

lemma keeps_feature: "list_all (keeps_instr tree s) (feature_instr g k)"
  unfolding feature_instr_def
  by (simp, intro conjI keeps_rd keeps_wr) (simp_all add: rec_ok_update rec_ok_features)

lemma keeps_features: "list_all (keeps_instr tree s) feature_instrs"
  unfolding feature_instrs_def
  by (simp add: keeps_feature, intro conjI keeps_rd keeps_wr)
    (simp_all add: rec_ok_update rec_ok_features regs_ok_received)

lemma keeps_copy: "list_all (keeps_instr tree s) copy_instrs"
  unfolding copy_instrs_def copy_feature_def
  by (simp add: list_all_iff, intro conjI ballI keeps_rd)
    (simp_all add: rec_ok_update rec_ok_copy rec_ok_features)

lemma keeps_update: "Access f \<in> set (update_instrs b) \<Longrightarrow> keeps tree s f"
proof -
  have "list_all (keeps_instr tree s) (update_instrs b)"
    by (simp add: update_instrs_def keeps_account keeps_features keeps_copy)
  then show "Access f \<in> set (update_instrs b) \<Longrightarrow> keeps tree s f" by (force simp: list_all_iff)
qed

subsection \<open>The invariant is kept\<close>

definition grows :: "race \<Rightarrow> race \<Rightarrow> bool" where
  "grows s s' \<longleftrightarrow> counted s \<subseteq> counted s' \<and> weighed s \<subseteq> weighed s' \<and> (\<exists>ys. pkts s' = pkts s @ ys)
     \<and> used s \<subseteq> used s' \<and> (entry s \<noteq> None \<longrightarrow> entry s' \<noteq> None)"

lemma nums_ok_finite: "nums_ok s \<Longrightarrow> finite (counted s) \<and> finite (weighed s)"
  unfolding nums_ok_def by (meson finite_lessThan finite_subset)

lemma weight_mono:
  assumes "nums_ok s" "grows s s'" "nums_ok s'"
  shows "weight s (weighed s) \<le> weight s' (weighed s')"
proof -
  obtain ys where ys: "pkts s' = pkts s @ ys" using assms(2) by (auto simp: grows_def)
  have "weight s (weighed s) = weight s' (weighed s)"
    using assms(1) unfolding weight_def nums_ok_def
    by (intro sum.cong) (auto simp: ys nth_append)
  also have "\<dots> \<le> weight s' (weighed s')"
    using assms(2) nums_ok_finite[OF assms(3)] unfolding weight_def grows_def
    by (intro sum_mono2) auto
  finally show ?thesis .
qed

lemma rec_ok_mono:
  assumes "nums_ok s" "grows s s'" "nums_ok s'" "rec_ok tree s dp"
  shows "rec_ok tree s' dp"
proof -
  have "card (counted s) \<le> card (counted s')"
    using assms(2) nums_ok_finite[OF assms(3)] by (intro card_mono) (auto simp: grows_def)
  moreover note weight_mono[OF assms(1-3)]
  ultimately show ?thesis using assms(2,4) by (auto simp: rec_ok_def grows_def)
qed

lemma regs_ok_mono: "grows s s' \<Longrightarrow> regs_ok s r \<Longrightarrow> regs_ok s' r"
  by (auto simp: grows_def regs_ok_def nth_append)

lemma carried_received: "cpu_ok tree s p \<Longrightarrow> carried p = Some k \<Longrightarrow> k < length (pkts s)"
  by (cases p) (auto simp: regs_ok_def)

lemma cpu_ok_other:
  assumes "nums_ok s" "grows s s'" "nums_ok s'" "cpu_ok tree s p"
    and "\<And>k. carried p = Some k \<Longrightarrow> (k \<in> counted s' \<longrightarrow> k \<in> counted s) \<and> (k \<in> weighed s' \<longrightarrow> k \<in> weighed s)"
  shows "cpu_ok tree s' p"
  using assms(4,5) regs_ok_mono[OF assms(2)] rec_ok_mono[OF assms(1-3)] assms(2)
  by (cases p) (auto simp: code_ok_def grows_def)

text \<open>A step of one processor changes its own phase, and counts at most its own packet.\<close>

lemma race_ok_step:
  assumes ok: "race_ok tree s" and grow: "grows s s'" and nums: "nums_ok s'"
    and cells: "\<And>a. a \<in> used s' \<Longrightarrow> a \<notin> used s \<or> cells s' a \<noteq> cells s a \<Longrightarrow> rec_ok tree s' (cells s' a)"
    and entry: "\<And>a. entry s' = Some a \<Longrightarrow> a \<in> used s'"
    and cpu: "cpu s' = (cpu s)(i := p)" and p: "cpu_ok tree s' p"
    and fresh: "\<And>k. carried p = Some k \<Longrightarrow> carried (cpu s i) = Some k \<or> k = length (pkts s)"
    and own: "\<And>k. k \<in> counted s' - counted s \<union> (weighed s' - weighed s) \<Longrightarrow> carried (cpu s i) = Some k"
  shows "race_ok tree s'"
proof -
  from ok have ns: "nums_ok s" and cs: "\<forall>a\<in>used s. rec_ok tree s (cells s a)"
    and ps: "\<And>j. cpu_ok tree s (cpu s j)"
    and dist: "\<And>i j k. carried (cpu s i) = Some k \<Longrightarrow> carried (cpu s j) = Some k \<Longrightarrow> i = j"
    unfolding race_ok_def by blast+
  have "rec_ok tree s' (cells s' a)" if "a \<in> used s'" for a
    using that cells[OF that] cs rec_ok_mono[OF ns grow nums, of tree "cells s a"] by (cases "cells s' a = cells s a") auto
  moreover have "cpu_ok tree s' (cpu s' j)" for j
  proof (cases "j = i")
    case False
    have "k \<notin> counted s' - counted s \<union> (weighed s' - weighed s)" if "carried (cpu s j) = Some k" for k
      using own[of k] dist[OF that, of i] False by blast
    then show ?thesis using False cpu cpu_ok_other[OF ns grow nums ps[of j]] by auto
  qed (simp add: cpu p)
  moreover have "j = j'" if "carried (cpu s' j) = Some k" "carried (cpu s' j') = Some k" for j j' k
    using that fresh[of k] carried_received[OF ps[of j], of k] carried_received[OF ps[of j'], of k] dist
    by (auto simp: cpu split: if_splits)
  ultimately show ?thesis using nums entry unfolding race_ok_def by blast
qed

lemma code_ok_start: "r_nr r \<notin> counted s \<Longrightarrow> r_nr r \<notin> weighed s \<Longrightarrow> code_ok s r (update_instrs False)"
  by (simp add: code_ok_def update_instrs_def account_instrs_def feature_instrs_def feature_instr_def
      copy_instrs_def copy_feature_def upt_rec)

lemma code_ok_start_new: "code_ok s r (update_instrs True)"
  by (auto simp: code_ok_def update_instrs_def feature_instrs_def feature_instr_def
      copy_instrs_def copy_feature_def upt_rec)

lemma code_ok_Cons:
  "code_ok s r (Access f # is) \<Longrightarrow> r_nr r' = r_nr r \<Longrightarrow> code_ok s r' is"
  "code_ok s r (Classify # is) \<Longrightarrow> code_ok s r is"
  "code_ok s r (Add_pkts # is) \<Longrightarrow> r_nr r \<notin> counted s \<and> Add_pkts \<notin> set is"
  "code_ok s r (Add_bytes # is) \<Longrightarrow> r_nr r \<notin> weighed s \<and> Add_bytes \<notin> set is"
  by (auto simp: code_ok_def count_list_0_iff)

lemma code_ok_cong:
  "counted s' = counted s \<Longrightarrow> weighed s' = weighed s \<Longrightarrow> code_ok s' r is = code_ok s r is"
  by (simp add: code_ok_def)

lemma rec_ok_cong:
  "counted s' = counted s \<Longrightarrow> weighed s' = weighed s \<Longrightarrow> pkts s' = pkts s \<Longrightarrow> rec_ok tree s' dp = rec_ok tree s dp"
  by (simp add: rec_ok_def weight_def)

lemma regs_ok_cong: "pkts s' = pkts s \<Longrightarrow> regs_ok s' r = regs_ok s r"
  by (simp add: regs_ok_def)

lemma unat_add_le: "unat (x + y) \<le> unat x + unat (y :: u32)"
  by (simp add: unat_word_ariths(1))

lemma predict_labels:
  assumes "predict_dt dp tree = Some l"
  shows "l \<in> labels_of tree"
proof (cases tree)
  case (Some tr)
  have "predict_loop k dp tr j = Some l \<Longrightarrow> l \<in> labels_of tree" for k j
    by (induction k arbitrary: j)
      (auto simp: labels_of_def Some bind_eq_Some_conv nth_opt_def split: if_splits)
  then show ?thesis using assms Some by (auto simp: predict_dt_def labels_of_def split: if_splits)
qed (use assms in \<open>simp add: predict_dt_def labels_of_def\<close>)

lemma weight_insert:
  assumes "finite J" "j \<notin> J"
  shows "weight s (insert j J) = unat (snd (pkts s ! j)) + weight s J"
  using assms by (simp add: weight_def)

lemma rec_ok_init:
  assumes "regs_ok s r" "nums_ok s" "r_nr r \<in> counted s" "r_nr r \<in> weighed s"
  shows "rec_ok tree s (init_flow (r_ts r) (r_len r))"
proof -
  have "card (counted s) > 0" using assms nums_ok_finite by (auto simp: card_gt_0_iff)
  moreover have "unat (ucast (r_len r) :: u32) \<le> unat (r_len r)"
    by (simp add: unsigned_ucast_eq)
  moreover have "unat (r_len r) \<le> weight s (weighed s)"
    using member_le_sum[OF assms(4), of "\<lambda>j. unat (snd (pkts s ! j))"] nums_ok_finite[OF assms(2)] assms(1)
    by (simp add: weight_def regs_ok_def)
  ultimately show ?thesis
    using regs_ok_received[OF assms(1)] by (simp add: rec_ok_def init_flow_def labels_of_def del: comp_apply)
qed

lemma race_ok_init: "race_ok tree (race_init junk)"
  by (simp add: race_ok_def race_init_def nums_ok_def)

lemma race_ok_receive:
  assumes "race_ok tree s"
  shows "race_ok tree (s\<lparr>cpu := (cpu s)(i := Start (new_regs s ts len)), pkts := pkts s @ [(ts, len)]\<rparr>)"
proof (rule race_ok_step[OF assms, where i = i and p = "Start (new_regs s ts len)"])
  have ns: "nums_ok s" and e: "\<And>a. entry s = Some a \<Longrightarrow> a \<in> used s" using assms by (auto simp: race_ok_def)
  let ?s = "s\<lparr>cpu := (cpu s)(i := Start (new_regs s ts len)), pkts := pkts s @ [(ts, len)]\<rparr>"
  show "nums_ok ?s" using ns by (auto simp: nums_ok_def)
  show "cpu_ok tree ?s (Start (new_regs s ts len))"
    using ns by (auto simp: new_regs_def regs_ok_def nums_ok_def)
  show "a \<in> used ?s" if "entry ?s = Some a" for a using that e by simp
qed (auto simp: grows_def new_regs_def)

lemma race_ok_create:
  assumes "race_ok tree s" and "cpu s i = Missing r"
  shows "race_ok tree (s\<lparr>cells := (cells s)(a := init_flow (r_ts r) (r_len r)), entry := Some a, used := insert a (used s),
      cpu := (cpu s)(i := Created r), counted := insert (r_nr r) (counted s), weighed := insert (r_nr r) (weighed s)\<rparr>)"
    (is "race_ok tree ?s")
proof (rule race_ok_step[OF assms(1), where i = i and p = "Created r"])
  have ns: "nums_ok s" and c: "cpu_ok tree s (cpu s i)" using assms(1) by (auto simp: race_ok_def)
  then have r: "regs_ok s r" using assms(2) by simp
  show ns': "nums_ok ?s" using ns r by (auto simp: nums_ok_def regs_ok_def)
  have r': "regs_ok ?s r" using r by (simp add: regs_ok_def)
  then show "cpu_ok tree ?s (Created r)" by simp
  show "rec_ok tree ?s (cells ?s b)" if "b \<notin> used s \<or> cells ?s b \<noteq> cells s b" "b \<in> used ?s" for b
    using rec_ok_init[OF r' ns'] that by (auto split: if_splits)
qed (auto simp: grows_def assms(2) split: if_splits)

lemma race_ok_running:
  assumes "race_ok tree s" and "cpu s i = Running a r is"
  shows "nums_ok s" "regs_ok s r" "a \<in> used s" "rec_ok tree s (r_buf r)" "code_ok s r is" "rec_ok tree s (cells s a)"
    "\<And>b. entry s = Some b \<Longrightarrow> b \<in> used s"
  using assms by (auto simp: race_ok_def dest!: spec[of "\<lambda>i. cpu_ok tree s (cpu s i)" i])

text \<open>The processor works on its record and neither counts the packet nor publishes.\<close>

lemma race_ok_local:
  assumes "race_ok tree s" "cpu s i = Running a r (x # is)"
    and "rec_ok tree s dp" "regs_ok s r'" "rec_ok tree s (r_buf r')" "code_ok s r' is" "r_nr r' = r_nr r"
  shows "race_ok tree (s\<lparr>cells := (cells s)(a := dp), cpu := (cpu s)(i := Running a r' is)\<rparr>)" (is "race_ok tree ?s")
proof (rule race_ok_step[OF assms(1), where i = i and p = "Running a r' is"])
  note run = race_ok_running[OF assms(1,2)]
  show "nums_ok ?s" using run by (simp add: nums_ok_def)
  show "cpu_ok tree ?s (Running a r' is)" using run assms by (simp add: code_ok_cong[of ?s s] rec_ok_cong[of ?s s] regs_ok_cong[of ?s s])
  show "rec_ok tree ?s (cells ?s b)" if "b \<in> used ?s" "b \<notin> used s \<or> cells ?s b \<noteq> cells s b" for b
    using assms(3) that by (auto simp: rec_ok_cong[of ?s s] split: if_splits)
  show "\<And>b. entry ?s = Some b \<Longrightarrow> b \<in> used ?s" using run(7) by simp
qed (auto simp: grows_def assms(2,7))

lemma race_ok_add_pkts:
  assumes "race_ok tree s" "cpu s i = Running a r (Add_pkts # is)"
  shows "race_ok tree (s\<lparr>cells := (cells s)(a := (cells s a)\<lparr>total_pkts := total_pkts (cells s a) + 1\<rparr>),
      cpu := (cpu s)(i := Running a r is), counted := insert (r_nr r) (counted s)\<rparr>)" (is "race_ok tree ?s")
proof (rule race_ok_step[OF assms(1), where i = i and p = "Running a r is"])
  note run = race_ok_running[OF assms(1,2)]
  note code = code_ok_Cons(3)[OF run(5)]
  show ns: "nums_ok ?s" using run by (auto simp: nums_ok_def regs_ok_def)
  show g: "grows s ?s" by (auto simp: grows_def)
  have card: "card (counted ?s) = Suc (card (counted s))"
    using nums_ok_finite[OF run(1)] code by simp
  have le: "card (counted ?s) \<le> length (pkts s)"
    using ns card_mono[of "{..<length (pkts s)}" "counted ?s"] by (simp add: nums_ok_def)
  have wrap: "unat (total_pkts (cells s a) + 1) \<le> Suc (unat (total_pkts (cells s a)))"
    using unat_add_le[of "total_pkts (cells s a)" 1] by simp
  have nowrap: "unat (total_pkts (cells s a) + 1) = Suc (unat (total_pkts (cells s a)))" if "length (pkts s) < 2 ^ 32"
    using that le card run(6) by (simp add: rec_ok_def unat_word_ariths(1))
  have rec: "rec_ok tree ?s (cells s a)" by (rule rec_ok_mono[OF run(1) g ns run(6)])
  then have "rec_ok tree ?s ((cells s a)\<lparr>total_pkts := total_pkts (cells s a) + 1\<rparr>)"
    using run(6) card wrap nowrap by (auto simp: rec_ok_def weight_def)
  then show "rec_ok tree ?s (cells ?s b)" if "b \<in> used ?s" "b \<notin> used s \<or> cells ?s b \<noteq> cells s b" for b
    using that by (auto split: if_splits)
  show "cpu_ok tree ?s (Running a r is)"
    using run code rec_ok_mono[OF run(1) g ns run(4)] by (auto simp: regs_ok_def code_ok_def)
  show "\<And>b. entry ?s = Some b \<Longrightarrow> b \<in> used ?s" using run(7) by simp
qed (auto simp: assms(2))

lemma race_ok_add_bytes:
  assumes "race_ok tree s" "cpu s i = Running a r (Add_bytes # is)"
  shows "race_ok tree (s\<lparr>cells := (cells s)(a := (cells s a)\<lparr>total_bytes := total_bytes (cells s a) + ucast (r_len r)\<rparr>),
      cpu := (cpu s)(i := Running a r is), weighed := insert (r_nr r) (weighed s)\<rparr>)" (is "race_ok tree ?s")
proof (rule race_ok_step[OF assms(1), where i = i and p = "Running a r is"])
  note run = race_ok_running[OF assms(1,2)]
  note code = code_ok_Cons(4)[OF run(5)]
  show ns: "nums_ok ?s" using run by (auto simp: nums_ok_def regs_ok_def)
  show g: "grows s ?s" by (auto simp: grows_def)
  have w: "weight ?s (weighed ?s) = unat (r_len r) + weight s (weighed s)"
    using weight_insert[of "weighed s" "r_nr r" s] nums_ok_finite[OF run(1)] code run(2)
    by (simp add: weight_def regs_ok_def)
  have "unat (ucast (r_len r) :: u32) \<le> unat (r_len r)" by (simp add: unsigned_ucast_eq)
  then have le: "unat (total_bytes (cells s a) + ucast (r_len r)) \<le> weight ?s (weighed ?s)"
    using unat_add_le[of "total_bytes (cells s a)" "ucast (r_len r)"] run(6) w by (simp add: rec_ok_def)
  have rec: "rec_ok tree ?s (cells s a)" by (rule rec_ok_mono[OF run(1) g ns run(6)])
  then have "rec_ok tree ?s ((cells s a)\<lparr>total_bytes := total_bytes (cells s a) + ucast (r_len r)\<rparr>)"
    using le by (simp add: rec_ok_def)
  then show "rec_ok tree ?s (cells ?s b)" if "b \<in> used ?s" "b \<notin> used s \<or> cells ?s b \<noteq> cells s b" for b
    using that by (auto split: if_splits)
  show "cpu_ok tree ?s (Running a r is)"
    using run code rec_ok_mono[OF run(1) g ns run(4)] by (auto simp: regs_ok_def code_ok_def)
  show "\<And>b. entry ?s = Some b \<Longrightarrow> b \<in> used ?s" using run(7) by simp
qed (auto simp: assms(2))

lemma race_ok_publish:
  assumes "race_ok tree s" "cpu s i = Running a r is"
  shows "race_ok tree (s\<lparr>cells := (cells s)(b := r_buf r), entry := Some b, used := insert b (used s),
     cpu := (cpu s)(i := Idle)\<rparr>)" (is "race_ok tree ?s")
proof (rule race_ok_step[OF assms(1), where i = i and p = Idle])
  note run = race_ok_running[OF assms]
  show "nums_ok ?s" using run by (simp add: nums_ok_def)
  show "rec_ok tree ?s (cells ?s c)" if "c \<in> used ?s" "c \<notin> used s \<or> cells ?s c \<noteq> cells s c" for c
    using run that by (auto simp: rec_ok_cong[of ?s s] split: if_splits)
qed (auto simp: grows_def)

lemma race_ok_phase:
  assumes "race_ok tree s" "cpu_ok tree s p" "\<And>k. carried p = Some k \<Longrightarrow> carried (cpu s i) = Some k"
  shows "race_ok tree (s\<lparr>cpu := (cpu s)(i := p)\<rparr>)" (is "race_ok tree ?s")
proof (rule race_ok_step[OF assms(1), where i = i and p = p])
  have ns: "nums_ok s" using assms(1) by (simp add: race_ok_def)
  then show n': "nums_ok ?s" by (simp add: nums_ok_def)
  show g: "grows s ?s" by (simp add: grows_def)
  show "cpu_ok tree ?s p" by (rule cpu_ok_other[OF ns g n' assms(2)]) simp
qed (use assms in \<open>auto simp: race_ok_def\<close>)

theorem race_ok_preserved:
  assumes "race_step tree pub i s s'" and ok: "race_ok tree s"
  shows "race_ok tree s'"
  using assms(1)
proof cases
  case (lookup_hit r a)
  have "cpu_ok tree s (cpu s i)" using ok by (simp add: race_ok_def)
  then have c: "regs_ok s r" "r_nr r \<notin> counted s" "r_nr r \<notin> weighed s" using lookup_hit by auto
  have a: "a \<in> used s" "rec_ok tree s (cells s a)" using ok lookup_hit by (auto simp: race_ok_def)
  show ?thesis unfolding lookup_hit(1)
    using a c by (intro race_ok_phase[OF ok]) (auto simp: code_ok_start lookup_hit regs_ok_def)
next
  case (lookup_again r a)
  have "cpu_ok tree s (cpu s i)" using ok by (simp add: race_ok_def)
  then have c: "regs_ok s r" using lookup_again by auto
  have a: "a \<in> used s" "rec_ok tree s (cells s a)" using ok lookup_again by (auto simp: race_ok_def)
  show ?thesis unfolding lookup_again(1)
    using a c by (intro race_ok_phase[OF ok]) (auto simp: code_ok_start_new lookup_again regs_ok_def)
next
  case (lookup_miss r)
  have "cpu_ok tree s (cpu s i)" using ok by (simp add: race_ok_def)
  then show ?thesis unfolding lookup_miss(1)
    by (intro race_ok_phase[OF ok]) (auto simp: lookup_miss)
next
  case (access a r f "is" r' dp')
  note run = race_ok_running[OF ok access(2)]
  have "keeps tree s f" using run(5) keeps_update[of f False] by (simp add: code_ok_def)
  then have "regs_ok s r'" "rec_ok tree s (r_buf r')" "rec_ok tree s dp'" "r_nr r' = r_nr r"
    using run access(3) unfolding keeps_def by (metis fst_conv snd_conv)+
  then show ?thesis unfolding access(1)
    using race_ok_local[OF ok access(2)] code_ok_Cons(1)[OF run(5)] by blast
next
  case (classify a r "is" fs l)
  note run = race_ok_running[OF ok classify(2)]
  show ?thesis unfolding classify(1)
    using race_ok_local[OF ok classify(2) rec_ok_update(6)[OF run(6) predict_labels[OF classify(4)]] run(2,4)
      code_ok_Cons(2)[OF run(5)]] by simp
qed (auto intro: race_ok_receive race_ok_create race_ok_add_pkts race_ok_add_bytes race_ok_publish race_ok_phase ok)

lemma race_reachable_ok: "race_reachable tree pub s \<Longrightarrow> race_ok tree s"
  by (induction rule: race_reachable.induct) (auto intro: race_ok_init race_ok_preserved)

lemma counted_le: "nums_ok s \<Longrightarrow> card (counted s) \<le> length (pkts s)"
  using card_mono[of "{..<length (pkts s)}" "counted s"] by (simp add: nums_ok_def)

lemma weight_le: "nums_ok s \<Longrightarrow> weight s (weighed s) \<le> (\<Sum>(t, l) \<leftarrow> pkts s. unat l)"
proof -
  assume "nums_ok s"
  then have "weight s (weighed s) \<le> weight s {..<length (pkts s)}"
    unfolding weight_def nums_ok_def by (intro sum_mono2) auto
  also have "\<dots> = (\<Sum>(t, l) \<leftarrow> pkts s. unat l)"
    by (simp add: weight_def sum_list_sum_nth atLeast0LessThan case_prod_beta)
  finally show ?thesis .
qed


subsection \<open>One processor on its own\<close>

text \<open>The processor's accesses without interference: the walk reads the features as they are.\<close>

fun exec_instr :: "dt_tree option \<Rightarrow> instr \<Rightarrow> regs \<times> data_point \<Rightarrow> (regs \<times> data_point) option" where
  "exec_instr tree (Access f) (r, dp) = Some (f r dp)"
| "exec_instr tree Add_pkts (r, dp) = Some (r, dp\<lparr>total_pkts := total_pkts dp + 1\<rparr>)"
| "exec_instr tree Add_bytes (r, dp) = Some (r, dp\<lparr>total_bytes := total_bytes dp + ucast (r_len r)\<rparr>)"
| "exec_instr tree Classify (r, dp) =
     (if length (features dp) = MAX_FEATURES then do { l \<leftarrow> predict_dt dp tree; Some (r, dp\<lparr>label := l\<rparr>) } else None)"

fun exec_instrs :: "dt_tree option \<Rightarrow> instr list \<Rightarrow> regs \<times> data_point \<Rightarrow> (regs \<times> data_point) option" where
  "exec_instrs tree [] x = Some x"
| "exec_instrs tree (i # is) x = exec_instr tree i x \<bind> exec_instrs tree is"

lemma exec_instrs_append:
  "exec_instrs tree (is @ js) x = exec_instrs tree is x \<bind> exec_instrs tree js"
  by (induction "is" arbitrary: x) (auto split: Option.bind_splits)

lemma exec_account:
  "\<exists>r'. exec_instrs tree account_instrs (r, dp) = Some (r', account_packet (r_ts r) (r_len r) dp)
     \<and> r_ts r' = r_ts r \<and> r_buf r' = r_buf r"
  by (simp add: account_instrs_def account_packet_def rd_def wr_def Let_def cong: if_cong split del: if_split)

lemma exec_features:
  "\<exists>r'. exec_instrs tree feature_instrs (r, dp) = Some (r', compute_features (dp\<lparr>last_seen := r_ts r\<rparr>))
     \<and> r_buf r' = r_buf r"
  by (simp add: feature_instrs_def feature_instr_def compute_features_def rd_def wr_def Let_def)

lemma list6_copy: "length xs = 6 \<Longrightarrow> length ys = 6 \<Longrightarrow>
   xs[0 := ys ! 0, Suc 0 := ys ! Suc 0, Suc (Suc 0) := ys ! Suc (Suc 0), Suc (Suc (Suc 0)) := ys ! Suc (Suc (Suc 0)),
     Suc (Suc (Suc (Suc 0))) := ys ! Suc (Suc (Suc (Suc 0))),
     Suc (Suc (Suc (Suc (Suc 0)))) := ys ! Suc (Suc (Suc (Suc (Suc 0))))] = ys"
  by (auto simp: numeral_eq_Suc length_Suc_conv)

lemma exec_copy:
  assumes "length (features (r_buf r)) = MAX_FEATURES" "length (features dp) = MAX_FEATURES"
  shows "exec_instrs tree copy_instrs (r, dp) = Some (r\<lparr>r_buf := dp\<rparr>, dp)"
  using assms by (simp add: copy_instrs_def copy_feature_def rd_def upt_rec list6_copy)

definition feats_ok :: "data_point \<Rightarrow> bool" where
  "feats_ok dp \<longleftrightarrow> length (features dp) = MAX_FEATURES"

lemma flow_after_feats:
  assumes "flow_after tree ts l old = Some dp" "\<And>d. old = Some d \<Longrightarrow> feats_ok d"
  shows "feats_ok dp"
  using assms by (auto simp: flow_after_def feats_ok_def init_flow_def Let_def bind_eq_Some_conv split: option.splits)

lemma exec_tail:
  assumes "feats_ok dp" "feats_ok (r_buf r)"
    and "predict_dt (compute_features (dp\<lparr>last_seen := r_ts r\<rparr>)) tree = Some l"
  shows "\<exists>r'. exec_instrs tree (feature_instrs @ [Classify] @ copy_instrs) (r, dp)
      = Some (r', r_buf r') \<and> r_buf r' = (compute_features (dp\<lparr>last_seen := r_ts r\<rparr>))\<lparr>label := l\<rparr>"
proof -
  let ?d = "compute_features (dp\<lparr>last_seen := r_ts r\<rparr>)"
  obtain r1 where r1: "exec_instrs tree feature_instrs (r, dp) = Some (r1, ?d)" "r_buf r1 = r_buf r"
    using exec_features by blast
  have "exec_instrs tree copy_instrs (r1, ?d\<lparr>label := l\<rparr>) = Some (r1\<lparr>r_buf := ?d\<lparr>label := l\<rparr>\<rparr>, ?d\<lparr>label := l\<rparr>)"
    by (rule exec_copy) (use assms r1 in \<open>simp_all add: feats_ok_def\<close>)
  then show ?thesis using assms r1 by (simp add: exec_instrs_append feats_ok_def)
qed

lemma exec_update:
  assumes "feats_ok dp" "feats_ok (r_buf r)" "flow_after tree (r_ts r) (r_len r) (Some dp) = Some d"
  shows "\<exists>r'. exec_instrs tree (update_instrs False) (r, dp) = Some (r', d) \<and> r_buf r' = d"
proof -
  let ?dp = "account_packet (r_ts r) (r_len r) dp"
  obtain l where l: "predict_dt (compute_features (?dp\<lparr>last_seen := r_ts r\<rparr>)) tree = Some l"
      "d = (compute_features (?dp\<lparr>last_seen := r_ts r\<rparr>))\<lparr>label := l\<rparr>"
    using assms(3) by (auto simp: flow_after_def Let_def bind_eq_Some_conv)
  obtain r1 where r1: "exec_instrs tree account_instrs (r, dp) = Some (r1, ?dp)" "r_ts r1 = r_ts r" "r_buf r1 = r_buf r"
    using exec_account by blast
  then show ?thesis
    using exec_tail[of ?dp r1 tree l] l assms(1,2)
    unfolding update_instrs_def by (auto simp add: exec_instrs_append[of tree account_instrs] feats_ok_def)
qed

lemma exec_update_new:
  assumes "feats_ok (r_buf r)" "flow_after tree (r_ts r) (r_len r) None = Some d"
  shows "\<exists>r'. exec_instrs tree (update_instrs True) (r, init_flow (r_ts r) (r_len r)) = Some (r', d) \<and> r_buf r' = d"
proof -
  let ?dp = "init_flow (r_ts r) (r_len r)"
  obtain l where l: "predict_dt (compute_features (?dp\<lparr>last_seen := r_ts r\<rparr>)) tree = Some l"
      "d = (compute_features (?dp\<lparr>last_seen := r_ts r\<rparr>))\<lparr>label := l\<rparr>"
    using assms(2) by (auto simp: flow_after_def Let_def bind_eq_Some_conv)
  have "feats_ok ?dp" by (simp add: feats_ok_def init_flow_def)
  then show ?thesis
    using exec_tail[of ?dp r tree l] l assms(1) unfolding update_instrs_def by auto
qed

subsection \<open>Schedules\<close>

inductive race_run :: "dt_tree option \<Rightarrow> (nat option \<Rightarrow> nat \<Rightarrow> bool) \<Rightarrow> nat list \<Rightarrow> race \<Rightarrow> race \<Rightarrow> bool" for tree pub where
  run_Nil: "race_run tree pub [] s s"
| run_Cons: "race_step tree pub i s s' \<Longrightarrow> race_run tree pub sched s' s'' \<Longrightarrow> race_run tree pub (i # sched) s s''"

lemma race_run_append:
  "race_run tree pub xs s s' \<Longrightarrow> race_run tree pub ys s' s'' \<Longrightarrow> race_run tree pub (xs @ ys) s s''"
  by (induction rule: race_run.induct) (auto intro: race_run.intros)

lemma race_run_one: "race_step tree pub i s s' \<Longrightarrow> race_run tree pub [i] s s'"
  by (auto intro: race_run.intros)

lemma race_run_reachable: "race_run tree pub xs s s' \<Longrightarrow> race_reachable tree pub s \<Longrightarrow> race_reachable tree pub s'"
  by (induction rule: race_run.induct) (auto intro: race_reachable.step)

lemma exec_step:
  assumes "cpu s i = Running a r (x # is)" "exec_instr tree x (r, cells s a) = Some (r', dp)"
  shows "\<exists>s'. race_step tree pub i s s' \<and> cells s' = (cells s)(a := dp) \<and> cpu s' = (cpu s)(i := Running a r' is)
     \<and> entry s' = entry s \<and> pkts s' = pkts s"
proof (cases x)
  case (Access f)
  then show ?thesis using assms race_step.access[of s i a r f "is" r' dp tree pub] by fastforce
next
  case Add_pkts
  then show ?thesis using assms race_step.add_pkts[of s i a r "is" tree pub] by fastforce
next
  case Add_bytes
  then show ?thesis using assms race_step.add_bytes[of s i a r "is" tree pub] by fastforce
next
  case Classify
  then obtain l where "length (features (cells s a)) = MAX_FEATURES" "predict_dt (cells s a) tree = Some l"
      "r' = r" "dp = (cells s a)\<lparr>label := l\<rparr>"
    using assms(2) by (auto simp: bind_eq_Some_conv split: if_splits)
  then show ?thesis
    using assms(1) Classify race_step.classify[of s i a r "is" "features (cells s a)" tree l pub] by fastforce
qed

lemma exec_run:
  assumes "cpu s i = Running a r is" "exec_instrs tree is (r, cells s a) = Some (r', dp)"
  shows "\<exists>s'. race_run tree pub (replicate (length is) i) s s' \<and> cells s' = (cells s)(a := dp)
     \<and> cpu s' = (cpu s)(i := Running a r' []) \<and> entry s' = entry s \<and> pkts s' = pkts s"
  using assms
proof (induction "is" arbitrary: s r)
  case Nil
  then show ?case by (intro exI[of _ s]) (auto intro: run_Nil)
next
  case (Cons x xs)
  obtain r1 d1 where x: "exec_instr tree x (r, cells s a) = Some (r1, d1)"
      "exec_instrs tree xs (r1, d1) = Some (r', dp)"
    using Cons.prems(2) by (auto simp: bind_eq_Some_conv)
  obtain s1 where s1: "race_step tree pub i s s1" "cells s1 = (cells s)(a := d1)"
      "cpu s1 = (cpu s)(i := Running a r1 xs)" "entry s1 = entry s" "pkts s1 = pkts s"
    using exec_step[OF Cons.prems(1) x(1)] by blast
  have "cpu s1 i = Running a r1 xs" "exec_instrs tree xs (r1, cells s1 a) = Some (r', dp)" using s1 x(2) by simp_all
  from Cons.IH[OF this] obtain s2 where "race_run tree pub (replicate (length xs) i) s1 s2" "cells s2 = (cells s1)(a := dp)"
      "cpu s2 = (cpu s1)(i := Running a r' [])" "entry s2 = entry s1" "pkts s2 = pkts s1"
    by blast
  then show ?case using s1 by (intro exI[of _ s2]) (auto intro: run_Cons)
qed

text \<open>A packet of a known flow, up to the point where the copy is ready to be published, and that of a new flow.\<close>

lemma run_to_publish:
  assumes "cpu s i = Idle" "unat len < 2 ^ 32" "entry s = Some a" "feats_ok (cells s a)"
    and "flow_after tree ts len (Some (cells s a)) = Some dp"
  shows "\<exists>s' n r. race_run tree pub (replicate n i) s s' \<and> cells s' = (cells s)(a := dp)
     \<and> cpu s' = (cpu s)(i := Running a r []) \<and> r_buf r = dp \<and> entry s' = entry s \<and> pkts s' = pkts s @ [(ts, len)]"
proof -
  let ?s1 = "s\<lparr>cpu := (cpu s)(i := Start (new_regs s ts len)), pkts := pkts s @ [(ts, len)]\<rparr>"
  let ?r = "(new_regs s ts len)\<lparr>r_buf := cells s a\<rparr>"
  let ?s2 = "?s1\<lparr>cpu := (cpu ?s1)(i := Running a ?r (update_instrs False))\<rparr>"
  have "race_step tree pub i s ?s1" by (rule receive[OF assms(1,2)])
  moreover have "race_step tree pub i ?s1 ?s2"
    using lookup_hit[of ?s1 i "new_regs s ts len" a tree pub] assms(3) by simp
  ultimately have run: "race_run tree pub [i, i] s ?s2" by (rule run_Cons[OF _ run_Cons[OF _ run_Nil]])
  obtain r' where r': "exec_instrs tree (update_instrs False) (?r, cells s a) = Some (r', dp)" "r_buf r' = dp"
    using exec_update[of "cells s a" ?r tree dp] assms(4,5) by (auto simp: new_regs_def)
  obtain s' where "race_run tree pub (replicate (length (update_instrs False)) i) ?s2 s'"
      "cells s' = (cells s)(a := dp)" "cpu s' = (cpu s)(i := Running a r' [])" "entry s' = entry s" "pkts s' = pkts s @ [(ts, len)]"
    using exec_run[of ?s2 i a ?r "update_instrs False" tree r' dp pub] r'(1) by auto
  then show ?thesis
    using race_run_append[OF run] r'(2)
    by (intro exI[of _ s'] exI[of _ "2 + length (update_instrs False)"] exI[of _ r']) simp
qed

lemma run_new_to_publish:
  assumes "cpu s i = Idle" "unat len < 2 ^ 32" "entry s = None" "pub None a"
    and "flow_after tree ts len None = Some dp"
  shows "\<exists>s' n r. race_run tree pub (replicate n i) s s' \<and> cells s' = (cells s)(a := dp)
     \<and> cpu s' = (cpu s)(i := Running a r []) \<and> r_buf r = dp \<and> entry s' = Some a \<and> pkts s' = pkts s @ [(ts, len)]"
proof -
  let ?r = "new_regs s ts len"
  let ?s1 = "s\<lparr>cpu := (cpu s)(i := Start ?r), pkts := pkts s @ [(ts, len)]\<rparr>"
  let ?s2 = "?s1\<lparr>cpu := (cpu ?s1)(i := Missing ?r)\<rparr>"
  let ?s3 = "?s2\<lparr>cells := (cells ?s2)(a := init_flow (r_ts ?r) (r_len ?r)), entry := Some a, used := insert a (used ?s2),
      cpu := (cpu ?s2)(i := Created ?r), counted := insert (r_nr ?r) (counted ?s2), weighed := insert (r_nr ?r) (weighed ?s2)\<rparr>"
  let ?q = "?r\<lparr>r_buf := init_flow ts len\<rparr>"
  let ?s4 = "?s3\<lparr>cpu := (cpu ?s3)(i := Running a ?q (update_instrs True))\<rparr>"
  have "race_step tree pub i s ?s1" by (rule receive[OF assms(1,2)])
  moreover have "race_step tree pub i ?s1 ?s2" by (rule lookup_miss) (simp_all add: assms(3))
  moreover have "race_step tree pub i ?s2 ?s3" by (rule create) (simp_all add: assms(3,4))
  moreover have "race_step tree pub i ?s3 ?s4"
    using lookup_again[of ?s3 i ?r a tree pub] by (simp add: new_regs_def)
  ultimately have run: "race_run tree pub [i, i, i, i] s ?s4"
    by (rule run_Cons[OF _ run_Cons[OF _ run_Cons[OF _ run_Cons[OF _ run_Nil]]]])
  obtain r' where r': "exec_instrs tree (update_instrs True) (?q, init_flow ts len) = Some (r', dp)" "r_buf r' = dp"
    using exec_update_new[of ?q tree dp] assms(5) by (auto simp: new_regs_def feats_ok_def init_flow_def)
  obtain s' where "race_run tree pub (replicate (length (update_instrs True)) i) ?s4 s'"
      "cells s' = (cells s)(a := dp)" "cpu s' = (cpu s)(i := Running a r' [])" "entry s' = Some a" "pkts s' = pkts s @ [(ts, len)]"
    using exec_run[of ?s4 i a ?q "update_instrs True" tree r' dp pub] r'(1) by (auto simp: new_regs_def)
  then show ?thesis
    using race_run_append[OF run] r'(2)
    by (intro exI[of _ s'] exI[of _ "4 + length (update_instrs True)"] exI[of _ r']) (simp add: numeral_eq_Suc)
qed

lemma run_publish:
  assumes "cpu s i = Running a r []" "pub (entry s) b"
  shows "\<exists>s'. race_run tree pub [i] s s' \<and> cells s' = (cells s)(b := r_buf r) \<and> entry s' = Some b
     \<and> cpu s' = (cpu s)(i := Idle) \<and> pkts s' = pkts s"
  using race_run_one[OF publish[of s i a r pub b tree]] assms by fastforce

text \<open>A processor that is not disturbed does what the sequential \<open>update_stats\<close> does: from every state, idle and with
  memory for the update, it can publish exactly the record \<^const>\<open>flow_after\<close> describes, and leaves the others as they were.\<close>

theorem race_serial:
  assumes "cpu s i = Idle" "unat len < 2 ^ 32"
    and "\<forall>a. entry s = Some a \<longrightarrow> length (features (cells s a)) = MAX_FEATURES \<and> pub (Some a) b"
    and "entry s = None \<longrightarrow> pub None a0 \<and> pub (Some a0) b"
    and "flow_after tree ts len (map_option (cells s) (entry s)) = Some dp"
  shows "\<exists>s' n. race_run tree pub (replicate n i) s s' \<and> entry s' = Some b \<and> cells s' b = dp
     \<and> cpu s' = cpu s \<and> pkts s' = pkts s @ [(ts, len)]"
proof -
  obtain s1 n a r where s1: "race_run tree pub (replicate n i) s s1" "cells s1 = (cells s)(a := dp)"
      "cpu s1 = (cpu s)(i := Running a r [])" "r_buf r = dp" "entry s1 = Some a" "pkts s1 = pkts s @ [(ts, len)]"
      and pub: "pub (Some a) b"
  proof (cases "entry s")
    case None
    then show thesis
      using run_new_to_publish[where pub = pub and a = a0 and tree = tree and dp = dp and ts = ts, OF assms(1,2) None] assms(4,5) that
      by (metis option.map_disc_iff)
  next
    case (Some a)
    then show thesis
      using run_to_publish[where pub = pub and tree = tree and dp = dp and ts = ts, OF assms(1,2) Some] assms(3,5) that
      by (metis feats_ok_def option.map(2))
  qed
  obtain s2 where s2: "race_run tree pub [i] s1 s2" "cells s2 = (cells s1)(b := r_buf r)" "entry s2 = Some b"
      "cpu s2 = (cpu s1)(i := Idle)" "pkts s2 = pkts s1"
    using run_publish[of s1 i a r pub b tree] s1 pub by fastforce
  have "cpu s2 = cpu s" using s1(3) s2(4) assms(1) by auto
  moreover have "race_run tree pub (replicate (Suc n) i) s s2"
    using race_run_append[OF s1(1) s2(1)] by (simp add: replicate_append_same[symmetric])
  ultimately show ?thesis using s1 s2 by (intro exI[of _ s2] exI[of _ "Suc n"]) simp
qed

text \<open>C8: Counts get lost: two processors that are idle while the flow has a record can both process a packet of it,
  both updates of the map succeeding, so that the published record is the one the first packet alone would have left.  This
  holds for a map that replaces elements as well as for one that overwrites them, although both additions are atomic.\<close>

theorem race_lost_update:
  assumes "i \<noteq> j" "cpu s i = Idle" "cpu s j = Idle" "entry s = Some a" "unat len < 2 ^ 32" "unat len' < 2 ^ 32"
    and "length (features (cells s a)) = MAX_FEATURES"
    and "\<forall>tr. tree = Some tr \<longrightarrow> length (nodes tr) = MAX_DT_NODES"
    and "pub (Some a) b" "pub (Some b) c"
    and "flow_after tree ts len (Some (cells s a)) = Some dp"
  shows "\<exists>s' sched. race_run tree pub sched s s' \<and> cpu s' = cpu s \<and> pkts s' = pkts s @ [(ts, len), (ts', len')]
     \<and> entry s' = Some c \<and> cells s' c = dp \<and> total_pkts (cells s' c) = total_pkts (cells s a) + 1"
proof -
  have f: "feats_ok (cells s a)" using assms(7) by (simp add: feats_ok_def)
  obtain s1 n r where s1: "race_run tree pub (replicate n i) s s1" "cells s1 = (cells s)(a := dp)"
      "cpu s1 = (cpu s)(i := Running a r [])" "r_buf r = dp" "entry s1 = entry s" "pkts s1 = pkts s @ [(ts, len)]"
    using run_to_publish[OF assms(2,5,4) f assms(11)] by blast
  have fd: "feats_ok dp" using flow_after_feats[OF assms(11)] f by simp
  then obtain l where "predict_dt (compute_features ((account_packet ts' len' dp)\<lparr>last_seen := ts'\<rparr>)) tree = Some l"
    using predict_dt_total[of tree "compute_features ((account_packet ts' len' dp)\<lparr>last_seen := ts'\<rparr>)"] assms(8)
    by (auto simp: feats_ok_def)
  then obtain dp' where dp': "flow_after tree ts' len' (Some dp) = Some dp'" by (simp add: flow_after_def Let_def)
  have "cpu s1 j = Idle" "entry s1 = Some a" "feats_ok (cells s1 a)" "flow_after tree ts' len' (Some (cells s1 a)) = Some dp'"
    using s1 assms(1,3,4) fd dp' by auto
  from run_to_publish[OF this(1) assms(6) this(2-)]
  obtain s2 m q where s2: "race_run tree pub (replicate m j) s1 s2"
      "cpu s2 = (cpu s1)(j := Running a q [])" "entry s2 = entry s1" "pkts s2 = pkts s1 @ [(ts', len')]"
    by blast
  have "cpu s2 j = Running a q []" "pub (entry s2) b" using s2 s1 assms(4,9) by auto
  from run_publish[where pub = pub and b = b, OF this] obtain s3 where s3: "race_run tree pub [j] s2 s3" "entry s3 = Some b"
      "cpu s3 = (cpu s2)(j := Idle)" "pkts s3 = pkts s2"
    by blast
  have "cpu s3 i = Running a r []" "pub (entry s3) c" using s3 s2 s1 assms(1,10) by auto
  from run_publish[where pub = pub and b = c, OF this] obtain s4 where s4: "race_run tree pub [i] s3 s4" "cells s4 = (cells s3)(c := dp)" "entry s4 = Some c"
      "cpu s4 = (cpu s3)(i := Idle)" "pkts s4 = pkts s3"
    using s1(4) by blast
  have "race_run tree pub (replicate n i @ replicate m j @ [j] @ [i]) s s4"
    using race_run_append s1(1) s2(1) s3(1) s4(1) by blast
  moreover have "cpu s4 = cpu s" using s4(4) s3(3) s2(2) s1(3) assms(1,2,3) by auto
  moreover have "total_pkts dp = total_pkts (cells s a) + 1"
    using assms(11) by (auto simp: flow_after_def Let_def bind_eq_Some_conv)
  ultimately show ?thesis using s1 s2 s3 s4 by (intro exI[of _ s4] exI) auto
qed

subsection \<open>Progress\<close>

text \<open>The accesses a processor still has to make for its packet.\<close>

fun todo :: "phase \<Rightarrow> nat" where
  "todo Idle = 0"
| "todo (Start r) = 4 + length (update_instrs False)"
| "todo (Missing r) = 3 + length (update_instrs True)"
| "todo (Created r) = 2 + length (update_instrs True)"
| "todo (Running a r is) = Suc (length is)"

lemma length_update_instrs: "length (update_instrs False) = 41" "length (update_instrs True) = 30"
  by (simp_all add: update_instrs_def account_instrs_def feature_instrs_def feature_instr_def copy_instrs_def)

lemma todo_decreases: "race_step tree pub i s s' \<Longrightarrow> cpu s i \<noteq> Idle \<Longrightarrow> todo (cpu s' i) < todo (cpu s i)"
  by (erule race_stepE) (auto simp: length_update_instrs)

lemma todo_others: "race_step tree pub j s s' \<Longrightarrow> i \<noteq> j \<Longrightarrow> cpu s' i = cpu s i"
  by (erule race_stepE) auto

lemma todo_Idle: "todo p = 0 \<longleftrightarrow> p = Idle"
  by (cases p) auto

lemma run_reaches_idle:
  "race_run tree pub sched s s' \<Longrightarrow> todo (cpu s i) \<le> count_list sched i \<Longrightarrow>
     \<exists>xs ys s1. sched = xs @ ys \<and> race_run tree pub xs s s1 \<and> race_run tree pub ys s1 s' \<and> cpu s1 i = Idle"
proof (induction rule: race_run.induct)
  case (run_Nil s)
  then show ?case by (auto simp: todo_Idle intro: race_run.run_Nil)
next
  case (run_Cons j s s1 sched s2)
  show ?case
  proof (cases "cpu s i = Idle")
    case True
    then show ?thesis
      using race_run.run_Cons[OF run_Cons.hyps] race_run.run_Nil by (metis append_Nil)
  next
    case False
    have "todo (cpu s1 i) \<le> count_list sched i"
      using run_Cons.prems todo_decreases[OF run_Cons.hyps(1)] todo_others[OF run_Cons.hyps(1), of i] False
      by (cases "j = i") auto
    from run_Cons.IH[OF this] obtain xs ys s3 where "sched = xs @ ys" "race_run tree pub xs s1 s3"
        "race_run tree pub ys s3 s2" "cpu s3 i = Idle"
      by blast
    then show ?thesis
      using race_run.run_Cons[OF run_Cons.hyps(1)] by (metis append_Cons)
  qed
qed

lemma race_can_step:
  assumes "race_ok tree s" "\<And>tr. tree = Some tr \<Longrightarrow> length (nodes tr) = MAX_DT_NODES" "cpu s i \<noteq> Idle"
  shows "\<exists>s'. race_step tree pub i s s'"
proof (cases "cpu s i")
  case (Start r)
  then show ?thesis by (cases "entry s") (blast intro: lookup_miss lookup_hit)+
next
  case (Created r)
  have "cpu_ok tree s (cpu s i)" using assms(1) by (simp add: race_ok_def)
  then show ?thesis using Created by (auto intro: lookup_again)
next
  case (Running a r xs)
  show ?thesis
  proof (cases xs)
    case (Cons x ys)
    obtain l where "predict_dt (cells s a) tree = Some l"
      using predict_dt_total[OF assms(2)] rec_ok_features[OF race_ok_running(6)[OF assms(1) Running]] by blast
    then have "exec_instr tree x (r, cells s a) \<noteq> None"
      using rec_ok_features[OF race_ok_running(6)[OF assms(1) Running]] by (cases x) auto
    then obtain r' d where "exec_instr tree x (r, cells s a) = Some (r', d)" by auto
    then show ?thesis using exec_step[of s i a r x ys tree r' d pub] Running Cons by blast
  qed (use Running publish_fails in blast)
qed (use assms(3) create_fails in blast)+

lemma todo_bound: "race_reachable tree pub s \<Longrightarrow> todo (cpu s i) \<le> 45"
proof (induction rule: race_reachable.induct)
  case (step s j s')
  show ?case
  proof (cases "j = i")
    case True
    then show ?thesis
      using step todo_decreases[of tree pub i s s']
      by (cases "cpu s i = Idle") (auto elim: race_stepE simp: length_update_instrs)
  qed (use step todo_others[of tree pub j s s' i] in simp)
qed (simp add: race_init_def)


subsection \<open>A run\<close>

text \<open>After one packet of 60 bytes, with a map that replaces its elements and no tree loaded.\<close>

definition replacing :: "nat option \<Rightarrow> nat \<Rightarrow> bool" where
  "replacing c a \<longleftrightarrow> c \<noteq> Some a"

lemma flow_after_no_tree: "\<exists>dp. flow_after None ts len old = Some dp"
  by (simp add: flow_after_def predict_dt_def Let_def)

lemma one_packet_run:
  "\<exists>s. race_reachable None replacing s \<and> entry s = Some 1 \<and> (\<forall>i. cpu s i = Idle) \<and> pkts s = [(1000, 60)]
     \<and> length (features (cells s 1)) = MAX_FEATURES"
proof -
  let ?s = "race_init (\<lambda>_. init_flow 0 0)"
  obtain dp where dp: "flow_after None 1000 60 None = Some dp" using flow_after_no_tree by blast
  obtain s1 n r where s1: "race_run None replacing (replicate n 0) ?s s1" "cpu s1 = (cpu ?s)(0 := Running 0 r [])"
      "entry s1 = Some 0" "pkts s1 = [(1000, 60)]"
    using run_new_to_publish[of ?s 0 60 replacing 0 None 1000 dp] dp by (auto simp: race_init_def replacing_def)
  obtain s2 where s2: "race_run None replacing [0] s1 s2" "entry s2 = Some 1" "cpu s2 = (cpu s1)(0 := Idle)" "pkts s2 = pkts s1"
    using run_publish[of s1 0 0 r replacing 1 None] s1 by (auto simp: replacing_def)
  have re: "race_reachable None replacing s2"
    using race_run_reachable[OF s2(1) race_run_reachable[OF s1(1) race_reachable.start]] .
  then have "length (features (cells s2 1)) = MAX_FEATURES"
    using race_reachable_ok[OF re] s2(2) by (auto simp: race_ok_def rec_ok_def)
  moreover have "cpu s2 i = Idle" for i using s1(2) s2(3) by (simp add: race_init_def)
  ultimately show ?thesis using s1 s2 re by auto
qed


theorem race_serial_witness:
  "\<exists>s s' dp n. race_reachable None replacing s \<and> flow_after None 3000 80 (Some (cells s 1)) = Some dp
     \<and> race_run None replacing (replicate n 4) s s' \<and> entry s' = Some 2 \<and> cells s' 2 = dp \<and> pkts s' = [(1000, 60), (3000, 80)]"
proof -
  obtain s where s: "race_reachable None replacing s" "entry s = Some 1" "pkts s = [(1000, 60)]" "cpu s 4 = Idle"
      "length (features (cells s 1)) = MAX_FEATURES"
    using one_packet_run by blast
  obtain dp where dp: "flow_after None 3000 80 (Some (cells s 1)) = Some dp" using flow_after_no_tree by blast
  have "\<exists>s' n. race_run None replacing (replicate n 4) s s' \<and> entry s' = Some 2 \<and> cells s' 2 = dp
     \<and> cpu s' = cpu s \<and> pkts s' = pkts s @ [(3000, 80)]"
    by (rule race_serial) (use s dp in \<open>simp_all add: replacing_def\<close>)
  then show ?thesis using s dp by auto
qed

theorem race_lost_update_witness:
  "\<exists>s s' sched. race_reachable None replacing s \<and> race_run None replacing sched s s'
     \<and> pkts s' = [(1000, 60), (3000, 80), (3100, 90)] \<and> cpu s' = (\<lambda>_. Idle) \<and> entry s' = Some 3
     \<and> total_pkts (cells s' 3) = total_pkts (cells s 1) + 1"
proof -
  obtain s where s: "race_reachable None replacing s" "entry s = Some 1" "pkts s = [(1000, 60)]" "\<And>i. cpu s i = Idle"
      "length (features (cells s 1)) = MAX_FEATURES"
    using one_packet_run by blast
  obtain dp where dp: "flow_after None 3000 80 (Some (cells s 1)) = Some dp" using flow_after_no_tree by blast
  have "\<exists>s' sched. race_run None replacing sched s s' \<and> cpu s' = cpu s \<and> pkts s' = pkts s @ [(3000, 80), (3100, 90)]
     \<and> entry s' = Some 3 \<and> cells s' 3 = dp \<and> total_pkts (cells s' 3) = total_pkts (cells s 1) + 1"
    by (rule race_lost_update[where i = 0 and j = 1 and b = 2]) (use s dp in \<open>simp_all add: replacing_def\<close>)
  moreover have "cpu s = (\<lambda>_. Idle)" using s(4) by auto
  ultimately show ?thesis using s(1,3) by auto
qed


end
