(* ===== verification/Btf.thy ===== *)
theory Btf
  imports C_Strings
begin

text \<open>
  The part of BTF (the type information that travels with a BPF object) that \<open>libxdp.c\<close> reads and
  the query functions of \<open>lib/libbpf/src/btf.c\<close>.  A \<open>btf\<close> holds its types in order; type id \<open>i \<ge> 1\<close> is
  the \<open>i\<close>-th of them and id 0 is \<open>void\<close>.  Only BTF without a base (split BTF) is modelled.  The name
  field is what \<open>btf__name_by_offset\<close> yields, with \<^const>\<open>None\<close> for an invalid string offset (\<open>NULL\<close>).

  \<open>bt_type\<close> is the referenced type, for an array its element type.

  A function whose result is an \<open>option\<close> yields \<^const>\<open>None\<close> where the C function does not return
  normally: it dereferences \<open>NULL\<close> or loops for ever on cyclic type references.
\<close>

subsection \<open>Types\<close>

datatype btf_kind = BTF_KIND_UNKN | BTF_KIND_INT | BTF_KIND_PTR | BTF_KIND_ARRAY | BTF_KIND_STRUCT
  | BTF_KIND_UNION | BTF_KIND_ENUM | BTF_KIND_FWD | BTF_KIND_TYPEDEF | BTF_KIND_VOLATILE
  | BTF_KIND_CONST | BTF_KIND_RESTRICT | BTF_KIND_FUNC | BTF_KIND_FUNC_PROTO | BTF_KIND_VAR
  | BTF_KIND_DATASEC | BTF_KIND_FLOAT | BTF_KIND_DECL_TAG | BTF_KIND_TYPE_TAG | BTF_KIND_ENUM64

record btf_member =
  m_name :: "string option"
  m_type :: nat

record btf_type =
  bt_kind :: btf_kind
  bt_name :: "string option"
  bt_size :: u32
  bt_type :: nat
  bt_nelems :: u32
  bt_members :: "btf_member list"
  bt_secinfos :: "nat list"
  bt_linkage :: nat

record btf =
  btf_types :: "btf_type list"
  btf_ptr_sz :: nat

abbreviation (input) BTF_VAR_STATIC :: nat where "BTF_VAR_STATIC \<equiv> 0"
abbreviation (input) BTF_VAR_GLOBAL_ALLOCATED :: nat where "BTF_VAR_GLOBAL_ALLOCATED \<equiv> 1"
abbreviation (input) MAX_RESOLVE_DEPTH :: nat where "MAX_RESOLVE_DEPTH \<equiv> 32"

definition btf_blank :: btf_type where
  "btf_blank = \<lparr>bt_kind = BTF_KIND_UNKN, bt_name = Some [], bt_size = 0, bt_type = 0, bt_nelems = 0,
     bt_members = [], bt_secinfos = [], bt_linkage = 0\<rparr>"

definition btf__type_cnt :: "btf \<Rightarrow> nat" where
  "btf__type_cnt b = 1 + length (btf_types b)"

definition btf__type_by_id :: "btf \<Rightarrow> nat \<Rightarrow> btf_type option" where
  "btf__type_by_id b tid =
     (if tid \<ge> btf__type_cnt b then None
      else if tid = 0 then Some btf_blank else Some (btf_types b ! (tid - 1)))"

definition btf_is_mod :: "btf_type \<Rightarrow> bool" where
  "btf_is_mod t \<longleftrightarrow> bt_kind t = BTF_KIND_VOLATILE \<or> bt_kind t = BTF_KIND_CONST
     \<or> bt_kind t = BTF_KIND_RESTRICT \<or> bt_kind t = BTF_KIND_TYPE_TAG"

text \<open>\<open>btf_type_is_void\<close> compares the pointer with that of the built-in \<open>void\<close>: the type has id 0.\<close>

definition btf_type_is_void_or_null :: "btf \<Rightarrow> nat \<Rightarrow> bool" where
  "btf_type_is_void_or_null b tid =
     (case btf__type_by_id b tid of None \<Rightarrow> True | Some t \<Rightarrow> tid = 0 \<or> bt_kind t = BTF_KIND_FWD)"

subsection \<open>Queries of libbpf\<close>

text \<open>The loop of \<open>btf__resolve_size\<close>: the number of iterations left, \<open>nelems\<close> and the type id.  The
  division by \<open>nelems\<close> is guarded, the product is a 32-bit product.\<close>

definition resolve_done :: "u32 \<Rightarrow> int \<Rightarrow> int" where
  "resolve_done nelems sz =
     (if sz < 0 then - EINVAL
      else if nelems \<noteq> 0 \<and> sz > uint (0xFFFFFFFF div nelems) then - E2BIG
      else uint nelems * sz)"

fun resolve_size_loop :: "btf \<Rightarrow> nat \<Rightarrow> u32 \<Rightarrow> nat \<Rightarrow> int" where
  "resolve_size_loop b 0 nelems type_id = resolve_done nelems (-1)"
| "resolve_size_loop b (Suc i) nelems type_id =
     (if btf_type_is_void_or_null b type_id then resolve_done nelems (-1)
      else case btf__type_by_id b type_id of
        None \<Rightarrow> resolve_done nelems (-1)
      | Some t \<Rightarrow>
          (if bt_kind t \<in> {BTF_KIND_INT, BTF_KIND_STRUCT, BTF_KIND_UNION, BTF_KIND_ENUM,
               BTF_KIND_ENUM64, BTF_KIND_DATASEC, BTF_KIND_FLOAT}
           then resolve_done nelems (uint (bt_size t))
           else if bt_kind t = BTF_KIND_PTR then resolve_done nelems (int (btf_ptr_sz b))
           else if bt_kind t \<in> {BTF_KIND_TYPEDEF, BTF_KIND_VOLATILE, BTF_KIND_CONST,
               BTF_KIND_RESTRICT, BTF_KIND_VAR, BTF_KIND_DECL_TAG, BTF_KIND_TYPE_TAG}
           then resolve_size_loop b i nelems (bt_type t)
           else if bt_kind t = BTF_KIND_ARRAY then
             (if nelems \<noteq> 0 \<and> bt_nelems t > 0xFFFFFFFF div nelems then - E2BIG
              else resolve_size_loop b i (nelems * bt_nelems t) (bt_type t))
           else - EINVAL))"

definition btf__resolve_size :: "btf \<Rightarrow> nat \<Rightarrow> int" where
  "btf__resolve_size b type_id = resolve_size_loop b MAX_RESOLVE_DEPTH 1 type_id"

fun resolve_type_loop :: "btf \<Rightarrow> nat \<Rightarrow> nat \<Rightarrow> int" where
  "resolve_type_loop b 0 type_id = - EINVAL"
| "resolve_type_loop b (Suc depth) type_id =
     (if btf_type_is_void_or_null b type_id then - EINVAL
      else case btf__type_by_id b type_id of
        None \<Rightarrow> - EINVAL
      | Some t \<Rightarrow>
          (if btf_is_mod t \<or> bt_kind t = BTF_KIND_TYPEDEF \<or> bt_kind t = BTF_KIND_VAR
           then resolve_type_loop b depth (bt_type t)
           else int type_id))"

definition btf__resolve_type :: "btf \<Rightarrow> nat \<Rightarrow> int" where
  "btf__resolve_type b type_id = resolve_type_loop b MAX_RESOLVE_DEPTH type_id"

definition btf__find_by_name :: "btf \<Rightarrow> string \<Rightarrow> int" where
  "btf__find_by_name b type_name =
     (if type_name = ''void'' then 0
      else case find (\<lambda>i. case btf__type_by_id b i of
                            Some t \<Rightarrow> bt_name t = Some type_name | None \<Rightarrow> False) [1..<btf__type_cnt b] of
             Some i \<Rightarrow> int i | None \<Rightarrow> - ENOENT)"

definition btf_find_by_name_kind :: "btf \<Rightarrow> nat \<Rightarrow> string \<Rightarrow> btf_kind \<Rightarrow> int" where
  "btf_find_by_name_kind b start_id type_name kind =
     (if kind = BTF_KIND_UNKN \<or> type_name = ''void'' then 0
      else case find (\<lambda>i. case btf__type_by_id b i of
                            Some t \<Rightarrow> bt_kind t = kind \<and> bt_name t = Some type_name | None \<Rightarrow> False)
                  [start_id..<btf__type_cnt b] of
             Some i \<Rightarrow> int i | None \<Rightarrow> - ENOENT)"

definition btf__find_by_name_kind :: "btf \<Rightarrow> string \<Rightarrow> btf_kind \<Rightarrow> int" where
  "btf__find_by_name_kind b type_name kind = btf_find_by_name_kind b 1 type_name kind"

subsection \<open>Queries of libxdp\<close>

partial_function (option) skip_mods_and_typedefs :: "btf \<Rightarrow> nat \<Rightarrow> btf_type option" where
  "skip_mods_and_typedefs b tid = do {
     t \<leftarrow> btf__type_by_id b tid;
     if btf_is_mod t \<or> bt_kind t = BTF_KIND_TYPEDEF then skip_mods_and_typedefs b (bt_type t)
     else Some t
   }"

declare skip_mods_and_typedefs.simps [code]

text \<open>\<open>get_field_int\<close>: \<^const>\<open>None\<close> is the result \<open>false\<close>, otherwise the value stored through \<open>res\<close>.\<close>

definition get_field_int :: "btf \<Rightarrow> btf_type \<Rightarrow> u32 option" where
  "get_field_int b t =
     (if bt_kind t \<noteq> BTF_KIND_PTR then None
      else case btf__type_by_id b (bt_type t) of
             None \<Rightarrow> None
           | Some arr_t \<Rightarrow> if bt_kind arr_t \<noteq> BTF_KIND_ARRAY then None else Some (bt_nelems arr_t))"

text \<open>The loop over the type ids; \<open>matches\<close> counts the functions of which \<open>func_name\<close> is a proper
  prefix and \<open>match\<close> is the last of them.\<close>

fun get_function_loop ::
  "btf \<Rightarrow> string \<Rightarrow> nat list \<Rightarrow> nat \<Rightarrow> btf_type option \<Rightarrow> btf_type option option" where
  "get_function_loop b func_name [] matches match =
     (if matches = 1 then Some match else Some None)"
| "get_function_loop b func_name (i # is) matches match = do {
     t \<leftarrow> btf__type_by_id b i;
     if bt_kind t \<noteq> BTF_KIND_FUNC then get_function_loop b func_name is matches match
     else do {
       name \<leftarrow> bt_name t;
       if take (length func_name) name = func_name then
         if length name = length func_name then Some (Some t)
         else get_function_loop b func_name is (matches + 1) (Some t)
       else get_function_loop b func_name is matches match
     }
   }"

definition btf_get_function :: "btf option \<Rightarrow> string \<Rightarrow> btf_type option option" where
  "btf_get_function bo func_name =
     (case bo of None \<Rightarrow> Some None
      | Some b \<Rightarrow> get_function_loop b func_name [1..<btf__type_cnt b] 0 None)"

fun get_datasec_loop :: "btf \<Rightarrow> string \<Rightarrow> nat list \<Rightarrow> btf_type option option" where
  "get_datasec_loop b sec_name [] = Some None"
| "get_datasec_loop b sec_name (i # is) = do {
     t \<leftarrow> btf__type_by_id b i;
     if bt_kind t \<noteq> BTF_KIND_DATASEC then get_datasec_loop b sec_name is
     else do {
       name \<leftarrow> bt_name t;
       if name = sec_name then Some (Some t) else get_datasec_loop b sec_name is
     }
   }"

definition btf_get_datasec :: "btf option \<Rightarrow> string \<Rightarrow> btf_type option option" where
  "btf_get_datasec bo sec_name =
     (case bo of None \<Rightarrow> Some None | Some b \<Rightarrow> get_datasec_loop b sec_name [1..<btf__type_cnt b])"

text \<open>\<open>btf_get_section_var\<close>: \<^const>\<open>Inl\<close> is an \<open>ERR_PTR\<close>.\<close>

fun section_var_loop :: "btf \<Rightarrow> nat list \<Rightarrow> string \<Rightarrow> btf_kind \<Rightarrow> (int + btf_type) option" where
  "section_var_loop b [] var_name kind = Some (Inl (- ENOENT))"
| "section_var_loop b (vi # vis) var_name kind = do {
     var \<leftarrow> btf__type_by_id b vi;
     name \<leftarrow> bt_name var;
     if name \<noteq> var_name then section_var_loop b vis var_name kind
     else if bt_kind var \<noteq> BTF_KIND_VAR then Some (Inl (- EINVAL))
     else if bt_linkage var \<noteq> BTF_VAR_GLOBAL_ALLOCATED \<and> bt_linkage var \<noteq> BTF_VAR_STATIC
     then Some (Inl (- EOPNOTSUPP))
     else do {
       def \<leftarrow> skip_mods_and_typedefs b (bt_type var);
       if bt_kind def \<noteq> kind then Some (Inl (- EINVAL)) else Some (Inr def)
     }
   }"

definition btf_get_section_var ::
  "btf \<Rightarrow> btf_type \<Rightarrow> string \<Rightarrow> btf_kind \<Rightarrow> (int + btf_type) option" where
  "btf_get_section_var b sec var_name kind = section_var_loop b (bt_secinfos sec) var_name kind"

subsection \<open>Sizes of types\<close>

definition has_own_size :: "btf_kind \<Rightarrow> bool" where
  "has_own_size k \<longleftrightarrow> k \<in> {BTF_KIND_INT, BTF_KIND_STRUCT, BTF_KIND_UNION, BTF_KIND_ENUM, BTF_KIND_ENUM64,
     BTF_KIND_DATASEC, BTF_KIND_FLOAT}"

definition is_reference :: "btf_kind \<Rightarrow> bool" where
  "is_reference k \<longleftrightarrow> k \<in> {BTF_KIND_TYPEDEF, BTF_KIND_VOLATILE, BTF_KIND_CONST, BTF_KIND_RESTRICT,
     BTF_KIND_VAR, BTF_KIND_DECL_TAG, BTF_KIND_TYPE_TAG}"

text \<open>\<open>sized b i n s\<close>: following \<open>n\<close> references from type \<open>i\<close> reaches a type with a size, and \<open>s\<close> is that
  size times the lengths of the arrays on the way, as an integer without a bound.\<close>

inductive sized :: "btf \<Rightarrow> nat \<Rightarrow> nat \<Rightarrow> int \<Rightarrow> bool" for b where
  own: "btf__type_by_id b i = Some t \<Longrightarrow> i \<noteq> 0 \<Longrightarrow> has_own_size (bt_kind t) \<Longrightarrow> sized b i 0 (uint (bt_size t))"
| ptr: "btf__type_by_id b i = Some t \<Longrightarrow> i \<noteq> 0 \<Longrightarrow> bt_kind t = BTF_KIND_PTR \<Longrightarrow> sized b i 0 (int (btf_ptr_sz b))"
| ref: "btf__type_by_id b i = Some t \<Longrightarrow> i \<noteq> 0 \<Longrightarrow> is_reference (bt_kind t) \<Longrightarrow> sized b (bt_type t) n s
        \<Longrightarrow> sized b i (Suc n) s"
| arr: "btf__type_by_id b i = Some t \<Longrightarrow> i \<noteq> 0 \<Longrightarrow> bt_kind t = BTF_KIND_ARRAY \<Longrightarrow> sized b (bt_type t) n s
        \<Longrightarrow> sized b i (Suc n) (uint (bt_nelems t) * s)"

lemma guard_bound:
  fixes m :: u32
  assumes "m \<noteq> 0" and "s \<le> uint (0xFFFFFFFF div m)"
  shows "uint m * s < 2 ^ 32"
proof -
  have pos: "uint m > 0" using assms(1) by (simp add: word_neq_0_conv word_less_def)
  have "s \<le> 0xFFFFFFFF div uint m" using assms(2) by (simp add: uint_div)
  then have "s * uint m \<le> (0xFFFFFFFF div uint m) * uint m"
    by (rule mult_right_mono) simp
  also have "\<dots> = 0xFFFFFFFF - 0xFFFFFFFF mod uint m"
    by (metis minus_mod_eq_div_mult)
  also have "\<dots> \<le> 0xFFFFFFFF" using pos by simp
  finally show ?thesis by (simp add: mult.commute)
qed

lemma uint_mult_guard:
  fixes m n :: u32
  assumes "\<not> (m \<noteq> 0 \<and> n > 0xFFFFFFFF div m)"
  shows "uint (m * n) = uint m * uint n"
proof (cases "m = 0")
  case False
  with assms have "uint n \<le> uint (0xFFFFFFFF div m)" by (simp add: word_le_def not_less)
  from guard_bound[OF False this] show ?thesis
    by (simp add: uint_word_ariths)
qed simp

lemma resolve_done_size:
  assumes "0 \<le> s"
  shows "resolve_done m s = - E2BIG \<or> (resolve_done m s = uint m * s \<and> uint m * s < 2 ^ 32)"
  using assms guard_bound[of m s] by (cases "m = 0") (auto simp: resolve_done_def not_less)

lemma sized_nonneg: "sized b i n s \<Longrightarrow> 0 \<le> s"
  by (induction rule: sized.induct) auto

lemma kind_cases:
  obtains "has_own_size k" | "k = BTF_KIND_PTR" | "is_reference k" | "k = BTF_KIND_ARRAY" 
    | "\<not> has_own_size k" "k \<noteq> BTF_KIND_PTR" "\<not> is_reference k" "k \<noteq> BTF_KIND_ARRAY"
  by blast

text \<open>The loop step by step, by the kind of the type.\<close>

lemma resolve_loop_step:
  "resolve_size_loop b (Suc i) m tid =
     (case btf__type_by_id b tid of
        None \<Rightarrow> - EINVAL
      | Some t \<Rightarrow>
          if tid = 0 then - EINVAL
          else if has_own_size (bt_kind t) then resolve_done m (uint (bt_size t))
          else if bt_kind t = BTF_KIND_PTR then resolve_done m (int (btf_ptr_sz b))
          else if is_reference (bt_kind t) then resolve_size_loop b i m (bt_type t)
          else if bt_kind t = BTF_KIND_ARRAY then
            (if m \<noteq> 0 \<and> bt_nelems t > 0xFFFFFFFF div m then - E2BIG
             else resolve_size_loop b i (m * bt_nelems t) (bt_type t))
          else - EINVAL)"
  by (auto simp: btf_type_is_void_or_null_def has_own_size_def is_reference_def resolve_done_def
      split: option.split)

lemma own_size_disjoint [simp]:
  "\<not> has_own_size BTF_KIND_PTR" "\<not> has_own_size BTF_KIND_ARRAY" "\<not> is_reference BTF_KIND_ARRAY"
  "is_reference k \<Longrightarrow> \<not> has_own_size k" "is_reference k \<Longrightarrow> k \<noteq> BTF_KIND_PTR"
  by (auto simp: has_own_size_def is_reference_def)

lemma resolve_loop_sound:
  "0 \<le> resolve_size_loop b k m tid \<Longrightarrow>
   \<exists>n<k. \<exists>s. sized b tid n s \<and> resolve_size_loop b k m tid = uint m * s \<and> uint m * s < 2 ^ 32"
proof (induction k arbitrary: m tid)
  case 0
  then show ?case by (simp add: resolve_done_def)
next
  case (Suc k)
  from Suc.prems obtain t where t: "btf__type_by_id b tid = Some t" "tid \<noteq> 0"
    unfolding resolve_loop_step by (auto split: option.splits if_splits)
  show ?case
  proof (cases rule: kind_cases[of "bt_kind t"])
    case 1
    then show ?thesis
      using Suc.prems t resolve_done_size[of "uint (bt_size t)" m] sized.own[OF t 1]
      unfolding resolve_loop_step by auto
  next
    case 2
    then show ?thesis
      using Suc.prems t resolve_done_size[of "int (btf_ptr_sz b)" m] sized.ptr[OF t 2]
      unfolding resolve_loop_step by auto
  next
    case 3
    then have eq: "resolve_size_loop b (Suc k) m tid = resolve_size_loop b k m (bt_type t)"
      using t unfolding resolve_loop_step by auto
    then show ?thesis
      using Suc.IH[of m "bt_type t"] Suc.prems sized.ref[OF t 3] by auto
  next
    case 4
    have g: "\<not> (m \<noteq> 0 \<and> bt_nelems t > 0xFFFFFFFF div m)"
      using Suc.prems t 4 unfolding resolve_loop_step by (auto split: if_splits)
    then have eq: "resolve_size_loop b (Suc k) m tid = resolve_size_loop b k (m * bt_nelems t) (bt_type t)"
      using t 4 unfolding resolve_loop_step by auto
    then show ?thesis
      using Suc.IH[of "m * bt_nelems t" "bt_type t"] Suc.prems sized.arr[OF t 4] uint_mult_guard[OF g]
      by (auto simp: mult.assoc)
  next
    case 5
    then show ?thesis using Suc.prems t unfolding resolve_loop_step by auto
  qed
qed

lemma resolve_loop_complete:
  "sized b tid n s \<Longrightarrow> n < k \<Longrightarrow>
   resolve_size_loop b k m tid = - E2BIG \<or> resolve_size_loop b k m tid = uint m * s"
proof (induction arbitrary: k m rule: sized.induct)
  case (own i t)
  then obtain j where "k = Suc j" by (cases k) auto
  then show ?case using own.hyps resolve_done_size[of "uint (bt_size t)" m]
    by (auto simp: resolve_loop_step simp del: resolve_size_loop.simps)
next
  case (ptr i t)
  then obtain j where "k = Suc j" by (cases k) auto
  then show ?case using ptr.hyps resolve_done_size[of "int (btf_ptr_sz b)" m]
    by (auto simp: resolve_loop_step simp del: resolve_size_loop.simps)
next
  case (ref i t n s)
  then obtain j where k: "k = Suc j" "n < j" by (cases k) auto
  have "resolve_size_loop b k m i = resolve_size_loop b j m (bt_type t)"
    unfolding k resolve_loop_step using ref.hyps by simp
  then show ?case using ref.IH[OF k(2)] by simp
next
  case (arr i t n s)
  then obtain j where k: "k = Suc j" "n < j" by (cases k) auto
  show ?case
  proof (cases "m \<noteq> 0 \<and> bt_nelems t > 0xFFFFFFFF div m")
    case True
    then show ?thesis unfolding k resolve_loop_step using arr.hyps by simp
  next
    case False
    then have "resolve_size_loop b k m i = resolve_size_loop b j (m * bt_nelems t) (bt_type t)"
      unfolding k resolve_loop_step using arr.hyps by auto
    then show ?thesis using arr.IH[OF k(2), of "m * bt_nelems t"] uint_mult_guard[OF False]
      by (simp add: mult.assoc)
  qed
qed

subsection \<open>Property\<close>


definition int_array_btf :: btf where
  "int_array_btf = \<lparr>btf_types = [btf_blank\<lparr>bt_kind := BTF_KIND_INT, bt_size := 4\<rparr>,
     btf_blank\<lparr>bt_kind := BTF_KIND_ARRAY, bt_type := 1, bt_nelems := 10\<rparr>], btf_ptr_sz = 8\<rparr>"


end
