(* ===== verification/Comparators.thy ===== *)
theory Comparators
  imports "HOL-Library.Multiset" Xdp_Prelude
begin

text \<open>
  C comparison functions and \<open>qsort\<close>.  The locale \<open>comparator\<close> states what \<open>qsort\<close> needs of a comparison
  function on the elements of the array; comparison functions are built from keys by lexicographic
  composition, as the C code does with its chains of early returns.  The C standard fixes the result
  of \<open>qsort\<close> only up to the order of equal elements, so a sorting function with the laws of the locale
  \<open>qsort\<close> is a parameter of its callers; insertion sort is an instance.
\<close>

locale comparator =
  fixes S :: "'a set" and f :: "'a \<Rightarrow> 'a \<Rightarrow> int"
  assumes flip: "a \<in> S \<Longrightarrow> b \<in> S \<Longrightarrow> f b a = - f a b"
    and trans_le: "a \<in> S \<Longrightarrow> b \<in> S \<Longrightarrow> c \<in> S \<Longrightarrow> f a b \<le> 0 \<Longrightarrow> f b c \<le> 0 \<Longrightarrow> f a c \<le> 0"
begin

lemma refl0: "a \<in> S \<Longrightarrow> f a a = 0"
  using flip[of a a] by simp

lemma total_le: "a \<in> S \<Longrightarrow> b \<in> S \<Longrightarrow> f a b \<le> 0 \<or> f b a \<le> 0"
  using flip[of a b] by auto

lemma eq_subst_le: "a \<in> S \<Longrightarrow> b \<in> S \<Longrightarrow> c \<in> S \<Longrightarrow> f a b = 0 \<Longrightarrow> f b c = 0 \<Longrightarrow> f a c = 0"
  using trans_le[of a b c] trans_le[of c b a] flip[of a b] flip[of b c] flip[of a c] by auto

end

definition lex :: "int \<Rightarrow> int \<Rightarrow> int" where
  "lex c d = (if c \<noteq> 0 then c else d)"

definition cmp_key :: "('a \<Rightarrow> 'b::linorder) \<Rightarrow> 'a \<Rightarrow> 'a \<Rightarrow> int" where
  "cmp_key k a b = (if k a < k b then -1 else if k b < k a then 1 else 0)"

lemma comparator_key: "comparator S (cmp_key k)"
  by unfold_locales (auto simp: cmp_key_def split: if_splits)

lemma comparator_lex:
  assumes "comparator S f" and "comparator S g"
  shows "comparator S (\<lambda>a b. lex (f a b) (g a b))"
proof unfold_locales
  fix a b assume "a \<in> S" "b \<in> S"
  then show "lex (f b a) (g b a) = - lex (f a b) (g a b)"
    using comparator.flip[OF assms(1), of a b] comparator.flip[OF assms(2), of a b] by (simp add: lex_def)
next
  fix a b c
  assume S: "a \<in> S" "b \<in> S" "c \<in> S"
    and ab: "lex (f a b) (g a b) \<le> 0" and bc: "lex (f b c) (g b c) \<le> 0"
  have f: "f a b \<le> 0" "f b c \<le> 0" using ab bc by (auto simp: lex_def split: if_splits)
  have fac: "f a c \<le> 0" by (rule comparator.trans_le[OF assms(1) S f])
  show "lex (f a c) (g a c) \<le> 0"
  proof (cases "f a c = 0")
    case True
    then have "f c a \<le> 0" using comparator.flip[OF assms(1), of a c] S by simp
    then have "f b a \<le> 0" "f c b \<le> 0"
      using comparator.trans_le[OF assms(1), of b c a] comparator.trans_le[OF assms(1), of c a b] S f by auto
    then have "f a b = 0" "f b c = 0"
      using comparator.flip[OF assms(1), of a b] comparator.flip[OF assms(1), of b c] S f by auto
    with ab bc True show ?thesis
      using comparator.trans_le[OF assms(2) S] by (simp add: lex_def)
  next
    case False
    with fac show ?thesis by (simp add: lex_def)
  qed
qed

lemma comparator_cong:
  assumes "comparator S f" and "\<And>a b. a \<in> S \<Longrightarrow> b \<in> S \<Longrightarrow> g a b = f a b"
  shows "comparator S g"
proof unfold_locales
  fix a b assume "a \<in> S" "b \<in> S"
  then show "g b a = - g a b" using assms(2) comparator.flip[OF assms(1), of a b] by simp
next
  fix a b c assume "a \<in> S" "b \<in> S" "c \<in> S" "g a b \<le> 0" "g b c \<le> 0"
  then show "g a c \<le> 0" using assms(2) comparator.trans_le[OF assms(1), of a b c] by simp
qed

lemma comparator_subset: "comparator S f \<Longrightarrow> T \<subseteq> S \<Longrightarrow> comparator T f"
  unfolding comparator_def by blast

lemma comparator_map: "comparator T f \<Longrightarrow> (\<And>x. x \<in> S \<Longrightarrow> k x \<in> T) \<Longrightarrow> comparator S (\<lambda>a b. f (k a) (k b))"
  unfolding comparator_def by blast

lemma comparator_strictI:
  assumes "\<And>a b. f b a = - f a b" and "\<And>a b. f a b = (0::int) \<longleftrightarrow> a = b"
    and "\<And>a b c. f a b < 0 \<Longrightarrow> f b c < 0 \<Longrightarrow> f a c < 0"
  shows "comparator S f"
proof unfold_locales
  fix a b c assume "f a b \<le> 0" "f b c \<le> 0"
  then show "f a c \<le> 0"
    using assms(2)[of a b] assms(2)[of b c] assms(3)[of a b c] by (cases "a = b"; cases "b = c") auto
qed (rule assms(1))

locale qsort =
  fixes qsort :: "('a \<Rightarrow> 'a \<Rightarrow> int) \<Rightarrow> 'a list \<Rightarrow> 'a list"
  assumes perm: "mset (qsort f xs) = mset xs"
    and ordered: "comparator (set xs) f \<Longrightarrow> sorted_wrt (\<lambda>a b. f a b \<le> 0) (qsort f xs)"
begin

lemma set_qsort: "set (qsort f xs) = set xs"
  using perm[of f xs] by (metis set_mset_mset)

lemma length_qsort: "length (qsort f xs) = length xs"
  using perm[of f xs] by (metis size_mset)

end

fun insert_by :: "('a \<Rightarrow> 'a \<Rightarrow> int) \<Rightarrow> 'a \<Rightarrow> 'a list \<Rightarrow> 'a list" where
  "insert_by f x [] = [x]"
| "insert_by f x (y # ys) = (if f x y \<le> 0 then x # y # ys else y # insert_by f x ys)"

definition isort_by :: "('a \<Rightarrow> 'a \<Rightarrow> int) \<Rightarrow> 'a list \<Rightarrow> 'a list" where
  "isort_by f xs = foldr (insert_by f) xs []"

lemma mset_insert_by [simp]: "mset (insert_by f x ys) = add_mset x (mset ys)"
  by (induction ys) auto

lemma set_insert_by [simp]: "set (insert_by f x ys) = insert x (set ys)"
  by (induction ys) auto

lemma mset_isort_by: "mset (isort_by f xs) = mset xs"
  by (induction xs) (auto simp: isort_by_def)

lemma sorted_insert_by:
  assumes "comparator S f" and "insert x (set ys) \<subseteq> S" and "sorted_wrt (\<lambda>a b. f a b \<le> 0) ys"
  shows "sorted_wrt (\<lambda>a b. f a b \<le> 0) (insert_by f x ys)"
  using assms(2,3)
proof (induction ys)
  case (Cons y ys)
  then have S: "x \<in> S" "y \<in> S" "set ys \<subseteq> S" and y: "\<forall>z\<in>set ys. f y z \<le> 0"
    and ys: "sorted_wrt (\<lambda>a b. f a b \<le> 0) ys" by auto
  show ?case
  proof (cases "f x y \<le> 0")
    case True
    then have "\<forall>z\<in>set ys. f x z \<le> 0"
      using comparator.trans_le[OF assms(1) S(1,2)] S(3) y by blast
    with True y ys show ?thesis by simp
  next
    case False
    then have "f y x \<le> 0" using comparator.total_le[OF assms(1) S(1,2)] by simp
    with False y Cons.IH S ys show ?thesis by simp
  qed
qed simp

lemma sorted_isort_by:
  assumes "comparator (set xs) f"
  shows "sorted_wrt (\<lambda>a b. f a b \<le> 0) (isort_by f xs)"
proof -
  have "set ys \<subseteq> set xs \<Longrightarrow> sorted_wrt (\<lambda>a b. f a b \<le> 0) (foldr (insert_by f) ys [])
        \<and> set (foldr (insert_by f) ys []) = set ys" for ys
  proof (induction ys)
    case (Cons y ys)
    then have "sorted_wrt (\<lambda>a b. f a b \<le> 0) (foldr (insert_by f) ys [])"
      and "set (foldr (insert_by f) ys []) = set ys" by simp_all
    with Cons.prems show ?case using sorted_insert_by[OF assms, of y "foldr (insert_by f) ys []"] by simp
  qed simp
  then show ?thesis by (simp add: isort_by_def)
qed

interpretation isort: qsort isort_by
  by unfold_locales (simp_all add: mset_isort_by sorted_isort_by)

end
