(* ===== verification/Xdp_Program.thy ===== *)
theory Xdp_Program
  imports Btf Comparators
begin

text \<open>
  \<open>struct xdp_program\<close> of \<open>lib/xdp-tools/lib/libxdp/libxdp.c\<close>: its attributes and their accessors, the
  run configuration read from BTF, the printing of the chain-call actions and the order in which
  programs run.  A pointer argument that may be \<open>NULL\<close> or an \<open>ERR_PTR\<close> is an option.  Of the libbpf
  object behind an unloaded program only the attributes the code reads are kept, and a handle that
  names it in calls to libbpf.
\<close>

subsection \<open>State\<close>

record bpf_program =
  bp_handle :: nat
  bp_name :: string
  bp_type :: nat
  bp_insn_cnt :: nat
  bp_flags :: u32

record xdp_program =
  bpf_prog :: "bpf_program option"
  bpf_obj :: "nat option"
  prog_btf :: "btf option"
  prog_type :: nat
  prog_fd :: int
  link_fd :: int
  prog_name :: "string option"
  attach_name :: "string option"
  prog_tag :: "u8 list"
  prog_id :: u32
  load_time :: u64
  from_external_obj :: bool
  is_frags :: bool
  run_prio :: u32
  chain_call_actions :: u32

abbreviation (input) XDP_DEFAULT_RUN_PRIO :: u32 where "XDP_DEFAULT_RUN_PRIO \<equiv> 50"
abbreviation (input) XDP_DEFAULT_CHAIN_CALL_ACTIONS :: u32 where "XDP_DEFAULT_CHAIN_CALL_ACTIONS \<equiv> 4"
abbreviation (input) XDP_DISPATCHER_RETVAL :: nat where "XDP_DISPATCHER_RETVAL \<equiv> 31"
abbreviation (input) BPF_F_XDP_HAS_FRAGS :: u32 where "BPF_F_XDP_HAS_FRAGS \<equiv> 32"

definition xdp_program__new :: xdp_program where
  "xdp_program__new = \<lparr>bpf_prog = None, bpf_obj = None, prog_btf = None, prog_type = 0, prog_fd = -1, link_fd = -1, prog_name = None,
     attach_name = None, prog_tag = replicate 8 0, prog_id = 0, load_time = 0, from_external_obj = False, is_frags = False,
     run_prio = XDP_DEFAULT_RUN_PRIO, chain_call_actions = XDP_DEFAULT_CHAIN_CALL_ACTIONS\<rparr>"

subsection \<open>Attributes\<close>

definition xdp_program__set_chain_call_enabled ::
  "xdp_program option \<Rightarrow> nat \<Rightarrow> bool \<Rightarrow> int \<times> xdp_program option" where
  "xdp_program__set_chain_call_enabled prog action enabled =
     (case prog of
        None \<Rightarrow> (- EINVAL, prog)
      | Some p \<Rightarrow>
          if prog_fd p \<ge> 0 \<or> action \<ge> XDP_DISPATCHER_RETVAL then (- EINVAL, prog)
          else if enabled
          then (0, Some (p\<lparr>chain_call_actions := chain_call_actions p OR push_bit action 1\<rparr>))
          else (0, Some (p\<lparr>chain_call_actions := chain_call_actions p AND NOT (push_bit action 1)\<rparr>)))"

definition xdp_program__chain_call_enabled :: "xdp_program option \<Rightarrow> nat \<Rightarrow> bool" where
  "xdp_program__chain_call_enabled prog action =
     (case prog of
        None \<Rightarrow> False
      | Some p \<Rightarrow>
          if action \<ge> XDP_DISPATCHER_RETVAL then False
          else chain_call_actions p AND push_bit action 1 \<noteq> 0)"

definition xdp_program__run_prio :: "xdp_program option \<Rightarrow> u32" where
  "xdp_program__run_prio prog = (case prog of None \<Rightarrow> XDP_DEFAULT_RUN_PRIO | Some p \<Rightarrow> run_prio p)"

definition xdp_program__set_run_prio ::
  "xdp_program option \<Rightarrow> u32 \<Rightarrow> int \<times> xdp_program option" where
  "xdp_program__set_run_prio prog prio =
     (case prog of
        None \<Rightarrow> (- EINVAL, prog)
      | Some p \<Rightarrow> if prog_fd p \<ge> 0 then (- EINVAL, prog) else (0, Some (p\<lparr>run_prio := prio\<rparr>)))"

definition xdp_program__xdp_frags_support :: "xdp_program option \<Rightarrow> bool" where
  "xdp_program__xdp_frags_support prog =
     (case prog of
        None \<Rightarrow> False
      | Some p \<Rightarrow>
          (case bpf_prog p of
             None \<Rightarrow> is_frags p
           | Some bp \<Rightarrow> if prog_fd p \<ge> 0 then is_frags p else bp_flags bp AND BPF_F_XDP_HAS_FRAGS \<noteq> 0))"

text \<open>\<open>bpf_program__set_flags\<close> is libbpf's: its result is the argument \<open>ret\<close>, and it stores the flags
  when that is 0.\<close>

definition xdp_program__set_xdp_frags_support ::
  "int \<Rightarrow> xdp_program option \<Rightarrow> bool \<Rightarrow> int \<times> xdp_program option" where
  "xdp_program__set_xdp_frags_support ret prog frags =
     (case prog of
        None \<Rightarrow> (- EINVAL, prog)
      | Some p \<Rightarrow>
          (case bpf_prog p of
             None \<Rightarrow> (- EINVAL, prog)
           | Some bp \<Rightarrow>
               if prog_fd p \<ge> 0 then (- EINVAL, prog)
               else
                 let prog_flags = (if frags then bp_flags bp OR BPF_F_XDP_HAS_FRAGS
                                   else bp_flags bp AND NOT BPF_F_XDP_HAS_FRAGS)
                 in if ret = 0
                    then (ret, Some (p\<lparr>bpf_prog := Some (bp\<lparr>bp_flags := prog_flags\<rparr>), is_frags := frags\<rparr>))
                    else (ret, prog)))"

definition xdp_program__id :: "xdp_program option \<Rightarrow> u32" where
  "xdp_program__id prog = (case prog of None \<Rightarrow> 0 | Some p \<Rightarrow> prog_id p)"

definition xdp_program__fd :: "xdp_program option \<Rightarrow> int" where
  "xdp_program__fd prog = (case prog of None \<Rightarrow> -1 | Some p \<Rightarrow> prog_fd p)"

definition xdp_action_names :: "string list" where
  "xdp_action_names = [''XDP_ABORTED'', ''XDP_DROP'', ''XDP_PASS'', ''XDP_TX'', ''XDP_REDIRECT'']"

fun get_xdp_action_loop :: "string \<Rightarrow> string list \<Rightarrow> nat \<Rightarrow> nat option" where
  "get_xdp_action_loop act_name [] i = None"
| "get_xdp_action_loop act_name (n # ns) i =
     (if strcmp act_name n = 0 then Some i else get_xdp_action_loop act_name ns (i + 1))"

definition get_xdp_action :: "string \<Rightarrow> nat option" where
  "get_xdp_action act_name = get_xdp_action_loop act_name xdp_action_names 0"

subsection \<open>Printing the chain-call actions\<close>

text \<open>The loop over the actions, with \<open>pos\<close> as an index into the caller's buffer.  \<^const>\<open>None\<close> is a
  write outside the buffer.\<close>

fun print_actions_loop ::
  "xdp_program \<Rightarrow> nat list \<Rightarrow> char list \<Rightarrow> nat \<Rightarrow> nat \<Rightarrow> bool \<Rightarrow> (int \<times> char list) option" where
  "print_actions_loop prog [] buf pos buf_len first = Some (0, buf)"
| "print_actions_loop prog (i # is) buf pos buf_len first =
     (if xdp_program__chain_call_enabled (Some prog) i then
        if \<not> first \<and> buf_len = 0 then do {
          buf \<leftarrow> put_char buf pos NUL;
          Some (- ENOSPC, buf)
        }
        else do {
          (buf, pos, buf_len) \<leftarrow>
            (if first then Some (buf, pos, buf_len)
             else do { buf \<leftarrow> put_char buf pos (CHR 0x2C); Some (buf, pos + 1, buf_len - 1) });
          buf \<leftarrow> snprintf_at buf pos buf_len (xdp_action_names ! i);
          if length (xdp_action_names ! i) \<ge> buf_len then do {
            buf \<leftarrow> put_char buf pos NUL;
            Some (- ENOSPC, buf)
          }
          else print_actions_loop prog is buf (pos + length (xdp_action_names ! i))
                 (buf_len - length (xdp_action_names ! i)) False
        }
      else print_actions_loop prog is buf pos buf_len first)"

definition xdp_program__print_chain_call_actions ::
  "xdp_program option \<Rightarrow> char list option \<Rightarrow> (int \<times> char list option) option" where
  "xdp_program__print_chain_call_actions prog buf =
     (case (prog, buf) of
        (Some p, Some b) \<Rightarrow>
          if length b = 0 then Some (- EINVAL, buf)
          else do {
            (r, b) \<leftarrow> print_actions_loop p [0..<5] b 0 (length b) True;
            Some (r, Some b)
          }
      | _ \<Rightarrow> Some (- EINVAL, buf))"

subsection \<open>The run configuration in BTF\<close>

fun parse_members ::
  "btf \<Rightarrow> btf_member list \<Rightarrow> xdp_program \<Rightarrow> (int \<times> xdp_program) option" where
  "parse_members b [] p = Some (0, p)"
| "parse_members b (m # ms) p =
     (case m_name m of
        None \<Rightarrow> Some (- EINVAL, p)
      | Some mname \<Rightarrow> do {
          m_t \<leftarrow> skip_mods_and_typedefs b (m_type m);
          if mname = ''priority'' then
            (case get_field_int b m_t of
               None \<Rightarrow> Some (- EINVAL, p)
             | Some v \<Rightarrow> parse_members b ms (p\<lparr>run_prio := v\<rparr>))
          else
            (case get_xdp_action mname of
               None \<Rightarrow> Some (- EOPNOTSUPP, p)
             | Some act \<Rightarrow>
                 (case get_field_int b m_t of
                    None \<Rightarrow> Some (- EINVAL, p)
                  | Some v \<Rightarrow>
                      (case snd (xdp_program__set_chain_call_enabled (Some p) act (v \<noteq> 0)) of
                         None \<Rightarrow> None
                       | Some p \<Rightarrow> parse_members b ms p)))
        })"

text \<open>\<open>strdup_ok\<close> is whether the allocation for an expanded program name succeeds.\<close>

definition xdp_program__parse_btf ::
  "bool \<Rightarrow> xdp_program \<Rightarrow> btf option \<Rightarrow> (int \<times> xdp_program) option" where
  "xdp_program__parse_btf strdup_ok p btf_arg = do {
     let bo = (case btf_arg of None \<Rightarrow> prog_btf p | Some b \<Rightarrow> Some b);
     name \<leftarrow> prog_name p;
     r \<leftarrow> (if length name \<ge> 16 - 1 then do {
              func \<leftarrow> btf_get_function bo name;
              case func of
                None \<Rightarrow> Some (0, p)
              | Some f \<Rightarrow> do {
                  fname \<leftarrow> bt_name f;
                  if strdup_ok then Some (0, p\<lparr>prog_name := Some fname\<rparr>) else Some (- ENOMEM, p)
                }
            }
            else Some (0, p));
     let (err, p) = r;
     if err \<noteq> 0 then Some (err, p)
     else do {
       name \<leftarrow> prog_name p;
       let struct_name = CHR 0x5F # name;
       let err = try_snprintf 100 struct_name;
       if err \<noteq> 0 then Some (err, p)
       else do {
         seco \<leftarrow> btf_get_datasec bo ''.xdp_run_config'';
         case (seco, bo) of
           (Some sec, Some b) \<Rightarrow> do {
             v \<leftarrow> btf_get_section_var b sec struct_name BTF_KIND_STRUCT;
             case v of
               Inl e \<Rightarrow> Some (e, p)
             | Inr def \<Rightarrow> parse_members b (bt_members def) p
           }
         | _ \<Rightarrow> Some (- ENOENT, p)
       }
     }
   }"

subsection \<open>Run order\<close>

text \<open>\<^const>\<open>None\<close> where \<open>strcmp\<close> would read a name that is not set.\<close>

definition cmp_xdp_programs :: "xdp_program \<Rightarrow> xdp_program \<Rightarrow> int option" where
  "cmp_xdp_programs a b =
     (if run_prio a \<noteq> run_prio b then Some (if run_prio a < run_prio b then -1 else 1)
      else do {
        na \<leftarrow> prog_name a;
        nb \<leftarrow> prog_name b;
        let cmp = strcmp na nb;
        if cmp \<noteq> 0 then Some cmp
        else if prog_fd a \<ge> 0 \<and> prog_fd b < 0 then Some (-1)
        else if prog_fd a < 0 \<and> prog_fd b \<ge> 0 then Some 1
        else
          let sizes = (case (bpf_prog a, bpf_prog b) of
                         (Some x, Some y) \<Rightarrow>
                           if bp_insn_cnt x \<noteq> bp_insn_cnt y
                           then Some (if bp_insn_cnt x < bp_insn_cnt y then -1 else 1) else None
                       | _ \<Rightarrow> None)
          in case sizes of
               Some c \<Rightarrow> Some c
             | None \<Rightarrow>
                 let cmp = memcmp (prog_tag a) (prog_tag b)
                 in if cmp \<noteq> 0 then Some cmp
                    else if load_time a \<noteq> load_time b
                    then Some (if load_time a < load_time b then -1 else 1)
                    else Some 0
      })"

subsection \<open>Lemmas: run order\<close>

text \<open>The comparison on programs whose names are set, as a chain of comparisons by keys.  The size
  comparison applies only when both programs still have their libbpf object.\<close>

definition cmp_val :: "xdp_program \<Rightarrow> xdp_program \<Rightarrow> int" where
  "cmp_val a b = (case cmp_xdp_programs a b of Some c \<Rightarrow> c | None \<Rightarrow> 0)"

definition named :: "xdp_program \<Rightarrow> bool" where
  "named p \<longleftrightarrow> prog_name p \<noteq> None"

definition name_of :: "xdp_program \<Rightarrow> string" where
  "name_of p = (case prog_name p of Some n \<Rightarrow> n | None \<Rightarrow> [])"

definition insns_of :: "xdp_program \<Rightarrow> nat" where
  "insns_of p = (case bpf_prog p of Some b \<Rightarrow> bp_insn_cnt b | None \<Rightarrow> 0)"

definition cmp_chain :: "xdp_program \<Rightarrow> xdp_program \<Rightarrow> int" where
  "cmp_chain a b =
     lex (cmp_key run_prio a b) (lex (strcmp (name_of a) (name_of b))
       (lex (cmp_key (\<lambda>p. prog_fd p < 0) a b) (lex (cmp_key insns_of a b)
         (lex (memcmp (prog_tag a) (prog_tag b)) (cmp_key load_time a b)))))"

text \<open>Programs that all have, or all lack, their libbpf object.\<close>

definition same_origin :: "xdp_program set \<Rightarrow> bool" where
  "same_origin S \<longleftrightarrow> (\<forall>p\<in>S. bpf_prog p = None) \<or> (\<forall>p\<in>S. bpf_prog p \<noteq> None)"

lemma cmp_xdp_programs_named:
  assumes "named a" and "named b"
  shows "cmp_xdp_programs a b = Some (cmp_val a b)"
proof -
  obtain na nb where "prog_name a = Some na" "prog_name b = Some nb"
    using assms by (auto simp: named_def)
  then have "cmp_xdp_programs a b \<noteq> None"
    by (simp add: cmp_xdp_programs_def Let_def split: option.split)
  then show ?thesis by (auto simp: cmp_val_def)
qed

lemma cmp_val_chain:
  assumes "named a" and "named b" and "bpf_prog a = None \<longleftrightarrow> bpf_prog b = None"
  shows "cmp_val a b = cmp_chain a b"
proof -
  obtain na nb where n: "prog_name a = Some na" "prog_name b = Some nb"
    using assms(1,2) by (auto simp: named_def)
  note defs = cmp_val_def cmp_xdp_programs_def cmp_chain_def n name_of_def lex_def Let_def
  show ?thesis
  proof (cases "run_prio a = run_prio b \<and> na = nb \<and> (prog_fd a < 0 \<longleftrightarrow> prog_fd b < 0)")
    case False
    then consider "run_prio a < run_prio b" "run_prio a \<noteq> run_prio b"
      | "run_prio b < run_prio a" "run_prio a \<noteq> run_prio b" "\<not> run_prio a < run_prio b" | "run_prio a = run_prio b" "na \<noteq> nb"
      | "run_prio a = run_prio b" "na = nb" "prog_fd a < 0" "0 \<le> prog_fd b"
      | "run_prio a = run_prio b" "na = nb" "0 \<le> prog_fd a" "prog_fd b < 0"
      by (metis less_linear less_asym not_less)
    then show ?thesis by cases (simp_all add: defs cmp_key_def)
  next
    case True
    then have fd: "prog_fd a < 0 \<longleftrightarrow> prog_fd b < 0" and eq: "run_prio a = run_prio b" "na = nb" by auto
    have tail: "cmp_chain a b = lex (cmp_key insns_of a b)
        (lex (memcmp (prog_tag a) (prog_tag b)) (cmp_key load_time a b))"
      using True by (simp add: cmp_chain_def n name_of_def lex_def cmp_key_def)
    have val: "cmp_val a b = (case (case (bpf_prog a, bpf_prog b) of
          (Some x, Some y) \<Rightarrow> if bp_insn_cnt x \<noteq> bp_insn_cnt y
             then Some (if bp_insn_cnt x < bp_insn_cnt y then -1 else 1) else None
        | _ \<Rightarrow> None) of Some c \<Rightarrow> c
        | None \<Rightarrow> lex (memcmp (prog_tag a) (prog_tag b)) (cmp_key load_time a b))"
      using fd by (cases "prog_fd a < 0")
        (simp_all add: cmp_val_def cmp_xdp_programs_def n eq Let_def lex_def cmp_key_def
          split: option.split)
    consider "bpf_prog a = None" "bpf_prog b = None" | x y where "bpf_prog a = Some x" "bpf_prog b = Some y"
      using assms(3) by auto
    then show ?thesis
      by cases (simp_all add: val tail insns_of_def cmp_key_def lex_def)
  qed
qed

lemma comparator_cmp_chain: "comparator S cmp_chain"
proof -
  have s: "comparator S (\<lambda>a b. strcmp (name_of a) (name_of b))"
    using comparator_map[of UNIV strcmp S name_of, OF comparator_strictI]
      strcmp_flip strcmp_0_iff strcmp_trans by blast
  have m: "comparator S (\<lambda>a b. memcmp (prog_tag a) (prog_tag b))"
    using comparator_map[of UNIV memcmp S prog_tag, OF comparator_strictI]
      memcmp_flip memcmp_0_iff memcmp_trans by blast
  show ?thesis
    unfolding cmp_chain_def by (intro comparator_lex comparator_key s m)
qed

lemma comparator_cmp_val:
  assumes "\<And>p. p \<in> S \<Longrightarrow> named p" and "same_origin S"
  shows "comparator S cmp_val"
  by (rule comparator_cong[OF comparator_cmp_chain])
    (use assms in \<open>auto intro!: cmp_val_chain simp: same_origin_def\<close>)

text \<open>The programs of one origin: those that came from an object, and those that came from the kernel.\<close>

interpretation opened: comparator "{p. named p \<and> bpf_prog p \<noteq> None}" cmp_val
  by (rule comparator_cmp_val) (auto simp: same_origin_def)

interpretation attached: comparator "{p. named p \<and> bpf_prog p = None}" cmp_val
  by (rule comparator_cmp_val) (auto simp: same_origin_def)

lemma cmp_val_le_prio: "cmp_val a b \<le> 0 \<Longrightarrow> run_prio a \<le> run_prio b"
  by (auto simp: cmp_val_def cmp_xdp_programs_def split: if_splits)

subsection \<open>Lemmas: printing\<close>

definition enabled_names :: "xdp_program \<Rightarrow> string list" where
  "enabled_names p =
     map (nth xdp_action_names) (filter (xdp_program__chain_call_enabled (Some p)) [0..<5])"

fun join :: "string list \<Rightarrow> string" where
  "join [] = []"
| "join [n] = n"
| "join (n # m # ns) = n @ CHR 0x2C # join (m # ns)"

definition tail_of :: "string list \<Rightarrow> string" where
  "tail_of ns = concat (map ((#) (CHR 0x2C)) ns)"

lemma join_Cons: "join (n # ns) = n @ tail_of ns"
  by (induction ns arbitrary: n) (auto simp: tail_of_def)

text \<open>The loop over the names that are printed, after the first one.\<close>

fun print_tail :: "string list \<Rightarrow> char list \<Rightarrow> nat \<Rightarrow> nat \<Rightarrow> (int \<times> char list) option" where
  "print_tail [] buf pos n = Some (0, buf)"
| "print_tail (m # ms) buf pos n =
     (if n = 0 then do { buf \<leftarrow> put_char buf pos NUL; Some (- ENOSPC, buf) }
      else do {
        buf \<leftarrow> put_char buf pos (CHR 0x2C);
        buf \<leftarrow> snprintf_at buf (pos + 1) (n - 1) m;
        if length m \<ge> n - 1 then do { buf \<leftarrow> put_char buf (pos + 1) NUL; Some (- ENOSPC, buf) }
        else print_tail ms buf (pos + 1 + length m) (n - 1 - length m)
      })"

lemma print_actions_loop_tail:
  "print_actions_loop p is buf pos n False =
   print_tail (map (nth xdp_action_names) (filter (xdp_program__chain_call_enabled (Some p)) is)) buf pos n"
  by (induction "is" arbitrary: buf pos n) (auto cong: if_cong)

lemma print_actions_loop_first:
  "print_actions_loop p is buf 0 n True =
   (case map (nth xdp_action_names) (filter (xdp_program__chain_call_enabled (Some p)) is) of
      [] \<Rightarrow> Some (0, buf)
    | m # ms \<Rightarrow> do {
        buf \<leftarrow> snprintf_at buf 0 n m;
        if length m \<ge> n then do { buf \<leftarrow> put_char buf 0 NUL; Some (- ENOSPC, buf) }
        else print_tail ms buf (length m) (n - length m)
      })"
  by (induction "is") (auto simp: print_actions_loop_tail cong: if_cong)

lemma snprintf_at_fits:
  assumes "length m < n" and "n = length old"
  shows "snprintf_at (pre @ old) (length pre) n m = Some (pre @ m @ NUL # drop (length m + 1) old)"
  using assms by (auto simp: snprintf_at_def Let_def)

lemma snprintf_at_truncates:
  assumes "n \<le> length m" and "n = length old"
  shows "\<exists>new. snprintf_at (pre @ old) (length pre) n m = Some (pre @ new) \<and> length new = n"
  using assms by (cases old) (auto simp: snprintf_at_def Let_def min_def)

text \<open>One step of the loop in a buffer whose text so far is \<open>pre\<close>.\<close>

lemma print_tail_step:
  "print_tail (m # ms) (pre @ NUL # rest) (length pre) (Suc (length rest)) =
     (if rest = [] then None
      else if length m \<ge> length rest
      then (case snprintf_at ((pre @ [CHR 0x2C]) @ rest) (length pre + 1) (length rest) m of
              Some b \<Rightarrow> Some (- ENOSPC, b[length pre + 1 := NUL]) | None \<Rightarrow> None)
      else print_tail ms ((pre @ CHR 0x2C # m) @ NUL # drop (length m + 1) rest)
             (length (pre @ CHR 0x2C # m)) (Suc (length (drop (length m + 1) rest))))"
proof (cases "rest = [] \<or> length m \<ge> length rest")
  case True
  then show ?thesis
    using snprintf_at_truncates[of "length rest" m rest "pre @ [CHR 0x2C]"]
    by (auto simp: put_char_def snprintf_at_def)
next
  case False
  then show ?thesis
    using snprintf_at_fits[of m "length rest" rest "pre @ [CHR 0x2C]"]
    by (simp add: put_char_def Suc_diff_Suc Suc_diff_le)
qed

lemma join_no_nul: "(\<And>x. x \<in> set ns \<Longrightarrow> NUL \<notin> set x) \<Longrightarrow> NUL \<notin> set (join ns)"
  by (induction ns rule: join.induct) auto

lemma enabled_names_no_nul: "NUL \<notin> set (join (enabled_names p))"
proof (rule join_no_nul)
  fix x assume "x \<in> set (enabled_names p)"
  then obtain i where "i < 5" "x = xdp_action_names ! i" by (auto simp: enabled_names_def)
  moreover have "length xdp_action_names = 5" by (simp add: xdp_action_names_def)
  ultimately have "x \<in> set xdp_action_names" by (metis nth_mem)
  then show "NUL \<notin> set x" by (auto simp: xdp_action_names_def)
qed

lemma tail_of_simps [simp]: "tail_of [] = []" "tail_of (m # ms) = CHR 0x2C # m @ tail_of ms"
  by (simp_all add: tail_of_def)

lemma print_tail_fits:
  assumes "length (tail_of ns) \<le> length rest"
  shows "\<exists>rest'. print_tail ns (pre @ NUL # rest) (length pre) (Suc (length rest)) =
           Some (0, pre @ tail_of ns @ NUL # rest') \<and> length (tail_of ns @ rest') = length rest"
  using assms
proof (induction ns arbitrary: pre rest)
  case (Cons m ms)
  then have "length (tail_of ms) \<le> length (drop (length m + 1) rest)" and "length m < length rest" by auto
  with Cons.IH[of "drop (length m + 1) rest" "pre @ CHR 0x2C # m"] show ?case
    by (auto simp: print_tail_step simp del: print_tail.simps)
qed simp

lemma print_tail_overflow:
  assumes "length rest < length (tail_of ns)"
  shows "(print_tail ns (pre @ NUL # rest) (length pre) (Suc (length rest)) = None \<longleftrightarrow>
            (\<exists>k<length ns. length (tail_of (take k ns)) = length rest))
         \<and> (\<forall>r b. print_tail ns (pre @ NUL # rest) (length pre) (Suc (length rest)) = Some (r, b)
              \<longrightarrow> r = - ENOSPC)"
  using assms
proof (induction ns arbitrary: pre rest)
  case (Cons m ms)
  let ?rest = "drop (length m + 1) rest"
  have k: "(\<exists>k<length (m # ms). length (tail_of (take k (m # ms))) = length rest) \<longleftrightarrow>
      rest = [] \<or> (\<exists>k<length ms. length m + 1 + length (tail_of (take k ms)) = length rest)"
    by (simp add: Ex_less_Suc2)
  consider "rest = []" | "rest \<noteq> []" "length rest \<le> length m" | "length m < length rest" by force
  then show ?case
  proof cases
    case 1
    then show ?thesis
      using print_tail_step[of m ms pre "[]"] by (simp add: Ex_less_Suc2 del: print_tail.simps)
  next
    case 2
    then show ?thesis
      using snprintf_at_truncates[of "length rest" m rest "pre @ [CHR 0x2C]"]
      unfolding k by (auto simp: print_tail_step simp del: print_tail.simps)
  next
    case 3
    then have step: "print_tail (m # ms) (pre @ NUL # rest) (length pre) (Suc (length rest)) =
        print_tail ms ((pre @ CHR 0x2C # m) @ NUL # ?rest) (length (pre @ CHR 0x2C # m)) (Suc (length ?rest))"
      by (auto simp only: print_tail_step) auto
    have k': "(\<exists>k<length (m # ms). length (tail_of (take k (m # ms))) = length rest) \<longleftrightarrow>
        (\<exists>k<length ms. length (tail_of (take k ms)) = length ?rest)"
      unfolding k using 3 by auto
    have "length ?rest < length (tail_of ms)" using Cons.prems 3 by simp
    from Cons.IH[OF this, of "pre @ CHR 0x2C # m"] show ?thesis unfolding step k' .
  qed
qed simp

subsection \<open>Lemmas: attributes and the run configuration\<close>

lemma and_push_bit_1_iff: "w AND push_bit n 1 \<noteq> 0 \<longleftrightarrow> bit (w :: 'a::len word) n"
proof
  assume "w AND push_bit n 1 \<noteq> 0"
  then obtain i where "bit (w AND push_bit n 1) i" by (metis bit_0_eq bit_word_eqI bot_apply bot_bool_def)
  then show "bit w n" by (auto simp: bit_simps)
next
  assume "bit w n"
  then have "bit (w AND push_bit n 1) n" by (auto simp: bit_simps dest: bit_imp_le_length)
  then show "w AND push_bit n 1 \<noteq> 0" by (metis bit_0_eq bot_apply bot_bool_def)
qed

lemma chain_call_enabled_bit:
  "xdp_program__chain_call_enabled (Some p) a \<longleftrightarrow> a < 31 \<and> bit (chain_call_actions p) a"
  by (auto simp: xdp_program__chain_call_enabled_def and_push_bit_1_iff simp del: push_bit_of_1)

text \<open>Setting one action changes that action only; a loaded program refuses the change.\<close>

lemma set_chain_call_unloaded:
  assumes "prog_fd p < 0" and "a < 31"
  obtains p' where "xdp_program__set_chain_call_enabled (Some p) a e = (0, Some p')"
    and "\<And>c. xdp_program__chain_call_enabled (Some p') c =
            (if c = a then e else xdp_program__chain_call_enabled (Some p) c)"
    and "p' = p\<lparr>chain_call_actions := chain_call_actions p'\<rparr>"
proof -
  let ?p = "p\<lparr>chain_call_actions := (if e then chain_call_actions p OR push_bit a 1
                                      else chain_call_actions p AND NOT (push_bit a 1))\<rparr>"
  have "xdp_program__set_chain_call_enabled (Some p) a e = (0, Some ?p)"
    using assms by (simp add: xdp_program__set_chain_call_enabled_def)
  moreover have "xdp_program__chain_call_enabled (Some ?p) c =
            (if c = a then e else xdp_program__chain_call_enabled (Some p) c)" for c
    using assms(2) by (auto simp: chain_call_enabled_bit bit_simps)
  ultimately show ?thesis using that by auto
qed

lemma set_chain_call_loaded:
  "prog_fd p \<ge> 0 \<Longrightarrow> xdp_program__set_chain_call_enabled (Some p) a e = (- EINVAL, Some p)"
  by (simp add: xdp_program__set_chain_call_enabled_def)

text \<open>The BTF the compiler emits for \<open>struct { __uint(name, value); ... } XDP_RUN_CONFIG(prog)\<close>: the
  structure is type 1, its variable type 2, the section type 3, and every member is a pointer to an
  array whose length is the value.\<close>

fun config_types :: "nat \<Rightarrow> (string \<times> u32) list \<Rightarrow> btf_type list" where
  "config_types k [] = []"
| "config_types k ((n, v) # fs) =
     btf_blank\<lparr>bt_kind := BTF_KIND_PTR, bt_type := Suc k\<rparr>
     # btf_blank\<lparr>bt_kind := BTF_KIND_ARRAY, bt_nelems := v\<rparr> # config_types (Suc (Suc k)) fs"

fun config_members :: "nat \<Rightarrow> (string \<times> u32) list \<Rightarrow> btf_member list" where
  "config_members k [] = []"
| "config_members k ((n, v) # fs) = \<lparr>m_name = Some n, m_type = k\<rparr> # config_members (Suc (Suc k)) fs"

definition run_config_btf :: "string \<Rightarrow> (string \<times> u32) list \<Rightarrow> btf" where
  "run_config_btf name fs = \<lparr>btf_types =
     [btf_blank\<lparr>bt_kind := BTF_KIND_STRUCT, bt_members := config_members 4 fs\<rparr>,
      btf_blank\<lparr>bt_kind := BTF_KIND_VAR, bt_name := Some (CHR 0x5F # name), bt_type := 1, bt_linkage := 1\<rparr>,
      btf_blank\<lparr>bt_kind := BTF_KIND_DATASEC, bt_name := Some ''.xdp_run_config'', bt_secinfos := [2]\<rparr>]
     @ config_types 4 fs, btf_ptr_sz = 8\<rparr>"

definition valid_fields :: "(string \<times> u32) list \<Rightarrow> bool" where
  "valid_fields fs \<longleftrightarrow> (\<forall>(n, v)\<in>set fs. n = ''priority'' \<or> n \<in> set xdp_action_names)"

definition apply_field :: "string \<times> u32 \<Rightarrow> xdp_program \<Rightarrow> xdp_program" where
  "apply_field = (\<lambda>(n, v) p.
     if n = ''priority'' then p\<lparr>run_prio := v\<rparr>
     else case get_xdp_action n of
            None \<Rightarrow> p
          | Some a \<Rightarrow> (case snd (xdp_program__set_chain_call_enabled (Some p) a (v \<noteq> 0)) of
                        None \<Rightarrow> p | Some p' \<Rightarrow> p'))"

lemma get_xdp_action_iff:
  "get_xdp_action n = Some a \<longleftrightarrow> a < 5 \<and> xdp_action_names ! a = n"
proof -
  have "distinct ns \<Longrightarrow> get_xdp_action_loop n ns i = Some a \<longleftrightarrow> i \<le> a \<and> a < i + length ns \<and> ns ! (a - i) = n"
    for ns i
  proof (induction ns arbitrary: i)
    case (Cons m ms)
    then show ?case by (cases "a = i") (auto simp: nth_Cons' in_set_conv_nth)
  qed simp
  moreover have "distinct xdp_action_names" "length xdp_action_names = 5"
    by (simp_all add: xdp_action_names_def)
  ultimately show ?thesis by (simp add: get_xdp_action_def)
qed

lemma get_xdp_action_valid: "n \<in> set xdp_action_names \<Longrightarrow> \<exists>a. get_xdp_action n = Some a"
  by (auto simp: get_xdp_action_def xdp_action_names_def)

lemma priority_no_action: "get_xdp_action ''priority'' = None"
  by (simp add: get_xdp_action_def xdp_action_names_def)

lemma set_chain_call_Some: "\<exists>r p'. xdp_program__set_chain_call_enabled (Some p) a e = (r, Some p')"
  by (simp add: xdp_program__set_chain_call_enabled_def)

lemma skip_mods_done:
  "btf__type_by_id b i = Some t \<Longrightarrow> \<not> btf_is_mod t \<Longrightarrow> bt_kind t \<noteq> BTF_KIND_TYPEDEF \<Longrightarrow>
   skip_mods_and_typedefs b i = Some t"
  by (simp add: skip_mods_and_typedefs.simps)

lemma parse_config_members:
  assumes "btf_types b = pre @ config_types k fs" and "k = length pre + 1" and "valid_fields fs"
  shows "parse_members b (config_members k fs) p = Some (0, fold apply_field fs p)"
  using assms
proof (induction fs arbitrary: pre k p)
  case (Cons f fs)
  obtain n v where f: "f = (n, v)" by fastforce
  let ?ptr = "btf_blank\<lparr>bt_kind := BTF_KIND_PTR, bt_type := Suc k\<rparr>"
    and ?arr = "btf_blank\<lparr>bt_kind := BTF_KIND_ARRAY, bt_nelems := v\<rparr>"
  have types: "btf_types b = (pre @ [?ptr, ?arr]) @ config_types (Suc (Suc k)) fs" and fs: "valid_fields fs"
    using Cons.prems by (auto simp: f valid_fields_def)
  have IH: "parse_members b (config_members (Suc (Suc k)) fs) q = Some (0, fold apply_field fs q)" for q
    using Cons.IH[OF types _ fs] Cons.prems(2) by simp
  have k: "btf__type_by_id b k = Some ?ptr" "btf__type_by_id b (Suc k) = Some ?arr"
    using types Cons.prems(2) by (simp_all add: btf__type_by_id_def btf__type_cnt_def nth_append)
  have skip: "skip_mods_and_typedefs b k = Some ?ptr"
    using k(1) by (rule skip_mods_done) (simp_all add: btf_is_mod_def)
  have field: "get_field_int b ?ptr = Some v"
    using k(2) by (simp add: get_field_int_def)
  have ap: "apply_field (n, v) p = (if n = ''priority'' then p\<lparr>run_prio := v\<rparr>
      else case get_xdp_action n of None \<Rightarrow> p
        | Some a \<Rightarrow> (case snd (xdp_program__set_chain_call_enabled (Some p) a (v \<noteq> 0)) of
                      None \<Rightarrow> p | Some p' \<Rightarrow> p'))"
    by (simp add: apply_field_def)
  consider "n = ''priority''" | a where "n \<noteq> ''priority''" "get_xdp_action n = Some a"
    using Cons.prems(3) get_xdp_action_valid by (auto simp: f valid_fields_def)
  then show ?case
  proof cases
    case 1
    with ap show ?thesis by (simp add: f skip field IH)
  next
    case 2
    obtain r p' where "xdp_program__set_chain_call_enabled (Some p) a (v \<noteq> 0) = (r, Some p')"
      using set_chain_call_Some by blast
    with 2 show ?thesis by (simp add: f skip field IH ap)
  qed
qed simp

lemma apply_fields_unloaded:
  assumes "prog_fd p < 0"
  shows "run_prio (fold apply_field fs p) =
           (case map_of (rev fs) ''priority'' of Some v \<Rightarrow> v | None \<Rightarrow> run_prio p)"
    and "a < 5 \<Longrightarrow> xdp_program__chain_call_enabled (Some (fold apply_field fs p)) a =
           (case map_of (rev fs) (xdp_action_names ! a) of
              Some v \<Rightarrow> v \<noteq> 0 | None \<Rightarrow> xdp_program__chain_call_enabled (Some p) a)"
    and "prog_name (fold apply_field fs p) = prog_name p"
proof -
  have one: "prog_fd (apply_field (n, v) p) = prog_fd p \<and> prog_name (apply_field (n, v) p) = prog_name p
      \<and> run_prio (apply_field (n, v) p) = (if n = ''priority'' then v else run_prio p)
      \<and> (\<forall>a<5. xdp_program__chain_call_enabled (Some (apply_field (n, v) p)) a =
           (if n = xdp_action_names ! a then v \<noteq> 0 else xdp_program__chain_call_enabled (Some p) a))"
    if "prog_fd p < 0" for n v and p :: xdp_program
  proof (cases "get_xdp_action n")
    case None
    have "n \<noteq> xdp_action_names ! a" if "a < 5" for a
      using get_xdp_action_iff[of n a] None that by auto
    with None show ?thesis by (auto simp: apply_field_def chain_call_enabled_bit)
  next
    case (Some c)
    then have c: "c < 5" "xdp_action_names ! c = n" using get_xdp_action_iff[of n c] by auto
    have np: "n \<noteq> ''priority''" using Some priority_no_action by auto
    have inj: "n = xdp_action_names ! a \<longleftrightarrow> a = c" if "a < 5" for a
      using that Some get_xdp_action_iff[of n a] by auto
    from c(1) have "c < 31" by simp
    from set_chain_call_unloaded[OF that this, of "v \<noteq> 0"] obtain p' where p': "xdp_program__set_chain_call_enabled (Some p) c (v \<noteq> 0) = (0, Some p')"
      "\<And>d. xdp_program__chain_call_enabled (Some p') d =
            (if d = c then v \<noteq> 0 else xdp_program__chain_call_enabled (Some p) d)"
      "p' = p\<lparr>chain_call_actions := chain_call_actions p'\<rparr>" by blast
    have "prog_fd p' = prog_fd p" "prog_name p' = prog_name p" "run_prio p' = run_prio p"
      by (subst p'(3), simp)+
    with Some np p'(1,2) inj show ?thesis by (simp add: apply_field_def)
  qed
  have "prog_fd (fold apply_field fs p) < 0 \<and> prog_name (fold apply_field fs p) = prog_name p
      \<and> run_prio (fold apply_field fs p) = (case map_of (rev fs) ''priority'' of Some v \<Rightarrow> v | None \<Rightarrow> run_prio p)
      \<and> (\<forall>a<5. xdp_program__chain_call_enabled (Some (fold apply_field fs p)) a =
           (case map_of (rev fs) (xdp_action_names ! a) of
              Some v \<Rightarrow> v \<noteq> 0 | None \<Rightarrow> xdp_program__chain_call_enabled (Some p) a))"
    using assms
  proof (induction fs rule: rev_induct)
    case (snoc f fs)
    then show ?case using one[of "fold apply_field fs p" "fst f" "snd f"]
      by (auto simp: map_of_Cons_code split: if_splits)
  qed simp
  then show "run_prio (fold apply_field fs p) =
           (case map_of (rev fs) ''priority'' of Some v \<Rightarrow> v | None \<Rightarrow> run_prio p)"
    and "a < 5 \<Longrightarrow> xdp_program__chain_call_enabled (Some (fold apply_field fs p)) a =
           (case map_of (rev fs) (xdp_action_names ! a) of
              Some v \<Rightarrow> v \<noteq> 0 | None \<Rightarrow> xdp_program__chain_call_enabled (Some p) a)"
    and "prog_name (fold apply_field fs p) = prog_name p" by auto
qed

lemma apply_fields_loaded:
  assumes "prog_fd p \<ge> 0"
  shows "fold apply_field fs p =
           p\<lparr>run_prio := (case map_of (rev fs) ''priority'' of Some v \<Rightarrow> v | None \<Rightarrow> run_prio p)\<rparr>"
proof (induction fs rule: rev_induct)
  case (snoc f fs)
  let ?p = "fold apply_field fs p"
  have "prog_fd ?p \<ge> 0" using assms by (subst snoc.IH) simp
  then have "apply_field f ?p = (if fst f = ''priority'' then ?p\<lparr>run_prio := snd f\<rparr> else ?p)"
    by (auto simp: apply_field_def set_chain_call_loaded split: prod.splits option.splits)
  then show ?case by (simp add: snoc.IH map_of_Cons_code split: prod.splits)
qed simp

lemma get_function_none:
  assumes "\<And>i. i \<in> set is \<Longrightarrow> \<exists>t. btf__type_by_id b i = Some t \<and> bt_kind t \<noteq> BTF_KIND_FUNC"
  shows "get_function_loop b f is 0 None = Some None"
  using assms
proof (induction "is")
  case (Cons i "is")
  from Cons.prems[of i] obtain t where "btf__type_by_id b i = Some t" "bt_kind t \<noteq> BTF_KIND_FUNC" by auto
  with Cons show ?case by simp
qed simp

lemma config_types_kinds: "t \<in> set (config_types k fs) \<Longrightarrow> bt_kind t \<in> {BTF_KIND_PTR, BTF_KIND_ARRAY}"
  by (induction k fs rule: config_types.induct) auto

lemma run_config_lookup:
  "btf__type_by_id (run_config_btf name fs) (Suc i) =
     (if i < 3 + length (config_types 4 fs) then Some (btf_types (run_config_btf name fs) ! i) else None)"
  by (simp add: btf__type_by_id_def btf__type_cnt_def run_config_btf_def)

lemma run_config_no_func:
  "btf_get_function (Some (run_config_btf name fs)) f = Some None"
proof -
  have "\<exists>t. btf__type_by_id (run_config_btf name fs) i = Some t \<and> bt_kind t \<noteq> BTF_KIND_FUNC"
    if i: "i \<in> set [1..<btf__type_cnt (run_config_btf name fs)]" for i
  proof -
    obtain j where j: "i = Suc j" "j < 3 + length (config_types 4 fs)"
      using i unfolding set_upt by (cases i) (auto simp: btf__type_cnt_def run_config_btf_def)
    have "bt_kind (btf_types (run_config_btf name fs) ! j) \<noteq> BTF_KIND_FUNC"
      using j(2) nth_mem[of "j - 3" "config_types 4 fs"]
        config_types_kinds[of "config_types 4 fs ! (j - 3)" 4 fs]
      by (auto simp: run_config_btf_def nth_Cons' nth_append numeral_3_eq_3)
    with j show ?thesis by (simp add: run_config_lookup)
  qed
  then show ?thesis unfolding btf_get_function_def option.case by (rule get_function_none)
qed

lemma parse_run_config:
  assumes "prog_name p = Some name" and "length name \<le> 98" and "valid_fields fs"
  shows "xdp_program__parse_btf ok p (Some (run_config_btf name fs)) = Some (0, fold apply_field fs p)"
proof -
  let ?b = "run_config_btf name fs"
  let ?sec = "btf_blank\<lparr>bt_kind := BTF_KIND_DATASEC, bt_name := Some ''.xdp_run_config'', bt_secinfos := [2]\<rparr>"
  let ?str = "btf_blank\<lparr>bt_kind := BTF_KIND_STRUCT, bt_members := config_members 4 fs\<rparr>"
  let ?var = "btf_blank\<lparr>bt_kind := BTF_KIND_VAR, bt_name := Some (CHR 0x5F # name), bt_type := 1, bt_linkage := 1\<rparr>"
  have ids: "btf__type_by_id ?b 1 = Some ?str" "btf__type_by_id ?b 2 = Some ?var"
    "btf__type_by_id ?b 3 = Some ?sec"
    using run_config_lookup[of name fs 0] run_config_lookup[of name fs 1] run_config_lookup[of name fs 2]
    by (simp_all add: run_config_btf_def numeral_eq_Suc)
  have cnt: "[1..<btf__type_cnt ?b] = 1 # 2 # 3 # [4..<btf__type_cnt ?b]"
    by (simp add: btf__type_cnt_def run_config_btf_def upt_conv_Cons numeral_eq_Suc del: upt_Suc)
  have sec: "btf_get_datasec (Some ?b) ''.xdp_run_config'' = Some (Some ?sec)"
    unfolding btf_get_datasec_def option.case cnt by (simp add: ids ids(1)[unfolded One_nat_def])
  have "skip_mods_and_typedefs ?b 1 = Some ?str"
    using ids(1) by (rule skip_mods_done) (simp_all add: btf_is_mod_def)
  then have var: "btf_get_section_var ?b ?sec (CHR 0x5F # name) BTF_KIND_STRUCT = Some (Inr ?str)"
    by (simp add: btf_get_section_var_def ids(2))
  have mem: "parse_members ?b (config_members 4 fs) p = Some (0, fold apply_field fs p)"
    by (rule parse_config_members[OF _ _ assms(3), of _ "take 3 (btf_types ?b)"])
      (simp_all add: run_config_btf_def)
  show ?thesis
    using assms(1,2) sec var mem
    by (simp add: xdp_program__parse_btf_def run_config_no_func try_snprintf_def Let_def)
qed

subsection \<open>Properties\<close>



text \<open>For a program that is already loaded the same run configuration changes only the priority:
  the chain-call actions written in the source are ignored without an error.\<close>

theorem parse_btf_loaded:
  assumes "prog_fd p \<ge> 0" and "prog_name p = Some name" and "length name \<le> 98" and "valid_fields fs"
  shows "xdp_program__parse_btf ok p (Some (run_config_btf name fs)) =
    Some (0, p\<lparr>run_prio := (case map_of (rev fs) ''priority'' of Some v \<Rightarrow> v | None \<Rightarrow> run_prio p)\<rparr>)"
  using parse_run_config[OF assms(2,3,4)] apply_fields_loaded[OF assms(1), of fs] by simp

theorem parse_btf_loaded_witness:
  "xdp_program__parse_btf True (xdp_program__new\<lparr>prog_name := Some ''drop'', prog_fd := 7\<rparr>)
     (Some (run_config_btf ''drop'' [(''XDP_DROP'', 1)]))
   = Some (0, xdp_program__new\<lparr>prog_name := Some ''drop'', prog_fd := 7\<rparr>)"
  using parse_btf_loaded[of "xdp_program__new\<lparr>prog_name := Some ''drop'', prog_fd := 7\<rparr>" "''drop''"
      "[(''XDP_DROP'', 1)]" True]
  by (simp add: valid_fields_def xdp_action_names_def)

text \<open>on programs with a name that all have, or all lack, their libbpf object the comparison is a
  total preorder that sorts by priority first, so \<open>qsort\<close> orders them.\<close>

theorem cmp_total_preorder:
  assumes "\<forall>p\<in>{a, b, c}. prog_name p \<noteq> None"
    and "(\<forall>p\<in>{a, b, c}. bpf_prog p = None) \<or> (\<forall>p\<in>{a, b, c}. bpf_prog p \<noteq> None)"
  shows "\<exists>x y z. cmp_xdp_programs a b = Some x \<and> cmp_xdp_programs b a = Some (- x)
      \<and> cmp_xdp_programs b c = Some y \<and> cmp_xdp_programs a c = Some z
      \<and> (x \<le> 0 \<and> y \<le> 0 \<longrightarrow> z \<le> 0) \<and> (x \<le> 0 \<longrightarrow> run_prio a \<le> run_prio b)"
proof -
  have n: "named a" "named b" "named c" using assms(1) by (simp_all add: named_def)
  have "cmp_val b a = - cmp_val a b" and "cmp_val a b \<le> 0 \<Longrightarrow> cmp_val b c \<le> 0 \<Longrightarrow> cmp_val a c \<le> 0"
    using n assms(2) opened.flip[of a b] attached.flip[of a b] opened.trans_le[of a b c] attached.trans_le[of a b c]
    by auto
  then show ?thesis
    using n cmp_xdp_programs_named cmp_val_le_prio[of a b] by auto
qed

theorem cmp_total_preorder_witness:
  "cmp_xdp_programs (xdp_program__new\<lparr>prog_name := Some ''a''\<rparr>) (xdp_program__new\<lparr>prog_name := Some ''b''\<rparr>) = Some (-1)
   \<and> cmp_xdp_programs (xdp_program__new\<lparr>prog_name := Some ''b''\<rparr>) (xdp_program__new\<lparr>prog_name := Some ''a''\<rparr>) = Some 1"
proof -
  have "cmp_xdp_programs (xdp_program__new\<lparr>prog_name := Some ''a''\<rparr>) (xdp_program__new\<lparr>prog_name := Some ''b''\<rparr>) = Some (-1)"
    by (simp add: cmp_xdp_programs_def xdp_program__new_def strcmp_def)
  then show ?thesis
    using cmp_total_preorder[of "xdp_program__new\<lparr>prog_name := Some ''a''\<rparr>"
        "xdp_program__new\<lparr>prog_name := Some ''b''\<rparr>" "xdp_program__new\<lparr>prog_name := Some ''b''\<rparr>"]
    by (auto simp: xdp_program__new_def)
qed

text \<open>across programs with and without a libbpf object the comparison is not transitive: three
  programs with equal priority and name can be ordered in a cycle.\<close>

theorem cmp_not_transitive:
  "\<exists>a b c. cmp_xdp_programs a b = Some (-1) \<and> cmp_xdp_programs b c = Some (-1)
         \<and> cmp_xdp_programs c a = Some (-1)"
proof -
  let ?p = "\<lambda>n t. xdp_program__new\<lparr>prog_name := Some ''x'', prog_fd := 5,
     bpf_prog := n, prog_tag := t # replicate 7 0\<rparr>"
  let ?b = "\<lambda>n. Some \<lparr>bp_handle = 0, bp_name = ''x'', bp_type = 6, bp_insn_cnt = n, bp_flags = 0\<rparr>"
  have "cmp_xdp_programs (?p (?b 10) 9) (?p (?b 20) 1) = Some (-1)"
    "cmp_xdp_programs (?p (?b 20) 1) (?p None 5) = Some (-1)"
    "cmp_xdp_programs (?p None 5) (?p (?b 10) 9) = Some (-1)"
    by (simp_all add: cmp_xdp_programs_def xdp_program__new_def memcmp_def)
  then show ?thesis by blast
qed

text \<open>printing the chain-call actions.  With room for the comma-separated names and the
  terminator the buffer holds exactly that text; with less room the result is \<open>-ENOSPC\<close>, except when the
  names printed so far fill the buffer exactly: then the code writes one byte behind it.\<close>

theorem print_actions_spec:
  assumes "ns = enabled_names p" and "ns \<noteq> []" and "b \<noteq> []"
    and "r = xdp_program__print_chain_call_actions (Some p) (Some b)"
  shows "if length (join ns) < length b
         then \<exists>b'. r = Some (0, Some b') \<and> length b' = length b \<and> takeWhile (\<lambda>c. c \<noteq> NUL) b' = join ns
         else if \<exists>k. 0 < k \<and> k < length ns \<and> length (join (take k ns)) + 1 = length b then r = None
         else \<exists>b'. r = Some (- ENOSPC, Some b')"
proof -
  obtain m ms where ns: "ns = m # ms" using assms(2) by (cases ns) auto
  let ?rest = "drop (length m + 1) b"
  have r: "r = do { (r, b) \<leftarrow> print_actions_loop p [0..<5] b 0 (length b) True; Some (r, Some b) }"
    using assms(3,4) by (simp add: xdp_program__print_chain_call_actions_def)
  have loop: "print_actions_loop p [0..<5] b 0 (length b) True = do {
        buf \<leftarrow> snprintf_at b 0 (length b) m;
        if length m \<ge> length b then do { buf \<leftarrow> put_char buf 0 NUL; Some (- ENOSPC, buf) }
        else print_tail ms buf (length m) (length b - length m) }"
    using ns assms(1) by (simp add: print_actions_loop_first enabled_names_def)
  have k: "(\<exists>k. 0 < k \<and> k < length ns \<and> length (join (take k ns)) + 1 = length b) \<longleftrightarrow>
      (\<exists>k<length ms. length m + length (tail_of (take k ms)) + 1 = length b)"
  proof -
    have "(\<exists>k. 0 < k \<and> k < length ns \<and> P k) \<longleftrightarrow> (\<exists>j<length ms. P (Suc j))" for P
      unfolding ns by (metis Suc_less_eq gr0_conv_Suc length_Cons zero_less_Suc)
    then show ?thesis by (simp add: ns join_Cons)
  qed
  show ?thesis
  proof (cases "length m \<ge> length b")
    case True
    then show ?thesis
      unfolding k using snprintf_at_truncates[of "length b" m b "[]"] assms(3)
      by (auto simp: r loop put_char_def ns join_Cons)
  next
    case False
    then have step: "print_actions_loop p [0..<5] b 0 (length b) True =
        print_tail ms (m @ NUL # ?rest) (length m) (Suc (length ?rest))"
      using snprintf_at_fits[of m "length b" b "[]"] by (simp add: loop Suc_diff_Suc)
    show ?thesis
    proof (cases "length (tail_of ms) \<le> length ?rest")
      case True
      from print_tail_fits[OF this, of m] obtain rest' where
        "print_actions_loop p [0..<5] b 0 (length b) True = Some (0, join ns @ NUL # rest')"
        and l: "length (tail_of ms @ rest') = length ?rest" by (auto simp: step ns join_Cons)
      then have "r = Some (0, Some (join ns @ NUL # rest'))" by (simp add: r)
      moreover have "takeWhile (\<lambda>c. c \<noteq> NUL) (join ns @ NUL # rest') = join ns"
        using enabled_names_no_nul[of p] assms(1) by (intro takeWhile_append_stop) auto
      ultimately show ?thesis using False True l by (auto simp: ns join_Cons)
    next
      case o: False
      have lens: "length m + length t + 1 = length b \<longleftrightarrow> length t = length ?rest" for t :: string
        using False by auto
      from print_tail_overflow[of ?rest ms m] o show ?thesis
        unfolding k lens using False by (auto simp: r step ns join_Cons)
    qed
  qed
qed

theorem print_actions_spec_witness:
  "xdp_program__print_chain_call_actions (Some (xdp_program__new\<lparr>chain_call_actions := 3\<rparr>))
     (Some (replicate 12 (CHR ''x''))) = None"
proof -
  let ?p = "xdp_program__new\<lparr>chain_call_actions := 3\<rparr>"
  have e: "enabled_names ?p = [''XDP_ABORTED'', ''XDP_DROP'']"
    by code_simp
  have k: "0 < (1::nat) \<and> 1 < length (enabled_names ?p)
      \<and> length (join (take 1 (enabled_names ?p))) + 1 = length (replicate 12 (CHR ''x''))"
    unfolding e by simp
  have l: "\<not> length (join (enabled_names ?p)) < length (replicate 12 (CHR ''x''))"
    unfolding e by simp
  have ex: "\<exists>k. 0 < k \<and> k < length (enabled_names ?p)
      \<and> length (join (take k (enabled_names ?p))) + 1 = length (replicate 12 (CHR ''x''))"
    using k by blast
  have ne: "enabled_names ?p \<noteq> []" "replicate 12 (CHR ''x'') \<noteq> []" unfolding e by simp_all
  show ?thesis
    using print_actions_spec[OF refl ne refl] unfolding if_not_P[OF l] if_P[OF ex] .
qed

end
