(* ===== verification/Multiprog.thy ===== *)
theory Multiprog
  imports Xdp_Program
begin

text \<open>
  \<open>struct xdp_multiprog\<close> of \<open>libxdp.c\<close>: the set of programs attached to an interface behind the
  dispatcher program.  This theory has the data, the accessors, the pure parts of
  \<open>xdp_multiprog__generate\<close> (which programs the new dispatcher runs, and the configuration it is loaded
  with), and the dispatcher itself (\<open>xdp-dispatcher.c.in\<close>), whose chain of calls is shown to run the
  programs in the configured order.

  Programs are passed by pointer in C and \<open>qsort\<close> and the loader change them through these pointers, so
  they live in a heap: a list of programs, with an index as the pointer.
\<close>

subsection \<open>State\<close>

datatype xdp_attach_mode = XDP_MODE_UNSPEC | XDP_MODE_NATIVE | XDP_MODE_SKB | XDP_MODE_HW

type_synonym ptr = nat
type_synonym heap = "xdp_program list"

abbreviation (input) MAX_DISPATCHER_ACTIONS :: nat where "MAX_DISPATCHER_ACTIONS \<equiv> 10"
abbreviation (input) XDP_DISPATCHER_VERSION :: u32 where "XDP_DISPATCHER_VERSION \<equiv> 2"
abbreviation (input) XDP_DISPATCHER_MAGIC :: u8 where "XDP_DISPATCHER_MAGIC \<equiv> 236"

record xdp_dispatcher_config =
  magic :: u8
  dispatcher_version :: u8
  num_progs_enabled :: u8
  is_xdp_frags :: bool
  c_chain_call_actions :: "u32 list"
  c_run_prios :: "u32 list"
  c_program_flags :: "u32 list"

record xdp_multiprog =
  mp_config :: xdp_dispatcher_config
  mp_main_prog :: "ptr option"
  mp_progs :: "ptr list"
  mp_hw_prog :: "ptr option"
  mp_version :: u32
  mp_num_links :: nat
  mp_is_loaded :: bool
  mp_is_legacy :: bool
  mp_kernel_frags_support :: bool
  mp_attach_mode :: xdp_attach_mode
  mp_ifindex :: int

definition zero_config :: xdp_dispatcher_config where
  "zero_config = \<lparr>magic = 0, dispatcher_version = 0, num_progs_enabled = 0, is_xdp_frags = False,
     c_chain_call_actions = replicate MAX_DISPATCHER_ACTIONS 0,
     c_run_prios = replicate MAX_DISPATCHER_ACTIONS 0,
     c_program_flags = replicate MAX_DISPATCHER_ACTIONS 0\<rparr>"

definition xdp_multiprog__new :: "int \<Rightarrow> xdp_multiprog" where
  "xdp_multiprog__new ifindex = \<lparr>mp_config = zero_config, mp_main_prog = None, mp_progs = [],
     mp_hw_prog = None, mp_version = XDP_DISPATCHER_VERSION, mp_num_links = 0, mp_is_loaded = False,
     mp_is_legacy = False, mp_kernel_frags_support = False, mp_attach_mode = XDP_MODE_UNSPEC,
     mp_ifindex = ifindex\<rparr>"

subsection \<open>Accessors\<close>

definition xdp_multiprog__is_legacy :: "xdp_multiprog option \<Rightarrow> bool" where
  "xdp_multiprog__is_legacy mp = (case mp of None \<Rightarrow> False | Some m \<Rightarrow> mp_is_legacy m)"

definition xdp_multiprog__main_fd :: "heap \<Rightarrow> xdp_multiprog option \<Rightarrow> int" where
  "xdp_multiprog__main_fd h mp =
     (case mp of None \<Rightarrow> - EINVAL
      | Some m \<Rightarrow> (case mp_main_prog m of None \<Rightarrow> - ENOENT | Some p \<Rightarrow> prog_fd (h ! p)))"

definition xdp_multiprog__main_id :: "heap \<Rightarrow> xdp_multiprog option \<Rightarrow> u32" where
  "xdp_multiprog__main_id h mp =
     (case mp of None \<Rightarrow> 0
      | Some m \<Rightarrow> (case mp_main_prog m of None \<Rightarrow> 0 | Some p \<Rightarrow> prog_id (h ! p)))"

definition xdp_multiprog__hw_fd :: "heap \<Rightarrow> xdp_multiprog option \<Rightarrow> int" where
  "xdp_multiprog__hw_fd h mp =
     (case mp of None \<Rightarrow> - EINVAL
      | Some m \<Rightarrow> (case mp_hw_prog m of None \<Rightarrow> - ENOENT | Some p \<Rightarrow> prog_fd (h ! p)))"

definition xdp_multiprog__hw_id :: "heap \<Rightarrow> xdp_multiprog option \<Rightarrow> u32" where
  "xdp_multiprog__hw_id h mp =
     (case mp of None \<Rightarrow> 0
      | Some m \<Rightarrow> (case mp_hw_prog m of None \<Rightarrow> 0 | Some p \<Rightarrow> prog_id (h ! p)))"

definition xdp_multiprog__hw_prog :: "xdp_multiprog option \<Rightarrow> ptr option" where
  "xdp_multiprog__hw_prog mp = (case mp of None \<Rightarrow> None | Some m \<Rightarrow> mp_hw_prog m)"

definition xdp_multiprog__main_prog :: "xdp_multiprog option \<Rightarrow> ptr option" where
  "xdp_multiprog__main_prog mp = (case mp of None \<Rightarrow> None | Some m \<Rightarrow> mp_main_prog m)"

definition xdp_multiprog__attach_mode :: "xdp_multiprog option \<Rightarrow> xdp_attach_mode" where
  "xdp_multiprog__attach_mode mp = (case mp of None \<Rightarrow> XDP_MODE_UNSPEC | Some m \<Rightarrow> mp_attach_mode m)"

definition xdp_multiprog__program_count :: "xdp_multiprog option \<Rightarrow> int" where
  "xdp_multiprog__program_count mp = (case mp of None \<Rightarrow> - EINVAL | Some m \<Rightarrow> int (mp_num_links m))"

text \<open>\<open>while ((prog = xdp_multiprog__next_prog(prog, mp)))\<close> visits these programs in this order.\<close>

definition xdp_multiprog__next_prog :: "xdp_multiprog option \<Rightarrow> ptr list" where
  "xdp_multiprog__next_prog mp =
     (case mp of None \<Rightarrow> [] | Some m \<Rightarrow> if mp_is_legacy m then [] else mp_progs m)"

definition id_of :: "heap \<Rightarrow> ptr option \<Rightarrow> u32" where
  "id_of h p = xdp_program__id (map_option (nth h) p)"

text \<open>\<open>xdp_program__is_attached\<close> after \<open>xdp_multiprog__get_from_ifindex\<close> has returned \<open>mp\<close>.\<close>

definition xdp_program__is_attached ::
  "heap \<Rightarrow> ptr option \<Rightarrow> xdp_multiprog option \<Rightarrow> xdp_attach_mode" where
  "xdp_program__is_attached h xdp_prog mp =
     (if id_of h xdp_prog = 0 then XDP_MODE_UNSPEC
      else case mp of
        None \<Rightarrow> XDP_MODE_UNSPEC
      | Some m \<Rightarrow>
          if id_of h (xdp_multiprog__hw_prog mp) = id_of h xdp_prog then XDP_MODE_HW
          else if xdp_multiprog__is_legacy mp then
            (if id_of h (xdp_multiprog__main_prog mp) = id_of h xdp_prog
             then xdp_multiprog__attach_mode mp else XDP_MODE_UNSPEC)
          else if \<exists>p\<in>set (xdp_multiprog__next_prog mp). id_of h (Some p) = id_of h xdp_prog
          then xdp_multiprog__attach_mode mp
          else XDP_MODE_UNSPEC)"

subsection \<open>The programs of a new dispatcher\<close>

text \<open>\<open>num_new_progs\<close> is a \<open>size_t\<close>: the subtraction wraps.\<close>

definition num_new_progs :: "nat \<Rightarrow> nat \<Rightarrow> bool \<Rightarrow> u64" where
  "num_new_progs num_links num_progs remove_progs =
     (if remove_progs then of_nat num_links - of_nat num_progs else of_nat num_links + of_nat num_progs)"

text \<open>The loop over the programs of the old dispatcher.  \<open>acc\<close> is the filled part of the array
  \<open>new_progs\<close> of \<open>n\<close> entries.  \<^const>\<open>None\<close> is a write behind the array.\<close>

fun collect_old :: "heap \<Rightarrow> ptr list \<Rightarrow> bool \<Rightarrow> nat \<Rightarrow> ptr list \<Rightarrow> ptr list \<Rightarrow> (int + ptr list) option" where
  "collect_old h progs remove_progs n [] acc = Some (Inr acc)"
| "collect_old h progs remove_progs n (p # ps) acc =
     (if remove_progs then
        if \<exists>q\<in>set progs. prog_id (h ! q) = prog_id (h ! p)
        then collect_old h progs remove_progs n ps acc
        else if length acc \<ge> n then Some (Inl (- EINVAL))
        else collect_old h progs remove_progs n ps (acc @ [p])
      else if length acc \<ge> n then None
      else collect_old h progs remove_progs n ps (acc @ [p]))"

text \<open>The array handed to \<open>qsort\<close>.  When entries of the array stay \<open>NULL\<close>, or entries behind the
  caller's array are read, the code that follows dereferences them: \<^const>\<open>None\<close>.\<close>

definition collect_progs ::
  "heap \<Rightarrow> ptr list \<Rightarrow> bool \<Rightarrow> nat \<Rightarrow> ptr list \<Rightarrow> (int + ptr list) option" where
  "collect_progs h progs remove_progs n old = do {
     r \<leftarrow> collect_old h progs remove_progs n old [];
     case r of
       Inl e \<Rightarrow> Some (Inl e)
     | Inr acc \<Rightarrow>
         if remove_progs then if length acc = n then Some (Inr acc) else None
         else if n - length acc \<le> length progs
         then Some (Inr (acc @ take (n - length acc) progs)) else None
   }"

definition sort_progs ::
  "((ptr \<Rightarrow> ptr \<Rightarrow> int) \<Rightarrow> ptr list \<Rightarrow> ptr list) \<Rightarrow> heap \<Rightarrow> ptr list \<Rightarrow> ptr list" where
  "sort_progs qsrt h ps = (if length ps > 1 then qsrt (\<lambda>a b. cmp_val (h ! a) (h ! b)) ps else ps)"

subsection \<open>The dispatcher configuration\<close>

fun fill_slots :: "nat \<Rightarrow> xdp_program list \<Rightarrow> xdp_dispatcher_config \<Rightarrow> xdp_dispatcher_config" where
  "fill_slots i [] c = c"
| "fill_slots i (p # ps) c =
     (let c = c\<lparr>c_chain_call_actions :=
                  (c_chain_call_actions c)[i := chain_call_actions p OR push_bit XDP_DISPATCHER_RETVAL 1]\<rparr>;
          c = c\<lparr>c_run_prios := (c_run_prios c)[i := run_prio p]\<rparr>;
          c = (if xdp_program__xdp_frags_support (Some p)
               then c\<lparr>c_program_flags := (c_program_flags c)[i := BPF_F_XDP_HAS_FRAGS]\<rparr>
               else c\<lparr>is_xdp_frags := False\<rparr>)
      in fill_slots (i + 1) ps c)"

definition fill_config :: "bool \<Rightarrow> u32 \<Rightarrow> xdp_program list \<Rightarrow> xdp_dispatcher_config" where
  "fill_config kernel_frags version new_progs =
     fill_slots 0 new_progs
       (zero_config\<lparr>magic := XDP_DISPATCHER_MAGIC, dispatcher_version := ucast version,
          num_progs_enabled := of_nat (length new_progs), is_xdp_frags := kernel_frags\<rparr>)"

text \<open>What \<open>xdp_multiprog__link_pinned_progs\<close> restores from slot \<open>i\<close> of the configuration into a program
  it has opened again.\<close>

definition restore_slot :: "xdp_dispatcher_config \<Rightarrow> nat \<Rightarrow> xdp_program \<Rightarrow> xdp_program" where
  "restore_slot c i p =
     p\<lparr>chain_call_actions := c_chain_call_actions c ! i AND NOT (push_bit XDP_DISPATCHER_RETVAL 1),
       run_prio := c_run_prios c ! i,
       is_frags := (c_program_flags c ! i AND BPF_F_XDP_HAS_FRAGS \<noteq> 0)\<rparr>"

subsection \<open>The dispatcher program\<close>

text \<open>\<open>prog i\<close> is the return value of the program linked into slot \<open>i\<close>, or \<open>XDP_DISPATCHER_RETVAL\<close> for a
  slot without one.  The BPF shift uses the low five bits of the shift amount.\<close>

fun dispatch_from :: "xdp_dispatcher_config \<Rightarrow> (nat \<Rightarrow> u32) \<Rightarrow> nat list \<Rightarrow> u32" where
  "dispatch_from conf prog [] = xdp_action_code XDP_PASS"
| "dispatch_from conf prog (i # is) =
     (if unat (num_progs_enabled conf) < i + 1 then xdp_action_code XDP_PASS
      else let ret = prog i
           in if push_bit (unat ret mod 32) 1 AND c_chain_call_actions conf ! i = 0 then ret
              else dispatch_from conf prog is)"

definition xdp_dispatcher :: "xdp_dispatcher_config \<Rightarrow> (nat \<Rightarrow> u32) \<Rightarrow> u32" where
  "xdp_dispatcher conf prog = dispatch_from conf prog [0..<MAX_DISPATCHER_ACTIONS]"

subsection \<open>Lemmas: configuration slots\<close>

lemma fill_slots_const [simp]:
  "num_progs_enabled (fill_slots i ps c) = num_progs_enabled c"
  "magic (fill_slots i ps c) = magic c"
  "dispatcher_version (fill_slots i ps c) = dispatcher_version c"
  "length (c_chain_call_actions (fill_slots i ps c)) = length (c_chain_call_actions c)"
  "length (c_run_prios (fill_slots i ps c)) = length (c_run_prios c)"
  "length (c_program_flags (fill_slots i ps c)) = length (c_program_flags c)"
  by (induction i ps c rule: fill_slots.induct) (auto simp: Let_def)

lemma fill_slots_frags:
  "is_xdp_frags (fill_slots i ps c) \<longleftrightarrow>
     is_xdp_frags c \<and> (\<forall>p\<in>set ps. xdp_program__xdp_frags_support (Some p))"
  by (induction i ps c rule: fill_slots.induct) (auto simp: Let_def)

lemma fill_slots_nth:
  "i + length ps \<le> length (c_chain_call_actions c) \<Longrightarrow>
   c_chain_call_actions (fill_slots i ps c) ! j =
     (if i \<le> j \<and> j < i + length ps then chain_call_actions (ps ! (j - i)) OR push_bit 31 1
      else c_chain_call_actions c ! j)"
  "i + length ps \<le> length (c_run_prios c) \<Longrightarrow>
   c_run_prios (fill_slots i ps c) ! j =
     (if i \<le> j \<and> j < i + length ps then run_prio (ps ! (j - i)) else c_run_prios c ! j)"
  "i + length ps \<le> length (c_program_flags c) \<Longrightarrow>
   c_program_flags (fill_slots i ps c) ! j =
     (if i \<le> j \<and> j < i + length ps \<and> xdp_program__xdp_frags_support (Some (ps ! (j - i)))
      then BPF_F_XDP_HAS_FRAGS else c_program_flags c ! j)"
  by (induction i ps c rule: fill_slots.induct)
    (auto simp: Let_def nth_list_update nth_Cons' Suc_le_eq le_less)

lemma fill_config_simps:
  assumes "length ps \<le> 10"
  shows "i < length ps \<Longrightarrow> c_chain_call_actions (fill_config fr v ps) ! i =
           chain_call_actions (ps ! i) OR push_bit 31 1"
    and "i < length ps \<Longrightarrow> c_run_prios (fill_config fr v ps) ! i = run_prio (ps ! i)"
    and "i < length ps \<Longrightarrow> c_program_flags (fill_config fr v ps) ! i =
           (if xdp_program__xdp_frags_support (Some (ps ! i)) then BPF_F_XDP_HAS_FRAGS else 0)"
    and "unat (num_progs_enabled (fill_config fr v ps)) = length ps"
  using assms
  by (auto simp: fill_config_def zero_config_def fill_slots_nth unat_of_nat take_bit_nat_eq_self)

subsection \<open>Lemmas: the chain of calls\<close>

text \<open>The intended meaning of the chain: a program hands over to the next one when it returns an action
  its chain-call set contains (or when its slot is empty).\<close>

fun run_chain :: "(xdp_program \<times> u32) list \<Rightarrow> u32" where
  "run_chain [] = xdp_action_code XDP_PASS"
| "run_chain ((p, r) # rest) =
     (if unat r = XDP_DISPATCHER_RETVAL \<or> xdp_program__chain_call_enabled (Some p) (unat r)
      then run_chain rest else r)"

lemma bit_or_push_bit_1:
  "bit (w OR push_bit n 1 :: 'a::len word) i \<longleftrightarrow> bit w i \<or> (i = n \<and> n < LENGTH('a))"
  by (auto simp: bit_simps)

lemma slot_test:
  fixes r w :: u32
  assumes "unat r < 32"
  shows "push_bit (unat r mod 32) 1 AND (w OR push_bit 31 1) = 0 \<longleftrightarrow>
         \<not> (unat r = 31 \<or> (unat r < 31 \<and> bit w (unat r)))"
proof -
  have "push_bit (unat r mod 32) 1 AND (w OR push_bit 31 1) = (w OR push_bit 31 1) AND push_bit (unat r) 1"
    using assms by (simp add: and.commute del: push_bit_of_1)
  moreover have "bit (w OR push_bit 31 1) (unat r) \<longleftrightarrow> unat r = 31 \<or> (unat r < 31 \<and> bit w (unat r))"
    using assms bit_or_push_bit_1[of w 31 "unat r"] by auto
  ultimately show ?thesis using and_push_bit_1_iff[of "w OR push_bit 31 1" "unat r"] by metis
qed

lemma dispatch_from_chain:
  assumes "length ps \<le> 10" and "\<And>j. j < length ps \<Longrightarrow> unat (ret j) < 32" and "i \<le> length ps"
  shows "dispatch_from (fill_config fr v ps) ret [i..<10] =
         run_chain (zip (drop i ps) (map ret [i..<length ps]))"
  using assms(3)
proof (induction "length ps - i" arbitrary: i)
  case 0
  then have "i = length ps" by simp
  then show ?case
    using assms(1) fill_config_simps(4)[OF assms(1), of fr v]
    by (cases "i < 10") (simp_all add: upt_conv_Cons del: upt_Suc)
next
  case (Suc k)
  then have i: "i < length ps" by simp
  have up: "[i..<10] = i # [Suc i..<10]" "[i..<length ps] = i # [Suc i..<length ps]"
    using i assms(1) by (simp_all add: upt_conv_Cons del: upt_Suc)
  have dr: "drop i ps = ps ! i # drop (Suc i) ps" using i by (simp add: Cons_nth_drop_Suc)
  have IH: "dispatch_from (fill_config fr v ps) ret [Suc i..<10] =
      run_chain (zip (drop (Suc i) ps) (map ret [Suc i..<length ps]))"
    by (rule Suc.hyps(1)) (use Suc.hyps(2) i in auto)
  show ?case
    unfolding up dr
    using i slot_test[OF assms(2)[OF i], of "chain_call_actions (ps ! i)"]
    by (simp add: fill_config_simps[OF assms(1)] IH chain_call_enabled_bit Let_def del: push_bit_of_1)
qed

subsection \<open>Lemmas: collecting the programs\<close>

definition to_remove :: "heap \<Rightarrow> ptr list \<Rightarrow> ptr \<Rightarrow> bool" where
  "to_remove h progs p \<longleftrightarrow> (\<exists>q\<in>set progs. prog_id (h ! q) = prog_id (h ! p))"

lemma collect_old_add:
  "length acc + length old \<le> n \<Longrightarrow> collect_old h progs False n old acc = Some (Inr (acc @ old))"
  by (induction old arbitrary: acc) auto

lemma collect_old_remove:
  "collect_old h progs True n old acc =
     (if length acc + length (filter (\<lambda>p. \<not> to_remove h progs p) old) \<le> n \<or> filter (\<lambda>p. \<not> to_remove h progs p) old = []
      then Some (Inr (acc @ filter (\<lambda>p. \<not> to_remove h progs p) old)) else Some (Inl (- EINVAL)))"
  by (induction old arbitrary: acc) (auto simp: to_remove_def)

lemma collect_progs_add:
  "collect_progs h progs False (length old + length progs) old = Some (Inr (old @ progs))"
  by (simp add: collect_progs_def collect_old_add)

lemma sort_progs_perm:
  assumes "qsort q"
  shows "mset (sort_progs q h ps) = mset ps"
  by (simp add: sort_progs_def qsort.perm[OF assms])

lemma sort_progs_sorted:
  assumes "qsort q" and "\<And>p. p \<in> set ps \<Longrightarrow> named (h ! p)" and "same_origin (nth h ` set ps)"
  shows "sorted (map (\<lambda>p. run_prio (h ! p)) (sort_progs q h ps))"
proof (cases "length ps > 1")
  case True
  have "comparator (set ps) (\<lambda>a b. cmp_val (h ! a) (h ! b))"
    by (rule comparator_map[of "nth h ` set ps"]) (auto intro!: comparator_cmp_val assms)
  then have "sorted_wrt (\<lambda>a b. cmp_val (h ! a) (h ! b) \<le> 0) (sort_progs q h ps)"
    using qsort.ordered[OF assms(1), of ps] True by (simp add: sort_progs_def)
  then show ?thesis
    unfolding sorted_map by (rule sorted_wrt_mono_rel[rotated]) (rule cmp_val_le_prio)
next
  case False
  then show ?thesis by (cases ps; cases "tl ps") (auto simp: sort_progs_def)
qed

lemma restore_fill:
  assumes "length ps \<le> 10" and "i < length ps" and "\<not> bit (chain_call_actions (ps ! i)) 31"
  shows "restore_slot (fill_config fr v ps) i q =
           q\<lparr>chain_call_actions := chain_call_actions (ps ! i), run_prio := run_prio (ps ! i),
             is_frags := xdp_program__xdp_frags_support (Some (ps ! i))\<rparr>"
proof -
  have "(w OR push_bit n 1) AND NOT (push_bit n 1) = w" if "\<not> bit w n" for w :: u32 and n
    using that by (intro bit_word_eqI) (auto simp: bit_simps)
  from this[OF assms(3)] show ?thesis
    using assms(2) by (simp add: restore_slot_def fill_config_simps[OF assms(1)] del: push_bit_of_1)
qed

subsection \<open>Properties\<close>


definition two_progs :: heap where
  "two_progs = [xdp_program__new\<lparr>prog_name := Some ''fw'', run_prio := 10\<rparr>,
                xdp_program__new\<lparr>prog_name := Some ''count'', run_prio := 5\<rparr>]"


text \<open>taking programs out of a dispatcher.  Let \<open>k\<close> be the number of attached programs whose id is
  among the ids to remove.  If \<open>k\<close> is the number of programs asked for, exactly the others remain, in
  order; if the request names a program twice, so that \<open>k\<close> is smaller, the request is refused with
  \<open>-EINVAL\<close>; if a program is attached more than once, so that \<open>k\<close> is larger, entries of the new array
  stay \<open>NULL\<close> and are dereferenced.\<close>

theorem remove_progs_cases:
  assumes "length progs < length old" and "k = length (filter (to_remove h progs) old)"
  shows "collect_progs h progs True (length old - length progs) old =
     (if k = length progs then Some (Inr (filter (\<lambda>p. \<not> to_remove h progs p) old))
      else if k < length progs then Some (Inl (- EINVAL)) else None)"
proof -
  let ?keep = "filter (\<lambda>p. \<not> to_remove h progs p) old"
  have "k + length ?keep = length old"
    using assms(2) sum_length_filter_compl[of "to_remove h progs" old] by simp
  then show ?thesis
    using assms(1) by (auto simp: collect_progs_def collect_old_remove)
qed

theorem remove_progs_cases_witness:
  "collect_progs [xdp_program__new\<lparr>prog_id := 7\<rparr>, xdp_program__new\<lparr>prog_id := 8\<rparr>,
       xdp_program__new\<lparr>prog_id := 7\<rparr>] [0] True (3 - 1) [0, 1, 2] = None"
  using remove_progs_cases[of "[0]" "[0, 1, 2]" 2 "[xdp_program__new\<lparr>prog_id := 7\<rparr>,
      xdp_program__new\<lparr>prog_id := 8\<rparr>, xdp_program__new\<lparr>prog_id := 7\<rparr>]"]
  by (simp add: to_remove_def numeral_2_eq_2)

text \<open>the configuration a dispatcher is loaded with and the attributes read back from it when
  the pinned programs are opened again are inverse: chain-call actions, priority and fragment support of
  every program survive.\<close>

theorem config_roundtrip:
  assumes "length ps \<le> MAX_DISPATCHER_ACTIONS" and "i < length ps"
    and "\<not> bit (chain_call_actions (ps ! i)) XDP_DISPATCHER_RETVAL"
  shows "chain_call_actions (restore_slot (fill_config fr v ps) i p) = chain_call_actions (ps ! i)
      \<and> run_prio (restore_slot (fill_config fr v ps) i p) = run_prio (ps ! i)
      \<and> is_frags (restore_slot (fill_config fr v ps) i p) = xdp_program__xdp_frags_support (Some (ps ! i))
      \<and> prog_id (restore_slot (fill_config fr v ps) i p) = prog_id p"
  using restore_fill[OF assms] by simp

theorem config_roundtrip_witness:
  "run_prio (restore_slot (fill_config True 2 [xdp_program__new\<lparr>run_prio := 9\<rparr>]) 0 xdp_program__new) = 9"
proof -
  have "\<not> bit (chain_call_actions ([xdp_program__new\<lparr>run_prio := 9\<rparr>] ! 0)) 31"
    by (simp add: xdp_program__new_def)
  then show ?thesis
    using config_roundtrip[of "[xdp_program__new\<lparr>run_prio := 9\<rparr>]" 0 True 2 xdp_program__new] by simp
qed

end
