(* ===== verification/Libxdp_Env.thy ===== *)
theory Libxdp_Env
  imports Multiprog
begin

text \<open>
  The operations of \<open>libxdp.c\<close> that talk to the kernel, to libbpf and to the file system, on single
  programs: opening, loading, duplicating and closing an \<open>xdp_program\<close>.  The services \<open>libxdp\<close> calls are the
  fields of the record \<open>libxdp_env\<close>; each is a function on a state \<open>'w\<close> of the outside world, so
  that the code is verified for every kernel and file system.  A service that sets \<open>errno\<close> on failure
  yields the negated error number instead.

  An operation maps a state (heap of programs and world) to its result and the new state, or to
  \<^const>\<open>None\<close> where the C code would dereference \<open>NULL\<close>.
\<close>

subsection \<open>Services\<close>

record bpf_prog_info =
  info_id :: u32
  info_type :: nat
  info_name :: string
  info_tag :: "u8 list"
  info_load_time :: u64
  info_btf_id :: u32
  info_nr_map_ids :: nat
  info_map_id :: u32

record bpf_map_info =
  mi_type :: u32
  mi_key_size :: u32
  mi_value_size :: u32
  mi_max_entries :: u32
  mi_map_flags :: u32

record bpf_link_info =
  li_is_xdp :: bool
  li_ifindex :: u32
  li_prog_id :: u32

datatype xdp_attached = XDP_ATTACHED_NONE | XDP_ATTACHED_DRV | XDP_ATTACHED_SKB | XDP_ATTACHED_HW
  | XDP_ATTACHED_MULTI

record xdp_query =
  q_drv_prog_id :: u32
  q_skb_prog_id :: u32
  q_hw_prog_id :: u32
  q_attach_mode :: xdp_attached

record 'w libxdp_env =
  alloc :: "'w \<Rightarrow> bool \<times> 'w"
  close_fd :: "int \<Rightarrow> 'w \<Rightarrow> unit \<times> 'w"
  dup_fd :: "int \<Rightarrow> 'w \<Rightarrow> int \<times> 'w"
  get_prog_info :: "int \<Rightarrow> 'w \<Rightarrow> (int + bpf_prog_info) \<times> 'w"
  btf_by_id :: "u32 \<Rightarrow> 'w \<Rightarrow> btf option \<times> 'w"
  prog_fd_by_id :: "u32 \<Rightarrow> 'w \<Rightarrow> int \<times> 'w"
  map_fd_by_id :: "u32 \<Rightarrow> 'w \<Rightarrow> int \<times> 'w"
  get_map_info :: "int \<Rightarrow> 'w \<Rightarrow> (int + bpf_map_info) \<times> 'w"
  map_lookup0 :: "int \<Rightarrow> 'w \<Rightarrow> (int + u8 list) \<times> 'w"
  xdp_attach :: "int \<Rightarrow> int \<Rightarrow> int \<Rightarrow> u32 \<Rightarrow> 'w \<Rightarrow> int \<times> 'w"
  xdp_query :: "int \<Rightarrow> 'w \<Rightarrow> (int + xdp_query) \<times> 'w"
  link_ids :: "'w \<Rightarrow> (u32 list \<times> int) \<times> 'w"
  link_fd_by_id :: "u32 \<Rightarrow> 'w \<Rightarrow> int \<times> 'w"
  get_link_info :: "int \<Rightarrow> 'w \<Rightarrow> (int + bpf_link_info) \<times> 'w"
  link_detach :: "int \<Rightarrow> 'w \<Rightarrow> int \<times> 'w"
  link_create :: "int \<Rightarrow> int \<Rightarrow> int \<Rightarrow> 'w \<Rightarrow> int \<times> 'w"
  raw_tp_open :: "int \<Rightarrow> 'w \<Rightarrow> int \<times> 'w"
  kern_compat :: "'w \<Rightarrow> int \<times> 'w"
  getenv :: "string \<Rightarrow> 'w \<Rightarrow> string option \<times> 'w"
  bpffs_dir :: "'w \<Rightarrow> (int + string) \<times> 'w"
  lock_acquire :: "'w \<Rightarrow> int \<times> 'w"
  lock_release :: "int \<Rightarrow> 'w \<Rightarrow> unit \<times> 'w"
  mkdir :: "string \<Rightarrow> 'w \<Rightarrow> int \<times> 'w"
  rmdir :: "string \<Rightarrow> 'w \<Rightarrow> int \<times> 'w"
  unlink :: "string \<Rightarrow> 'w \<Rightarrow> int \<times> 'w"
  stat_path :: "string \<Rightarrow> 'w \<Rightarrow> int \<times> 'w"
  obj_pin :: "int \<Rightarrow> string \<Rightarrow> 'w \<Rightarrow> int \<times> 'w"
  obj_get :: "string \<Rightarrow> 'w \<Rightarrow> int \<times> 'w"
  obj_open :: "string \<Rightarrow> 'w \<Rightarrow> (int + nat) \<times> 'w"
  obj_close :: "nat \<Rightarrow> 'w \<Rightarrow> unit \<times> 'w"
  obj_progs :: "nat \<Rightarrow> 'w \<Rightarrow> (bpf_program \<times> string option) list \<times> 'w"
  obj_btf :: "nat \<Rightarrow> 'w \<Rightarrow> btf option \<times> 'w"
  obj_has_map :: "nat \<Rightarrow> 'w \<Rightarrow> bool \<times> 'w"
  obj_set_rodata :: "nat \<Rightarrow> xdp_dispatcher_config \<Rightarrow> 'w \<Rightarrow> int \<times> 'w"
  obj_set_ifindex :: "nat \<Rightarrow> int \<Rightarrow> 'w \<Rightarrow> unit \<times> 'w"
  obj_load :: "nat \<Rightarrow> 'w \<Rightarrow> int \<times> 'w"
  prog_loaded :: "nat \<Rightarrow> 'w \<Rightarrow> bool \<times> 'w"
  prog_set_flags :: "nat \<Rightarrow> u32 \<Rightarrow> 'w \<Rightarrow> int \<times> 'w"
  prog_set_type :: "nat \<Rightarrow> nat \<Rightarrow> 'w \<Rightarrow> unit \<times> 'w"
  prog_set_target :: "nat \<Rightarrow> int \<Rightarrow> string \<Rightarrow> 'w \<Rightarrow> int \<times> 'w"
  libbpf_prog_fd :: "nat \<Rightarrow> 'w \<Rightarrow> int \<times> 'w"

type_synonym 'w st = "heap \<times> 'w"

abbreviation (input) BPF_PROG_TYPE_XDP :: nat where "BPF_PROG_TYPE_XDP \<equiv> 6"
abbreviation (input) BPF_PROG_TYPE_EXT :: nat where "BPF_PROG_TYPE_EXT \<equiv> 28"
abbreviation (input) PATH_MAX :: nat where "PATH_MAX \<equiv> 4096"
abbreviation (input) EPERM :: int where "EPERM \<equiv> 1"

definition sys :: "('w \<Rightarrow> 'a \<times> 'w) \<Rightarrow> 'w st \<Rightarrow> ('a \<times> 'w st) option" where
  "sys f s = (case f (snd s) of (r, w) \<Rightarrow> Some (r, (fst s, w)))"

definition new_prog :: "xdp_program \<Rightarrow> 'w st \<Rightarrow> ptr \<times> 'w st" where
  "new_prog p s = (length (fst s), (fst s @ [p], snd s))"

definition prog_at :: "'w st \<Rightarrow> ptr \<Rightarrow> xdp_program" where
  "prog_at s p = fst s ! p"

definition set_prog :: "ptr \<Rightarrow> xdp_program \<Rightarrow> 'w st \<Rightarrow> 'w st" where
  "set_prog p x s = ((fst s)[p := x], snd s)"

subsection \<open>Closing and opening\<close>

definition close_if :: "'w libxdp_env \<Rightarrow> int \<Rightarrow> 'w st \<Rightarrow> (unit \<times> 'w st) option" where
  "close_if env fd s = (if fd \<ge> 0 then sys (close_fd env fd) s else Some ((), s))"

definition xdp_program__close :: "'w libxdp_env \<Rightarrow> ptr option \<Rightarrow> 'w st \<Rightarrow> (unit \<times> 'w st) option" where
  "xdp_program__close env prog s =
     (case prog of
        None \<Rightarrow> Some ((), s)
      | Some p \<Rightarrow> do {
          (_, s) \<leftarrow> close_if env (link_fd (prog_at s p)) s;
          (_, s) \<leftarrow> close_if env (prog_fd (prog_at s p)) s;
          (case bpf_obj (prog_at s p) of
             Some obj \<Rightarrow> if \<not> from_external_obj (prog_at s p) then sys (obj_close env obj) s else Some ((), s)
           | None \<Rightarrow> Some ((), s))
        })"

definition bpf_program_by_section_name ::
  "(bpf_program \<times> string option) list \<Rightarrow> string \<Rightarrow> bpf_program option" where
  "bpf_program_by_section_name progs section_name =
     map_option fst (find (\<lambda>(bp, sname). sname = Some section_name) progs)"

definition xdp_program__create_from_obj ::
  "'w libxdp_env \<Rightarrow> nat option \<Rightarrow> string option \<Rightarrow> string option \<Rightarrow> bool \<Rightarrow> 'w st
   \<Rightarrow> ((int + ptr) \<times> 'w st) option" where
  "xdp_program__create_from_obj env objo section_name prgname external s =
     (case objo of
        None \<Rightarrow> Some (Inl (- EINVAL), s)
      | Some obj \<Rightarrow>
          if section_name \<noteq> None \<and> prgname \<noteq> None then Some (Inl (- EINVAL), s)
          else do {
            (progs, s) \<leftarrow> sys (obj_progs env obj) s;
            let bpo = (case section_name of
                         Some sn \<Rightarrow> bpf_program_by_section_name progs sn
                       | None \<Rightarrow> (case prgname of
                                   Some n \<Rightarrow> map_option fst (find (\<lambda>(bp, _). bp_name bp = n) progs)
                                 | None \<Rightarrow> (case progs of [] \<Rightarrow> None | (bp, _) # _ \<Rightarrow> Some bp)));
            case bpo of
              None \<Rightarrow> Some (Inl (- ENOENT), s)
            | Some bp \<Rightarrow> do {
                (ok, s) \<leftarrow> sys (alloc env) s;
                if \<not> ok then Some (Inl (- ENOMEM), s)
                else do {
                  let (p, s) = new_prog xdp_program__new s;
                  (ok, s) \<leftarrow> sys (alloc env) s;
                  if \<not> ok then do { (_, s) \<leftarrow> xdp_program__close env (Some p) s; Some (Inl (- ENOMEM), s) }
                  else do {
                    let s = set_prog p ((prog_at s p)\<lparr>prog_name := Some (bp_name bp)\<rparr>) s;
                    (bo, s) \<leftarrow> sys (obj_btf env obj) s;
                    (ok, s) \<leftarrow> sys (alloc env) s;
                    (err, x) \<leftarrow> xdp_program__parse_btf ok (prog_at s p) bo;
                    let s = set_prog p x s;
                    if err \<noteq> 0 \<and> err \<noteq> - ENOENT
                    then do { (_, s) \<leftarrow> xdp_program__close env (Some p) s; Some (Inl err, s) }
                    else
                      Some (Inr p, set_prog p (x\<lparr>bpf_prog := Some bp, bpf_obj := Some obj, prog_btf := bo,
                                                 from_external_obj := external\<rparr>) s)
                  }
                }
              }
          })"

definition xdp_program__open_file ::
  "'w libxdp_env \<Rightarrow> string option \<Rightarrow> string option \<Rightarrow> string option \<Rightarrow> 'w st
   \<Rightarrow> ((int + ptr) \<times> 'w st) option" where
  "xdp_program__open_file env filename section_name prgname s =
     (case filename of
        None \<Rightarrow> Some (Inl (- EINVAL), s)
      | Some f \<Rightarrow> do {
          (r, s) \<leftarrow> sys (obj_open env f) s;
          case r of
            Inl err \<Rightarrow> Some (Inl err, s)
          | Inr obj \<Rightarrow> do {
              (prog, s) \<leftarrow> xdp_program__create_from_obj env (Some obj) section_name prgname False s;
              case prog of
                Inl err \<Rightarrow> do { (_, s) \<leftarrow> sys (obj_close env obj) s; Some (Inl err, s) }
              | Inr p \<Rightarrow> Some (Inr p, s)
            }
        })"

text \<open>\<open>find_bpf_file\<close>: \<open>bpf_object_path\<close> is the directory compiled into the library.\<close>

definition try_bpf_file :: "'w libxdp_env \<Rightarrow> string \<Rightarrow> string \<Rightarrow> 'w st \<Rightarrow> (string option \<times> 'w st) option" where
  "try_bpf_file env path progname s =
     (let buf = path @ ''/'' @ progname
      in if try_snprintf PATH_MAX buf \<noteq> 0 then Some (None, s)
         else do {
           (r, s) \<leftarrow> sys (stat_path env buf) s;
           if r \<noteq> 0 then Some (None, s) else Some (Some buf, s)
         })"

definition find_bpf_file ::
  "'w libxdp_env \<Rightarrow> string \<Rightarrow> string \<Rightarrow> 'w st \<Rightarrow> ((int + string) \<times> 'w st) option" where
  "find_bpf_file env bpf_object_path progname s = do {
     (path, s) \<leftarrow> sys (getenv env ''LIBXDP_OBJECT_PATH'') s;
     (r, s) \<leftarrow> try_bpf_file env (case path of Some d \<Rightarrow> d | None \<Rightarrow> bpf_object_path) progname s;
     case r of None \<Rightarrow> Some (Inl (- ENOENT), s) | Some buf \<Rightarrow> Some (Inr buf, s)
   }"

definition xdp_program__find_file ::
  "'w libxdp_env \<Rightarrow> string \<Rightarrow> string \<Rightarrow> string option \<Rightarrow> string option \<Rightarrow> 'w st
   \<Rightarrow> ((int + ptr) \<times> 'w st) option" where
  "xdp_program__find_file env bpf_object_path filename section_name prgname s = do {
     (r, s) \<leftarrow> find_bpf_file env bpf_object_path filename s;
     case r of
       Inl err \<Rightarrow> Some (Inl err, s)
     | Inr buf \<Rightarrow> xdp_program__open_file env (Some buf) section_name prgname s
   }"

subsection \<open>Programs from a file descriptor\<close>

text \<open>When the BTF of the program cannot be read the code jumps to its error exit with \<open>err == 0\<close>: the
  descriptor is closed, the program stays without one, and the result is success.\<close>

definition xdp_program__fill_from_fd ::
  "'w libxdp_env \<Rightarrow> ptr \<Rightarrow> int \<Rightarrow> 'w st \<Rightarrow> (int \<times> 'w st) option" where
  "xdp_program__fill_from_fd env p fd s = do {
     (new_fd, s) \<leftarrow> sys (dup_fd env fd) s;
     if new_fd < 0 then Some (new_fd, s)
     else do {
       (info, s) \<leftarrow> sys (get_prog_info env new_fd) s;
       case info of
         Inl err \<Rightarrow> do { (_, s) \<leftarrow> sys (close_fd env new_fd) s; Some (err, s) }
       | Inr i \<Rightarrow> do {
           (ok, s) \<leftarrow> (if prog_name (prog_at s p) = None then sys (alloc env) s else Some (True, s));
           if \<not> ok then do { (_, s) \<leftarrow> sys (close_fd env new_fd) s; Some (- ENOMEM, s) }
           else do {
             let s = (if prog_name (prog_at s p) = None
                      then set_prog p ((prog_at s p)\<lparr>prog_name := Some (info_name i)\<rparr>) s else s);
             if info_btf_id i \<noteq> 0 \<and> prog_btf (prog_at s p) = None then do {
               (bo, s) \<leftarrow> sys (btf_by_id env (info_btf_id i)) s;
               case bo of
                 None \<Rightarrow> do { (_, s) \<leftarrow> sys (close_fd env new_fd) s; Some (0, s) }
               | Some b \<Rightarrow>
                   Some (0, set_prog p ((prog_at s p)\<lparr>prog_btf := Some b, prog_tag := info_tag i,
                     load_time := info_load_time i, prog_fd := new_fd, prog_id := info_id i,
                     prog_type := info_type i\<rparr>) s)
             }
             else
               Some (0, set_prog p ((prog_at s p)\<lparr>prog_tag := info_tag i,
                 load_time := info_load_time i, prog_fd := new_fd, prog_id := info_id i,
                 prog_type := info_type i\<rparr>) s)
           }
         }
     }
   }"

definition xdp_program__from_fd ::
  "'w libxdp_env \<Rightarrow> int \<Rightarrow> 'w st \<Rightarrow> ((int + ptr) \<times> 'w st) option" where
  "xdp_program__from_fd env fd s = do {
     (ok, s) \<leftarrow> sys (alloc env) s;
     if \<not> ok then Some (Inl (- ENOMEM), s)
     else do {
       let (p, s) = new_prog xdp_program__new s;
       (err, s) \<leftarrow> xdp_program__fill_from_fd env p fd s;
       if err \<noteq> 0 then do { (_, s) \<leftarrow> xdp_program__close env (Some p) s; Some (Inl err, s) }
       else do {
         (ok, s) \<leftarrow> sys (alloc env) s;
         (err, x) \<leftarrow> xdp_program__parse_btf ok (prog_at s p) None;
         let s = set_prog p x s;
         if err \<noteq> 0 \<and> err \<noteq> - ENOENT
         then do { (_, s) \<leftarrow> xdp_program__close env (Some p) s; Some (Inl err, s) }
         else Some (Inr p, s)
       }
     }
   }"

definition xdp_program__from_id ::
  "'w libxdp_env \<Rightarrow> u32 \<Rightarrow> 'w st \<Rightarrow> ((int + ptr) \<times> 'w st) option" where
  "xdp_program__from_id env i s = do {
     (fd, s) \<leftarrow> sys (prog_fd_by_id env i) s;
     if fd < 0 then Some (Inl fd, s)
     else do {
       (prog, s) \<leftarrow> xdp_program__from_fd env fd s;
       (_, s) \<leftarrow> sys (close_fd env fd) s;
       Some (prog, s)
     }
   }"

definition xdp_program__from_pin ::
  "'w libxdp_env \<Rightarrow> string \<Rightarrow> 'w st \<Rightarrow> ((int + ptr) \<times> 'w st) option" where
  "xdp_program__from_pin env pin_path s = do {
     (fd, s) \<leftarrow> sys (obj_get env pin_path) s;
     if fd < 0 then Some (Inl fd, s)
     else do {
       (prog, s) \<leftarrow> xdp_program__from_fd env fd s;
       (_, s) \<leftarrow> sys (close_fd env fd) s;
       Some (prog, s)
     }
   }"

definition xdp_program__clone ::
  "'w libxdp_env \<Rightarrow> ptr option \<Rightarrow> nat \<Rightarrow> 'w st \<Rightarrow> ((int + ptr) \<times> 'w st) option" where
  "xdp_program__clone env prog flags s =
     (case prog of
        None \<Rightarrow> Some (Inl (- EINVAL), s)
      | Some p \<Rightarrow>
          if flags \<noteq> 0 \<or> (prog_fd (prog_at s p) < 0 \<and> bpf_obj (prog_at s p) = None)
          then Some (Inl (- EINVAL), s)
          else if prog_fd (prog_at s p) \<ge> 0 then xdp_program__from_fd env (prog_fd (prog_at s p)) s
          else xdp_program__create_from_obj env (bpf_obj (prog_at s p)) None (prog_name (prog_at s p)) True s)"

subsection \<open>Creating a program from options\<close>

record xdp_program_opts =
  opt_obj :: "nat option"
  opt_has_opts :: bool
  opt_prog_name :: "string option"
  opt_find_filename :: "string option"
  opt_open_filename :: "string option"
  opt_pin_path :: "string option"
  opt_id :: u32
  opt_fd :: int

text \<open>The size and padding check of the options structure (\<open>OPTS_VALID\<close>) is \<open>valid\<close>.  An error result is
  \<open>NULL\<close> with \<open>errno\<close> set; it is shown here by its negated number.\<close>

definition xdp_program__create ::
  "'w libxdp_env \<Rightarrow> string \<Rightarrow> bool \<Rightarrow> xdp_program_opts option \<Rightarrow> 'w st \<Rightarrow> ((int + ptr) \<times> 'w st) option" where
  "xdp_program__create env bpf_object_path valid optso s =
     (case optso of
        None \<Rightarrow> Some (Inl (- EINVAL), s)
      | Some opts \<Rightarrow>
          let obj = opt_obj opts; obj_opts = opt_has_opts opts; pname = opt_prog_name opts;
              find_filename = opt_find_filename opts; open_filename = opt_open_filename opts;
              pin_path = opt_pin_path opts; i = opt_id opts; fd = opt_fd opts
          in if \<not> valid then Some (Inl (- EINVAL), s)
             else if obj \<noteq> None then
               if obj_opts \<or> find_filename \<noteq> None \<or> open_filename \<noteq> None \<or> pin_path \<noteq> None \<or> i \<noteq> 0 \<or> fd \<noteq> 0
               then Some (Inl (- EINVAL), s)
               else xdp_program__create_from_obj env obj None pname True s
             else if find_filename \<noteq> None then
               if obj \<noteq> None \<or> open_filename \<noteq> None \<or> pin_path \<noteq> None \<or> i \<noteq> 0 \<or> fd \<noteq> 0
               then Some (Inl (- EINVAL), s)
               else xdp_program__find_file env bpf_object_path (the find_filename) None pname s
             else if open_filename \<noteq> None then
               if obj \<noteq> None \<or> find_filename \<noteq> None \<or> pin_path \<noteq> None \<or> i \<noteq> 0 \<or> fd \<noteq> 0
               then Some (Inl (- EINVAL), s)
               else xdp_program__open_file env open_filename None pname s
             else if pin_path \<noteq> None then
               if obj \<noteq> None \<or> obj_opts \<or> pname \<noteq> None \<or> find_filename \<noteq> None \<or> open_filename \<noteq> None
                  \<or> i \<noteq> 0 \<or> fd \<noteq> 0
               then Some (Inl (- EINVAL), s)
               else xdp_program__from_pin env (the pin_path) s
             else if i \<noteq> 0 then
               if obj \<noteq> None \<or> obj_opts \<or> pname \<noteq> None \<or> find_filename \<noteq> None \<or> open_filename \<noteq> None
                  \<or> pin_path \<noteq> None \<or> fd \<noteq> 0
               then Some (Inl (- EINVAL), s)
               else xdp_program__from_id env i s
             else if fd \<noteq> 0 then
               if obj \<noteq> None \<or> obj_opts \<or> pname \<noteq> None \<or> find_filename \<noteq> None \<or> open_filename \<noteq> None
                  \<or> pin_path \<noteq> None \<or> i \<noteq> 0
               then Some (Inl (- EINVAL), s)
               else xdp_program__from_fd env fd s
             else Some (Inl (- EINVAL), s))"

subsection \<open>Loading\<close>

text \<open>\<open>prog_loaded\<close> is libbpf's answer to \<open>bpf_program__set_autoload\<close>, which fails on a loaded object.\<close>

definition xdp_program__load :: "'w libxdp_env \<Rightarrow> ptr option \<Rightarrow> 'w st \<Rightarrow> (int \<times> 'w st) option" where
  "xdp_program__load env prog s =
     (case prog of
        None \<Rightarrow> Some (- EINVAL, s)
      | Some p \<Rightarrow>
          if prog_fd (prog_at s p) \<ge> 0 then Some (- EEXIST, s)
          else (case (bpf_obj (prog_at s p), bpf_prog (prog_at s p)) of
              (Some obj, Some bp) \<Rightarrow> do {
                (is_loaded, s) \<leftarrow> sys (prog_loaded env (bp_handle bp)) s;
                (err, s) \<leftarrow>
                  (if is_loaded
                   then Some (0, set_prog p ((prog_at s p)\<lparr>is_frags := (bp_flags bp AND BPF_F_XDP_HAS_FRAGS \<noteq> 0)\<rparr>) s)
                   else do {
                     let s = set_prog p ((prog_at s p)\<lparr>is_frags :=
                                 xdp_program__xdp_frags_support (Some (prog_at s p))\<rparr>) s;
                     (_, s) \<leftarrow> (if bp_type bp = BPF_PROG_TYPE_EXT
                               then sys (prog_set_flags env (bp_handle bp)
                                           (bp_flags bp AND NOT BPF_F_XDP_HAS_FRAGS)) s
                               else Some (0, s));
                     sys (obj_load env obj) s
                   });
                if err \<noteq> 0 then Some (err, s)
                else do {
                  (fd, s) \<leftarrow> sys (libbpf_prog_fd env (bp_handle bp)) s;
                  xdp_program__fill_from_fd env p fd s
                }
              }
            | _ \<Rightarrow> Some (- EINVAL, s)))"

text \<open>The stateful form of \<open>xdp_program__set_xdp_frags_support\<close>, which asks libbpf to set the flags.\<close>

definition set_frags ::
  "'w libxdp_env \<Rightarrow> ptr \<Rightarrow> bool \<Rightarrow> 'w st \<Rightarrow> (int \<times> 'w st) option" where
  "set_frags env p frags s =
     (case bpf_prog (prog_at s p) of
        None \<Rightarrow> Some (- EINVAL, s)
      | Some bp \<Rightarrow>
          if prog_fd (prog_at s p) \<ge> 0 then Some (- EINVAL, s)
          else do {
            (ret, s) \<leftarrow> sys (prog_set_flags env (bp_handle bp)
              (if frags then bp_flags bp OR BPF_F_XDP_HAS_FRAGS else bp_flags bp AND NOT BPF_F_XDP_HAS_FRAGS)) s;
            let (r, x) = xdp_program__set_xdp_frags_support ret (Some (prog_at s p)) frags;
            Some (r, case x of Some x \<Rightarrow> set_prog p x s | None \<Rightarrow> s)
          })"

definition kernel_has_frags_support :: "'w libxdp_env \<Rightarrow> string \<Rightarrow> 'w st \<Rightarrow> (bool \<times> 'w st) option" where
  "kernel_has_frags_support env bpf_object_path s = do {
     (r, s) \<leftarrow> xdp_program__find_file env bpf_object_path ''xdp-dispatcher.o'' None (Some ''xdp_pass'') s;
     case r of
       Inl _ \<Rightarrow> Some (False, s)
     | Inr p \<Rightarrow> do {
         bp \<leftarrow> bpf_prog (prog_at s p);
         (ret, s) \<leftarrow> sys (prog_set_flags env (bp_handle bp) BPF_F_XDP_HAS_FRAGS) s;
         let s = (if ret = 0 then set_prog p ((prog_at s p)\<lparr>bpf_prog := Some (bp\<lparr>bp_flags := BPF_F_XDP_HAS_FRAGS\<rparr>)\<rparr>) s
                  else s);
         (err, s) \<leftarrow> xdp_program__load env (Some p) s;
         (_, s) \<leftarrow> xdp_program__close env (Some p) s;
         Some (err = 0, s)
       }
   }"

end
