(* ===== verification/Libxdp.thy ===== *)
theory Libxdp
  imports Libxdp_Env
begin

text \<open>
  Attaching to and detaching from an interface, from \<open>libxdp.c\<close>: reading the state of an interface,
  generating, pinning and attaching a dispatcher, and the bounded retries when another process changes
  the interface in between.  State and services are those of \<open>Libxdp_Env\<close>; a \<open>struct xdp_multiprog\<close> is
  returned by value, its programs are pointers into the heap.
\<close>

abbreviation (input) MAX_RETRY :: nat where "MAX_RETRY \<equiv> 10"
abbreviation (input) XDP_FLAGS_UPDATE_IF_NOEXIST :: u32 where "XDP_FLAGS_UPDATE_IF_NOEXIST \<equiv> 1"
abbreviation (input) XDP_FLAGS_SKB_MODE :: u32 where "XDP_FLAGS_SKB_MODE \<equiv> 2"
abbreviation (input) XDP_FLAGS_DRV_MODE :: u32 where "XDP_FLAGS_DRV_MODE \<equiv> 4"
abbreviation (input) XDP_FLAGS_HW_MODE :: u32 where "XDP_FLAGS_HW_MODE \<equiv> 8"

subsection \<open>Attaching a descriptor\<close>

fun mode_flags :: "xdp_attach_mode \<Rightarrow> u32" where
  "mode_flags XDP_MODE_SKB = XDP_FLAGS_SKB_MODE"
| "mode_flags XDP_MODE_NATIVE = XDP_FLAGS_DRV_MODE"
| "mode_flags XDP_MODE_HW = XDP_FLAGS_HW_MODE"
| "mode_flags XDP_MODE_UNSPEC = 0"

text \<open>The jump back to \<open>again\<close> clears \<open>old_fd\<close> and is taken only when \<open>old_fd\<close> is set: the call is made at
  most twice.\<close>

definition xdp_attach_fd ::
  "'w libxdp_env \<Rightarrow> int \<Rightarrow> int \<Rightarrow> int \<Rightarrow> xdp_attach_mode \<Rightarrow> 'w st \<Rightarrow> (int \<times> 'w st) option" where
  "xdp_attach_fd env pfd old_fd ifindex mode s =
     (let xdp_flags = (if old_fd = -1 then XDP_FLAGS_UPDATE_IF_NOEXIST else 0) OR mode_flags mode;
          old_fd = (if old_fd = -1 then 0 else old_fd)
      in do {
        (err, s) \<leftarrow> sys (xdp_attach env ifindex pfd old_fd xdp_flags) s;
        if err = - EINVAL \<and> old_fd \<noteq> 0 then sys (xdp_attach env ifindex pfd 0 xdp_flags) s
        else if err = - EEXIST \<and> old_fd \<noteq> 0 then Some (- EAGAIN, s)
        else Some (err, s)
      })"

text \<open>\<open>xdp_detach_link\<close>: \<open>link_ids\<close> yields the ids that repeated calls of \<open>bpf_link_get_next_id\<close> enumerate and
  the error that ends the enumeration.\<close>

fun detach_link_loop ::
  "'w libxdp_env \<Rightarrow> u32 \<Rightarrow> u32 \<Rightarrow> u32 list \<Rightarrow> int \<Rightarrow> 'w st \<Rightarrow> (int \<times> 'w st) option" where
  "detach_link_loop env ifindex pid [] e s = Some (e, s)"
| "detach_link_loop env ifindex pid (i # is) e s = do {
     (fd, s) \<leftarrow> sys (link_fd_by_id env i) s;
     if fd < 0 then Some (fd, s)
     else do {
       (info, s) \<leftarrow> sys (get_link_info env fd) s;
       case info of
         Inl err \<Rightarrow> do { (_, s) \<leftarrow> sys (close_fd env fd) s; Some (err, s) }
       | Inr li \<Rightarrow>
           if li_is_xdp li \<and> li_ifindex li = ifindex \<and> li_prog_id li = pid then do {
             (err, s) \<leftarrow> sys (link_detach env fd) s;
             (_, s) \<leftarrow> sys (close_fd env fd) s;
             Some (err, s)
           }
           else do {
             (_, s) \<leftarrow> sys (close_fd env fd) s;
             detach_link_loop env ifindex pid is e s
           }
     }
   }"

definition xdp_detach_link ::
  "'w libxdp_env \<Rightarrow> u32 \<Rightarrow> u32 \<Rightarrow> 'w st \<Rightarrow> (int \<times> 'w st) option" where
  "xdp_detach_link env ifindex pid s = do {
     ((ids, e), s) \<leftarrow> sys (link_ids env) s;
     detach_link_loop env ifindex pid ids e s
   }"

text \<open>After a failed \<open>xdp_attach_fd\<close> the test \<open>errno == EBUSY\<close> is a test of the error returned: only
  \<open>EEXIST\<close> is translated.\<close>

definition xdp_multiprog__attach ::
  "'w libxdp_env \<Rightarrow> xdp_multiprog option \<Rightarrow> xdp_multiprog option \<Rightarrow> xdp_attach_mode \<Rightarrow> 'w st
   \<Rightarrow> (int \<times> 'w st) option" where
  "xdp_multiprog__attach env old_mp mp mode s =
     (if mp = None \<and> old_mp = None then Some (- EINVAL, s)
      else if mode = XDP_MODE_HW then Some (- EINVAL, s)
      else if mp \<noteq> None \<and> xdp_multiprog__main_fd (fst s) mp < 0 then Some (- EINVAL, s)
      else if old_mp \<noteq> None \<and> xdp_multiprog__main_fd (fst s) old_mp < 0 then Some (- EINVAL, s)
      else
        let pfd = (case mp of None \<Rightarrow> -1 | Some _ \<Rightarrow> xdp_multiprog__main_fd (fst s) mp);
            ifindex = (case mp of None \<Rightarrow> -1 | Some m \<Rightarrow> mp_ifindex m);
            old_fd = (case old_mp of None \<Rightarrow> -1 | Some _ \<Rightarrow> xdp_multiprog__main_fd (fst s) old_mp)
        in if (case old_mp of None \<Rightarrow> False | Some m \<Rightarrow> ifindex > -1 \<and> ifindex \<noteq> mp_ifindex m)
           then Some (- EINVAL, s)
           else
             let ifindex = (case old_mp of None \<Rightarrow> ifindex | Some m \<Rightarrow> mp_ifindex m)
             in do {
               (err, s) \<leftarrow> xdp_attach_fd env pfd old_fd ifindex mode s;
               if err < 0 then
                 if err = - EBUSY \<and> mp = None
                 then xdp_detach_link env (word_of_int ifindex) (xdp_multiprog__main_id (fst s) old_mp) s
                 else Some (err, s)
               else Some (0, s)
             })"

definition xdp_multiprog__detach_hw ::
  "'w libxdp_env \<Rightarrow> xdp_multiprog option \<Rightarrow> 'w st \<Rightarrow> (int \<times> 'w st) option" where
  "xdp_multiprog__detach_hw env old_mp s =
     (case old_mp of
        None \<Rightarrow> Some (- EINVAL, s)
      | Some m \<Rightarrow>
          let hw_fd = xdp_multiprog__hw_fd (fst s) old_mp
          in if hw_fd < 0 then Some (- EINVAL, s)
             else do {
               (err, s) \<leftarrow> xdp_attach_fd env (-1) hw_fd (mp_ifindex m) XDP_MODE_HW s;
               Some (if err < 0 then err else 0, s)
             })"

subsection \<open>Pinning\<close>

definition dispatch_path :: "string \<Rightarrow> heap \<Rightarrow> xdp_multiprog \<Rightarrow> ptr \<Rightarrow> string" where
  "dispatch_path dir h mp main =
     dir @ ''/dispatch-'' @ dec_int (mp_ifindex mp) @ ''-'' @ dec_int (sint (prog_id (h ! main)))"

definition attach_str :: "xdp_program \<Rightarrow> string" where
  "attach_str p = (case attach_name p of Some n \<Rightarrow> n | None \<Rightarrow> ''(null)'')"

fun pin_progs :: "'w libxdp_env \<Rightarrow> string \<Rightarrow> ptr list \<Rightarrow> int \<Rightarrow> 'w st \<Rightarrow> ((bool \<times> int) \<times> 'w st) option" where
  "pin_progs env pin_path [] err s = Some ((True, err), s)"
| "pin_progs env pin_path (p # ps) err s =
     (if link_fd (prog_at s p) < 0 then Some ((False, - EINVAL), s)
      else
        let buf = pin_path @ ''/'' @ attach_str (prog_at s p) @ ''-link''; err = try_snprintf PATH_MAX buf
        in if err \<noteq> 0 then Some ((False, err), s)
           else do {
             (err, s) \<leftarrow> sys (obj_pin env (link_fd (prog_at s p)) buf) s;
             if err \<noteq> 0 then Some ((False, err), s)
             else
               let buf = pin_path @ ''/'' @ attach_str (prog_at s p) @ ''-prog''; err = try_snprintf PATH_MAX buf
               in if err \<noteq> 0 then Some ((False, err), s)
                  else do {
                    (err, s) \<leftarrow> sys (obj_pin env (prog_fd (prog_at s p)) buf) s;
                    if err \<noteq> 0 then Some ((False, err), s) else pin_progs env pin_path ps err s
                  }
           })"

definition unlink_if_fits :: "'w libxdp_env \<Rightarrow> string \<Rightarrow> 'w st \<Rightarrow> (unit \<times> 'w st) option" where
  "unlink_if_fits env buf s =
     (if try_snprintf PATH_MAX buf = 0 then do { (_, s) \<leftarrow> sys (unlink env buf) s; Some ((), s) }
      else Some ((), s))"

fun unpin_created :: "'w libxdp_env \<Rightarrow> string \<Rightarrow> ptr list \<Rightarrow> 'w st \<Rightarrow> (unit \<times> 'w st) option" where
  "unpin_created env pin_path [] s = Some ((), s)"
| "unpin_created env pin_path (p # ps) s = do {
     (_, s) \<leftarrow> unlink_if_fits env (pin_path @ ''/'' @ attach_str (prog_at s p) @ ''-link'') s;
     (_, s) \<leftarrow> unlink_if_fits env (pin_path @ ''/'' @ attach_str (prog_at s p) @ ''-prog'') s;
     unpin_created env pin_path ps s
   }"

text \<open>\<open>mkdir\<close> fails with -1 and sets \<open>errno\<close>: a directory that exists leaves \<open>err\<close> at -1 until the first program
  is pinned.\<close>

definition xdp_multiprog__pin ::
  "'w libxdp_env \<Rightarrow> xdp_multiprog option \<Rightarrow> 'w st \<Rightarrow> (int \<times> 'w st) option" where
  "xdp_multiprog__pin env mpo s =
     (case mpo of
        None \<Rightarrow> Some (- EINVAL, s)
      | Some mp \<Rightarrow>
          if xdp_multiprog__is_legacy mpo then Some (- EINVAL, s)
          else do {
            (dir, s) \<leftarrow> sys (bpffs_dir env) s;
            case dir of
              Inl e \<Rightarrow> Some (e, s)
            | Inr d \<Rightarrow> do {
                main \<leftarrow> mp_main_prog mp;
                let pin_path = dispatch_path d (fst s) mp main;
                let err = try_snprintf PATH_MAX pin_path;
                if err \<noteq> 0 then Some (err, s)
                else do {
                  (lock_fd, s) \<leftarrow> sys (lock_acquire env) s;
                  if lock_fd < 0 then Some (lock_fd, s)
                  else do {
                    (r, s) \<leftarrow> sys (mkdir env pin_path) s;
                    if r \<noteq> 0 \<and> r \<noteq> - EEXIST
                    then do { (_, s) \<leftarrow> sys (lock_release env lock_fd) s; Some (r, s) }
                    else do {
                      ((done, err), s) \<leftarrow> pin_progs env pin_path (mp_progs mp) (if r = 0 then 0 else -1) s;
                      (_, s) \<leftarrow> (if done then Some ((), s)
                                else do {
                                  (_, s) \<leftarrow> unpin_created env pin_path (mp_progs mp) s;
                                  (_, s) \<leftarrow> sys (rmdir env pin_path) s;
                                  Some ((), s)
                                });
                      (_, s) \<leftarrow> sys (lock_release env lock_fd) s;
                      Some (err, s)
                    }
                  }
                }
              }
          })"

fun unpin_progs :: "'w libxdp_env \<Rightarrow> string \<Rightarrow> ptr list \<Rightarrow> 'w st \<Rightarrow> (int \<times> 'w st) option" where
  "unpin_progs env pin_path [] s = sys (rmdir env pin_path) s"
| "unpin_progs env pin_path (p # ps) s =
     (let buf = pin_path @ ''/'' @ attach_str (prog_at s p) @ ''-link''; err = try_snprintf PATH_MAX buf
      in if err \<noteq> 0 then Some (err, s)
         else do {
           (err, s) \<leftarrow> sys (unlink env buf) s;
           if err \<noteq> 0 then Some (err, s)
           else
             let buf = pin_path @ ''/'' @ attach_str (prog_at s p) @ ''-prog''; err = try_snprintf PATH_MAX buf
             in if err \<noteq> 0 then Some (err, s)
                else do {
                  (err, s) \<leftarrow> sys (unlink env buf) s;
                  if err \<noteq> 0 then Some (err, s) else unpin_progs env pin_path ps s
                }
         })"

definition xdp_multiprog__unpin ::
  "'w libxdp_env \<Rightarrow> xdp_multiprog option \<Rightarrow> 'w st \<Rightarrow> (int \<times> 'w st) option" where
  "xdp_multiprog__unpin env mpo s =
     (case mpo of
        None \<Rightarrow> Some (- EINVAL, s)
      | Some mp \<Rightarrow>
          if xdp_multiprog__is_legacy mpo then Some (- EINVAL, s)
          else do {
            (dir, s) \<leftarrow> sys (bpffs_dir env) s;
            case dir of
              Inl e \<Rightarrow> Some (e, s)
            | Inr d \<Rightarrow> do {
                main \<leftarrow> mp_main_prog mp;
                let pin_path = dispatch_path d (fst s) mp main;
                let err = try_snprintf PATH_MAX pin_path;
                if err \<noteq> 0 then Some (err, s)
                else do {
                  (lock_fd, s) \<leftarrow> sys (lock_acquire env) s;
                  if lock_fd < 0 then Some (lock_fd, s)
                  else do {
                    (err, s) \<leftarrow> unpin_progs env pin_path (mp_progs mp) s;
                    (_, s) \<leftarrow> sys (lock_release env lock_fd) s;
                    Some (err, s)
                  }
                }
              }
          })"

definition xdp_multiprog__detach ::
  "'w libxdp_env \<Rightarrow> xdp_multiprog option \<Rightarrow> 'w st \<Rightarrow> (int \<times> 'w st) option" where
  "xdp_multiprog__detach env mpo s =
     (case mpo of
        None \<Rightarrow> Some (- EINVAL, s)
      | Some mp \<Rightarrow>
          if \<not> mp_is_loaded mp then Some (- EINVAL, s)
          else do {
            (err, s) \<leftarrow> (if mp_hw_prog mp \<noteq> None then xdp_multiprog__detach_hw env mpo s else Some (0, s));
            if err \<noteq> 0 then Some (err, s)
            else if mp_main_prog mp = None then Some (0, s)
            else do {
              (err, s) \<leftarrow> xdp_multiprog__attach env mpo None (mp_attach_mode mp) s;
              if err \<noteq> 0 then Some (err, s)
              else if \<not> xdp_multiprog__is_legacy mpo then xdp_multiprog__unpin env mpo s
              else Some (0, s)
            }
          })"

subsection \<open>Reading the state of an interface\<close>

fun close_progs :: "'w libxdp_env \<Rightarrow> ptr list \<Rightarrow> 'w st \<Rightarrow> (unit \<times> 'w st) option" where
  "close_progs env [] s = Some ((), s)"
| "close_progs env (p # ps) s = do { (_, s) \<leftarrow> xdp_program__close env (Some p) s; close_progs env ps s }"

definition xdp_multiprog__close ::
  "'w libxdp_env \<Rightarrow> xdp_multiprog option \<Rightarrow> 'w st \<Rightarrow> (unit \<times> 'w st) option" where
  "xdp_multiprog__close env mpo s =
     (case mpo of
        None \<Rightarrow> Some ((), s)
      | Some mp \<Rightarrow> do {
          (_, s) \<leftarrow> xdp_program__close env (mp_main_prog mp) s;
          (_, s) \<leftarrow> close_progs env (mp_progs mp) s;
          xdp_program__close env (mp_hw_prog mp) s
        })"

definition check_xdp_prog_version :: "btf option \<Rightarrow> string \<Rightarrow> (int + u32) option" where
  "check_xdp_prog_version bo name = do {
     seco \<leftarrow> btf_get_datasec bo ''xdp_metadata'';
     case (seco, bo) of
       (Some sec, Some b) \<Rightarrow> do {
         v \<leftarrow> btf_get_section_var b sec name BTF_KIND_PTR;
         case v of
           Inl e \<Rightarrow> Some (Inl e)
         | Inr def \<Rightarrow> (case get_field_int b def of None \<Rightarrow> Some (Inl (- ENOENT)) | Some n \<Rightarrow> Some (Inr n))
       }
     | _ \<Rightarrow> Some (Inl (- ENOENT))
   }"

text \<open>The configuration structures as they lie in the map value: four bytes, then three arrays of 32-bit
  words; version 1 has one byte, three bytes of padding and two arrays.\<close>

definition config_word :: "u8 list \<Rightarrow> nat \<Rightarrow> u32" where
  "config_word buf i = (case load32 buf i of Some w \<Rightarrow> w | None \<Rightarrow> 0)"

definition config_words :: "u8 list \<Rightarrow> nat \<Rightarrow> u32 list" where
  "config_words buf off = map (\<lambda>i. config_word buf (off + 4 * i)) [0..<MAX_DISPATCHER_ACTIONS]"

definition decode_config :: "u8 list \<Rightarrow> xdp_dispatcher_config" where
  "decode_config buf = \<lparr>magic = buf ! 0, dispatcher_version = buf ! 1, num_progs_enabled = buf ! 2,
     is_xdp_frags = (buf ! 3 \<noteq> 0), c_chain_call_actions = config_words buf 4,
     c_run_prios = config_words buf 44, c_program_flags = config_words buf 84\<rparr>"

text \<open>A map value shorter than the version 1 structure is read past its end: \<^const>\<open>None\<close>.\<close>

definition check_dispatcher_version ::
  "'w libxdp_env \<Rightarrow> xdp_multiprog \<Rightarrow> string \<Rightarrow> btf option \<Rightarrow> nat \<Rightarrow> u32 \<Rightarrow> 'w st
   \<Rightarrow> ((int \<times> xdp_multiprog) \<times> 'w st) option" where
  "check_dispatcher_version env mp name bo nr_maps map_id s =
     (if name \<noteq> ''xdp_dispatcher'' then Some ((- ENOENT, mp), s)
      else if nr_maps \<noteq> 1 then Some ((- ENOENT, mp), s)
      else do {
        (map_fd, s) \<leftarrow> sys (map_fd_by_id env map_id) s;
        if map_fd < 0 then Some ((map_fd, mp), s)
        else do {
          (info, s) \<leftarrow> sys (get_map_info env map_fd) s;
          ((err, mp), s) \<leftarrow>
            (case info of
               Inl e \<Rightarrow> Some ((e, mp), s)
             | Inr mi \<Rightarrow>
                 if mi_key_size mi \<noteq> 4 \<or> mi_value_size mi < 2 \<or> mi_max_entries mi \<noteq> 1
                    \<or> mi_map_flags mi AND 128 = 0
                 then Some ((- EINVAL, mp), s)
                 else do {
                   (ok, s) \<leftarrow> sys (alloc env) s;
                   if \<not> ok then Some ((- ENOMEM, mp), s)
                   else do {
                     (val, s) \<leftarrow> sys (map_lookup0 env map_fd) s;
                     case val of
                       Inl e \<Rightarrow> Some ((e, mp), s)
                     | Inr buf \<Rightarrow> do {
                         b0 \<leftarrow> load8 buf 0;
                         b1 \<leftarrow> load8 buf 1;
                         ver \<leftarrow> (if b0 = XDP_DISPATCHER_MAGIC then Some (Inr (ucast b1))
                                else check_xdp_prog_version bo ''dispatcher_version'');
                         case ver of
                           Inl e \<Rightarrow> Some ((e, mp), s)
                         | Inr version \<Rightarrow>
                             if version = 1 then
                               if length buf < 84 then None
                               else
                                 Some ((0, mp\<lparr>mp_config := (mp_config mp)\<lparr>
                                     c_chain_call_actions := config_words buf 4,
                                     c_run_prios := config_words buf 44,
                                     num_progs_enabled := buf ! 0\<rparr>, mp_version := version\<rparr>), s)
                             else if version = XDP_DISPATCHER_VERSION then
                               if mi_value_size mi \<noteq> 124 then Some ((- EINVAL, mp), s)
                               else if length buf < 124 then None
                               else Some ((0, mp\<lparr>mp_config := decode_config buf, mp_version := version\<rparr>), s)
                             else Some ((- EOPNOTSUPP, mp), s)
                       }
                   }
                 });
          (_, s) \<leftarrow> sys (close_fd env map_fd) s;
          Some ((err, mp), s)
        }
      })"

text \<open>The loop over the slots: the programs linked so far are \<open>mp_progs\<close>; on an error they are closed and
  dropped, while \<open>num_links\<close> keeps its value.\<close>

fun link_pinned_loop ::
  "'w libxdp_env \<Rightarrow> string \<Rightarrow> nat list \<Rightarrow> xdp_multiprog \<Rightarrow> 'w st \<Rightarrow> ((int \<times> xdp_multiprog) \<times> 'w st) option" where
  "link_pinned_loop env pin_path [] mp s = Some ((0, mp), s)"
| "link_pinned_loop env pin_path (i # is) mp s =
     (let buf = pin_path @ ''/prog'' @ dec_digits i @ ''-prog''; err = try_snprintf PATH_MAX buf
      in if err \<noteq> 0 then do {
           (_, s) \<leftarrow> close_progs env (mp_progs mp) s;
           Some ((err, mp\<lparr>mp_progs := []\<rparr>), s)
         }
         else do {
           (r, s) \<leftarrow> xdp_program__from_pin env buf s;
           case r of
             Inl e \<Rightarrow> do { (_, s) \<leftarrow> close_progs env (mp_progs mp) s; Some ((e, mp\<lparr>mp_progs := []\<rparr>), s) }
           | Inr p \<Rightarrow> do {
               (ok, s) \<leftarrow> sys (alloc env) s;
               if \<not> ok then do {
                 (_, s) \<leftarrow> close_progs env (mp_progs mp) s;
                 Some ((- ENOMEM, mp\<lparr>mp_progs := []\<rparr>), s)
               }
               else
                 let s = set_prog p (restore_slot (mp_config mp) i
                           ((prog_at s p)\<lparr>attach_name := Some (''prog'' @ dec_digits i)\<rparr>)) s
                 in link_pinned_loop env pin_path is
                      (mp\<lparr>mp_progs := mp_progs mp @ [p], mp_num_links := mp_num_links mp + 1\<rparr>) s
             }
         })"

definition xdp_multiprog__link_pinned_progs ::
  "'w libxdp_env \<Rightarrow> xdp_multiprog \<Rightarrow> 'w st \<Rightarrow> ((int \<times> xdp_multiprog) \<times> 'w st) option" where
  "xdp_multiprog__link_pinned_progs env mp s =
     (if mp_progs mp \<noteq> [] then Some ((- EINVAL, mp), s)
      else do {
        (dir, s) \<leftarrow> sys (bpffs_dir env) s;
        case dir of
          Inl e \<Rightarrow> Some ((e, mp), s)
        | Inr d \<Rightarrow> do {
            main \<leftarrow> mp_main_prog mp;
            let pin_path = dispatch_path d (fst s) mp main;
            let err = try_snprintf PATH_MAX pin_path;
            if err \<noteq> 0 then Some ((err, mp), s)
            else do {
              (lock_fd, s) \<leftarrow> sys (lock_acquire env) s;
              if lock_fd < 0 then Some ((lock_fd, mp), s)
              else do {
                (err, s) \<leftarrow> sys (stat_path env pin_path) s;
                (res, s) \<leftarrow> (if err \<noteq> 0 then Some ((err, mp), s)
                            else link_pinned_loop env pin_path
                                   [0..<unat (num_progs_enabled (mp_config mp))] mp s);
                (_, s) \<leftarrow> sys (lock_release env lock_fd) s;
                Some (res, s)
              }
            }
          }
      })"

text \<open>As in \<open>xdp_program__fill_from_fd\<close>, BTF that cannot be read ends the function with \<open>err == 0\<close>.\<close>

definition fill_hw ::
  "'w libxdp_env \<Rightarrow> xdp_multiprog \<Rightarrow> int \<Rightarrow> 'w st \<Rightarrow> ((int \<times> xdp_multiprog) \<times> 'w st) option" where
  "fill_hw env mp hw_fd s =
     (if hw_fd > 0 then do {
        (r, s) \<leftarrow> xdp_program__from_fd env hw_fd s;
        case r of
          Inl e \<Rightarrow> Some ((e, mp), s)
        | Inr p \<Rightarrow>
            let mp = (if mp_progs mp = [] then mp\<lparr>mp_is_legacy := True\<rparr> else mp)
            in Some ((0, mp\<lparr>mp_hw_prog := Some p, mp_is_loaded := True\<rparr>), s)
      }
      else Some ((0, mp\<lparr>mp_is_loaded := True\<rparr>), s))"

definition xdp_multiprog__fill_from_fd ::
  "'w libxdp_env \<Rightarrow> xdp_multiprog \<Rightarrow> int \<Rightarrow> int \<Rightarrow> 'w st \<Rightarrow> ((int \<times> xdp_multiprog) \<times> 'w st) option" where
  "xdp_multiprog__fill_from_fd env mp pfd hw_fd s =
     (if pfd > 0 then do {
        (info, s) \<leftarrow> sys (get_prog_info env pfd) s;
        case info of
          Inl _ \<Rightarrow> Some ((- EINVAL, mp), s)
        | Inr i \<Rightarrow> do {
            (stop, s) \<leftarrow>
              (if info_btf_id i = 0 then Some (Inr (mp\<lparr>mp_is_legacy := True\<rparr>), s)
               else do {
                 (bo, s) \<leftarrow> sys (btf_by_id env (info_btf_id i)) s;
                 case bo of
                   None \<Rightarrow> Some (Inl (0, mp), s)
                 | Some b \<Rightarrow> do {
                     ((err, mp), s) \<leftarrow> check_dispatcher_version env mp (info_name i) bo
                                          (info_nr_map_ids i) (info_map_id i) s;
                     if err = 0 then Some (Inr mp, s)
                     else if err \<noteq> - ENOENT then Some (Inl (err, mp), s)
                     else Some (Inr (mp\<lparr>mp_is_legacy := True\<rparr>), s)
                   }
               });
            case stop of
              Inl res \<Rightarrow> Some (res, s)
            | Inr mp \<Rightarrow> do {
                (r, s) \<leftarrow> xdp_program__from_fd env pfd s;
                case r of
                  Inl e \<Rightarrow> Some ((e, mp), s)
                | Inr p \<Rightarrow> do {
                    let mp = mp\<lparr>mp_main_prog := Some p\<rparr>;
                    (mp, s) \<leftarrow>
                      (if mp_is_legacy mp then Some (mp, s)
                       else do {
                         ((err, mp), s) \<leftarrow> xdp_multiprog__link_pinned_progs env mp s;
                         Some (if err \<noteq> 0 then mp\<lparr>mp_is_legacy := True\<rparr> else mp, s)
                       });
                    fill_hw env mp hw_fd s
                  }
              }
          }
      }
      else fill_hw env mp hw_fd s)"

definition xdp_multiprog__from_fd ::
  "'w libxdp_env \<Rightarrow> int \<Rightarrow> int \<Rightarrow> int \<Rightarrow> 'w st \<Rightarrow> ((int + xdp_multiprog) \<times> 'w st) option" where
  "xdp_multiprog__from_fd env fd hw_fd ifindex s = do {
     (ok, s) \<leftarrow> sys (alloc env) s;
     if \<not> ok then Some (Inl (- ENOMEM), s)
     else do {
       ((err, mp), s) \<leftarrow> xdp_multiprog__fill_from_fd env (xdp_multiprog__new ifindex) fd hw_fd s;
       if err \<noteq> 0 then do { (_, s) \<leftarrow> xdp_multiprog__close env (Some mp) s; Some (Inl err, s) }
       else Some (Inr mp, s)
     }
   }"

definition close_pos :: "'w libxdp_env \<Rightarrow> int \<Rightarrow> 'w st \<Rightarrow> (unit \<times> 'w st) option" where
  "close_pos env fd s = (if fd > 0 then sys (close_fd env fd) s else Some ((), s))"

definition xdp_multiprog__from_id ::
  "'w libxdp_env \<Rightarrow> u32 \<Rightarrow> u32 \<Rightarrow> int \<Rightarrow> 'w st \<Rightarrow> ((int + xdp_multiprog) \<times> 'w st) option" where
  "xdp_multiprog__from_id env i hw_id ifindex s = do {
     (fd, s) \<leftarrow> (if i \<noteq> 0 then sys (prog_fd_by_id env i) s else Some (0, s));
     if fd < 0 then Some (Inl fd, s)
     else do {
       (hw_fd, s) \<leftarrow> (if hw_id \<noteq> 0 then sys (prog_fd_by_id env hw_id) s else Some (0, s));
       (r, s) \<leftarrow> (if hw_fd < 0 then Some (Inl hw_fd, s) else xdp_multiprog__from_fd env fd hw_fd ifindex s);
       (_, s) \<leftarrow> close_pos env fd s;
       (_, s) \<leftarrow> close_pos env hw_fd s;
       Some (r, s)
     }
   }"

text \<open>The answer of the kernel, reduced to one program id, one hardware program id and a mode.  \<open>pid\<close> and
  \<open>hw\<close> are the values the caller passed in; some branches leave them alone.\<close>

definition ifindex_prog_id ::
  "xdp_query \<Rightarrow> u32 \<Rightarrow> u32 \<Rightarrow> xdp_attach_mode \<Rightarrow> u32 \<times> u32 \<times> xdp_attach_mode" where
  "ifindex_prog_id q pid hw mode =
     (case q_attach_mode q of
        XDP_ATTACHED_SKB \<Rightarrow> (q_skb_prog_id q, hw, XDP_MODE_SKB)
      | XDP_ATTACHED_DRV \<Rightarrow> (q_drv_prog_id q, hw, XDP_MODE_NATIVE)
      | XDP_ATTACHED_MULTI \<Rightarrow>
          if q_drv_prog_id q \<noteq> 0 then (q_drv_prog_id q, q_hw_prog_id q, XDP_MODE_NATIVE)
          else if q_skb_prog_id q \<noteq> 0 then (q_skb_prog_id q, q_hw_prog_id q, XDP_MODE_SKB)
          else (pid, q_hw_prog_id q, mode)
      | XDP_ATTACHED_HW \<Rightarrow> (pid, q_hw_prog_id q, XDP_MODE_UNSPEC)
      | XDP_ATTACHED_NONE \<Rightarrow> (pid, hw, XDP_MODE_UNSPEC))"

definition xdp_get_ifindex_prog_id ::
  "'w libxdp_env \<Rightarrow> int \<Rightarrow> u32 \<times> u32 \<times> xdp_attach_mode \<Rightarrow> 'w st
   \<Rightarrow> ((int + u32 \<times> u32 \<times> xdp_attach_mode) \<times> 'w st) option" where
  "xdp_get_ifindex_prog_id env ifindex cur s = do {
     (q, s) \<leftarrow> sys (xdp_query env ifindex) s;
     case q of
       Inl err \<Rightarrow> Some (Inl err, s)
     | Inr q \<Rightarrow> (case cur of (pid, hw, mode) \<Rightarrow> Some (Inr (ifindex_prog_id q pid hw mode), s))
   }"

text \<open>The retry loop of \<open>xdp_multiprog__get_from_ifindex\<close>; the argument is the number of retries left, and
  the ids of the previous round are still in the variables.\<close>

fun get_from_ifindex_loop ::
  "'w libxdp_env \<Rightarrow> int \<Rightarrow> nat \<Rightarrow> u32 \<times> u32 \<times> xdp_attach_mode \<Rightarrow> 'w st
   \<Rightarrow> ((int + xdp_multiprog) \<times> 'w st) option" where
  "get_from_ifindex_loop env ifindex retries cur s = do {
     (r, s) \<leftarrow> xdp_get_ifindex_prog_id env ifindex cur s;
     case r of
       Inl err \<Rightarrow> Some (Inl err, s)
     | Inr (pid, hw, mode) \<Rightarrow>
         if pid = 0 \<and> hw = 0 then Some (Inl (- ENOENT), s)
         else do {
           (m, s) \<leftarrow> xdp_multiprog__from_id env pid hw ifindex s;
           case m of
             Inr mp \<Rightarrow> Some (Inr (mp\<lparr>mp_attach_mode := mode\<rparr>), s)
           | Inl err \<Rightarrow>
               if err = - ENOENT then
                 (case retries of
                    0 \<Rightarrow> Some (Inl (- EBUSY), s)
                  | Suc n \<Rightarrow> get_from_ifindex_loop env ifindex n (pid, hw, mode) s)
               else Some (Inl err, s)
         }
   }"

definition xdp_multiprog__get_from_ifindex ::
  "'w libxdp_env \<Rightarrow> int \<Rightarrow> 'w st \<Rightarrow> ((int + xdp_multiprog) \<times> 'w st) option" where
  "xdp_multiprog__get_from_ifindex env ifindex s =
     get_from_ifindex_loop env ifindex MAX_RETRY (0, 0, XDP_MODE_UNSPEC) s"

subsection \<open>Generating a dispatcher\<close>

definition xdp_multiprog__load ::
  "'w libxdp_env \<Rightarrow> xdp_multiprog \<Rightarrow> 'w st \<Rightarrow> ((int \<times> xdp_multiprog) \<times> 'w st) option" where
  "xdp_multiprog__load env mp s =
     (case mp_main_prog mp of
        None \<Rightarrow> Some ((- EINVAL, mp), s)
      | Some main \<Rightarrow>
          if mp_is_loaded mp \<or> mp_is_legacy mp then Some ((- EINVAL, mp), s)
          else do {
            (_, s) \<leftarrow> (if is_xdp_frags (mp_config mp) then set_frags env main True s else Some (0, s));
            (err, s) \<leftarrow> xdp_program__load env (Some main) s;
            if err \<noteq> 0 then Some ((- EOPNOTSUPP, mp), s)
            else Some ((0, mp\<lparr>mp_is_loaded := True\<rparr>), s)
          })"

definition find_prog_btf_id :: "'w libxdp_env \<Rightarrow> string \<Rightarrow> int \<Rightarrow> 'w st \<Rightarrow> (int \<times> 'w st) option" where
  "find_prog_btf_id env name attach_prog_fd s = do {
     (info, s) \<leftarrow> sys (get_prog_info env attach_prog_fd) s;
     case info of
       Inl e \<Rightarrow> Some (e, s)
     | Inr i \<Rightarrow>
         if info_btf_id i = 0 then Some (- EINVAL, s)
         else do {
           (bo, s) \<leftarrow> sys (btf_by_id env (info_btf_id i)) s;
           case bo of
             None \<Rightarrow> Some (- EINVAL, s)
           | Some b \<Rightarrow> Some (btf__find_by_name_kind b name BTF_KIND_FUNC, s)
         }
   }"

text \<open>The part of \<open>xdp_multiprog__link_prog\<close> that loads a program as an extension of its slot; the result
  says whether it was loaded here.\<close>

definition load_as_ext ::
  "'w libxdp_env \<Rightarrow> ptr \<Rightarrow> int \<Rightarrow> string \<Rightarrow> 'w st \<Rightarrow> ((int \<times> bool) \<times> 'w st) option" where
  "load_as_ext env p main_fd attach_func s =
     (if prog_fd (prog_at s p) \<ge> 0 then Some ((0, False), s)
      else do {
        bp \<leftarrow> bpf_prog (prog_at s p);
        (err, s) \<leftarrow> sys (prog_set_target env (bp_handle bp) main_fd attach_func) s;
        if err \<noteq> 0 then Some ((err, False), s)
        else do {
          (_, s) \<leftarrow> sys (prog_set_type env (bp_handle bp) BPF_PROG_TYPE_EXT) s;
          let s = set_prog p ((prog_at s p)\<lparr>bpf_prog := Some (bp\<lparr>bp_type := BPF_PROG_TYPE_EXT\<rparr>)\<rparr>) s;
          (err, s) \<leftarrow> xdp_program__load env (Some p) s;
          if err \<noteq> 0 then Some ((if err = - E2BIG then - EOPNOTSUPP else err, False), s)
          else Some ((0, True), s)
        }
      })"

text \<open>The attachment of the clone to its slot: the link descriptor, or the error after its translation.\<close>

definition attach_ext ::
  "'w libxdp_env \<Rightarrow> int \<Rightarrow> int \<Rightarrow> int \<Rightarrow> bool \<Rightarrow> 'w st \<Rightarrow> ((int + int) \<times> 'w st) option" where
  "attach_ext env new_fd main_fd btf_id was_loaded s = do {
     (lfd, s) \<leftarrow> sys (link_create env new_fd main_fd btf_id) s;
     if lfd \<ge> 0 then Some (Inr lfd, s)
     else if lfd = - EINVAL then
       if \<not> was_loaded then Some (Inl (- EOPNOTSUPP), s)
       else do {
         (lfd, s) \<leftarrow> sys (raw_tp_open env new_fd) s;
         if lfd \<ge> 0 then Some (Inr lfd, s)
         else Some (Inl (if lfd = - EPERM then - EOPNOTSUPP else lfd), s)
       }
     else Some (Inl (if lfd = - EPERM then - EOPNOTSUPP else lfd), s)
   }"

definition xdp_multiprog__link_prog ::
  "'w libxdp_env \<Rightarrow> xdp_multiprog \<Rightarrow> ptr option \<Rightarrow> 'w st \<Rightarrow> ((int \<times> xdp_multiprog) \<times> 'w st) option" where
  "xdp_multiprog__link_prog env mp prog s =
     (case prog of
        None \<Rightarrow> Some ((- EINVAL, mp), s)
      | Some p \<Rightarrow>
          if \<not> mp_is_loaded mp \<or> mp_num_links mp \<ge> unat (num_progs_enabled (mp_config mp))
          then Some ((- EINVAL, mp), s)
          else do {
            (err, s) \<leftarrow> sys (kern_compat env) s;
            if err \<noteq> 0 then Some ((err, mp), s)
            else if prog_btf (prog_at s p) = None then Some ((- EOPNOTSUPP, mp), s)
            else do {
              let buf = ''prog'' @ dec_digits (mp_num_links mp);
              let attach_func = (if num_progs_enabled (mp_config mp) = 1 then ''xdp_dispatcher'' else buf);
              main \<leftarrow> mp_main_prog mp;
              (btf_id, s) \<leftarrow> find_prog_btf_id env attach_func (prog_fd (prog_at s main)) s;
              if btf_id \<le> 0 then Some ((btf_id, mp), s)
              else do {
                ((err, was_loaded), s) \<leftarrow> load_as_ext env p (prog_fd (prog_at s main)) attach_func s;
                if err \<noteq> 0 then Some ((err, mp), s)
                else do {
                  (new, s) \<leftarrow> xdp_program__clone env (Some p) 0 s;
                  case new of
                    Inl err \<Rightarrow> Some ((err, mp), s)
                  | Inr np \<Rightarrow> do {
                      (r, s) \<leftarrow> attach_ext env (prog_fd (prog_at s np)) (prog_fd (prog_at s main))
                                  btf_id was_loaded s;
                      case r of
                        Inl err \<Rightarrow> do {
                          (_, s) \<leftarrow> xdp_program__close env (Some np) s;
                          Some ((err, mp), s)
                        }
                      | Inr lfd \<Rightarrow> do {
                          (ok, s) \<leftarrow> sys (alloc env) s;
                          if \<not> ok then do {
                            (_, s) \<leftarrow> close_if env lfd s;
                            (_, s) \<leftarrow> xdp_program__close env (Some np) s;
                            Some ((- ENOMEM, mp), s)
                          }
                          else
                            Some ((0, mp\<lparr>mp_progs := mp_progs mp @ [np], mp_num_links := mp_num_links mp + 1\<rparr>),
                              set_prog np ((prog_at s np)\<lparr>attach_name := Some buf, link_fd := lfd\<rparr>) s)
                        }
                    }
                }
              }
            }
          })"

fun link_progs ::
  "'w libxdp_env \<Rightarrow> ptr list \<Rightarrow> xdp_multiprog \<Rightarrow> 'w st \<Rightarrow> ((int \<times> xdp_multiprog) \<times> 'w st) option" where
  "link_progs env [] mp s = Some ((0, mp), s)"
| "link_progs env (p # ps) mp s = do {
     ((err, mp), s) \<leftarrow> xdp_multiprog__link_prog env mp (Some p) s;
     if err \<noteq> 0 then Some ((err, mp), s) else link_progs env ps mp s
   }"

text \<open>The second half of \<open>xdp_multiprog__generate\<close>, from the sorted array on.\<close>

definition build_dispatcher ::
  "'w libxdp_env \<Rightarrow> string \<Rightarrow> xdp_multiprog \<Rightarrow> ptr list \<Rightarrow> 'w st \<Rightarrow> ((int \<times> xdp_multiprog) \<times> 'w st) option" where
  "build_dispatcher env path mp new_progs s = do {
     (disp, s) \<leftarrow> xdp_program__find_file env path ''xdp-dispatcher.o'' None (Some ''xdp_dispatcher'') s;
     case disp of
       Inl err \<Rightarrow> Some ((err, mp), s)
     | Inr main \<Rightarrow> do {
         let mp = mp\<lparr>mp_main_prog := Some main\<rparr>;
         obj \<leftarrow> bpf_obj (prog_at s main);
         (has_map, s) \<leftarrow> sys (obj_has_map env obj) s;
         if \<not> has_map then Some ((- ENOENT, mp), s)
         else do {
           let mp = mp\<lparr>mp_config := fill_config (mp_kernel_frags_support mp) (mp_version mp)
                                      (map (prog_at s) new_progs)\<rparr>;
           (err, s) \<leftarrow> sys (obj_set_rodata env obj (mp_config mp)) s;
           if err \<noteq> 0 then Some ((err, mp), s)
           else do {
             ((err, mp), s) \<leftarrow> xdp_multiprog__load env mp s;
             if err \<noteq> 0 then Some ((err, mp), s) else link_progs env new_progs mp s
           }
         }
       }
   }"

text \<open>Without an old dispatcher \<open>qsort\<close> works on the caller's array; only the order of the caller's array
  changes, which the model does not return.\<close>

definition xdp_multiprog__generate ::
  "'w libxdp_env \<Rightarrow> string \<Rightarrow> ((ptr \<Rightarrow> ptr \<Rightarrow> int) \<Rightarrow> ptr list \<Rightarrow> ptr list) \<Rightarrow> ptr list \<Rightarrow> int
   \<Rightarrow> xdp_multiprog option \<Rightarrow> bool \<Rightarrow> 'w st \<Rightarrow> ((int + xdp_multiprog) \<times> 'w st) option" where
  "xdp_multiprog__generate env path qsrt progs ifindex old_mp remove_progs s =
     (let n = num_new_progs (case old_mp of Some m \<Rightarrow> mp_num_links m | None \<Rightarrow> 0) (length progs) remove_progs
      in if progs = [] \<or> (old_mp = None \<and> remove_progs) then Some (Inl (- EINVAL), s)
         else if n > 10 then Some (Inl (- E2BIG), s)
         else do {
           (ok, s) \<leftarrow> sys (alloc env) s;
           if \<not> ok then Some (Inl (- ENOMEM), s)
           else do {
             (frags, s) \<leftarrow> kernel_has_frags_support env path s;
             let mp = (xdp_multiprog__new ifindex)\<lparr>mp_kernel_frags_support := frags\<rparr>;
             (sel, s) \<leftarrow>
               (case old_mp of
                  None \<Rightarrow> Some (Inr progs, s)
                | Some old \<Rightarrow>
                    if xdp_multiprog__is_legacy old_mp then Some (Inl (- EBUSY), s)
                    else if mp_version old < mp_version mp then Some (Inl (- EBUSY), s)
                    else do {
                      (ok, s) \<leftarrow> sys (alloc env) s;
                      if \<not> ok then Some (Inl (- ENOMEM), s)
                      else do {
                        r \<leftarrow> collect_progs (fst s) progs remove_progs (unat n) (mp_progs old);
                        Some (r, s)
                      }
                    });
             ((err, mp), s) \<leftarrow>
               (case sel of
                  Inl e \<Rightarrow> Some ((e, mp), s)
                | Inr ps \<Rightarrow> build_dispatcher env path mp (sort_progs qsrt (fst s) ps) s);
             if err \<noteq> 0 then do { (_, s) \<leftarrow> xdp_multiprog__close env (Some mp) s; Some (Inl err, s) }
             else Some (Inr mp, s)
           }
         })"

subsection \<open>Attaching and detaching programs\<close>

definition xdp_program__attach_single ::
  "'w libxdp_env \<Rightarrow> string \<Rightarrow> ptr \<Rightarrow> int \<Rightarrow> xdp_attach_mode \<Rightarrow> 'w st \<Rightarrow> (int \<times> 'w st) option" where
  "xdp_program__attach_single env path p ifindex mode s = do {
     (err, s) \<leftarrow>
       (if prog_fd (prog_at s p) \<ge> 0 then Some (0, s)
        else do {
          (frags, s) \<leftarrow> kernel_has_frags_support env path s;
          (_, s) \<leftarrow> (if \<not> frags then set_frags env p False s else Some (0, s));
          bp \<leftarrow> bpf_prog (prog_at s p);
          (_, s) \<leftarrow> sys (prog_set_type env (bp_handle bp) BPF_PROG_TYPE_XDP) s;
          let s = set_prog p ((prog_at s p)\<lparr>bpf_prog := Some (bp\<lparr>bp_type := BPF_PROG_TYPE_XDP\<rparr>)\<rparr>) s;
          xdp_program__load env (Some p) s
        });
     if err \<noteq> 0 then Some (err, s)
     else if prog_fd (prog_at s p) < 0 then Some (- EINVAL, s)
     else xdp_attach_fd env (prog_fd (prog_at s p)) (-1) ifindex mode s
   }"

definition xdp_program__attach_hw ::
  "'w libxdp_env \<Rightarrow> string \<Rightarrow> ptr \<Rightarrow> int \<Rightarrow> 'w st \<Rightarrow> (int \<times> 'w st) option" where
  "xdp_program__attach_hw env path p ifindex s = do {
     obj \<leftarrow> bpf_obj (prog_at s p);
     (_, s) \<leftarrow> sys (obj_set_ifindex env obj ifindex) s;
     xdp_program__attach_single env path p ifindex XDP_MODE_HW s
   }"

text \<open>One pass of \<open>xdp_program__attach_multi\<close> behind the checks of the arguments: \<^const>\<open>Inl\<close> asks for a
  retry (\<open>final\<close> says that none is left).  Errors of \<open>xdp_multiprog__get_from_ifindex\<close> count as an interface without a program.\<close>

definition attach_multi_once ::
  "'w libxdp_env \<Rightarrow> string \<Rightarrow> ((ptr \<Rightarrow> ptr \<Rightarrow> int) \<Rightarrow> ptr list \<Rightarrow> ptr list) \<Rightarrow> ptr list \<Rightarrow> int
   \<Rightarrow> xdp_attach_mode \<Rightarrow> bool \<Rightarrow> 'w st \<Rightarrow> ((unit + int) \<times> 'w st) option" where
  "attach_multi_once env path qsrt progs ifindex mode final s = do {
     (r, s) \<leftarrow> xdp_multiprog__get_from_ifindex env ifindex s;
     let old_mp = (case r of Inl _ \<Rightarrow> None | Inr m \<Rightarrow> Some m);
     if mode = XDP_MODE_HW then do {
       let old_hw_prog = (xdp_multiprog__hw_prog old_mp \<noteq> None);
       (_, s) \<leftarrow> xdp_multiprog__close env old_mp s;
       if old_hw_prog then Some (Inr (- EEXIST), s)
       else if length progs > 1 then Some (Inr (- EINVAL), s)
       else do { (err, s) \<leftarrow> xdp_program__attach_hw env path (hd progs) ifindex s; Some (Inr err, s) }
     }
     else do {
       (skip, s) \<leftarrow> (if length progs = 1 then sys (getenv env ''LIBXDP_SKIP_DISPATCHER'') s else Some (None, s));
       if skip = Some ''1''
       then do { (err, s) \<leftarrow> xdp_program__attach_single env path (hd progs) ifindex mode s; Some (Inr err, s) }
       else do {
         (g, s) \<leftarrow> xdp_multiprog__generate env path qsrt progs ifindex old_mp False s;
         case g of
           Inl err \<Rightarrow>
             if err = - EOPNOTSUPP \<and> length progs = 1
             then do { (err, s) \<leftarrow> xdp_program__attach_single env path (hd progs) ifindex mode s; Some (Inr err, s) }
             else do { (_, s) \<leftarrow> xdp_multiprog__close env old_mp s; Some (Inr err, s) }
         | Inr mp \<Rightarrow> do {
             (err, s) \<leftarrow> xdp_multiprog__pin env (Some mp) s;
             if err \<noteq> 0 then do {
               (_, s) \<leftarrow> xdp_multiprog__close env (Some mp) s;
               (_, s) \<leftarrow> xdp_multiprog__close env old_mp s;
               Some (Inr err, s)
             }
             else do {
               (err, s) \<leftarrow> xdp_multiprog__attach env old_mp (Some mp) mode s;
               if err \<noteq> 0 then do {
                 (_, s) \<leftarrow> xdp_multiprog__unpin env (Some mp) s;
                 if err = - EAGAIN \<and> \<not> final then do {
                   (_, s) \<leftarrow> xdp_multiprog__close env old_mp s;
                   (_, s) \<leftarrow> xdp_multiprog__close env (Some mp) s;
                   Some (Inl (), s)
                 }
                 else do {
                   (_, s) \<leftarrow> xdp_multiprog__close env (Some mp) s;
                   (_, s) \<leftarrow> xdp_multiprog__close env old_mp s;
                   Some (Inr (if err = - EAGAIN then - EBUSY else err), s)
                 }
               }
               else do {
                 (_, s) \<leftarrow> (if old_mp \<noteq> None then xdp_multiprog__unpin env old_mp s else Some (0, s));
                 (_, s) \<leftarrow> xdp_multiprog__close env (Some mp) s;
                 (_, s) \<leftarrow> xdp_multiprog__close env old_mp s;
                 Some (Inr 0, s)
               }
             }
           }
       }
     }
   }"

fun attach_multi_loop ::
  "'w libxdp_env \<Rightarrow> string \<Rightarrow> ((ptr \<Rightarrow> ptr \<Rightarrow> int) \<Rightarrow> ptr list \<Rightarrow> ptr list) \<Rightarrow> ptr list \<Rightarrow> int
   \<Rightarrow> xdp_attach_mode \<Rightarrow> nat \<Rightarrow> 'w st \<Rightarrow> (int \<times> 'w st) option" where
  "attach_multi_loop env path qsrt progs ifindex mode retries s = do {
     (r, s) \<leftarrow> attach_multi_once env path qsrt progs ifindex mode (retries = 0) s;
     case r of
       Inr err \<Rightarrow> Some (err, s)
     | Inl _ \<Rightarrow> (case retries of
                  0 \<Rightarrow> Some (- EBUSY, s)
                | Suc n \<Rightarrow> attach_multi_loop env path qsrt progs ifindex mode n s)
   }"

definition xdp_program__attach_multi ::
  "'w libxdp_env \<Rightarrow> string \<Rightarrow> ((ptr \<Rightarrow> ptr \<Rightarrow> int) \<Rightarrow> ptr list \<Rightarrow> ptr list) \<Rightarrow> ptr list \<Rightarrow> int
   \<Rightarrow> xdp_attach_mode \<Rightarrow> nat \<Rightarrow> 'w st \<Rightarrow> (int \<times> 'w st) option" where
  "xdp_program__attach_multi env path qsrt progs ifindex mode flags s =
     (if progs = [] \<or> flags \<noteq> 0 then Some (- EINVAL, s)
      else attach_multi_loop env path qsrt progs ifindex mode MAX_RETRY s)"

definition xdp_program__attach ::
  "'w libxdp_env \<Rightarrow> string \<Rightarrow> ((ptr \<Rightarrow> ptr \<Rightarrow> int) \<Rightarrow> ptr list \<Rightarrow> ptr list) \<Rightarrow> ptr option \<Rightarrow> int
   \<Rightarrow> xdp_attach_mode \<Rightarrow> nat \<Rightarrow> 'w st \<Rightarrow> (int \<times> 'w st) option" where
  "xdp_program__attach env path qsrt prog ifindex mode flags s =
     (case prog of
        None \<Rightarrow> Some (- EINVAL, s)
      | Some p \<Rightarrow> xdp_program__attach_multi env path qsrt [p] ifindex mode flags s)"

text \<open>The checks of \<open>xdp_program__detach_multi\<close> on a dispatcher: every program has an id and is attached.\<close>

fun check_detach :: "heap \<Rightarrow> xdp_multiprog \<Rightarrow> ptr list \<Rightarrow> int" where
  "check_detach h mp [] = 0"
| "check_detach h mp (p # ps) =
     (if prog_id (h ! p) = 0 then - EINVAL
      else if \<not> (\<exists>q\<in>set (xdp_multiprog__next_prog (Some mp)). prog_id (h ! p) = prog_id (h ! q)) then - ENOENT
      else check_detach h mp ps)"

text \<open>The checks for a program that is attached without a dispatcher, or in hardware.\<close>

definition check_detach_legacy :: "heap \<Rightarrow> xdp_multiprog \<Rightarrow> ptr list \<Rightarrow> xdp_attach_mode \<Rightarrow> int" where
  "check_detach_legacy h mp progs mode =
     (if mode = XDP_MODE_HW \<or> mp_is_legacy mp then
        let i = (if mode = XDP_MODE_HW then xdp_multiprog__hw_id h (Some mp) else xdp_multiprog__main_id h (Some mp))
        in if length progs > 1 then - EINVAL
           else if prog_id (h ! hd progs) = 0 then - EINVAL
           else if i \<noteq> prog_id (h ! hd progs) then - ENOENT else 0
      else 0)"

text \<open>One pass: the error and the new dispatcher, if one was generated.\<close>

definition detach_multi_body ::
  "'w libxdp_env \<Rightarrow> string \<Rightarrow> ((ptr \<Rightarrow> ptr \<Rightarrow> int) \<Rightarrow> ptr list \<Rightarrow> ptr list) \<Rightarrow> ptr list \<Rightarrow> int
   \<Rightarrow> xdp_attach_mode \<Rightarrow> xdp_multiprog \<Rightarrow> 'w st \<Rightarrow> ((int \<times> xdp_multiprog option) \<times> 'w st) option" where
  "detach_multi_body env path qsrt progs ifindex mode mp s =
     (let err = check_detach_legacy (fst s) mp progs mode
      in if err \<noteq> 0 then Some ((err, None), s)
         else if mode = XDP_MODE_HW
         then do { (err, s) \<leftarrow> xdp_multiprog__detach_hw env (Some mp) s; Some ((err, None), s) }
         else if mode \<noteq> XDP_MODE_UNSPEC \<and> mp_attach_mode mp \<noteq> mode then Some ((- ENOENT, None), s)
         else if mp_is_legacy mp
         then do { (err, s) \<leftarrow> xdp_multiprog__attach env (Some mp) None mode s; Some ((err, None), s) }
         else
           let err = check_detach (fst s) mp progs
           in if err \<noteq> 0 then Some ((err, None), s)
              else if length progs = mp_num_links mp then do {
                (err, s) \<leftarrow> xdp_multiprog__attach env (Some mp) None (mp_attach_mode mp) s;
                if err \<noteq> 0 then Some ((err, None), s)
                else do { (err, s) \<leftarrow> xdp_multiprog__unpin env (Some mp) s; Some ((err, None), s) }
              }
              else do {
                (g, s) \<leftarrow> xdp_multiprog__generate env path qsrt progs ifindex (Some mp) True s;
                case g of
                  Inl err \<Rightarrow> Some ((err, None), s)
                | Inr new_mp \<Rightarrow> do {
                    (err, s) \<leftarrow> xdp_multiprog__pin env (Some new_mp) s;
                    if err \<noteq> 0 then Some ((err, Some new_mp), s)
                    else do {
                      (err, s) \<leftarrow> xdp_multiprog__attach env (Some mp) (Some new_mp) mode s;
                      if err \<noteq> 0 then do {
                        (_, s) \<leftarrow> xdp_multiprog__unpin env (Some new_mp) s;
                        Some ((err, Some new_mp), s)
                      }
                      else do {
                        (_, s) \<leftarrow> xdp_multiprog__unpin env (Some mp) s;
                        Some ((0, Some new_mp), s)
                      }
                    }
                  }
              })"

fun detach_multi_loop ::
  "'w libxdp_env \<Rightarrow> string \<Rightarrow> ((ptr \<Rightarrow> ptr \<Rightarrow> int) \<Rightarrow> ptr list \<Rightarrow> ptr list) \<Rightarrow> ptr list \<Rightarrow> int
   \<Rightarrow> xdp_attach_mode \<Rightarrow> nat \<Rightarrow> 'w st \<Rightarrow> (int \<times> 'w st) option" where
  "detach_multi_loop env path qsrt progs ifindex mode retries s = do {
     (r, s) \<leftarrow> xdp_multiprog__get_from_ifindex env ifindex s;
     case r of
       Inl _ \<Rightarrow> Some (- ENOENT, s)
     | Inr mp \<Rightarrow> do {
         ((err, new_mp), s) \<leftarrow> detach_multi_body env path qsrt progs ifindex mode mp s;
         (_, s) \<leftarrow> xdp_multiprog__close env (Some mp) s;
         (_, s) \<leftarrow> xdp_multiprog__close env new_mp s;
         if err = - EAGAIN then
           (case retries of
              0 \<Rightarrow> Some (- EBUSY, s)
            | Suc n \<Rightarrow> detach_multi_loop env path qsrt progs ifindex mode n s)
         else Some (err, s)
       }
   }"

definition xdp_program__detach_multi ::
  "'w libxdp_env \<Rightarrow> string \<Rightarrow> ((ptr \<Rightarrow> ptr \<Rightarrow> int) \<Rightarrow> ptr list \<Rightarrow> ptr list) \<Rightarrow> ptr list \<Rightarrow> int
   \<Rightarrow> xdp_attach_mode \<Rightarrow> nat \<Rightarrow> 'w st \<Rightarrow> (int \<times> 'w st) option" where
  "xdp_program__detach_multi env path qsrt progs ifindex mode flags s =
     (if flags \<noteq> 0 \<or> progs = [] then Some (- EINVAL, s)
      else detach_multi_loop env path qsrt progs ifindex mode MAX_RETRY s)"

definition xdp_program__detach ::
  "'w libxdp_env \<Rightarrow> string \<Rightarrow> ((ptr \<Rightarrow> ptr \<Rightarrow> int) \<Rightarrow> ptr list \<Rightarrow> ptr list) \<Rightarrow> ptr option \<Rightarrow> int
   \<Rightarrow> xdp_attach_mode \<Rightarrow> nat \<Rightarrow> 'w st \<Rightarrow> (int \<times> 'w st) option" where
  "xdp_program__detach env path qsrt prog ifindex mode flags s =
     (case prog of
        None \<Rightarrow> Some (- EINVAL, s)
      | Some p \<Rightarrow> xdp_program__detach_multi env path qsrt [p] ifindex mode flags s)"

end
