(* ===== verification/Libxdp_Proofs.thy ===== *)
theory Libxdp_Proofs
  imports Libxdp
begin

text \<open>
  Properties of the stateful part of \<open>libxdp\<close>.  The laws of the services that a property relies on are
  locales: \<open>fd_table\<close> for file descriptors and \<open>pin_fs\<close> for the files of the BPF file system.  Both are
  interpreted on one small concrete kernel at the end.
\<close>

lemma sys_Some: "sys f s = Some (r, s') \<longleftrightarrow> f (snd s) = (r, snd s') \<and> fst s' = fst s"
  by (cases s; cases s') (auto simp: sys_def split: prod.splits)

subsection \<open>Generated dispatchers are consistent\<close>

lemma from_fd_error: "xdp_program__from_fd env fd s = Some (Inl e, s') \<Longrightarrow> e \<noteq> 0"
  unfolding xdp_program__from_fd_def
  by (auto elim!: bind_pair_SomeE simp: Let_def split: if_splits prod.splits)

lemma create_from_obj_error: "xdp_program__create_from_obj env obj sn pn ext s = Some (Inl e, s') \<Longrightarrow> e \<noteq> 0"
  unfolding xdp_program__create_from_obj_def
  by (auto elim!: bind_pair_SomeE simp: Let_def split: if_splits prod.splits option.splits)

lemma clone_error: "xdp_program__clone env p f s = Some (Inl e, s') \<Longrightarrow> e \<noteq> 0"
  unfolding xdp_program__clone_def
  by (auto dest: from_fd_error create_from_obj_error split: if_splits option.splits)

lemma attach_ext_error: "attach_ext env a b c d s = Some (Inl e, s') \<Longrightarrow> e \<noteq> 0"
  unfolding attach_ext_def by (auto elim!: bind_pair_SomeE split: if_splits)

lemma find_by_name_kind_pos:
  "kind \<noteq> BTF_KIND_UNKN \<Longrightarrow> name \<noteq> ''void'' \<Longrightarrow> btf__find_by_name_kind b name kind \<noteq> 0"
  unfolding btf__find_by_name_kind_def btf_find_by_name_kind_def
  by (auto split: option.splits simp: find_Some_iff)

lemma no_error_0 [simp]:
  "xdp_program__clone env p f s \<noteq> Some (Inl 0, s')"
  "attach_ext env a b c d s \<noteq> Some (Inl 0, s')"
  "xdp_program__create_from_obj env obj sn pn ext s \<noteq> Some (Inl 0, s')"
  by (metis clone_error, metis attach_ext_error, metis create_from_obj_error)

text \<open>A service that fails reports an error number; the two cases the argument below needs.\<close>

definition errors_nonzero :: "'w libxdp_env \<Rightarrow> bool" where
  "errors_nonzero env \<longleftrightarrow> (\<forall>fd w w'. get_prog_info env fd w \<noteq> (Inl 0, w'))
     \<and> (\<forall>f w w'. obj_open env f w \<noteq> (Inl 0, w'))"

lemma find_prog_btf_id_nonzero:
  assumes "errors_nonzero env" and "name \<noteq> ''void''"
  shows "find_prog_btf_id env name fd s \<noteq> Some (0, s')"
proof
  assume "find_prog_btf_id env name fd s = Some (0, s')"
  then show False
    unfolding find_prog_btf_id_def using assms find_by_name_kind_pos[of BTF_KIND_FUNC name]
    by (auto elim!: bind_pair_SomeE simp: sys_Some errors_nonzero_def split: if_splits sum.splits option.splits)
qed

lemma link_prog_grows:
  assumes "errors_nonzero env" and "xdp_multiprog__link_prog env mp p s = Some ((0, mp'), s')"
  shows "mp_num_links mp < unat (num_progs_enabled (mp_config mp))
    \<and> (\<exists>np. mp' = mp\<lparr>mp_progs := mp_progs mp @ [np], mp_num_links := mp_num_links mp + 1\<rparr>)"
proof -
  have nz: "find_prog_btf_id env (if c then ''xdp_dispatcher'' else ''prog'' @ x) fd s \<noteq> Some (0, s')"
    for c x fd s s' by (rule find_prog_btf_id_nonzero[OF assms(1)]) simp
  from assms(2) show ?thesis
    unfolding xdp_multiprog__link_prog_def Let_def
    by (auto elim!: bind_pair_SomeE bind_SomeE simp: nz
        nz[of True, simplified] nz[of False, simplified]
        split: option.splits if_splits prod.splits sum.splits) blast+
qed

lemma link_progs_length:
  assumes "errors_nonzero env" and "link_progs env ps mp s = Some ((0, mp'), s')"
  shows "mp_num_links mp' = mp_num_links mp + length ps
    \<and> length (mp_progs mp') = length (mp_progs mp) + length ps
    \<and> mp_config mp' = mp_config mp \<and> mp_is_loaded mp' = mp_is_loaded mp \<and> mp_is_legacy mp' = mp_is_legacy mp
    \<and> mp_ifindex mp' = mp_ifindex mp \<and> mp_main_prog mp' = mp_main_prog mp"
  using assms(2)
proof (induction ps arbitrary: mp s)
  case (Cons p ps)
  from Cons.prems obtain mp1 s1 where l: "xdp_multiprog__link_prog env mp (Some p) s = Some ((0, mp1), s1)"
    and r: "link_progs env ps mp1 s1 = Some ((0, mp'), s')"
    by (auto elim!: bind_pair_SomeE split: if_splits prod.splits)
  from link_prog_grows[OF assms(1) l] Cons.IH[OF r] show ?case by auto
qed auto

lemma mp_load_ok:
  "xdp_multiprog__load env mp s = Some ((0, mp'), s') \<Longrightarrow> mp' = mp\<lparr>mp_is_loaded := True\<rparr> \<and> \<not> mp_is_legacy mp"
  unfolding xdp_multiprog__load_def
  by (auto elim!: bind_pair_SomeE split: option.splits if_splits)

lemma find_bpf_file_error: "find_bpf_file env path f s \<noteq> Some (Inl 0, s')"
  unfolding find_bpf_file_def by (auto elim!: bind_pair_SomeE split: option.splits)

lemma open_file_error:
  assumes "\<And>f w w'. obj_open env f w \<noteq> (Inl 0, w')"
  shows "xdp_program__open_file env f sn pn s \<noteq> Some (Inl 0, s')"
  unfolding xdp_program__open_file_def
  by (auto elim!: bind_pair_SomeE simp: sys_Some assms dest: create_from_obj_error split: sum.splits option.splits)

lemma find_file_error:
  assumes "\<And>f w w'. obj_open env f w \<noteq> (Inl 0, w')"
  shows "xdp_program__find_file env path f sn pn s \<noteq> Some (Inl 0, s')"
proof
  assume "xdp_program__find_file env path f sn pn s = Some (Inl 0, s')"
  then show False
    unfolding xdp_program__find_file_def
    by (auto elim!: bind_pair_SomeE simp: find_bpf_file_error open_file_error[OF assms] split: sum.splits)
qed

lemma build_dispatcher_wf:
  assumes "errors_nonzero env" and "build_dispatcher env path mp ps s = Some ((0, mp'), s')"
    and "mp_num_links mp = 0" and "mp_progs mp = []"
  shows "mp_num_links mp' = length ps \<and> length (mp_progs mp') = length ps \<and> mp_is_loaded mp'
    \<and> \<not> mp_is_legacy mp' \<and> mp_ifindex mp' = mp_ifindex mp \<and> mp_main_prog mp' \<noteq> None
    \<and> (\<exists>h. mp_config mp' = fill_config (mp_kernel_frags_support mp) (mp_version mp) (map (nth h) ps))"
proof -
  have ff: "xdp_program__find_file env path f sn pn s \<noteq> Some (Inl 0, s')" for f sn pn s s'
    by (rule find_file_error) (use assms(1) in \<open>simp add: errors_nonzero_def\<close>)
  have ex: "\<exists>h. map (prog_at s) ps = map (nth h) ps" for s :: "'a st"
    by (rule exI[of _ "fst s"]) (simp add: prog_at_def)
  from assms(2) show ?thesis
    unfolding build_dispatcher_def Let_def
    by (auto elim!: bind_pair_SomeE bind_SomeE simp: assms(3,4) ff dest!: mp_load_ok link_progs_length[OF assms(1)]
        split: sum.splits if_splits prod.splits) (use ex in metis)
qed

lemma collect_progs_length:
  "collect_progs h progs rm n old = Some (Inr ps) \<Longrightarrow> (rm \<or> length old \<le> n) \<Longrightarrow> length ps = n"
proof -
  assume c: "collect_progs h progs rm n old = Some (Inr ps)" and le: "rm \<or> length old \<le> n"
  show ?thesis
  proof (cases rm)
    case True
    with c show ?thesis by (auto simp: collect_progs_def elim!: bind_SomeE split: sum.splits if_splits)
  next
    case False
    with c le show ?thesis
      by (auto simp: collect_progs_def collect_old_add split: if_splits)
  qed
qed

lemma num_new_progs_small:
  assumes "l + k < 2 ^ 63" and "num_new_progs l k rm \<le> 10"
  shows "unat (num_new_progs l k rm) = (if rm then l - k else l + k) \<and> (rm \<longrightarrow> k \<le> l)"
proof (cases rm)
  case False
  then have "num_new_progs l k rm = of_nat (l + k)" by (simp add: num_new_progs_def)
  moreover have "l + k < 2 ^ 64" using assms(1) by simp
  ultimately show ?thesis using False by (simp only: unat_of_nat_64) simp
next
  case True
  then have n: "num_new_progs l k rm = of_nat l - of_nat k" by (simp add: num_new_progs_def)
  show ?thesis
  proof (cases "k \<le> l")
    case le: True
    then have "num_new_progs l k rm = of_nat (l - k)" by (simp add: n of_nat_diff)
    moreover have "l - k < 2 ^ 64" using assms(1) by simp
    ultimately show ?thesis using True le by (simp only: unat_of_nat_64) simp
  next
    case False
    have "(of_nat l - of_nat k :: u64) = of_nat (2 ^ 64 - (k - l))"
      using False assms(1) by (simp add: of_nat_diff)
    moreover have "2 ^ 64 - (k - l) < (2 :: nat) ^ 64" using False by simp
    ultimately have "unat (num_new_progs l k rm) = 2 ^ 64 - (k - l)"
      by (simp only: n unat_of_nat_64)
    moreover have "unat (num_new_progs l k rm) \<le> 10"
      using assms(2) by (simp add: word_le_nat_alt)
    ultimately show ?thesis using assms(1) False by simp
  qed
qed

lemma collect_old_error: "collect_old h progs rm n old acc \<noteq> Some (Inl 0)"
  by (induction old arbitrary: acc) auto

lemma collect_progs_error [simp]: "collect_progs h progs rm n old \<noteq> Some (Inl 0)"
  by (auto simp: collect_progs_def collect_old_error elim!: bind_SomeE split: sum.splits if_splits)

lemma generate_selects:
  assumes "xdp_multiprog__generate env path qsrt progs ifindex old rm s = Some (Inr mp, s')"
  obtains frags ps s1 s2 where
    "build_dispatcher env path ((xdp_multiprog__new ifindex)\<lparr>mp_kernel_frags_support := frags\<rparr>)
       (sort_progs qsrt (fst s1) ps) s1 = Some ((0, mp), s')"
    and "num_new_progs (case old of Some m \<Rightarrow> mp_num_links m | None \<Rightarrow> 0) (length progs) rm \<le> 10"
    and "case old of None \<Rightarrow> \<not> rm \<and> ps = progs
       | Some m \<Rightarrow> collect_progs (fst s1) progs rm (unat (num_new_progs (mp_num_links m) (length progs) rm)) (mp_progs m)
                   = Some (Inr ps)"
  using assms unfolding xdp_multiprog__generate_def Let_def
  by (auto elim!: bind_pair_SomeE bind_SomeE simp: not_less split: if_splits option.splits sum.splits prod.splits)

text \<open>A multiprog as the rest of the library expects it.\<close>

definition wf_mp :: "xdp_multiprog \<Rightarrow> bool" where
  "wf_mp mp \<longleftrightarrow> mp_num_links mp = length (mp_progs mp)"

lemma generate_wf:
  assumes "errors_nonzero env" and "qsort qsrt"
    and "xdp_multiprog__generate env path qsrt progs ifindex old rm s = Some (Inr mp, s')"
    and "case old of None \<Rightarrow> True | Some m \<Rightarrow> wf_mp m"
    and "(case old of None \<Rightarrow> 0 | Some m \<Rightarrow> mp_num_links m) + length progs < 2 ^ 63"
  shows "wf_mp mp \<and> mp_num_links mp \<le> 10 \<and> unat (num_progs_enabled (mp_config mp)) = mp_num_links mp
    \<and> mp_is_loaded mp \<and> \<not> mp_is_legacy mp \<and> mp_main_prog mp \<noteq> None \<and> mp_ifindex mp = ifindex
    \<and> mp_num_links mp = (let l = (case old of None \<Rightarrow> 0 | Some m \<Rightarrow> mp_num_links m)
                         in if rm then l - length progs else l + length progs)"
proof -
  let ?l = "case old of None \<Rightarrow> 0 | Some m \<Rightarrow> mp_num_links m"
  from assms(3) obtain frags ps s1 s2 where
    b: "build_dispatcher env path ((xdp_multiprog__new ifindex)\<lparr>mp_kernel_frags_support := frags\<rparr>)
       (sort_progs qsrt (fst s1) ps) s1 = Some ((0, mp), s')"
    and n: "num_new_progs ?l (length progs) rm \<le> 10"
    and sel: "case old of None \<Rightarrow> \<not> rm \<and> ps = progs
       | Some m \<Rightarrow> collect_progs (fst s1) progs rm (unat (num_new_progs (mp_num_links m) (length progs) rm)) (mp_progs m)
                   = Some (Inr ps)"
    by (rule generate_selects)
  have un: "unat (num_new_progs ?l (length progs) rm) = (if rm then ?l - length progs else ?l + length progs)"
    using num_new_progs_small[OF assms(5) n] by simp
  have len: "length ps = unat (num_new_progs ?l (length progs) rm)"
  proof (cases old)
    case None
    then show ?thesis using sel un by simp
  next
    case (Some m)
    then show ?thesis
      using collect_progs_length[of "fst s1" progs rm _ "mp_progs m" ps] sel un assms(4)
      by (auto simp: wf_mp_def)
  qed
  have "unat (num_new_progs ?l (length progs) rm) \<le> 10" using n by (simp add: word_le_nat_alt)
  then have ps10: "length ps \<le> 10" using len by simp
  have sl: "length (sort_progs qsrt (fst s1) ps) = length ps"
    using sort_progs_perm[OF assms(2)] by (metis size_mset)
  from build_dispatcher_wf[OF assms(1) b] obtain h where
    r: "mp_num_links mp = length ps" "length (mp_progs mp) = length ps" "mp_is_loaded mp" "\<not> mp_is_legacy mp"
      "mp_ifindex mp = ifindex" "mp_main_prog mp \<noteq> None"
    and c: "mp_config mp = fill_config frags 2 (map (nth h) (sort_progs qsrt (fst s1) ps))"
    using sl by (auto simp: xdp_multiprog__new_def)
  have "unat (num_progs_enabled (mp_config mp)) = length ps"
    unfolding c by (subst fill_config_simps(4)) (use sl ps10 in auto)
  then show ?thesis using r ps10 len un by (simp add: wf_mp_def Let_def)
qed

subsection \<open>File descriptors\<close>

lemma parse_members_keeps:
  "parse_members b ms p = Some (e, p') \<Longrightarrow>
   prog_fd p' = prog_fd p \<and> link_fd p' = link_fd p \<and> bpf_obj p' = bpf_obj p"
proof (induction ms arbitrary: p)
  case (Cons m ms)
  have set: "prog_fd q = prog_fd p \<and> link_fd q = link_fd p \<and> bpf_obj q = bpf_obj p"
    if "snd (xdp_program__set_chain_call_enabled (Some p) a v) = Some q" for a v q
    using that by (auto simp: xdp_program__set_chain_call_enabled_def split: if_splits)
  from Cons show ?case
    by (auto elim!: bind_SomeE dest!: Cons.IH dest: set split: option.splits if_splits)
qed auto

lemma parse_btf_keeps:
  "xdp_program__parse_btf ok p bo = Some (e, p') \<Longrightarrow>
   prog_fd p' = prog_fd p \<and> link_fd p' = link_fd p \<and> bpf_obj p' = bpf_obj p"
  unfolding xdp_program__parse_btf_def Let_def
  by (auto elim!: bind_SomeE dest!: parse_members_keeps
      split: option.splits if_splits prod.splits sum.splits)

text \<open>What the kernel promises about descriptors: a successful call that creates one yields a new one,
  closing removes it, everything else leaves the table alone.\<close>

locale fd_table =
  fixes env :: "'w libxdp_env" and fds :: "'w \<Rightarrow> int set"
  assumes dup: "dup_fd env fd w = (r, w') \<Longrightarrow>
      (if r < 0 then fds w' = fds w else r \<notin> fds w \<and> fds w' = insert r (fds w))"
    and by_id: "prog_fd_by_id env i w = (r, w') \<Longrightarrow>
      (if r < 0 then fds w' = fds w else r \<notin> fds w \<and> fds w' = insert r (fds w))"
    and get: "obj_get env path w = (r, w') \<Longrightarrow>
      (if r < 0 then fds w' = fds w else r \<notin> fds w \<and> fds w' = insert r (fds w))"
    and close: "close_fd env fd w = (u, w') \<Longrightarrow> fds w' = fds w - {fd}"
    and alloc: "alloc env w = (ok, w') \<Longrightarrow> fds w' = fds w"
    and info: "get_prog_info env fd w = (pinfo, w') \<Longrightarrow> fds w' = fds w"
    and btf: "btf_by_id env n w = (b, w') \<Longrightarrow> fds w' = fds w"
begin

lemma set_prog_simps [simp]:
  "snd (set_prog p x s) = snd s" "length (fst (set_prog p x s)) = length (fst s)"
  "p < length (fst s) \<Longrightarrow> prog_at (set_prog p x s) p = x"
  by (simp_all add: set_prog_def prog_at_def)

text \<open>Filling in a program that has no descriptor yet: on success it owns the only new one.\<close>

lemma fill_fds:
  assumes "xdp_program__fill_from_fd env p fd s = Some (err, s')" and "p < length (fst s)"
    and "prog_fd (prog_at s p) = -1"
  shows "length (fst s') = length (fst s) \<and> link_fd (prog_at s' p) = link_fd (prog_at s p)
    \<and> bpf_obj (prog_at s' p) = bpf_obj (prog_at s p)
    \<and> (if prog_fd (prog_at s' p) < 0 then fds (snd s') = fds (snd s)
       else err = 0 \<and> prog_fd (prog_at s' p) \<notin> fds (snd s)
            \<and> fds (snd s') = insert (prog_fd (prog_at s' p)) (fds (snd s)))"
  using assms unfolding xdp_program__fill_from_fd_def
  by (auto elim!: bind_pair_SomeE simp: sys_Some Let_def prog_at_def set_prog_def
      dest!: dup close alloc info btf split: if_splits sum.splits option.splits)

lemma close_fresh:
  assumes "xdp_program__close env (Some p) s = Some (u, s')" and "link_fd (prog_at s p) = -1"
    and "bpf_obj (prog_at s p) = None"
  shows "fst s' = fst s \<and> fds (snd s') = fds (snd s) - {fd. fd = prog_fd (prog_at s p) \<and> 0 \<le> fd}"
  using assms unfolding xdp_program__close_def close_if_def
  by (auto elim!: bind_pair_SomeE simp: sys_Some prog_at_def dest!: close split: if_splits)

lemma from_fd_fds:
  assumes "xdp_program__from_fd env fd s = Some (r, s')"
  shows "case r of
      Inl _ \<Rightarrow> fds (snd s') = fds (snd s)
    | Inr p \<Rightarrow> if prog_fd (prog_at s' p) < 0 then fds (snd s') = fds (snd s)
              else prog_fd (prog_at s' p) \<notin> fds (snd s) \<and> fds (snd s') = insert (prog_fd (prog_at s' p)) (fds (snd s))"
proof -
  from assms obtain ok w1 where a: "alloc env (snd s) = (ok, w1)"
    and r1: "(if \<not> ok then Some (Inl (- ENOMEM), (fst s, w1))
       else let (p, s) = new_prog xdp_program__new (fst s, w1) in do {
         (err, s) \<leftarrow> xdp_program__fill_from_fd env p fd s;
         if err \<noteq> 0 then do { (_, s) \<leftarrow> xdp_program__close env (Some p) s; Some (Inl err, s) }
         else do {
           (ok, s) \<leftarrow> sys (alloc env) s;
           (err, x) \<leftarrow> xdp_program__parse_btf ok (prog_at s p) None;
           let s = set_prog p x s;
           if err \<noteq> 0 \<and> err \<noteq> - ENOENT
           then do { (_, s) \<leftarrow> xdp_program__close env (Some p) s; Some (Inl err, s) }
           else Some (Inr p, s)
         } }) = Some (r, s')"
    unfolding xdp_program__from_fd_def by (auto elim!: bind_pair_SomeE simp: sys_Some)
  have o1: "fds w1 = fds (snd s)" using alloc[OF a] by simp
  show ?thesis
  proof (cases ok)
    case False
    then show ?thesis using r1 o1 by auto
  next
    case True
    let ?p = "length (fst s)" and ?s1 = "(fst s @ [xdp_program__new], w1)"
    have p1: "?p < length (fst ?s1)" "prog_at ?s1 ?p = xdp_program__new" by (simp_all add: prog_at_def)
    have o2: "fds (snd ?s1) = fds (snd s)" using o1 by simp
    from r1 True obtain err s2 where f: "xdp_program__fill_from_fd env ?p fd ?s1 = Some (err, s2)"
      and r2: "(if err \<noteq> 0 then do { (_, s) \<leftarrow> xdp_program__close env (Some ?p) s2; Some (Inl err, s) }
         else do {
           (ok, s) \<leftarrow> sys (alloc env) s2;
           (err, x) \<leftarrow> xdp_program__parse_btf ok (prog_at s ?p) None;
           let s = set_prog ?p x s;
           if err \<noteq> 0 \<and> err \<noteq> - ENOENT
           then do { (_, s) \<leftarrow> xdp_program__close env (Some ?p) s; Some (Inl err, s) }
           else Some (Inr ?p, s)
         }) = Some (r, s')"
      by (auto simp: new_prog_def elim!: bind_pair_SomeE)
    have n: "prog_fd xdp_program__new = -1" "link_fd xdp_program__new = -1" "bpf_obj xdp_program__new = None"
      by (simp_all add: xdp_program__new_def)
    have fill: "?p < length (fst s2)" "link_fd (prog_at s2 ?p) = -1" "bpf_obj (prog_at s2 ?p) = None"
      "if prog_fd (prog_at s2 ?p) < 0 then fds (snd s2) = fds (snd s)
       else err = 0 \<and> prog_fd (prog_at s2 ?p) \<notin> fds (snd s)
            \<and> fds (snd s2) = insert (prog_fd (prog_at s2 ?p)) (fds (snd s))"
      using fill_fds[OF f p1(1)] n p1(2) o2 by (auto split: if_splits)
    show ?thesis
    proof (cases "err = 0")
      case False
      then have "prog_fd (prog_at s2 ?p) < 0 \<and> fds (snd s2) = fds (snd s)" using fill(4) by (auto split: if_splits)
      with r2 False show ?thesis
        by (auto elim!: bind_pair_SomeE dest!: close_fresh[OF _ fill(2,3)])
    next
      case True
      from r2 True obtain ok2 s3 err2 x where a3: "sys (alloc env) s2 = Some (ok2, s3)"
        and pb: "xdp_program__parse_btf ok2 (prog_at s3 ?p) None = Some (err2, x)"
        and r3: "(if err2 \<noteq> 0 \<and> err2 \<noteq> - ENOENT
           then do { (_, s) \<leftarrow> xdp_program__close env (Some ?p) (set_prog ?p x s3); Some (Inl err2, s) }
           else Some (Inr ?p, set_prog ?p x s3)) = Some (r, s')"
        by (auto elim!: bind_pair_SomeE simp: Let_def)
      have s3: "fst s3 = fst s2" "fds (snd s3) = fds (snd s2)"
        using a3 alloc[of "snd s2"] by (auto simp: sys_Some)
      have x: "prog_at (set_prog ?p x s3) ?p = x" "fds (snd (set_prog ?p x s3)) = fds (snd s2)"
        using fill(1) s3 by auto
      have k: "prog_fd x = prog_fd (prog_at s2 ?p)" "link_fd x = -1" "bpf_obj x = None"
        using parse_btf_keeps[OF pb] fill(2,3) s3(1) by (simp_all add: prog_at_def)
      show ?thesis
      proof (cases "err2 \<noteq> 0 \<and> err2 \<noteq> - ENOENT")
        case True
        with r3 obtain u where c: "xdp_program__close env (Some ?p) (set_prog ?p x s3) = Some (u, s')"
          and "r = Inl err2" by (auto elim!: bind_pair_SomeE)
        with close_fresh[OF c] show ?thesis
          using x k fill(4) by (auto split: if_splits)
      next
        case False
        with r3 have "r = Inr ?p" "s' = set_prog ?p x s3" by auto
        then show ?thesis using x k fill(4) by simp
      qed
    qed
  qed
qed

lemma from_pin_fds:
  assumes "xdp_program__from_pin env path s = Some (r, s')"
  shows "case r of
      Inl _ \<Rightarrow> fds (snd s') = fds (snd s)
    | Inr p \<Rightarrow> if prog_fd (prog_at s' p) < 0 then fds (snd s') = fds (snd s)
              else prog_fd (prog_at s' p) \<notin> fds (snd s) \<and> fds (snd s') = insert (prog_fd (prog_at s' p)) (fds (snd s))"
proof -
  from assms obtain fd s1 where g: "sys (obj_get env path) s = Some (fd, s1)"
    and r1: "(if fd < 0 then Some (Inl fd, s1) else do {
        (prog, s) \<leftarrow> xdp_program__from_fd env fd s1;
        (_, s) \<leftarrow> sys (close_fd env fd) s;
        Some (prog, s) }) = Some (r, s')"
    unfolding xdp_program__from_pin_def by (auto elim!: bind_pair_SomeE)
  have o: "if fd < 0 then fds (snd s1) = fds (snd s) else fd \<notin> fds (snd s) \<and> fds (snd s1) = insert fd (fds (snd s))"
    using g get by (auto simp: sys_Some)
  show ?thesis
  proof (cases "fd < 0")
    case True
    then show ?thesis using r1 o by auto
  next
    case False
    with r1 obtain s2 where f: "xdp_program__from_fd env fd s1 = Some (r, s2)"
      and c: "close_fd env fd (snd s2) = ((), snd s')" "fst s' = fst s2"
      by (auto elim!: bind_pair_SomeE simp: sys_Some)
    have "fds (snd s') = fds (snd s2) - {fd}" using close[OF c(1)] by simp
    moreover have "prog_at s' = prog_at s2" using c(2) by (auto simp: prog_at_def)
    ultimately show ?thesis using from_fd_fds[OF f] o False by (auto split: sum.splits if_splits)
  qed
qed

end

subsection \<open>Pinned files\<close>

definition pin_files :: "heap \<Rightarrow> string \<Rightarrow> ptr list \<Rightarrow> string set" where
  "pin_files h pin_path ps =
     (\<Union>p\<in>set ps. {pin_path @ ''/'' @ attach_str (h ! p) @ ''-link'', pin_path @ ''/'' @ attach_str (h ! p) @ ''-prog''})"

lemma pin_files_simps [simp]:
  "pin_files h pp [] = {}"
  "pin_files h pp (p # ps) = insert (pp @ ''/'' @ attach_str (h ! p) @ ''-link'')
     (insert (pp @ ''/'' @ attach_str (h ! p) @ ''-prog'') (pin_files h pp ps))"
  by (auto simp: pin_files_def)

lemma pin_progs_err: "pin_progs env pp ps e s = Some ((False, err), s') \<Longrightarrow> err \<noteq> 0"
  by (induction ps arbitrary: e s) (auto elim!: bind_pair_SomeE simp: Let_def split: if_splits)

text \<open>What the file system promises: pinning creates a file that was not there, removing a file that is
  there works, the other calls of \<open>pin\<close> and \<open>unpin\<close> leave the pinned files alone, and the directory does not
  change.\<close>

locale pin_fs =
  fixes env :: "'w libxdp_env" and files :: "'w \<Rightarrow> string set" and dir :: string
  assumes pin: "obj_pin env fd path w = (r, w') \<Longrightarrow>
      (if r = 0 then path \<notin> files w \<and> files w' = insert path (files w) else files w' = files w)"
    and unlink: "unlink env path w = (r, w') \<Longrightarrow>
      (if path \<in> files w then r = 0 \<and> files w' = files w - {path} else r \<noteq> 0 \<and> files w' = files w)"
    and mkdir: "mkdir env path w = (r, w') \<Longrightarrow> files w' = files w"
    and rmdir: "rmdir env path w = (r, w') \<Longrightarrow> files w' = files w"
    and lock: "lock_acquire env w = (r, w') \<Longrightarrow> files w' = files w"
    and release: "lock_release env fd w = (u, w') \<Longrightarrow> files w' = files w"
    and bpffs: "bpffs_dir env w = (Inr dir, w)"
begin

lemma pin_progs_files:
  assumes "pin_progs env pp ps e s = Some ((ok, err), s')"
  shows "fst s' = fst s \<and> files (snd s) \<subseteq> files (snd s')
    \<and> files (snd s') \<subseteq> files (snd s) \<union> pin_files (fst s) pp ps
    \<and> (ok \<longrightarrow> pin_files (fst s) pp ps \<inter> files (snd s) = {} \<and> pin_files (fst s) pp ps \<subseteq> files (snd s'))
    \<and> (ok \<longrightarrow> ps \<noteq> [] \<longrightarrow> err = 0)"
  using assms
proof (induction ps arbitrary: e s)
  case (Cons p ps)
  let ?l = "pp @ ''/'' @ attach_str (fst s ! p) @ ''-link''" and ?q = "pp @ ''/'' @ attach_str (fst s ! p) @ ''-prog''"
  from Cons.prems consider
      (stop) "\<not> ok" "fst s' = fst s" "files (snd s') = files (snd s) \<or> files (snd s') = insert ?l (files (snd s))"
    | (go) s1 where "pin_progs env pp ps 0 s1 = Some ((ok, err), s')" "fst s1 = fst s"
      "files (snd s1) = insert ?q (insert ?l (files (snd s)))" "?l \<notin> files (snd s)" "?q \<notin> files (snd s)"
    by (auto elim!: bind_pair_SomeE simp: Let_def prog_at_def sys_Some dest!: pin split: if_splits)
  then show ?case
  proof cases
    case stop
    then show ?thesis by auto
  next
    case go
    have "ok \<longrightarrow> ps = [] \<longrightarrow> err = 0" using go(1) by (cases ps) auto
    with Cons.IH[OF go(1)] go show ?thesis by auto
  qed
qed auto

lemma unpin_created_files:
  assumes "unpin_created env pp ps s = Some (u, s')"
    and "\<And>f. f \<in> pin_files (fst s) pp ps \<Longrightarrow> try_snprintf PATH_MAX f = 0"
  shows "fst s' = fst s \<and> files (snd s') = files (snd s) - pin_files (fst s) pp ps"
  using assms
proof (induction ps arbitrary: s)
  case (Cons p ps)
  have one: "fst s1 = fst s0 \<and> files (snd s1) = files (snd s0) - {f}"
    if "unlink_if_fits env f s0 = Some (v, s1)" and "try_snprintf PATH_MAX f = 0" for f s0 v s1
    using that unlink[of f "snd s0"] by (auto simp: unlink_if_fits_def sys_Some elim!: bind_pair_SomeE split: if_splits)
  from Cons.prems(1) obtain s1 s2 where
    l: "unlink_if_fits env (pp @ ''/'' @ attach_str (fst s ! p) @ ''-link'') s = Some ((), s1)" and
    q: "unlink_if_fits env (pp @ ''/'' @ attach_str (fst s1 ! p) @ ''-prog'') s1 = Some ((), s2)" and
    r: "unpin_created env pp ps s2 = Some (u, s')"
    by (auto elim!: bind_pair_SomeE simp: prog_at_def)
  have s1: "fst s1 = fst s" "files (snd s1) = files (snd s) - {pp @ ''/'' @ attach_str (fst s ! p) @ ''-link''}"
    using one[OF l] Cons.prems(2) by auto
  have s2: "fst s2 = fst s" "files (snd s2) = files (snd s1) - {pp @ ''/'' @ attach_str (fst s ! p) @ ''-prog''}"
    using one[OF q] Cons.prems(2) s1(1) by auto
  show ?case using Cons.IH[OF r] Cons.prems(2) s1 s2 by auto
qed auto

lemma unpin_progs_files:
  assumes "unpin_progs env pp ps s = Some (err, s')" and "err = 0"
  shows "fst s' = fst s \<and> files (snd s') = files (snd s) - pin_files (fst s) pp ps"
  using assms
proof (induction ps arbitrary: s)
  case (Cons p ps)
  then obtain s1 where "unpin_progs env pp ps s1 = Some (err, s')" "fst s1 = fst s"
    "files (snd s1) = files (snd s) - {pp @ ''/'' @ attach_str (fst s ! p) @ ''-link''}
       - {pp @ ''/'' @ attach_str (fst s ! p) @ ''-prog''}"
    by (auto elim!: bind_pair_SomeE simp: Let_def prog_at_def sys_Some try_snprintf_def
        dest!: unlink split: if_splits)
  with Cons.IH Cons.prems(2) show ?case by auto
qed (auto simp: sys_Some dest!: rmdir)

lemma pin_files_of_pin:
  assumes "xdp_multiprog__pin env (Some mp) s = Some (err, s')" and "mp_main_prog mp = Some main"
    and "\<And>f. f \<in> pin_files (fst s) (dispatch_path dir (fst s) mp main) (mp_progs mp) \<Longrightarrow> try_snprintf PATH_MAX f = 0"
  defines "F \<equiv> pin_files (fst s) (dispatch_path dir (fst s) mp main) (mp_progs mp)"
  shows "fst s' = fst s \<and>
    (files (snd s') = files (snd s) \<union> F \<and> F \<inter> files (snd s) = {} \<and> (mp_progs mp \<noteq> [] \<longrightarrow> err = 0)
     \<or> err \<noteq> 0 \<and> (files (snd s') = files (snd s) \<or> files (snd s') = files (snd s) - F))"
proof -
  let ?pp = "dispatch_path dir (fst s) mp main"
  from assms(1,2) consider (early) "err \<noteq> 0" "fst s' = fst s" "files (snd s') = files (snd s)"
    | (kept) s1 s2 e where "fst s1 = fst s" "files (snd s1) = files (snd s)"
        "pin_progs env ?pp (mp_progs mp) e s1 = Some ((True, err), s2)" "fst s' = fst s2" "files (snd s') = files (snd s2)"
    | (undo) s1 s2 s3 e where "fst s1 = fst s" "files (snd s1) = files (snd s)"
        "pin_progs env ?pp (mp_progs mp) e s1 = Some ((False, err), s2)"
        "unpin_created env ?pp (mp_progs mp) s2 = Some ((), s3)" "fst s' = fst s3" "files (snd s') = files (snd s3)"
    unfolding xdp_multiprog__pin_def Let_def
    by (auto elim!: bind_pair_SomeE simp: sys_Some bpffs dest!: mkdir rmdir lock release split: if_splits prod.splits)
  then show ?thesis
  proof cases
    case early
    then show ?thesis by auto
  next
    case kept
    from pin_progs_files[OF kept(3)] kept F_def show ?thesis by auto
  next
    case undo
    from pin_progs_files[OF undo(3)] have s2: "fst s2 = fst s" "files (snd s2) \<subseteq> files (snd s) \<union> F"
      "files (snd s) \<subseteq> files (snd s2)" using undo(1,2) F_def by auto
    have "files (snd s3) = files (snd s2) - F \<and> fst s3 = fst s2"
      using unpin_created_files[OF undo(4)] s2(1) assms(3) F_def by auto
    with s2 undo(5,6) pin_progs_err[OF undo(3)] show ?thesis by auto
  qed
qed

lemma unpin_files:
  assumes "xdp_multiprog__unpin env (Some mp) s = Some (0, s')" and "mp_main_prog mp = Some main"
  shows "files (snd s') = files (snd s) - pin_files (fst s) (dispatch_path dir (fst s) mp main) (mp_progs mp)"
proof -
  let ?pp = "dispatch_path dir (fst s) mp main"
  from assms obtain s1 s2 where "fst s1 = fst s" "files (snd s1) = files (snd s)"
    "unpin_progs env ?pp (mp_progs mp) s1 = Some (0, s2)" "files (snd s') = files (snd s2)"
    unfolding xdp_multiprog__unpin_def Let_def
    by (auto elim!: bind_pair_SomeE simp: sys_Some bpffs dest!: lock release split: if_splits)
  with unpin_progs_files[of ?pp "mp_progs mp" s1 0 s2] show ?thesis by simp
qed

end

subsection \<open>A concrete kernel\<close>

record kworld =
  w_fds :: "int list"
  w_files :: "string list"

definition fresh_fd :: "int list \<Rightarrow> int" where
  "fresh_fd l = foldr max l 2 + 1"

lemma fresh_fd: "fresh_fd l \<notin> set l \<and> 0 \<le> fresh_fd l"
proof -
  have "x \<in> set l \<Longrightarrow> x \<le> foldr max l 2" for x by (induction l) auto
  moreover have "2 \<le> foldr max l 2" by (induction l) auto
  ultimately show ?thesis by (force simp: fresh_fd_def)
qed

definition open_new :: "kworld \<Rightarrow> int \<times> kworld" where
  "open_new w = (fresh_fd (w_fds w), w\<lparr>w_fds := fresh_fd (w_fds w) # w_fds w\<rparr>)"

definition k_btf :: btf where
  "k_btf = \<lparr>btf_types = [btf_blank\<lparr>bt_kind := BTF_KIND_FUNC, bt_name := Some ''xdp_dispatcher''\<rparr>], btf_ptr_sz = 8\<rparr>"

definition k_bpf_prog :: "string \<Rightarrow> bpf_program" where
  "k_bpf_prog n = \<lparr>bp_handle = 1, bp_name = n, bp_type = BPF_PROG_TYPE_XDP, bp_insn_cnt = 2, bp_flags = 0\<rparr>"

definition k_info :: bpf_prog_info where
  "k_info = \<lparr>info_id = 7, info_type = BPF_PROG_TYPE_XDP, info_name = ''xdp_dispatcher'',
     info_tag = replicate 8 1, info_load_time = 5, info_btf_id = 1, info_nr_map_ids = 1, info_map_id = 1\<rparr>"

definition k_env :: "kworld libxdp_env" where
  "k_env = \<lparr>alloc = \<lambda>w. (True, w),
     close_fd = \<lambda>fd w. ((), w\<lparr>w_fds := removeAll fd (w_fds w)\<rparr>),
     dup_fd = \<lambda>_. open_new, get_prog_info = \<lambda>_ w. (Inr k_info, w), btf_by_id = \<lambda>_ w. (Some k_btf, w),
     prog_fd_by_id = \<lambda>_. open_new, map_fd_by_id = \<lambda>_. open_new,
     get_map_info = \<lambda>_ w. (Inl (- ENOENT), w), map_lookup0 = \<lambda>_ w. (Inl (- ENOENT), w),
     xdp_attach = \<lambda>_ _ _ _ w. (0, w), xdp_query = \<lambda>_ w. (Inl (- ENOENT), w),
     link_ids = \<lambda>w. (([], - ENOENT), w), link_fd_by_id = \<lambda>_. open_new,
     get_link_info = \<lambda>_ w. (Inl (- ENOENT), w), link_detach = \<lambda>_ w. (0, w), link_create = \<lambda>_ _ _. open_new,
     raw_tp_open = \<lambda>_. open_new, kern_compat = \<lambda>w. (0, w), getenv = \<lambda>_ w. (None, w),
     bpffs_dir = \<lambda>w. (Inr ''/bpf'', w), lock_acquire = \<lambda>w. (0, w), lock_release = \<lambda>_ w. ((), w),
     mkdir = \<lambda>_ w. (0, w), rmdir = \<lambda>_ w. (0, w),
     unlink = \<lambda>f w. if f \<in> set (w_files w) then (0, w\<lparr>w_files := removeAll f (w_files w)\<rparr>) else (- ENOENT, w),
     stat_path = \<lambda>_ w. (0, w),
     obj_pin = \<lambda>_ f w. if f \<in> set (w_files w) then (- EEXIST, w) else (0, w\<lparr>w_files := f # w_files w\<rparr>),
     obj_get = \<lambda>_. open_new, obj_open = \<lambda>_ w. (Inr 1, w), obj_close = \<lambda>_ w. ((), w),
     obj_progs = \<lambda>_ w. ([(k_bpf_prog ''xdp_dispatcher'', Some ''xdp''), (k_bpf_prog ''xdp_pass'', Some ''xdp'')], w),
     obj_btf = \<lambda>_ w. (Some k_btf, w), obj_has_map = \<lambda>_ w. (True, w), obj_set_rodata = \<lambda>_ _ w. (0, w),
     obj_set_ifindex = \<lambda>_ _ w. ((), w), obj_load = \<lambda>_ w. (0, w), prog_loaded = \<lambda>_ w. (False, w),
     prog_set_flags = \<lambda>_ _ w. (0, w), prog_set_type = \<lambda>_ _ w. ((), w), prog_set_target = \<lambda>_ _ _ w. (0, w),
     libbpf_prog_fd = \<lambda>_ w. (4, w)\<rparr>"

lemma open_new_laws: "open_new w = (r, w') \<Longrightarrow> 0 \<le> r \<and> r \<notin> set (w_fds w) \<and> set (w_fds w') = insert r (set (w_fds w))"
  using fresh_fd[of "w_fds w"] by (auto simp: open_new_def)

interpretation kfd: fd_table k_env "set \<circ> w_fds"
  by unfold_locales (auto simp: k_env_def dest: open_new_laws)

interpretation kfs: pin_fs k_env "set \<circ> w_files" "''/bpf''"
  by unfold_locales (auto simp: k_env_def split: if_splits)

lemma k_errors: "errors_nonzero k_env"
  by (simp add: errors_nonzero_def k_env_def)

subsection \<open>Properties\<close>

text \<open>C17: a dispatcher that \<open>xdp_multiprog__generate\<close> returns is complete: it is loaded, it has a main
  program and at most ten programs, one per slot of its configuration, and their number is that of the old
  dispatcher plus, or minus, the programs asked for.\<close>

theorem generated_dispatcher_complete:
  assumes "errors_nonzero env" and "qsort qsrt"
    and "xdp_multiprog__generate env path qsrt progs ifindex old rm s = Some (Inr mp, s')"
    and "case old of None \<Rightarrow> True | Some m \<Rightarrow> mp_num_links m = length (mp_progs m)"
    and "(case old of None \<Rightarrow> 0 | Some m \<Rightarrow> mp_num_links m) + length progs < 2 ^ 63"
  shows "mp_num_links mp = length (mp_progs mp) \<and> mp_num_links mp \<le> MAX_DISPATCHER_ACTIONS
    \<and> unat (num_progs_enabled (mp_config mp)) = mp_num_links mp
    \<and> mp_is_loaded mp \<and> \<not> mp_is_legacy mp \<and> mp_main_prog mp \<noteq> None \<and> mp_ifindex mp = ifindex
    \<and> mp_num_links mp = (let l = (case old of None \<Rightarrow> 0 | Some m \<Rightarrow> mp_num_links m)
                         in if rm then l - length progs else l + length progs)"
  using generate_wf[OF assms(1-3) _ assms(5)] assms(4) unfolding wf_mp_def by blast

definition k_start :: "kworld st" where
  "k_start = ([xdp_program__new\<lparr>prog_name := Some ''fw'', bpf_prog := Some (k_bpf_prog ''fw''), bpf_obj := Some 2,
     prog_btf := Some k_btf\<rparr>], \<lparr>w_fds = [0, 1, 2], w_files = []\<rparr>)"

theorem generated_dispatcher_complete_witness:
  "\<exists>mp s'. xdp_multiprog__generate k_env ''/lib'' isort_by [0] 3 None False k_start = Some (Inr mp, s')
     \<and> mp_num_links mp = 1 \<and> mp_is_loaded mp"
proof -
  have "case xdp_multiprog__generate k_env ''/lib'' isort_by [0] 3 None False k_start of
      Some (Inr _, _) \<Rightarrow> True | _ \<Rightarrow> False"
    by code_simp
  then obtain mp s' where g: "xdp_multiprog__generate k_env ''/lib'' isort_by [0] 3 None False k_start = Some (Inr mp, s')"
    by (auto split: option.splits sum.splits)
  from generated_dispatcher_complete[OF k_errors isort.qsort_axioms g] g show ?thesis by auto
qed

text \<open>opening a pinned program keeps the descriptors in order: an error leaves none behind, and on
  success the only new one is that of the program.  In particular, when the kernel's BTF for the program
  cannot be read, the call succeeds with a program that has no descriptor.\<close>

theorem from_pin_no_leak:
  assumes "fd_table env fds" and "xdp_program__from_pin env path s = Some (r, s')"
  shows "case r of
      Inl _ \<Rightarrow> fds (snd s') = fds (snd s)
    | Inr p \<Rightarrow> fds (snd s') = fds (snd s) \<union> {fd. fd = prog_fd (prog_at s' p) \<and> 0 \<le> fd}"
proof (cases r)
  case (Inl e)
  with fd_table.from_pin_fds[OF assms] show ?thesis by simp
next
  case (Inr p)
  have "if prog_fd (prog_at s' p) < 0 then fds (snd s') = fds (snd s)
      else prog_fd (prog_at s' p) \<notin> fds (snd s) \<and> fds (snd s') = insert (prog_fd (prog_at s' p)) (fds (snd s))"
    using fd_table.from_pin_fds[OF assms] unfolding Inr sum.case .
  moreover have "{fd. fd = x \<and> 0 \<le> fd} = (if x < 0 then {} else {x})" for x :: int by auto
  ultimately show ?thesis unfolding Inr sum.case by (simp split: if_splits)
qed

theorem from_pin_no_leak_witness:
  "\<exists>p s'. xdp_program__from_pin k_env ''/bpf/prog0-prog'' k_start = Some (Inr p, s')
     \<and> set (w_fds (snd s')) = {0, 1, 2} \<union> {fd. fd = prog_fd (prog_at s' p) \<and> 0 \<le> fd}"
proof -
  have "case xdp_program__from_pin k_env ''/bpf/prog0-prog'' k_start of Some (Inr _, _) \<Rightarrow> True | _ \<Rightarrow> False"
    by code_simp
  then obtain p s' where g: "xdp_program__from_pin k_env ''/bpf/prog0-prog'' k_start = Some (Inr p, s')"
    by (auto split: option.splits sum.splits)
  from from_pin_no_leak[OF kfd.fd_table_axioms g] g show ?thesis by (simp add: k_start_def)
qed


definition k_pinned :: xdp_multiprog where
  "k_pinned = (xdp_multiprog__new 3)\<lparr>mp_main_prog := Some 0, mp_progs := [1], mp_num_links := 1\<rparr>"

definition k_linked :: "kworld st" where
  "k_linked = ([xdp_program__new\<lparr>prog_id := 7, prog_fd := 4\<rparr>,
      xdp_program__new\<lparr>prog_id := 8, prog_fd := 5, link_fd := 6, attach_name := Some ''prog0''\<rparr>],
     \<lparr>w_fds = [4, 5, 6], w_files = []\<rparr>)"

lemma k_pinned_files:
  "pin_files (fst k_linked) (dispatch_path ''/bpf'' (fst k_linked) k_pinned 0) (mp_progs k_pinned)
   = {''/bpf/dispatch-3-7/prog0-link'', ''/bpf/dispatch-3-7/prog0-prog''}"
proof -
  have "dispatch_path ''/bpf'' (fst k_linked) k_pinned 0 = ''/bpf/dispatch-3-7''" by code_simp
  moreover have "attach_str (fst k_linked ! 1) = ''prog0''" by code_simp
  ultimately show ?thesis by (simp add: k_pinned_def)
qed


text \<open>unpinning undoes pinning: after both succeed the pinned files are those of the start.\<close>

theorem pin_unpin_roundtrip:
  assumes "pin_fs env files dir" and "mp_main_prog mp = Some main" and "mp_progs mp \<noteq> []"
    and "\<forall>f\<in>pin_files (fst s) (dispatch_path dir (fst s) mp main) (mp_progs mp). length f < PATH_MAX"
    and "xdp_multiprog__pin env (Some mp) s = Some (0, s1)"
    and "xdp_multiprog__unpin env (Some mp) s1 = Some (0, s2)"
  shows "files (snd s2) = files (snd s)"
proof -
  let ?F = "pin_files (fst s) (dispatch_path dir (fst s) mp main) (mp_progs mp)"
  have fit: "f \<in> ?F \<Longrightarrow> try_snprintf PATH_MAX f = 0" for f
    using assms(4) by (force simp: try_snprintf_def)
  have p: "fst s1 = fst s" "files (snd s1) = files (snd s) \<union> ?F" "?F \<inter> files (snd s) = {}"
    using pin_fs.pin_files_of_pin[OF assms(1,5,2)] fit by auto
  then show ?thesis using pin_fs.unpin_files[OF assms(1,6,2)] by auto
qed

theorem pin_unpin_roundtrip_witness:
  "\<exists>s1 s2. xdp_multiprog__pin k_env (Some k_pinned) k_linked = Some (0, s1)
     \<and> xdp_multiprog__unpin k_env (Some k_pinned) s1 = Some (0, s2) \<and> set (w_files (snd s2)) = {}"
proof -
  have "map_option fst (xdp_multiprog__pin k_env (Some k_pinned) k_linked) = Some 0"
    and u: "map_option fst (Option.bind (xdp_multiprog__pin k_env (Some k_pinned) k_linked)
        (\<lambda>(r, s). xdp_multiprog__unpin k_env (Some k_pinned) s)) = Some 0"
    by code_simp+
  then obtain s1 where p: "xdp_multiprog__pin k_env (Some k_pinned) k_linked = Some (0, s1)" by auto
  with u obtain s2 where g: "xdp_multiprog__pin k_env (Some k_pinned) k_linked = Some (0, s1)"
    "xdp_multiprog__unpin k_env (Some k_pinned) s1 = Some (0, s2)" by auto
  have "mp_main_prog k_pinned = Some 0" "mp_progs k_pinned \<noteq> []" by (simp_all add: k_pinned_def)
  from pin_unpin_roundtrip[OF kfs.pin_fs_axioms this _ g] have "set (w_files (snd s2)) = {}"
    unfolding k_pinned_files by (simp add: k_linked_def)
  with g show ?thesis by blast
qed

text \<open>asking to detach one program of a two-program dispatcher twice passes all checks and has the
  effect of detaching both programs: the length of the request is compared with the number of programs.\<close>

theorem detach_repeated_request:
  assumes "mp_progs mp = [a, b]" and "mp_num_links mp = 2" and "\<not> mp_is_legacy mp"
    and "prog_id (fst s ! a) \<noteq> 0" and "prog_id (fst s ! b) \<noteq> 0" and "mode \<noteq> XDP_MODE_HW"
  shows "detach_multi_body env path qsrt [a, a] ifindex mode mp s = detach_multi_body env path qsrt [a, b] ifindex mode mp s"
  using assms by (simp add: detach_multi_body_def check_detach_legacy_def xdp_multiprog__next_prog_def)

theorem detach_repeated_request_witness:
  "detach_multi_body k_env ''/lib'' isort_by [0, 0] 3 XDP_MODE_UNSPEC (k_pinned\<lparr>mp_progs := [0, 1], mp_num_links := 2\<rparr>) k_linked
   = detach_multi_body k_env ''/lib'' isort_by [0, 1] 3 XDP_MODE_UNSPEC (k_pinned\<lparr>mp_progs := [0, 1], mp_num_links := 2\<rparr>) k_linked"
  by (rule detach_repeated_request) (simp_all add: k_pinned_def k_linked_def xdp_multiprog__new_def)

end
