(* ===== verification/Params.thy ===== *)
theory Params
  imports Multiprog C_Strings
begin

text \<open>
  Command line options: \<open>common/common_params.c\<close>, \<open>common_params.h\<close> and \<open>struct config\<close> of
  \<open>common_defines.h\<close>.  \<open>getopt_long\<close> is the C library's scanner with its default ordering: arguments
  that are no options are skipped, \<open>--\<close> ends the options, short options may be clustered, and an exact
  long name wins.  Only a name that matches no entry makes the scanner walk to the end of the option
  array; the array that \<open>option_wrappers_to_options\<close> builds has no terminating entry, so that walk leaves
  the array and is \<^const>\<open>None\<close> here, like every other use of memory that is not there.

  A function that may call \<open>exit\<close> yields \<open>Exits status\<close>.
\<close>

datatype 'a outcome = Returns 'a | Exits int

abbreviation (input) EXIT_OK :: int where "EXIT_OK \<equiv> 0"
abbreviation (input) EXIT_FAIL :: int where "EXIT_FAIL \<equiv> 1"
abbreviation (input) EXIT_FAIL_OPTION :: int where "EXIT_FAIL_OPTION \<equiv> 2"
abbreviation (input) EXIT_FAIL_BPF :: int where "EXIT_FAIL_BPF \<equiv> 40"
abbreviation (input) IF_NAMESIZE :: nat where "IF_NAMESIZE \<equiv> 16"
abbreviation (input) XDP_COPY :: u16 where "XDP_COPY \<equiv> 2"
abbreviation (input) XDP_ZEROCOPY :: u16 where "XDP_ZEROCOPY \<equiv> 4"

text \<open>The device names point to the buffer of the same structure once they are set.\<close>

datatype name_ptr = Null | Own_buf

record config =
  cfg_attach_mode :: xdp_attach_mode
  cfg_xdp_flags :: u32
  cfg_ifindex :: int
  cfg_ifname :: name_ptr
  cfg_ifname_buf :: "char list"
  cfg_redirect_ifindex :: int
  cfg_redirect_ifname :: name_ptr
  cfg_redirect_ifname_buf :: "char list"
  cfg_do_unload :: bool
  cfg_prog_id :: u32
  cfg_reuse_maps :: bool
  cfg_pin_dir :: "char list"
  cfg_filename :: "char list"
  cfg_progname :: "char list"
  cfg_src_mac :: "char list"
  cfg_dest_mac :: "char list"
  cfg_xsk_bind_flags :: u16
  cfg_xsk_if_queue :: int
  cfg_xsk_poll_mode :: bool
  cfg_unload_all :: bool

datatype has_arg = no_argument | required_argument

record long_option =
  lo_name :: "string option"
  lo_has_arg :: has_arg
  lo_val :: int

record option_wrapper =
  ow_option :: long_option
  ow_help :: "string option"
  ow_metavar :: "string option"
  ow_required :: bool

subsection \<open>Help text\<close>

definition pad_right :: "nat \<Rightarrow> string \<Rightarrow> string" where
  "pad_right n s = s @ replicate (n - length s) CHR '' ''"

text \<open>One line of the help; \<open>buf\<close> is the array of \<open>BUFSIZE\<close> characters.\<close>

definition option_line :: "option_wrapper \<Rightarrow> string \<Rightarrow> char list \<Rightarrow> (string \<times> char list) option" where
  "option_line ow name buf = do {
     buf \<leftarrow> snprintf_at buf 0 30 ('' --'' @ name);
     let pos = length name + 3;
     buf \<leftarrow> (case ow_metavar ow of
               None \<Rightarrow> Some buf
             | Some m \<Rightarrow> if pos > 30 then None else snprintf_at buf pos (30 - pos) ('' '' @ m));
     txt \<leftarrow> cstr buf;
     Some ((if lo_val (ow_option ow) > 64 then '' -'' @ [char_of (nat (lo_val (ow_option ow)))] @ '','' else ''    '')
             @ pad_right 22 txt @ ''  '' @ (case ow_help ow of Some h \<Rightarrow> h | None \<Rightarrow> ''(null)'') @ [CHR 0x0A], buf)
   }"

fun x_print_options :: "option_wrapper list \<Rightarrow> bool \<Rightarrow> char list \<Rightarrow> string option" where
  "x_print_options [] required buf = None"
| "x_print_options (ow # ows) required buf =
     (case lo_name (ow_option ow) of
        None \<Rightarrow> Some []
      | Some name \<Rightarrow>
          if ow_required ow \<noteq> required then x_print_options ows required buf
          else do {
            (line, buf) \<leftarrow> option_line ow name buf;
            rest \<leftarrow> x_print_options ows required buf;
            Some (line @ rest)
          })"

definition usage :: "string \<Rightarrow> string \<Rightarrow> option_wrapper list \<Rightarrow> bool \<Rightarrow> string option" where
  "usage pname doc ows full =
     (let head = ''Usage: '' @ pname @ '' [options]'' @ [CHR 0x0A] in
      if \<not> full then Some (head @ ''Use --help (or -h) to see full option list.'' @ [CHR 0x0A])
      else do {
        req \<leftarrow> x_print_options ows True (replicate 30 CHR ''?'');
        other \<leftarrow> x_print_options ows False (replicate 30 CHR ''?'');
        Some (head @ [CHR 0x0A] @ ''DOCUMENTATION:'' @ [CHR 0x0A] @ '' '' @ doc @ [CHR 0x0A]
              @ ''Required options:'' @ [CHR 0x0A] @ req @ [CHR 0x0A]
              @ ''Other options:'' @ [CHR 0x0A] @ other @ [CHR 0x0A])
      })"

subsection \<open>The option array\<close>

fun option_prefix :: "option_wrapper list \<Rightarrow> long_option list option" where
  "option_prefix [] = None"
| "option_prefix (ow # ows) =
     (if lo_name (ow_option ow) = None then Some []
      else map_option ((#) (ow_option ow)) (option_prefix ows))"

text \<open>The array has one entry per named wrapper and no terminating entry; \<open>ok\<close> is the result of \<open>malloc\<close>.\<close>

definition option_wrappers_to_options ::
  "bool \<Rightarrow> option_wrapper list \<Rightarrow> (int + long_option list) option" where
  "option_wrappers_to_options ok ows = do {
     opts \<leftarrow> option_prefix ows;
     if \<not> ok then Some (Inl (-1)) else Some (Inr opts)
   }"

subsection \<open>\<open>getopt_long\<close>\<close>

type_synonym scan = "string \<times> string list"

abbreviation (input) QUERY :: int where "QUERY \<equiv> 63"

definition char_val :: "char \<Rightarrow> int" where
  "char_val c = of_char c"

definition nonoption :: "string \<Rightarrow> bool" where
  "nonoption a \<longleftrightarrow> (case a of c # _ # _ \<Rightarrow> c \<noteq> CHR ''-'' | _ \<Rightarrow> True)"

fun short_spec :: "string \<Rightarrow> char \<Rightarrow> bool option" where
  "short_spec [] c = None"
| "short_spec (x # xs) c =
     (if x = c then Some (case xs of y # _ \<Rightarrow> y = CHR '':'' | [] \<Rightarrow> False) else short_spec xs c)"

definition scan_short :: "string \<Rightarrow> char \<Rightarrow> string \<Rightarrow> string list \<Rightarrow> (int \<times> string option) \<times> scan" where
  "scan_short optstring c cs rest =
     (case (if c = CHR '':'' \<or> c = CHR '';'' then None else short_spec optstring c) of
        None \<Rightarrow> ((QUERY, None), (cs, rest))
      | Some False \<Rightarrow> ((char_val c, None), (cs, rest))
      | Some True \<Rightarrow>
          if cs \<noteq> [] then ((char_val c, Some cs), ([], rest))
          else (case rest of
                  [] \<Rightarrow> ((QUERY, None), ([], []))
                | a # rest' \<Rightarrow> ((char_val c, Some a), ([], rest'))))"

definition scan_long ::
  "long_option list \<Rightarrow> string \<Rightarrow> string list \<Rightarrow> ((int \<times> string option) \<times> scan) option" where
  "scan_long opts arg rest =
     (let name = takeWhile (\<lambda>c. c \<noteq> CHR ''='') arg; after = dropWhile (\<lambda>c. c \<noteq> CHR ''='') arg
      in case find (\<lambda>p. lo_name p = Some name) opts of
           None \<Rightarrow> None
         | Some p \<Rightarrow>
             if after \<noteq> [] then
               (if lo_has_arg p = required_argument then Some ((lo_val p, Some (tl after)), ([], rest))
                else Some ((QUERY, None), ([], rest)))
             else if lo_has_arg p = required_argument then
               (case rest of
                  [] \<Rightarrow> Some ((QUERY, None), ([], []))
                | a # rest' \<Rightarrow> Some ((lo_val p, Some a), ([], rest')))
             else Some ((lo_val p, None), ([], rest)))"

definition getopt_long ::
  "string \<Rightarrow> long_option list \<Rightarrow> scan \<Rightarrow> ((int \<times> string option) \<times> scan) option" where
  "getopt_long optstring opts g =
     (case fst g of
        c # cs \<Rightarrow> Some (scan_short optstring c cs (snd g))
      | [] \<Rightarrow>
          (case dropWhile nonoption (snd g) of
             [] \<Rightarrow> Some ((-1, None), ([], []))
           | a # rest \<Rightarrow>
               if a = ''--'' then Some ((-1, None), ([], []))
               else if a ! 1 = CHR ''-'' then scan_long opts (drop 2 a) rest
               else Some (scan_short optstring (a ! 1) (drop 2 a) rest)))"

definition scan_size :: "scan \<Rightarrow> nat" where
  "scan_size g = length (fst g) + sum_list (map (\<lambda>a. Suc (length a)) (snd g))"

lemma scan_size_drop: "sum_list (map (\<lambda>a. Suc (length a)) (dropWhile P xs)) \<le> sum_list (map (\<lambda>a. Suc (length a)) xs)"
  by (induction xs) auto

lemma scan_short_size: "scan_size (snd (scan_short os c cs rest)) \<le> length cs + sum_list (map (\<lambda>a. Suc (length a)) rest)"
  by (auto simp: scan_short_def scan_size_def split: option.splits bool.splits list.splits)

lemma scan_long_size: "scan_long opts arg rest = Some (r, g) \<Longrightarrow> scan_size g \<le> sum_list (map (\<lambda>a. Suc (length a)) rest)"
  by (auto simp: scan_long_def scan_size_def Let_def split: option.splits if_splits list.splits)

text \<open>Every call that yields an option consumes at least one character of the arguments.\<close>

lemma getopt_long_decreases:
  assumes "getopt_long os opts g = Some ((opt, arg), g')" and "opt \<noteq> -1"
  shows "scan_size g' < scan_size g"
proof (cases "fst g")
  case (Cons c cs)
  then show ?thesis using assms scan_short_size[of os c cs "snd g"]
    by (auto simp: getopt_long_def scan_size_def)
next
  case Nil
  show ?thesis
  proof (cases "dropWhile nonoption (snd g)")
    case Nil
    with \<open>fst g = []\<close> assms show ?thesis by (simp add: getopt_long_def)
  next
    case (Cons a rest)
    have "Suc (length a) + sum_list (map (\<lambda>a. Suc (length a)) rest) \<le> scan_size g"
      using scan_size_drop[of nonoption "snd g"] by (simp add: Cons scan_size_def)
    moreover have "scan_size g' \<le> length a + sum_list (map (\<lambda>a. Suc (length a)) rest)"
      using assms \<open>fst g = []\<close> Cons scan_short_size[of os "a ! 1" "drop 2 a" rest] scan_long_size[of opts "drop 2 a" rest]
      by (auto simp: getopt_long_def split: if_splits)
    ultimately show ?thesis by simp
  qed
qed

subsection \<open>\<open>parse_cmdline_args\<close>\<close>

abbreviation (input) optstring :: string where "optstring \<equiv> ''hd:r:L:R:ASNFU:MQ:czpq''"

text \<open>
  The body of the option switch.  \<^const>\<open>None\<close> is the use of a missing \<open>optarg\<close>; \<open>Inl full_help\<close> is the
  jump to the \<open>error\<close> label; the second component is the global \<open>verbose\<close>.
\<close>

definition set_copy :: "config \<Rightarrow> config" where
  "set_copy cfg = cfg\<lparr>cfg_xsk_bind_flags := (cfg_xsk_bind_flags cfg AND NOT XDP_ZEROCOPY) OR XDP_COPY\<rparr>"

definition set_zerocopy :: "config \<Rightarrow> config" where
  "set_zerocopy cfg = cfg\<lparr>cfg_xsk_bind_flags := (cfg_xsk_bind_flags cfg AND NOT XDP_COPY) OR XDP_ZEROCOPY\<rparr>"

definition handle_dev :: "(string \<Rightarrow> u32) \<Rightarrow> string \<Rightarrow> config \<Rightarrow> (bool + config) option" where
  "handle_dev if_nametoindex arg cfg =
     (if length arg \<ge> IF_NAMESIZE then Some (Inl False)
      else do {
        let cfg = cfg\<lparr>cfg_ifname := Own_buf, cfg_ifname_buf := strncpy arg IF_NAMESIZE\<rparr>;
        name \<leftarrow> cstr (cfg_ifname_buf cfg);
        let cfg = cfg\<lparr>cfg_ifindex := sint (if_nametoindex name)\<rparr>;
        Some (if cfg_ifindex cfg = 0 then Inl False else Inr cfg)
      })"

definition handle_redirect_dev :: "(string \<Rightarrow> u32) \<Rightarrow> string \<Rightarrow> config \<Rightarrow> (bool + config) option" where
  "handle_redirect_dev if_nametoindex arg cfg =
     (if length arg \<ge> IF_NAMESIZE then Some (Inl False)
      else do {
        let cfg = cfg\<lparr>cfg_redirect_ifname := Own_buf, cfg_redirect_ifname_buf := strncpy arg IF_NAMESIZE\<rparr>;
        name \<leftarrow> cstr (cfg_redirect_ifname_buf cfg);
        let cfg = cfg\<lparr>cfg_redirect_ifindex := sint (if_nametoindex name)\<rparr>;
        Some (if cfg_redirect_ifindex cfg = 0 then Inl False else Inr cfg)
      })"

definition handle_opt ::
  "(string \<Rightarrow> u32) \<Rightarrow> int \<Rightarrow> string option \<Rightarrow> config \<times> bool \<Rightarrow> (bool + config \<times> bool) option" where
  "handle_opt if_nametoindex opt optarg st =
     (let cfg = fst st; verbose = snd st;
          keep = (\<lambda>c. Some (Inr (c, verbose)))
      in if opt = char_val CHR ''d'' then
           do { a \<leftarrow> optarg; r \<leftarrow> handle_dev if_nametoindex a cfg; Some (map_sum (\<lambda>b. b) (\<lambda>c. (c, verbose)) r) }
         else if opt = char_val CHR ''r'' then
           do { a \<leftarrow> optarg; r \<leftarrow> handle_redirect_dev if_nametoindex a cfg; Some (map_sum (\<lambda>b. b) (\<lambda>c. (c, verbose)) r) }
         else if opt = char_val CHR ''A'' then keep (cfg\<lparr>cfg_attach_mode := XDP_MODE_UNSPEC\<rparr>)
         else if opt = char_val CHR ''S'' then keep (set_copy (cfg\<lparr>cfg_attach_mode := XDP_MODE_SKB\<rparr>))
         else if opt = char_val CHR ''N'' then keep (cfg\<lparr>cfg_attach_mode := XDP_MODE_NATIVE\<rparr>)
         else if opt = 3 then keep (cfg\<lparr>cfg_attach_mode := XDP_MODE_HW\<rparr>)
         else if opt = char_val CHR ''M'' then keep (cfg\<lparr>cfg_reuse_maps := True\<rparr>)
         else if opt = char_val CHR ''U'' then
           do { a \<leftarrow> optarg; keep (cfg\<lparr>cfg_do_unload := True, cfg_prog_id := word_of_int (atoi a)\<rparr>) }
         else if opt = char_val CHR ''p'' then keep (cfg\<lparr>cfg_xsk_poll_mode := True\<rparr>)
         else if opt = char_val CHR ''q'' then Some (Inr (cfg, False))
         else if opt = char_val CHR ''Q'' then do { a \<leftarrow> optarg; keep (cfg\<lparr>cfg_xsk_if_queue := atoi a\<rparr>) }
         else if opt = 1 then do { a \<leftarrow> optarg; keep (cfg\<lparr>cfg_filename := strncpy a 512\<rparr>) }
         else if opt = 2 then do { a \<leftarrow> optarg; keep (cfg\<lparr>cfg_progname := strncpy a 32\<rparr>) }
         else if opt = char_val CHR ''L'' then do { a \<leftarrow> optarg; keep (cfg\<lparr>cfg_src_mac := strncpy a 18\<rparr>) }
         else if opt = char_val CHR ''R'' then do { a \<leftarrow> optarg; keep (cfg\<lparr>cfg_dest_mac := strncpy a 18\<rparr>) }
         else if opt = char_val CHR ''c'' then keep (set_copy cfg)
         else if opt = char_val CHR ''z'' then keep (set_zerocopy cfg)
         else if opt = 4 then keep (cfg\<lparr>cfg_unload_all := True\<rparr>)
         else Some (Inl (opt = char_val CHR ''h'')))"

function parse_loop ::
  "(string \<Rightarrow> u32) \<Rightarrow> long_option list \<Rightarrow> scan \<Rightarrow> config \<times> bool \<Rightarrow> (bool + config \<times> bool) option" where
  "parse_loop if_nametoindex opts g st =
     (case getopt_long optstring opts g of
        None \<Rightarrow> None
      | Some ((opt, optarg), g') \<Rightarrow>
          if opt = -1 then Some (Inr st)
          else (case handle_opt if_nametoindex opt optarg st of
                  None \<Rightarrow> None
                | Some (Inl full_help) \<Rightarrow> Some (Inl full_help)
                | Some (Inr st') \<Rightarrow> parse_loop if_nametoindex opts g' st'))"
  by pat_completeness auto
termination
  by (relation "measure (\<lambda>(_, _, g, _). scan_size g)") (auto dest: getopt_long_decreases)

declare parse_loop.simps [simp del]

definition parse_cmdline_args ::
  "bool \<Rightarrow> (string \<Rightarrow> u32) \<Rightarrow> string list \<Rightarrow> option_wrapper list \<Rightarrow> string \<Rightarrow> config \<times> bool
   \<Rightarrow> (config \<times> bool) outcome option" where
  "parse_cmdline_args ok if_nametoindex argv options_wrapper doc st = do {
     opts \<leftarrow> option_wrappers_to_options ok options_wrapper;
     case opts of
       Inl _ \<Rightarrow> Some (Exits EXIT_FAIL_OPTION)
     | Inr long_options \<Rightarrow> do {
         r \<leftarrow> parse_loop if_nametoindex long_options ([], tl argv) st;
         case r of
           Inr st \<Rightarrow> Some (Returns st)
         | Inl full_help \<Rightarrow> do {
             _ \<leftarrow> usage (hd argv) doc options_wrapper full_help;
             Some (Exits EXIT_FAIL_OPTION)
           }
       }
   }"

subsection \<open>What the options can do to the configuration\<close>

definition dev_ok :: "(string \<Rightarrow> u32) \<Rightarrow> name_ptr \<Rightarrow> char list \<Rightarrow> int \<Rightarrow> bool" where
  "dev_ok if_nametoindex q buf idx \<longleftrightarrow>
     q = Own_buf \<and> idx \<noteq> 0 \<and>
     (\<exists>name. cstr buf = Some name \<and> length name < IF_NAMESIZE \<and> idx = sint (if_nametoindex name))"

definition sizes_ok :: "config \<Rightarrow> bool" where
  "sizes_ok cfg \<longleftrightarrow> length (cfg_ifname_buf cfg) = IF_NAMESIZE \<and> length (cfg_redirect_ifname_buf cfg) = IF_NAMESIZE
     \<and> length (cfg_pin_dir cfg) = 512 \<and> length (cfg_filename cfg) = 512 \<and> length (cfg_progname cfg) = 32
     \<and> length (cfg_src_mac cfg) = 18 \<and> length (cfg_dest_mac cfg) = 18"

definition one_bind_mode :: "config \<Rightarrow> bool" where
  "one_bind_mode cfg \<longleftrightarrow> \<not> (bit (cfg_xsk_bind_flags cfg) 1 \<and> bit (cfg_xsk_bind_flags cfg) 2)"

text \<open>How one option, or any number of them, may change the configuration and \<open>verbose\<close>.\<close>

definition dev_step ::
  "(string \<Rightarrow> u32) \<Rightarrow> name_ptr \<times> char list \<times> int \<Rightarrow> name_ptr \<times> char list \<times> int \<Rightarrow> bool" where
  "dev_step nt d d' \<longleftrightarrow> d' = d \<or> (case d' of (q, buf, idx) \<Rightarrow> dev_ok nt q buf idx)"

definition config_rel :: "(string \<Rightarrow> u32) \<Rightarrow> config \<times> bool \<Rightarrow> config \<times> bool \<Rightarrow> bool" where
  "config_rel nt st st' \<longleftrightarrow> (case (st, st') of ((c, v), (c', v')) \<Rightarrow>
     dev_step nt (cfg_ifname c, cfg_ifname_buf c, cfg_ifindex c)
       (cfg_ifname c', cfg_ifname_buf c', cfg_ifindex c') \<and>
     dev_step nt (cfg_redirect_ifname c, cfg_redirect_ifname_buf c, cfg_redirect_ifindex c)
       (cfg_redirect_ifname c', cfg_redirect_ifname_buf c', cfg_redirect_ifindex c') \<and>
     (sizes_ok c \<longrightarrow> sizes_ok c') \<and> (one_bind_mode c \<longrightarrow> one_bind_mode c') \<and>
     cfg_xdp_flags c' = cfg_xdp_flags c \<and> cfg_pin_dir c' = cfg_pin_dir c \<and> (v' \<longrightarrow> v))"

lemma dev_step_refl [simp]: "dev_step nt d d"
  by (simp add: dev_step_def)

lemma dev_step_trans: "dev_step nt a b \<Longrightarrow> dev_step nt b c \<Longrightarrow> dev_step nt a c"
  by (auto simp: dev_step_def)

lemma config_rel_refl [simp]: "config_rel nt st st"
  by (simp add: config_rel_def split: prod.splits)

lemma config_rel_trans: "config_rel nt a b \<Longrightarrow> config_rel nt b c \<Longrightarrow> config_rel nt a c"
  by (cases a; cases b; cases c) (simp add: config_rel_def, blast intro: dev_step_trans)

lemma sizes_ok_mode [simp]: "sizes_ok (c\<lparr>cfg_attach_mode := m\<rparr>) = sizes_ok c"
  by (simp add: sizes_ok_def)

lemma bind_modes [simp]: "one_bind_mode (set_copy cfg)" "one_bind_mode (set_zerocopy cfg)"
proof -
  have "bit (2::u16) n \<longleftrightarrow> n = 1" "bit (4::u16) n \<longleftrightarrow> n = 2" for n
    using bit_exp_iff[of 1 n, where ?'a = u16] bit_exp_iff[of 2 n, where ?'a = u16] by auto
  then show "one_bind_mode (set_copy cfg)" "one_bind_mode (set_zerocopy cfg)"
    by (simp_all add: one_bind_mode_def set_copy_def set_zerocopy_def bit_simps)
qed

lemma strncpy_short: "length a < n \<Longrightarrow> \<exists>s. cstr (strncpy a n) = Some s \<and> length s \<le> length a"
proof -
  assume "length a < n"
  moreover from this obtain k where "n - length a = Suc k" by (cases "n - length a") auto
  ultimately have b: "strncpy a n = a @ NUL # replicate k NUL" by (simp add: strncpy_def)
  have "length (takeWhile (\<lambda>c. c \<noteq> NUL) (a @ NUL # replicate k NUL)) \<le> length a"
    by (cases "NUL \<in> set a") (auto simp: takeWhile_append length_takeWhile_le)
  then show ?thesis by (simp add: b cstr_def)
qed

lemma handle_dev_rel:
  "handle_dev nt a c = Some (Inr c') \<Longrightarrow> config_rel nt (c, v) (c', v)"
  "handle_redirect_dev nt a c = Some (Inr c') \<Longrightarrow> config_rel nt (c, v) (c', v)"
  using strncpy_short[of a 16]
  by (auto simp: handle_dev_def handle_redirect_dev_def config_rel_def dev_step_def dev_ok_def sizes_ok_def one_bind_mode_def
      split: if_splits Option.bind_splits)

definition keeps_rel :: "(string \<Rightarrow> u32) \<Rightarrow> config \<times> bool \<Rightarrow> (bool + config \<times> bool) option \<Rightarrow> bool" where
  "keeps_rel nt st r \<longleftrightarrow> (\<forall>st'. r = Some (Inr st') \<longrightarrow> config_rel nt st st')"

lemma keeps_rel_if: "keeps_rel nt st a \<Longrightarrow> keeps_rel nt st b \<Longrightarrow> keeps_rel nt st (if P then a else b)"
  by simp

lemma keeps_rel_bind: "(\<And>x. r = Some x \<Longrightarrow> keeps_rel nt st (f x)) \<Longrightarrow> keeps_rel nt st (r \<bind> f)"
  by (cases r) (auto simp: keeps_rel_def)

lemma keeps_rel_Inl: "keeps_rel nt st (Some (Inl b))"
  by (simp add: keeps_rel_def)

lemma keeps_rel_dev:
  "handle_dev nt a c = Some r \<or> handle_redirect_dev nt a c = Some r \<Longrightarrow>
   keeps_rel nt (c, v) (Some (map_sum (\<lambda>b. b) (\<lambda>c. (c, v)) r))"
  using handle_dev_rel by (cases r) (auto simp: keeps_rel_def)

lemma keeps_rel_other:
  assumes "(cfg_ifname c', cfg_ifname_buf c', cfg_ifindex c') = (cfg_ifname c, cfg_ifname_buf c, cfg_ifindex c)"
    "(cfg_redirect_ifname c', cfg_redirect_ifname_buf c', cfg_redirect_ifindex c')
      = (cfg_redirect_ifname c, cfg_redirect_ifname_buf c, cfg_redirect_ifindex c)"
    "sizes_ok c \<Longrightarrow> sizes_ok c'" "one_bind_mode c \<Longrightarrow> one_bind_mode c'"
    "cfg_xdp_flags c' = cfg_xdp_flags c" "cfg_pin_dir c' = cfg_pin_dir c" "v' \<Longrightarrow> v"
  shows "keeps_rel nt (c, v) (Some (Inr (c', v')))"
  using assms by (simp add: keeps_rel_def config_rel_def)

lemma set_copy_fields [simp]:
  "cfg_ifname (set_copy c) = cfg_ifname c" "cfg_ifname_buf (set_copy c) = cfg_ifname_buf c"
  "cfg_ifindex (set_copy c) = cfg_ifindex c" "cfg_redirect_ifname (set_copy c) = cfg_redirect_ifname c"
  "cfg_redirect_ifname_buf (set_copy c) = cfg_redirect_ifname_buf c"
  "cfg_redirect_ifindex (set_copy c) = cfg_redirect_ifindex c" "sizes_ok (set_copy c) = sizes_ok c"
  "cfg_xdp_flags (set_copy c) = cfg_xdp_flags c" "cfg_pin_dir (set_copy c) = cfg_pin_dir c"
  by (simp_all add: set_copy_def sizes_ok_def)

lemma set_zerocopy_fields [simp]:
  "cfg_ifname (set_zerocopy c) = cfg_ifname c" "cfg_ifname_buf (set_zerocopy c) = cfg_ifname_buf c"
  "cfg_ifindex (set_zerocopy c) = cfg_ifindex c" "cfg_redirect_ifname (set_zerocopy c) = cfg_redirect_ifname c"
  "cfg_redirect_ifname_buf (set_zerocopy c) = cfg_redirect_ifname_buf c"
  "cfg_redirect_ifindex (set_zerocopy c) = cfg_redirect_ifindex c" "sizes_ok (set_zerocopy c) = sizes_ok c"
  "cfg_xdp_flags (set_zerocopy c) = cfg_xdp_flags c" "cfg_pin_dir (set_zerocopy c) = cfg_pin_dir c"
  by (simp_all add: set_zerocopy_def sizes_ok_def)

lemma handle_opt_rel: "keeps_rel nt (c, v) (handle_opt nt opt arg (c, v))"
  unfolding handle_opt_def Let_def fst_conv snd_conv
  by (intro keeps_rel_if keeps_rel_bind keeps_rel_Inl keeps_rel_dev keeps_rel_other;
      (blast | simp; fail | simp add: sizes_ok_def; fail | simp add: one_bind_mode_def)?)

lemma parse_loop_rel: "parse_loop nt opts g st = Some (Inr st') \<Longrightarrow> config_rel nt st st'"
proof (induction nt opts g st rule: parse_loop.induct)
  case (1 nt opts g st)
  from 1(2) consider (fin) "st' = st"
    | (step) opt arg g' st1 where "getopt_long optstring opts g = Some ((opt, arg), g')" "opt \<noteq> -1"
        "handle_opt nt opt arg st = Some (Inr st1)" "parse_loop nt opts g' st1 = Some (Inr st')"
    by (subst (asm) parse_loop.simps) (auto split: option.splits sum.splits if_splits)
  then show ?case
  proof cases
    case step
    with handle_opt_rel[of nt "fst st" "snd st" opt arg] have "config_rel nt st st1"
      by (simp add: keeps_rel_def)
    with "1.IH"[OF step(1) refl refl step(2,3) refl step(4)] show ?thesis by (rule config_rel_trans[rotated])
  qed simp
qed


definition empty_config :: config where
  "empty_config = \<lparr>cfg_attach_mode = XDP_MODE_UNSPEC, cfg_xdp_flags = 0, cfg_ifindex = 0, cfg_ifname = Null,
     cfg_ifname_buf = replicate IF_NAMESIZE NUL, cfg_redirect_ifindex = 0, cfg_redirect_ifname = Null,
     cfg_redirect_ifname_buf = replicate IF_NAMESIZE NUL, cfg_do_unload = False, cfg_prog_id = 0,
     cfg_reuse_maps = False, cfg_pin_dir = replicate 512 NUL, cfg_filename = replicate 512 NUL,
     cfg_progname = replicate 32 NUL, cfg_src_mac = replicate 18 NUL, cfg_dest_mac = replicate 18 NUL,
     cfg_xsk_bind_flags = 0, cfg_xsk_if_queue = 0, cfg_xsk_poll_mode = False, cfg_unload_all = False\<rparr>"

definition dev_only :: "option_wrapper list" where
  "dev_only =
     [\<lparr>ow_option = \<lparr>lo_name = Some ''dev'', lo_has_arg = required_argument, lo_val = 100\<rparr>,
       ow_help = Some ''device'', ow_metavar = Some ''<ifname>'', ow_required = True\<rparr>,
      \<lparr>ow_option = \<lparr>lo_name = None, lo_has_arg = no_argument, lo_val = 0\<rparr>,
       ow_help = None, ow_metavar = None, ow_required = False\<rparr>]"


end
