(* ===== verification/User_Tools.thy ===== *)
theory User_Tools
  imports Libxdp_Proofs Params Flow_Dump
begin

text \<open>
  The user-space programs around the detector: the loader (\<open>xdp_prog/xdp_loader.c\<close>), the statistics
  reader (\<open>xdp_prog/xdp_stats.c\<close>) and the helpers they share (\<open>common/common_user_bpf_xdp.c\<close>,
  \<open>common/common_libbpf.c\<close>).  They run on the model of libxdp; the calls they make to libbpf and the file
  system beyond it are the fields of \<open>user_env\<close>.  What is printed is left out, except where printing
  makes a call of its own.
\<close>

record 'w user_env =
  u_obj_maps :: "nat \<Rightarrow> 'w \<Rightarrow> (nat \<times> string) list \<times> 'w"
  u_map_reuse_fd :: "nat \<Rightarrow> int \<Rightarrow> 'w \<Rightarrow> int \<times> 'w"
  u_map_pin :: "nat \<Rightarrow> string \<Rightarrow> 'w \<Rightarrow> int \<times> 'w"
  u_map_fd :: "nat \<Rightarrow> 'w \<Rightarrow> int \<times> 'w"
  u_map_offload_neutral :: "nat \<Rightarrow> 'w \<Rightarrow> bool \<times> 'w"
  u_map_set_ifindex :: "nat \<Rightarrow> u32 \<Rightarrow> 'w \<Rightarrow> unit \<times> 'w"
  u_unpin_maps :: "nat \<Rightarrow> string \<Rightarrow> 'w \<Rightarrow> int \<times> 'w"
  u_access :: "string \<Rightarrow> 'w \<Rightarrow> int \<times> 'w"
  u_lookup_accounting :: "int \<Rightarrow> u32 \<Rightarrow> 'w \<Rightarrow> (int + accounting) \<times> 'w"
  u_open_xattr :: "string \<Rightarrow> nat \<Rightarrow> 'w \<Rightarrow> nat option \<times> 'w"
  u_obj_progs :: "nat \<Rightarrow> 'w \<Rightarrow> nat list \<times> 'w"
  u_prog_setup :: "nat \<Rightarrow> u32 \<Rightarrow> nat \<Rightarrow> nat \<Rightarrow> 'w \<Rightarrow> unit \<times> 'w"

type_synonym sorter = "(ptr \<Rightarrow> ptr \<Rightarrow> int) \<Rightarrow> ptr list \<Rightarrow> ptr list"

subsection \<open>Pinned maps\<close>

fun reuse_loop ::
  "'w libxdp_env \<Rightarrow> 'w user_env \<Rightarrow> string \<Rightarrow> (nat \<times> string) list \<Rightarrow> 'w st \<Rightarrow> (int \<times> 'w st) option" where
  "reuse_loop env u path [] s = Some (0, s)"
| "reuse_loop env u path ((m, name) # ms) s =
     (let buf = path @ ''/'' @ name
      in if length buf \<ge> PATH_MAX then Some (- ENAMETOOLONG, s)
         else do {
           (pinned_map_fd, s) \<leftarrow> sys (obj_get env buf) s;
           if pinned_map_fd < 0 then Some (pinned_map_fd, s)
           else do {
             (err, s) \<leftarrow> sys (u_map_reuse_fd u m pinned_map_fd) s;
             if err \<noteq> 0 then Some (err, s) else reuse_loop env u path ms s
           }
         })"

definition reuse_maps ::
  "'w libxdp_env \<Rightarrow> 'w user_env \<Rightarrow> nat option \<Rightarrow> string option \<Rightarrow> 'w st \<Rightarrow> (int \<times> 'w st) option" where
  "reuse_maps env u obj path s =
     (case (obj, path) of
        (None, _) \<Rightarrow> Some (- ENOENT, s)
      | (_, None) \<Rightarrow> Some (- EINVAL, s)
      | (Some ob, Some p) \<Rightarrow> do { (ms, s) \<leftarrow> sys (u_obj_maps u ob) s; reuse_loop env u p ms s })"

definition action_names :: "string list" where
  "action_names = [''XDP_ABORTED'', ''XDP_DROP'', ''XDP_PASS'', ''XDP_TX'', ''XDP_REDIRECT'', ''XDP_UNKNOWN'']"

definition action2str :: "u32 \<Rightarrow> string option" where
  "action2str action = (if unat action < 6 then Some (action_names ! unat action) else None)"

definition check_map_fd_info :: "bpf_map_info \<Rightarrow> bpf_map_info \<Rightarrow> int" where
  "check_map_fd_info info expd =
     (if mi_key_size expd \<noteq> 0 \<and> mi_key_size expd \<noteq> mi_key_size info then EXIT_FAIL
      else if mi_value_size expd \<noteq> 0 \<and> mi_value_size expd \<noteq> mi_value_size info then EXIT_FAIL
      else if mi_max_entries expd \<noteq> 0 \<and> mi_max_entries expd \<noteq> mi_max_entries info then EXIT_FAIL
      else if mi_type expd \<noteq> 0 \<and> mi_type expd \<noteq> mi_type info then EXIT_FAIL
      else 0)"

text \<open>The second result is what was written to \<open>*info\<close>; \<open>want\<close> says whether \<open>info\<close> is set.\<close>

definition open_bpf_map_file ::
  "'w libxdp_env \<Rightarrow> string \<Rightarrow> string \<Rightarrow> bool \<Rightarrow> 'w st \<Rightarrow> ((int \<times> bpf_map_info option) \<times> 'w st) option" where
  "open_bpf_map_file env pin_dir mapname want s = do {
     (fd, s) \<leftarrow> sys (obj_get env (take (PATH_MAX - 1) (pin_dir @ ''/'' @ mapname))) s;
     if fd < 0 then Some ((fd, None), s)
     else if want then do {
       (r, s) \<leftarrow> sys (get_map_info env fd) s;
       case r of
         Inl _ \<Rightarrow> Some ((EXIT_FAIL_BPF, None), s)
       | Inr i \<Rightarrow> Some ((fd, Some i), s)
     }
     else Some ((fd, None), s)
   }"

subsection \<open>Attaching and unloading\<close>

definition load_bpf_and_xdp_attach ::
  "'w libxdp_env \<Rightarrow> string \<Rightarrow> sorter \<Rightarrow> config \<Rightarrow> 'w st \<Rightarrow> (ptr outcome \<times> 'w st) option" where
  "load_bpf_and_xdp_attach env path qsrt cfg s = do {
     filename \<leftarrow> cstr (cfg_filename cfg);
     progname \<leftarrow> cstr (cfg_progname cfg);
     (r, s) \<leftarrow> xdp_program__create env path True
       (Some \<lparr>opt_obj = None, opt_has_opts = True, opt_prog_name = Some progname, opt_find_filename = None,
              opt_open_filename = Some filename, opt_pin_path = None, opt_id = 0, opt_fd = 0\<rparr>) s;
     case r of
       Inl _ \<Rightarrow> Some (Exits EXIT_FAIL_BPF, s)
     | Inr p \<Rightarrow> do {
         (err, s) \<leftarrow> xdp_program__attach env path qsrt (Some p) (cfg_ifindex cfg) (cfg_attach_mode cfg) 0 s;
         if err \<noteq> 0 then Some (Exits err, s)
         else if xdp_program__fd (Some (prog_at s p)) < 0 then Some (Exits EXIT_FAIL_BPF, s)
         else Some (Returns p, s)
       }
   }"

text \<open>The program \<open>do_unload\<close> picks, with the mode to detach it in: the first program behind the
  dispatcher with the id, a program attached without dispatcher, or the one in hardware.  A missing
  program has the id 0 (\<open>xdp_program__id(NULL)\<close>).\<close>

definition unload_target ::
  "heap \<Rightarrow> xdp_multiprog \<Rightarrow> u32 \<Rightarrow> (ptr option \<times> xdp_attach_mode) option" where
  "unload_target h mp i =
     (case find (\<lambda>p. id_of h (Some p) = i) (xdp_multiprog__next_prog (Some mp)) of
        Some p \<Rightarrow> Some (Some p, xdp_multiprog__attach_mode (Some mp))
      | None \<Rightarrow>
          if xdp_multiprog__is_legacy (Some mp) \<and> id_of h (xdp_multiprog__main_prog (Some mp)) = i
          then Some (xdp_multiprog__main_prog (Some mp), xdp_multiprog__attach_mode (Some mp))
          else if id_of h (xdp_multiprog__hw_prog (Some mp)) = i
          then Some (xdp_multiprog__hw_prog (Some mp), XDP_MODE_HW)
          else None)"

definition do_unload ::
  "'w libxdp_env \<Rightarrow> string \<Rightarrow> sorter \<Rightarrow> config \<Rightarrow> 'w st \<Rightarrow> (int \<times> 'w st) option" where
  "do_unload env path qsrt cfg s = do {
     (r, s) \<leftarrow> xdp_multiprog__get_from_ifindex env (cfg_ifindex cfg) s;
     case r of
       Inl _ \<Rightarrow> Some (EXIT_FAIL, s)
     | Inr mp \<Rightarrow> do {
         (err, s) \<leftarrow>
           (if cfg_unload_all cfg then xdp_multiprog__detach env (Some mp) s
            else case unload_target (fst s) mp (cfg_prog_id cfg) of
                None \<Rightarrow> Some (- ENOENT, s)
              | Some (prog, mode) \<Rightarrow> xdp_program__detach env path qsrt prog (cfg_ifindex cfg) mode 0 s);
         (_, s) \<leftarrow> xdp_multiprog__close env (Some mp) s;
         Some (if err \<noteq> 0 then EXIT_FAIL else EXIT_OK, s)
       }
   }"

subsection \<open>The loader\<close>

definition no_opt :: "string \<Rightarrow> int \<Rightarrow> string \<Rightarrow> option_wrapper" where
  "no_opt name v help = \<lparr>ow_option = \<lparr>lo_name = Some name, lo_has_arg = no_argument, lo_val = v\<rparr>,
     ow_help = Some help, ow_metavar = None, ow_required = False\<rparr>"

definition long_options :: "option_wrapper list" where
  "long_options =
     [no_opt ''help'' (char_val CHR ''h'') ''Show help'',
      \<lparr>ow_option = \<lparr>lo_name = Some ''dev'', lo_has_arg = required_argument, lo_val = char_val CHR ''d''\<rparr>,
       ow_help = Some ''Operate on device <ifname>'', ow_metavar = Some ''<ifname>'', ow_required = True\<rparr>,
      no_opt ''skb-mode'' (char_val CHR ''S'') ''Install XDP program in SKB (AKA generic) mode'',
      no_opt ''native-mode'' (char_val CHR ''N'') ''Install XDP program in native mode'',
      no_opt ''auto-mode'' (char_val CHR ''A'') ''Auto-detect SKB or native mode'',
      no_opt ''force'' (char_val CHR ''F'') ''Force install, replacing existing program on interface'',
      no_opt ''unload'' (char_val CHR ''U'') ''Unload XDP program instead of loading'',
      no_opt ''quiet'' (char_val CHR ''q'') ''Quiet mode (no output)'',
      \<lparr>ow_option = \<lparr>lo_name = Some ''filename'', lo_has_arg = required_argument, lo_val = 1\<rparr>,
       ow_help = Some ''Load program from <file>'', ow_metavar = Some ''<file>'', ow_required = False\<rparr>,
      \<lparr>ow_option = \<lparr>lo_name = Some ''progname'', lo_has_arg = required_argument, lo_val = 2\<rparr>,
       ow_help = Some ''Load program from function <name> in the ELF file'', ow_metavar = Some ''<name>'',
       ow_required = False\<rparr>,
      \<lparr>ow_option = \<lparr>lo_name = None, lo_has_arg = no_argument, lo_val = 0\<rparr>,
       ow_help = None, ow_metavar = None, ow_required = False\<rparr>]"

definition loader_doc :: string where
  "loader_doc = ''XDP loader for Decision Tree'' @ [CHR 0x0A]
     @ '' - Allows selecting BPF program --progname name to XDP-attach to --dev'' @ [CHR 0x0A]"

fun pin_each ::
  "'w user_env \<Rightarrow> string \<Rightarrow> (nat \<times> string) list \<Rightarrow> nat \<Rightarrow> 'w st \<Rightarrow> (nat \<times> 'w st) option" where
  "pin_each u pin_dir [] map_count s = Some (map_count, s)"
| "pin_each u pin_dir ((m, name) # ms) map_count s = do {
     (err, s) \<leftarrow> sys (u_map_pin u m (take (PATH_MAX - 1) (pin_dir @ ''/'' @ name))) s;
     pin_each u pin_dir ms (if err \<noteq> 0 then map_count else map_count + 1) s
   }"

definition obj_maps_of :: "'w user_env \<Rightarrow> nat option \<Rightarrow> 'w st \<Rightarrow> ((nat \<times> string) list \<times> 'w st) option" where
  "obj_maps_of u obj s = (case obj of None \<Rightarrow> Some ([], s) | Some ob \<Rightarrow> sys (u_obj_maps u ob) s)"

definition pin_maps_in_bpf_object ::
  "'w user_env \<Rightarrow> bool \<Rightarrow> nat option \<Rightarrow> string \<Rightarrow> 'w st \<Rightarrow> (int \<times> 'w st) option" where
  "pin_maps_in_bpf_object u verbose obj subdir s = do {
     let pin_dir = take (PATH_MAX - 1) (pin_basedir @ ''/'' @ subdir);
     let map_filename = take (PATH_MAX - 1) (pin_basedir @ ''/'' @ subdir @ ''/xdp_flow_tracking'');
     (r, s) \<leftarrow> sys (u_access u map_filename) s;
     (err, s) \<leftarrow> (if r \<noteq> -1
                 then (case obj of None \<Rightarrow> Some (- ENOENT, s) | Some ob \<Rightarrow> sys (u_unpin_maps u ob pin_dir) s)
                 else Some (0, s));
     if err \<noteq> 0 then Some (EXIT_FAIL_BPF, s)
     else do {
       (ms, s) \<leftarrow> obj_maps_of u obj s;
       (map_count, s) \<leftarrow> pin_each u pin_dir ms 0 s;
       if verbose then do {
         (_, s) \<leftarrow> sys (u_access u (take (PATH_MAX - 1) (pin_dir @ ''/xdp_flow_tracking''))) s;
         (_, s) \<leftarrow> sys (u_access u (take (PATH_MAX - 1) (pin_dir @ ''/dt_map''))) s;
         Some (0, s)
       }
       else Some (0, s)
     }
   }"

definition loader_config :: config where
  "loader_config = empty_config\<lparr>cfg_attach_mode := XDP_MODE_SKB, cfg_xdp_flags := XDP_FLAGS_UPDATE_IF_NOEXIST,
     cfg_ifindex := -1, cfg_filename := strncpy ''xdp_prog_kern.o'' 512,
     cfg_progname := strncpy ''xdp_anomaly_detector'' 31 @ [NUL]\<rparr>"

definition ifname_of :: "config \<Rightarrow> string option" where
  "ifname_of cfg = (case cfg_ifname cfg of Null \<Rightarrow> None | Own_buf \<Rightarrow> cstr (cfg_ifname_buf cfg))"

text \<open>The part of \<open>main\<close> behind the command line; the result is the exit status of the process.\<close>

definition loader_run ::
  "'w libxdp_env \<Rightarrow> 'w user_env \<Rightarrow> string \<Rightarrow> sorter \<Rightarrow> config \<Rightarrow> bool \<Rightarrow> 'w st \<Rightarrow> (int \<times> 'w st) option" where
  "loader_run env u path qsrt cfg verbose s = do {
     ifname \<leftarrow> ifname_of cfg;
     let pin_dir = take (PATH_MAX - 1) (pin_basedir @ ''/'' @ ifname);
     let cfg = cfg\<lparr>cfg_pin_dir := strncpy pin_dir 511 @ [NUL]\<rparr>;
     (r, s) \<leftarrow> load_bpf_and_xdp_attach env path qsrt cfg s;
     case r of
       Exits e \<Rightarrow> Some (e, s)
     | Returns p \<Rightarrow> do {
         (err, s) \<leftarrow> pin_maps_in_bpf_object u verbose (bpf_obj (prog_at s p)) ifname s;
         Some (if err \<noteq> 0 then err else EXIT_OK, s)
       }
   }"

definition loader_main ::
  "'w libxdp_env \<Rightarrow> 'w user_env \<Rightarrow> string \<Rightarrow> sorter \<Rightarrow> bool \<Rightarrow> (string \<Rightarrow> u32) \<Rightarrow> string list \<Rightarrow> 'w st
   \<Rightarrow> (int \<times> 'w st) option" where
  "loader_main env u path qsrt ok nt argv s = do {
     r \<leftarrow> parse_cmdline_args ok nt argv long_options loader_doc (loader_config, True);
     case r of
       Exits e \<Rightarrow> Some (e, s)
     | Returns (cfg, verbose) \<Rightarrow>
         if cfg_ifindex cfg = -1
         then do { _ \<leftarrow> usage (hd argv) loader_doc long_options (length argv = 1); Some (EXIT_FAIL_OPTION, s) }
         else loader_run env u path qsrt cfg verbose s
   }"

subsection \<open>The statistics reader\<close>

text \<open>The second result is the record that is printed.\<close>

definition stats_main ::
  "'w libxdp_env \<Rightarrow> 'w user_env \<Rightarrow> string list \<Rightarrow> 'w st \<Rightarrow> ((int \<times> accounting option) \<times> 'w st) option" where
  "stats_main env u argv s =
     (if length argv < 2 then Some ((1, None), s)
      else do {
        let pin_dir = take 4095 (pin_basedir @ ''/'' @ (argv ! 1));
        ((fd, _), s) \<leftarrow> open_bpf_map_file env pin_dir ''accounting_map'' True s;
        if fd < 0 then Some ((1, None), s)
        else do {
          (r, s) \<leftarrow> sys (u_lookup_accounting u fd 0) s;
          (_, s) \<leftarrow> sys (close_fd env fd) s;
          Some (case r of Inl _ \<Rightarrow> (1, None) | Inr ac \<Rightarrow> (0, Some ac), s)
        }
      })"

subsection \<open>Loading an object with pinned maps\<close>

text \<open>\<open>bpf_prog_load_xattr_maps\<close>.  The array \<open>attr->pinned_maps\<close> is changed in place; it is passed and
  returned.  The attributes are read before \<open>attr\<close> is tested, so a null pointer is \<^const>\<open>None\<close>.\<close>

record bpf_pinned_map =
  pm_name :: string
  pm_filename :: string
  pm_map_fd :: int

record bpf_prog_load_attr_maps =
  at_file :: "string option"
  at_prog_type :: nat
  at_expected_attach_type :: nat
  at_ifindex :: u32

fun setup_progs ::
  "'w user_env \<Rightarrow> bpf_prog_load_attr_maps \<Rightarrow> nat list \<Rightarrow> 'w st \<Rightarrow> (unit \<times> 'w st) option" where
  "setup_progs u attr [] s = Some ((), s)"
| "setup_progs u attr (p # ps) s = do {
     (_, s) \<leftarrow> sys (u_prog_setup u p (at_ifindex attr) (at_prog_type attr) (at_expected_attach_type attr)) s;
     setup_progs u attr ps s
   }"

fun reuse_pinned ::
  "'w libxdp_env \<Rightarrow> 'w user_env \<Rightarrow> nat \<Rightarrow> string \<Rightarrow> bpf_pinned_map list \<Rightarrow> 'w st
   \<Rightarrow> (bpf_pinned_map list \<times> 'w st) option" where
  "reuse_pinned env u m mapname [] s = Some ([], s)"
| "reuse_pinned env u m mapname (pm # pms) s = do {
     (pm, s) \<leftarrow>
       (if strcmp mapname (pm_name pm) \<noteq> 0 then Some (pm, s)
        else do {
          (fd, s) \<leftarrow> sys (obj_get env (pm_filename pm)) s;
          if fd > 0
          then do { (_, s) \<leftarrow> sys (u_map_reuse_fd u m fd) s; Some (pm\<lparr>pm_map_fd := fd\<rparr>, s) }
          else Some (pm, s)
        });
     (pms, s) \<leftarrow> reuse_pinned env u m mapname pms s;
     Some (pm # pms, s)
   }"

fun prepare_maps ::
  "'w libxdp_env \<Rightarrow> 'w user_env \<Rightarrow> u32 \<Rightarrow> (nat \<times> string) list \<Rightarrow> bpf_pinned_map list \<Rightarrow> 'w st
   \<Rightarrow> (bpf_pinned_map list \<times> 'w st) option" where
  "prepare_maps env u ifindex [] pms s = Some (pms, s)"
| "prepare_maps env u ifindex ((m, mapname) # ms) pms s = do {
     (neutral, s) \<leftarrow> sys (u_map_offload_neutral u m) s;
     (_, s) \<leftarrow> (if \<not> neutral then sys (u_map_set_ifindex u m ifindex) s else Some ((), s));
     (pms, s) \<leftarrow> reuse_pinned env u m mapname pms s;
     prepare_maps env u ifindex ms pms s
   }"

fun pin_new ::
  "'w user_env \<Rightarrow> nat \<Rightarrow> string \<Rightarrow> bpf_pinned_map list \<Rightarrow> 'w st \<Rightarrow> (bpf_pinned_map list \<times> 'w st) option" where
  "pin_new u m mapname [] s = Some ([], s)"
| "pin_new u m mapname (pm # pms) s = do {
     (pm, s) \<leftarrow>
       (if strcmp mapname (pm_name pm) \<noteq> 0 \<or> pm_map_fd pm \<noteq> -1 then Some (pm, s)
        else do {
          (err, s) \<leftarrow> sys (u_map_pin u m (pm_filename pm)) s;
          if err \<noteq> 0 then Some (pm, s)
          else do { (fd, s) \<leftarrow> sys (u_map_fd u m) s; Some (pm\<lparr>pm_map_fd := fd\<rparr>, s) }
        });
     (pms, s) \<leftarrow> pin_new u m mapname pms s;
     Some (pm # pms, s)
   }"

fun pin_new_maps ::
  "'w user_env \<Rightarrow> (nat \<times> string) list \<Rightarrow> bpf_pinned_map list \<Rightarrow> 'w st
   \<Rightarrow> (bpf_pinned_map list \<times> 'w st) option" where
  "pin_new_maps u [] pms s = Some (pms, s)"
| "pin_new_maps u ((m, mapname) # ms) pms s = do {
     (pms, s) \<leftarrow> pin_new u m mapname pms s;
     pin_new_maps u ms pms s
   }"

definition bpf_prog_load_xattr_maps ::
  "'w libxdp_env \<Rightarrow> 'w user_env \<Rightarrow> bpf_prog_load_attr_maps option \<Rightarrow> bpf_pinned_map list \<Rightarrow> 'w st
   \<Rightarrow> (((int + nat \<times> int) \<times> bpf_pinned_map list) \<times> 'w st) option" where
  "bpf_prog_load_xattr_maps env u attro pms s =
     (case attro of
        None \<Rightarrow> None
      | Some attr \<Rightarrow>
          (case at_file attr of
             None \<Rightarrow> Some ((Inl (- EINVAL), pms), s)
           | Some file \<Rightarrow> do {
               (objo, s) \<leftarrow> sys (u_open_xattr u file (at_prog_type attr)) s;
               case objo of
                 None \<Rightarrow> Some ((Inl (- ENOENT), pms), s)
               | Some obj \<Rightarrow> do {
                   (progs, s) \<leftarrow> sys (u_obj_progs u obj) s;
                   (_, s) \<leftarrow> setup_progs u attr progs s;
                   let pms = map (\<lambda>pm. pm\<lparr>pm_map_fd := -1\<rparr>) pms;
                   (ms, s) \<leftarrow> sys (u_obj_maps u obj) s;
                   (pms, s) \<leftarrow> prepare_maps env u (at_ifindex attr) ms pms s;
                   case progs of
                     [] \<Rightarrow> do { (_, s) \<leftarrow> sys (obj_close env obj) s; Some ((Inl (- ENOENT), pms), s) }
                   | first_prog # _ \<Rightarrow> do {
                       (err, s) \<leftarrow> sys (obj_load env obj) s;
                       if err \<noteq> 0
                       then do { (_, s) \<leftarrow> sys (obj_close env obj) s; Some ((Inl (- EINVAL), pms), s) }
                       else do {
                         (pms, s) \<leftarrow> pin_new_maps u ms pms s;
                         (fd, s) \<leftarrow> sys (libbpf_prog_fd env first_prog) s;
                         Some ((Inr (obj, fd), pms), s)
                       }
                     }
                 }
             }))"

end
