(* ===== verification/Stats_Print.thy ===== *)
theory Stats_Print
  imports User_Tools
begin

text \<open>
  The text that \<open>xdp_stats.c\<close> prints.  A \<open>double\<close> is a rational number, or the infinity or the undefined value of a division by zero;
  each operation rounds its exact result to 53 significant bits, ties to even.  The quantities are not negative, and they are
  far from the limits of the exponent, so that overflow and subnormal numbers do not occur.
\<close>

subsection \<open>Rounding\<close>

definition round_even :: "rat \<Rightarrow> int" where
  "round_even x = (let f = \<lfloor>x\<rfloor>; d = x - of_int f in if d < 1 / 2 then f else if d > 1 / 2 then f + 1 else if even f then f else f + 1)"

text \<open>The exponent of the highest bit of a positive number.\<close>

fun log2_nat :: "nat \<Rightarrow> nat" where
  "log2_nat n = (if n < 2 then 0 else Suc (log2_nat (n div 2)))"

declare log2_nat.simps [simp del]

definition dbl_exp :: "rat \<Rightarrow> int" where
  "dbl_exp x = (case quotient_of x of (a, b) \<Rightarrow>
     let e = int (log2_nat (nat a)) - int (log2_nat (nat b)) in if 2 powi e \<le> x then e else e - 1)"

definition dbl_round :: "rat \<Rightarrow> rat" where
  "dbl_round x = (if x = 0 then 0 else let e = dbl_exp x - 52 in of_int (round_even (x / 2 powi e)) * 2 powi e)"

lemma round_even_error: "\<bar>of_int (round_even x) - x\<bar> \<le> 1 / 2"
proof -
  have r: "\<bar>of_int (let d = x - of_int f in if d < 1 / 2 then f else if d > 1 / 2 then f + 1 else if even f then f else f + 1) - x\<bar> \<le> 1 / 2"
    if "of_int f \<le> x" "x < of_int f + 1" for f
    using that by (auto simp: Let_def abs_if)
  have "of_int \<lfloor>x\<rfloor> \<le> x" "x < of_int \<lfloor>x\<rfloor> + 1" by linarith+
  from r[OF this] show ?thesis unfolding round_even_def Let_def .
qed

lemma round_even_int [simp]: "round_even (of_int n) = n"
  by (simp add: round_even_def)

lemma log2_nat: "0 < n \<Longrightarrow> 2 ^ log2_nat n \<le> n \<and> n < 2 ^ Suc (log2_nat n)"
proof (induction n rule: log2_nat.induct)
  case (1 n)
  show ?case
  proof (cases "n < 2")
    case False
    then have "2 ^ log2_nat (n div 2) \<le> n div 2" "n div 2 < 2 ^ Suc (log2_nat (n div 2))" using 1 by simp_all
    moreover have "2 * (n div 2) \<le> n" "n < 2 * (n div 2) + 2" by linarith+
    ultimately show ?thesis using False by (simp add: log2_nat.simps[of n])
  qed (use 1 in \<open>simp add: log2_nat.simps[of n]\<close>)
qed

lemma dbl_exp_le:
  assumes "0 < x"
  shows "2 powi dbl_exp x \<le> x"
proof -
  obtain a b where q: "quotient_of x = (a, b)" by force
  then have x: "x = of_int a / of_int b" "0 < b" "0 < a"
    using assms quotient_of_div[OF q] quotient_of_denom_pos[OF q] by (auto simp: zero_less_divide_iff)
  let ?e = "int (log2_nat (nat a)) - int (log2_nat (nat b))"
  have a: "(2 :: rat) ^ log2_nat (nat a) \<le> of_int a" using log2_nat[of "nat a"] x(3) by (metis of_nat_le_iff of_nat_numeral of_nat_power nat_0_le less_imp_le of_int_of_nat_eq zero_less_nat_eq)
  have b: "of_int b < (2 :: rat) ^ Suc (log2_nat (nat b))" using log2_nat[of "nat b"] x(2) by (metis of_nat_less_iff of_nat_numeral of_nat_power nat_0_le less_imp_le of_int_of_nat_eq zero_less_nat_eq)
  have "2 powi (?e - 1) = 2 ^ log2_nat (nat a) / (2 :: rat) ^ Suc (log2_nat (nat b))"
    by (simp add: power_int_diff)
  also have "\<dots> \<le> of_int a / of_int b" using a b x(2,3) by (intro frac_le) auto
  finally have "2 powi (?e - 1) \<le> x" using x(1) by simp
  then show ?thesis by (simp add: dbl_exp_def q Let_def)
qed

lemma dbl_round_error:
  assumes "0 < x"
  shows "\<bar>dbl_round x - x\<bar> \<le> x / 2 ^ 53"
proof -
  let ?e = "dbl_exp x - 52"
  have p: "(0 :: rat) < 2 powi ?e" by simp
  have "2 powi ?e * 2 ^ 52 \<le> x" using dbl_exp_le[OF assms] by (simp add: power_int_diff)
  moreover have "dbl_round x - x = (of_int (round_even (x / 2 powi ?e)) - x / 2 powi ?e) * 2 powi ?e"
    using assms p by (simp add: dbl_round_def Let_def algebra_simps)
  then have "\<bar>dbl_round x - x\<bar> \<le> 1 / 2 * 2 powi ?e"
    using mult_right_mono[OF round_even_error[of "x / 2 powi ?e"], of "2 powi ?e"] p by (simp add: abs_mult)
  ultimately show ?thesis by (simp add: field_simps)
qed

lemma dbl_round_int:
  assumes "n < 2 ^ 53"
  shows "dbl_round (of_nat n) = of_nat n"
proof (cases "n = 0")
  case False
  have "dbl_exp (of_nat n) - 52 \<le> 0"
  proof (rule ccontr)
    assume "\<not> dbl_exp (of_nat n) - 52 \<le> 0"
    then have "(2 :: rat) powi 53 \<le> 2 powi dbl_exp (of_nat n)" by (intro power_int_increasing) auto
    also have "\<dots> \<le> of_nat n" using dbl_exp_le[of "of_nat n"] False by simp
    finally have "(2 :: rat) ^ 53 \<le> of_nat n" by simp
    then show False using assms by (metis of_nat_le_iff of_nat_numeral of_nat_power not_le)
  qed
  then obtain k where k: "dbl_exp (of_nat n) - 52 = - int k" by (metis nonpos_int_cases)
  have "round_even (of_nat n / 2 powi (- int k)) = int n * 2 ^ k"
    using round_even_int[of "int n * 2 ^ k"] by (simp add: power_int_minus divide_inverse)
  then show ?thesis unfolding dbl_round_def k Let_def using False by (simp add: power_int_minus)
qed (simp add: dbl_round_def)

subsection \<open>Printing\<close>

text \<open>The conversion \<open>%.nf\<close>: the nearest decimal number with \<open>n\<close> places, ties to even.\<close>

definition fixed_text :: "nat \<Rightarrow> nat \<Rightarrow> string" where
  "fixed_text n k = (let frac = dec_digits (k mod 10 ^ n)
     in dec_digits (k div 10 ^ n) @ ''.'' @ replicate (n - length frac) CHR ''0'' @ frac)"

definition printf_f :: "nat \<Rightarrow> rat \<Rightarrow> string" where
  "printf_f n x = fixed_text n (nat (round_even (x * 10 ^ n)))"

datatype dbl = Fin rat | Inf | Nan

definition dbl_div :: "rat \<Rightarrow> rat \<Rightarrow> dbl" where
  "dbl_div a b = (if b \<noteq> 0 then Fin (dbl_round (a / b)) else if a = 0 then Nan else Inf)"

text \<open>The sign that is printed for an undefined value depends on the machine: the text is an argument.\<close>

definition printf_dbl :: "string \<Rightarrow> nat \<Rightarrow> dbl \<Rightarrow> string" where
  "printf_dbl nan n d = (case d of Fin x \<Rightarrow> printf_f n x | Inf \<Rightarrow> ''inf'' | Nan \<Rightarrow> nan)"

definition proc_time_ms :: "accounting \<Rightarrow> rat" where
  "proc_time_ms ac = dbl_round (dbl_round (of_nat (unat (proc_time ac))) / 1000000)"

definition proc_time_s :: "accounting \<Rightarrow> rat" where
  "proc_time_s ac = dbl_round (proc_time_ms ac / 1000)"

definition avg_time_per_pkt :: "accounting \<Rightarrow> rat" where
  "avg_time_per_pkt ac = dbl_round (proc_time_ms ac / dbl_round (of_nat (unat (ac_total_pkts ac))))"

definition throughput_mbps :: "accounting \<Rightarrow> dbl" where
  "throughput_mbps ac = dbl_div (dbl_round (dbl_round (of_nat (unat (ac_total_bytes ac))) * 8)) (dbl_round (proc_time_s ac * 1000000))"

definition print_stats :: "string \<Rightarrow> accounting \<Rightarrow> string" where
  "print_stats nan ac =
     ''\<newline>=== XDP Decision Tree Statistics ===\<newline>''
     @ ''Total Packets Processed: '' @ dec_digits (unat (ac_total_pkts ac)) @ ''\<newline>''
     @ ''Total Bytes Processed: '' @ dec_digits (unat (ac_total_bytes ac)) @ ''\<newline>''
     @ ''Total Processing Time: '' @ printf_f 3 (proc_time_ms ac) @ '' ms ('' @ printf_f 6 (proc_time_s ac) @ '' s)\<newline>''
     @ (if ac_total_pkts ac > 0
        then ''Average Time per Packet: '' @ printf_f 6 (avg_time_per_pkt ac) @ '' ms\<newline>''
          @ ''Throughput: '' @ printf_dbl nan 2 (throughput_mbps ac) @ '' Mbps\<newline>''
        else [])
     @ ''=====================================\<newline>\<newline>''"

subsection \<open>Accuracy\<close>

text \<open>\<open>x\<close> is \<open>y\<close> after at most \<open>k\<close> roundings.\<close>

definition unit_roundoff :: rat where
  "unit_roundoff = 1 / 2 ^ 53"

definition near :: "nat \<Rightarrow> rat \<Rightarrow> rat \<Rightarrow> bool" where
  "near k x y \<longleftrightarrow> 0 < y \<and> y * (1 - unit_roundoff) ^ k \<le> x \<and> x * (1 - unit_roundoff) ^ k \<le> y"

lemma roundoff: "0 < unit_roundoff" "unit_roundoff < 1"
  by (simp_all add: unit_roundoff_def)

lemma near_refl: "0 < y \<Longrightarrow> near 0 y y"
  by (simp add: near_def)

lemma near_pos: "near k x y \<Longrightarrow> 0 < x"
  using roundoff by (auto simp: near_def intro: less_le_trans[of _ "y * (1 - unit_roundoff) ^ k"])

lemma near_round:
  assumes "near k x y"
  shows "near (Suc k) (dbl_round x) y"
proof -
  let ?c = "1 - unit_roundoff"
  have x: "0 < x" "0 < y" using assms near_pos by (auto simp: near_def)
  have c: "0 \<le> ?c" "0 \<le> ?c ^ k" using roundoff by auto
  have "\<bar>dbl_round x - x\<bar> \<le> x * unit_roundoff" using dbl_round_error[OF x(1)] by (simp add: unit_roundoff_def)
  then have lo: "x * ?c \<le> dbl_round x" and "dbl_round x \<le> x * (1 + unit_roundoff)" by (simp_all add: algebra_simps abs_le_iff)
  then have "dbl_round x * ?c \<le> x * (1 + unit_roundoff) * ?c" using c(1) by (intro mult_right_mono)
  also have "\<dots> = x - x * unit_roundoff ^ 2" by (simp add: algebra_simps power2_eq_square)
  also have "\<dots> \<le> x" using x(1) by simp
  finally have hi: "dbl_round x * ?c \<le> x" .
  have "y * ?c ^ Suc k \<le> x * ?c" using assms mult_right_mono[OF _ c(1), of "y * ?c ^ k" x] by (simp add: near_def ac_simps)
  also note lo
  finally have "y * ?c ^ Suc k \<le> dbl_round x" .
  moreover have "dbl_round x * ?c ^ Suc k \<le> y"
    using assms mult_right_mono[OF hi c(2)] by (simp add: near_def ac_simps)
  ultimately show ?thesis using x(2) by (simp add: near_def)
qed

lemma near_scale: "near k x y \<Longrightarrow> 0 < c \<Longrightarrow> near k (x * c) (y * c)"
  using mult_right_mono[of _ _ c] by (auto simp: near_def ac_simps mult_le_cancel_left)

lemma near_div: "near k x y \<Longrightarrow> 0 < c \<Longrightarrow> near k (x / c) (y / c)"
  using near_scale[of k x y "1 / c"] by simp

lemma near_recip:
  assumes "near k x y" "0 < a"
  shows "near k (a / x) (a / y)"
  using assms near_pos[OF assms(1)] by (auto simp: near_def field_simps)

lemma near_error:
  assumes "near 5 x y"
  shows "\<bar>x - y\<bar> \<le> y / 2 ^ 50"
proof -
  let ?q = "1 - 5 / 2 ^ 53 :: rat"
  have c: "?q \<le> (1 - unit_roundoff) ^ 5" by (simp add: unit_roundoff_def power_divide)
  have xy: "0 < x" "0 < y" using assms near_pos by (auto simp: near_def)
  have "y * ?q \<le> x" by (rule order.trans[OF mult_left_mono[OF c]]) (use assms xy in \<open>auto simp: near_def\<close>)
  moreover have "x * ?q \<le> y" by (rule order.trans[OF mult_left_mono[OF c]]) (use assms xy in \<open>auto simp: near_def\<close>)
  ultimately show ?thesis using xy by (auto simp: abs_if)
qed

lemma near_seconds:
  assumes "0 < t"
  shows "near 4 (dbl_round (dbl_round (dbl_round (dbl_round t / 1000000) / 1000) * 1000000)) (t / 1000)"
proof -
  have 1: "near (Suc 0) (dbl_round t) t" by (rule near_round[OF near_refl[OF assms]])
  have 2: "near (Suc (Suc 0)) (dbl_round (dbl_round t / 1000000)) (t / 1000000)" by (rule near_round[OF near_div[OF 1]]) simp
  have 3: "near (Suc (Suc (Suc 0))) (dbl_round (dbl_round (dbl_round t / 1000000) / 1000)) (t / 1000000 / 1000)"
    by (rule near_round[OF near_div[OF 2]]) simp
  have "near (Suc (Suc (Suc (Suc 0)))) (dbl_round (dbl_round (dbl_round (dbl_round t / 1000000) / 1000) * 1000000)) (t / 1000000 / 1000 * 1000000)"
    by (rule near_round[OF near_scale[OF 3]]) simp
  then show ?thesis by (simp add: eval_nat_numeral)
qed

lemma near_throughput:
  assumes "0 < t" "0 < b"
  shows "near 5 (dbl_round (b * 8 / dbl_round (dbl_round (dbl_round (dbl_round t / 1000000) / 1000) * 1000000))) (8000 * b / t)"
proof -
  have "near (Suc 4) (dbl_round (b * 8 / dbl_round (dbl_round (dbl_round (dbl_round t / 1000000) / 1000) * 1000000))) (b * 8 / (t / 1000))"
    by (rule near_round[OF near_recip[OF near_seconds[OF assms(1)]]]) (use assms(2) in simp)
  then show ?thesis by (simp add: ac_simps)
qed

lemma bytes_exact: "n < 2 ^ 32 \<Longrightarrow> dbl_round (dbl_round (of_nat n) * 8) = of_nat n * 8"
  using dbl_round_int[of n] dbl_round_int[of "n * 8"] by simp

text \<open>The throughput of a number of bytes and nanoseconds.\<close>

definition mbps :: "nat \<Rightarrow> nat \<Rightarrow> dbl" where
  "mbps b t = dbl_div (of_nat b * 8) (dbl_round (dbl_round (dbl_round (dbl_round (of_nat t) / 1000000) / 1000) * 1000000))"

lemma throughput_is: "throughput_mbps ac = mbps (unat (ac_total_bytes ac)) (unat (proc_time ac))"
proof -
  have "unat (ac_total_bytes ac) < 2 ^ 32" using unsigned_less[of "ac_total_bytes ac"] by simp
  from bytes_exact[OF this] show ?thesis by (simp add: throughput_mbps_def mbps_def proc_time_s_def proc_time_ms_def)
qed

lemma mbps_zero: "mbps b 0 = (if b = 0 then Nan else Inf)" "0 < t \<Longrightarrow> mbps 0 t = Fin 0"
  using near_pos[OF near_seconds[of "of_nat t"]] by (auto simp: mbps_def dbl_div_def dbl_round_def[of 0])

lemma mbps_near: "0 < t \<Longrightarrow> 0 < b \<Longrightarrow> \<exists>x. mbps b t = Fin x \<and> near 5 x (8000 * of_nat b / of_nat t)"
  using near_pos[OF near_seconds[of "of_nat t"]] near_throughput[of "of_nat t" "of_nat b"] by (simp add: mbps_def dbl_div_def)

lemma printf_f_error:
  assumes "0 \<le> x"
  shows "\<exists>k. printf_f n x = fixed_text n k \<and> \<bar>of_nat k / 10 ^ n - x\<bar> \<le> 1 / (2 * 10 ^ n)"
proof -
  have p: "(0 :: rat) < 10 ^ n" by simp
  have e: "\<bar>of_int (round_even (x * 10 ^ n)) - x * 10 ^ n\<bar> \<le> 1 / 2" by (rule round_even_error)
  have "0 \<le> x * 10 ^ n" using assms by simp
  then have "(-1 :: rat) < of_int (round_even (x * 10 ^ n))" using e by linarith
  then have "0 \<le> round_even (x * 10 ^ n)" by linarith
  then have "of_nat (nat (round_even (x * 10 ^ n))) = (of_int (round_even (x * 10 ^ n)) :: rat)" by simp
  then have "\<bar>of_nat (nat (round_even (x * 10 ^ n))) / 10 ^ n - x\<bar> = \<bar>of_int (round_even (x * 10 ^ n)) - x * 10 ^ n\<bar> / 10 ^ n"
    using p by (simp add: field_simps abs_if)
  also have "\<dots> \<le> 1 / 2 / 10 ^ n" using e p by (intro divide_right_mono) auto
  finally show ?thesis unfolding printf_f_def by (intro exI[of _ "nat (round_even (x * 10 ^ n))"]) simp
qed

text \<open>C38: the throughput that \<open>xdp_stats\<close> prints differs from the exact one, 8000 times the bytes by the nanoseconds, by half a unit of
  the second decimal place and a relative error of at most \<open>2^-50\<close>; when no processing time was measured it is infinite, or
  undefined when no bytes were counted either.\<close>

theorem stats_throughput_exact:
  "let bytes = unat (ac_total_bytes ac); ns = unat (proc_time ac); exact = 8000 * of_nat bytes / of_nat ns :: rat; out = printf_dbl nan 2 (throughput_mbps ac)
   in if ns = 0 then out = (if bytes = 0 then nan else ''inf'')
      else \<exists>k. out = fixed_text 2 k \<and> \<bar>of_nat k / 100 - exact\<bar> \<le> 1 / 200 + exact / 2 ^ 50"
proof -
  have "if t = 0 then printf_dbl nan 2 (mbps b t) = (if b = 0 then nan else ''inf'')
      else \<exists>k. printf_dbl nan 2 (mbps b t) = fixed_text 2 k
        \<and> \<bar>of_nat k / 100 - 8000 * of_nat b / of_nat t\<bar> \<le> 1 / 200 + 8000 * of_nat b / of_nat t / (2 ^ 50 :: rat)" for b t :: nat
  proof (cases "t = 0 \<or> b = 0")
    case True
    then show ?thesis using mbps_zero printf_f_error[of 0 2] by (auto simp: printf_dbl_def)
  next
    case False
    let ?T = "8000 * of_nat b / of_nat t :: rat"
    obtain x where x: "mbps b t = Fin x" "near 5 x ?T" using mbps_near[of t b] False by blast
    obtain k where k: "printf_f 2 x = fixed_text 2 k" "\<bar>of_nat k / 100 - x\<bar> \<le> 1 / 200"
      using printf_f_error[of x 2] near_pos[OF x(2)] by auto
    have "\<bar>of_nat k / 100 - ?T\<bar> \<le> 1 / 200 + ?T / 2 ^ 50" using k(2) near_error[OF x(2)] by linarith
    then show ?thesis using False x(1) k(1) by (auto simp: printf_dbl_def)
  qed
  then show ?thesis unfolding Let_def throughput_is .
qed

end
