(* ===== verification/Nlattr.thy ===== *)
theory Nlattr
  imports Decision_Tree
begin

text \<open>
  Netlink attributes, from \<open>libbpf/src/nlattr.c\<close> and \<open>nlattr.h\<close>: reading a stream of attributes from a received buffer and
  writing attributes into a request.  A buffer is a list of bytes and an attribute is the offset of its header; an access outside
  the buffer is \<^const>\<open>None\<close>.  Byte order is that of a little-endian host.
\<close>

abbreviation (input) EMSGSIZE :: int where "EMSGSIZE \<equiv> 90"

subsection \<open>Bytes\<close>

definition le16 :: "u16 \<Rightarrow> u8 list" where
  "le16 w = [ucast w, ucast (drop_bit 8 w)]"

definition le32 :: "u32 \<Rightarrow> u8 list" where
  "le32 w = [ucast w, ucast (drop_bit 8 w), ucast (drop_bit 16 w), ucast (drop_bit 24 w)]"

definition store32 :: "u8 list \<Rightarrow> nat \<Rightarrow> u32 \<Rightarrow> u8 list option" where
  "store32 p i w = store_bytes p i (le32 w)"

definition load64 :: "u8 list \<Rightarrow> nat \<Rightarrow> u64 option" where
  "load64 p i = do { a \<leftarrow> load32 p i; b \<leftarrow> load32 p (i + 4); Some (ucast a OR push_bit 32 (ucast b)) }"

subsection \<open>Reading\<close>

abbreviation (input) NLA_HDRLEN :: nat where "NLA_HDRLEN \<equiv> 4"
abbreviation (input) LIBBPF_NLA_UNSPEC :: u16 where "LIBBPF_NLA_UNSPEC \<equiv> 0"
abbreviation (input) LIBBPF_NLA_U32 :: u16 where "LIBBPF_NLA_U32 \<equiv> 3"
abbreviation (input) LIBBPF_NLA_STRING :: u16 where "LIBBPF_NLA_STRING \<equiv> 5"
abbreviation (input) LIBBPF_NLA_TYPE_MAX :: u16 where "LIBBPF_NLA_TYPE_MAX \<equiv> 8"

definition align4 :: "nat \<Rightarrow> nat" where
  "align4 n = (n + 3) div 4 * 4"

record libbpf_nla_policy =
  pol_type :: u16
  pol_minlen :: u16
  pol_maxlen :: u16

definition nla_attr_minlen :: "nat list" where
  "nla_attr_minlen = [0, 1, 2, 4, 8, 1, 0, 0, 0]"

definition nla_next :: "u8 list \<Rightarrow> nat \<Rightarrow> int \<Rightarrow> (nat \<times> int) option" where
  "nla_next buf nla remaining = do {
     len \<leftarrow> load16 buf nla;
     let totlen = align4 (unat len);
     Some (nla + totlen, remaining - int totlen)
   }"

definition nla_ok :: "u8 list \<Rightarrow> nat \<Rightarrow> int \<Rightarrow> bool option" where
  "nla_ok buf nla remaining =
     (if remaining \<ge> 4 then do { len \<leftarrow> load16 buf nla; Some (unat len \<ge> 4 \<and> int (unat len) \<le> remaining) }
      else Some False)"

text \<open>The mask takes off the two flag bits.\<close>

definition nla_type :: "u8 list \<Rightarrow> nat \<Rightarrow> nat option" where
  "nla_type buf nla = do { t \<leftarrow> load16 buf (nla + 2); Some (unat (t AND 0x3FFF)) }"

definition libbpf_nla_len :: "u8 list \<Rightarrow> nat \<Rightarrow> int option" where
  "libbpf_nla_len buf nla = do { len \<leftarrow> load16 buf nla; Some (int (unat len) - int NLA_HDRLEN) }"

definition libbpf_nla_data :: "nat \<Rightarrow> nat" where
  "libbpf_nla_data nla = nla + NLA_HDRLEN"

definition libbpf_nla_getattr_u8 :: "u8 list \<Rightarrow> nat \<Rightarrow> u8 option" where
  "libbpf_nla_getattr_u8 buf nla = load8 buf (libbpf_nla_data nla)"

definition libbpf_nla_getattr_u16 :: "u8 list \<Rightarrow> nat \<Rightarrow> u16 option" where
  "libbpf_nla_getattr_u16 buf nla = load16 buf (libbpf_nla_data nla)"

definition libbpf_nla_getattr_u32 :: "u8 list \<Rightarrow> nat \<Rightarrow> u32 option" where
  "libbpf_nla_getattr_u32 buf nla = load32 buf (libbpf_nla_data nla)"

definition libbpf_nla_getattr_u64 :: "u8 list \<Rightarrow> nat \<Rightarrow> u64 option" where
  "libbpf_nla_getattr_u64 buf nla = load64 buf (libbpf_nla_data nla)"

text \<open>The comparison with \<open>minlen\<close> is one of unsigned numbers: a negative length is large.\<close>

definition validate_nla :: "u8 list \<Rightarrow> nat \<Rightarrow> nat \<Rightarrow> libbpf_nla_policy list \<Rightarrow> int option" where
  "validate_nla buf nla maxtype policy = do {
     type \<leftarrow> nla_type buf nla;
     if type > maxtype then Some 0
     else do {
       pt \<leftarrow> nth_opt policy type;
       if pol_type pt > LIBBPF_NLA_TYPE_MAX then Some 0
       else do {
         let minlen = (if pol_minlen pt \<noteq> 0 then unat (pol_minlen pt)
                       else if pol_type pt \<noteq> LIBBPF_NLA_UNSPEC then nla_attr_minlen ! unat (pol_type pt) else 0);
         len \<leftarrow> libbpf_nla_len buf nla;
         if 0 \<le> len \<and> len < int minlen then Some (-1)
         else if pol_maxlen pt \<noteq> 0 \<and> len > int (unat (pol_maxlen pt)) then Some (-1)
         else if pol_type pt = LIBBPF_NLA_STRING then do {
           c \<leftarrow> (if len \<le> 0 then None else load8 buf (libbpf_nla_data nla + nat len - 1));
           Some (if c \<noteq> 0 then -1 else 0)
         }
         else Some 0
       }
     }
   }"

lemma nla_ok_next: "nla_ok buf nla rem = Some True \<Longrightarrow> nla_next buf nla rem = Some (nla', rem') \<Longrightarrow> 4 \<le> rem \<and> rem' < rem"
  by (auto simp: nla_ok_def nla_next_def align4_def Let_def bind_eq_Some_conv split: if_splits)

text \<open>The loop of \<open>libbpf_nla_parse\<close>; \<open>tb\<close> is the index array.\<close>

function nla_parse_loop ::
  "u8 list \<Rightarrow> nat \<Rightarrow> libbpf_nla_policy list option \<Rightarrow> nat \<Rightarrow> int \<Rightarrow> nat option list \<Rightarrow> (int \<times> nat option list) option" where
  "nla_parse_loop buf maxtype policy nla rem tb =
     (if nla_ok buf nla rem = Some True then
        (case nla_next buf nla rem of
           None \<Rightarrow> None
         | Some (nla', rem') \<Rightarrow>
             (case nla_type buf nla of
                None \<Rightarrow> None
              | Some type \<Rightarrow>
                  if type > maxtype then nla_parse_loop buf maxtype policy nla' rem' tb
                  else
                    (case (case policy of None \<Rightarrow> Some 0 | Some pol \<Rightarrow> validate_nla buf nla maxtype pol) of
                       None \<Rightarrow> None
                     | Some err \<Rightarrow>
                         if err < 0 then Some (err, tb)
                         else if type < length tb then nla_parse_loop buf maxtype policy nla' rem' (tb[type := Some nla])
                         else None)))
      else if nla_ok buf nla rem = None then None else Some (0, tb))"
  by pat_completeness auto

termination
  by (relation "measure (\<lambda>(_, _, _, _, rem, _). nat rem)") (auto dest!: nla_ok_next)

declare nla_parse_loop.simps [simp del]

definition libbpf_nla_parse ::
  "u8 list \<Rightarrow> nat \<Rightarrow> nat \<Rightarrow> int \<Rightarrow> libbpf_nla_policy list option \<Rightarrow> (int \<times> nat option list) option" where
  "libbpf_nla_parse buf maxtype head len policy = nla_parse_loop buf maxtype policy head len (replicate (maxtype + 1) None)"

definition libbpf_nla_parse_nested ::
  "u8 list \<Rightarrow> nat \<Rightarrow> nat \<Rightarrow> libbpf_nla_policy list option \<Rightarrow> (int \<times> nat option list) option" where
  "libbpf_nla_parse_nested buf maxtype nla policy = do {
     len \<leftarrow> libbpf_nla_len buf nla;
     libbpf_nla_parse buf maxtype (libbpf_nla_data nla) len policy
   }"

subsection \<open>Writing\<close>

text \<open>\<open>struct libbpf_nla_req\<close> as its 164 bytes: the message header with \<open>nlmsg_len\<close> in front, 20 bytes for the union, and
  the buffer.\<close>

abbreviation (input) REQ_SIZE :: nat where "REQ_SIZE \<equiv> 164"

definition nlmsg_align :: "u32 \<Rightarrow> u32" where
  "nlmsg_align n = (n + 3) AND NOT 3"

definition req_tail :: "u8 list \<Rightarrow> nat option" where
  "req_tail req = do { len \<leftarrow> load32 req 0; Some (unat (nlmsg_align len)) }"

text \<open>\<open>data\<close> is what the pointer points to, \<open>len\<close> the length argument.\<close>

definition nlattr_add :: "u8 list \<Rightarrow> u16 \<Rightarrow> u8 list option \<Rightarrow> nat \<Rightarrow> (int \<times> u8 list) option" where
  "nlattr_add req type data len = do {
     nlmsg_len \<leftarrow> load32 req 0;
     if nlmsg_align nlmsg_len + of_nat (align4 (NLA_HDRLEN + len)) > of_nat REQ_SIZE then Some (- EMSGSIZE, req)
     else if (data \<noteq> None) \<noteq> (len \<noteq> 0) then Some (- EINVAL, req)
     else do {
       nla \<leftarrow> req_tail req;
       req \<leftarrow> store16 req (nla + 2) type;
       req \<leftarrow> store16 req nla (of_nat (NLA_HDRLEN + len));
       req \<leftarrow> (case data of
                None \<Rightarrow> Some req
              | Some d \<Rightarrow> if length d < len then None else store_bytes req (nla + NLA_HDRLEN) (take len d));
       nla_len \<leftarrow> load16 req nla;
       req \<leftarrow> store32 req 0 (nlmsg_align nlmsg_len + of_nat (align4 (unat nla_len)));
       Some (0, req)
     }
   }"

definition nlattr_begin_nested :: "u8 list \<Rightarrow> u16 \<Rightarrow> (nat option \<times> u8 list) option" where
  "nlattr_begin_nested req type = do {
     tail \<leftarrow> req_tail req;
     (err, req) \<leftarrow> nlattr_add req (type OR 0x8000) None 0;
     Some (if err \<noteq> 0 then None else Some tail, req)
   }"

definition nlattr_end_nested :: "u8 list \<Rightarrow> nat \<Rightarrow> u8 list option" where
  "nlattr_end_nested req tail = do {
     t \<leftarrow> req_tail req;
     store16 req tail (of_nat (t - tail))
   }"

subsection \<open>Lemmas on bytes\<close>

lemma length_le [simp]: "length (le16 w) = 2" "length (le32 v) = 4"
  by (simp_all add: le16_def le32_def)

lemma word32_le_bytes:
  "word32_le (ucast w) (ucast (drop_bit 8 w)) (ucast (drop_bit 16 w)) (ucast (drop_bit 24 w)) = w"
proof (rule bit_word_eqI)
  fix n assume "n < LENGTH(32)"
  then consider "n < 8" | "8 \<le> n" "n < 16" | "16 \<le> n" "n < 24" | "24 \<le> n" "n < 32" by fastforce
  then show "bit (word32_le (ucast w) (ucast (drop_bit 8 w)) (ucast (drop_bit 16 w)) (ucast (drop_bit 24 w))) n = bit w n"
    by cases (auto simp: word32_le_def bit_simps)
qed

lemma load16_at: "length a = i \<Longrightarrow> load16 (a @ le16 w @ c) i = Some w"
  by (simp add: load16_def le16_def nth_append word16_le_bytes)

lemma load32_at: "length a = i \<Longrightarrow> load32 (a @ le32 w @ c) i = Some w"
  by (simp add: load32_def le32_def nth_append numeral_3_eq_3 word32_le_bytes)

lemma store_at: "length a = i \<Longrightarrow> length b = length b' \<Longrightarrow> store_bytes (a @ b @ c) i b' = Some (a @ b' @ c)"
  by (simp add: store_bytes_def)

lemma load16_in: "i + 2 \<le> length p \<Longrightarrow> \<exists>w. load16 p i = Some w"
  by (simp add: load16_def)

lemma unat_le_nat: "uint (w :: u16) \<le> n \<Longrightarrow> unat w \<le> nat n"
  using nat_mono[of "uint w" n] by simp

lemma align4_ge: "n \<le> align4 n" "align4 n < n + 4"
  by (simp_all add: align4_def)

lemma align4_dvd [simp]: "4 dvd align4 n" and align4_id: "4 dvd n \<Longrightarrow> align4 n = n"
  by (auto simp: align4_def)

subsection \<open>Reading is safe\<close>

text \<open>An attribute between \<open>lo\<close> and \<open>hi\<close>, header and payload inside.\<close>

definition nla_in :: "u8 list \<Rightarrow> nat \<Rightarrow> nat \<Rightarrow> nat \<Rightarrow> nat \<Rightarrow> bool" where
  "nla_in buf lo hi type nla \<longleftrightarrow> lo \<le> nla \<and> nla_type buf nla = Some type
     \<and> (\<exists>len. load16 buf nla = Some len \<and> 4 \<le> unat len \<and> nla + unat len \<le> hi)"

definition nla_valid :: "u8 list \<Rightarrow> nat \<Rightarrow> libbpf_nla_policy list option \<Rightarrow> nat \<Rightarrow> bool" where
  "nla_valid buf maxtype policy nla = (case policy of None \<Rightarrow> True | Some pol \<Rightarrow> validate_nla buf nla maxtype pol = Some 0)"

definition tb_ok :: "u8 list \<Rightarrow> nat \<Rightarrow> libbpf_nla_policy list option \<Rightarrow> nat \<Rightarrow> nat \<Rightarrow> nat option list \<Rightarrow> bool" where
  "tb_ok buf maxtype policy lo hi tb \<longleftrightarrow> length tb = maxtype + 1
     \<and> (\<forall>t nla. t \<le> maxtype \<longrightarrow> tb ! t = Some nla \<longrightarrow> nla_in buf lo hi t nla \<and> nla_valid buf maxtype policy nla)"

lemma nla_ok_cases:
  assumes "rem \<ge> 4 \<longrightarrow> nla + nat rem \<le> length buf"
  obtains (stop) "nla_ok buf nla rem = Some False"
    | (attr) len type where "nla_ok buf nla rem = Some True" "load16 buf nla = Some len" "4 \<le> unat len" "int (unat len) \<le> rem"
        "nla_type buf nla = Some type" "nla_next buf nla rem = Some (nla + align4 (unat len), rem - int (align4 (unat len)))"
        "nla + unat len \<le> length buf"
proof (cases "rem \<ge> 4")
  case True
  then obtain len w where l: "load16 buf nla = Some len" "load16 buf (nla + 2) = Some w"
    using assms load16_in[of nla buf] load16_in[of "nla + 2" buf] by force
  show ?thesis
  proof (cases "4 \<le> unat len \<and> int (unat len) \<le> rem")
    case True
    then show ?thesis using \<open>rem \<ge> 4\<close> l assms
      by (intro attr[of len "unat (w AND 0x3FFF)"]) (auto simp: nla_ok_def nla_type_def nla_next_def Let_def dest: unat_le_nat)
  qed (use \<open>rem \<ge> 4\<close> l stop in \<open>simp add: nla_ok_def\<close>)
qed (use stop in \<open>simp add: nla_ok_def\<close>)

lemma nla_len_nat:
  assumes "load16 buf nla = Some len" "4 \<le> unat len"
  shows "libbpf_nla_len buf nla = Some (int (unat len - 4))"
  using assms by (simp add: libbpf_nla_len_def of_nat_diff)

text \<open>The shortest payload a policy allows; a string needs its terminator.\<close>

definition policy_minlen :: "libbpf_nla_policy \<Rightarrow> nat" where
  "policy_minlen pt = (if pol_minlen pt \<noteq> 0 then unat (pol_minlen pt)
     else if pol_type pt \<noteq> LIBBPF_NLA_UNSPEC then nla_attr_minlen ! unat (pol_type pt) else 0)"

lemma policy_minlen_string: "pol_type pt = 5 \<Longrightarrow> 1 \<le> policy_minlen pt"
  by (auto simp: policy_minlen_def nla_attr_minlen_def unat_gt_0 Suc_le_eq)

lemma validate_total:
  assumes "nla_type buf nla = Some type" "load16 buf nla = Some len" "4 \<le> unat len" "nla + unat len \<le> length buf"
    and "length pol = maxtype + 1"
  shows "\<exists>e. validate_nla buf nla maxtype pol = Some e \<and> e \<in> {-1, 0}
    \<and> (e = 0 \<and> type \<le> maxtype \<and> pol_type (pol ! type) \<le> LIBBPF_NLA_TYPE_MAX \<longrightarrow> policy_minlen (pol ! type) \<le> unat len - 4)"
proof (cases "type \<le> maxtype")
  case True
  define k where "k = unat len - 4"
  let ?pt = "pol ! type"
  have pt: "nth_opt pol type = Some ?pt" using True assms(5) by (simp add: nth_opt_def)
  have "\<exists>c. load8 buf (nla + 4 + k - 1) = Some c" if "0 < k"
    using that assms(4) by (simp add: load8_def k_def)
  moreover have "0 < k" if "pol_type ?pt = 5" "policy_minlen ?pt \<le> k" using policy_minlen_string that by fastforce
  moreover have "libbpf_nla_len buf nla = Some (int k)" using nla_len_nat[OF assms(2,3)] by (simp add: k_def)
  ultimately show ?thesis
    using assms(1) True pt unfolding k_def[symmetric]
    by (auto simp: validate_nla_def Let_def policy_minlen_def[symmetric] libbpf_nla_data_def) (metis gr0I)+
qed (use assms in \<open>simp add: validate_nla_def\<close>)

lemma nla_parse_loop_safe:
  assumes "rem \<ge> 4 \<longrightarrow> nla + nat rem \<le> hi" "lo \<le> nla" "tb_ok buf maxtype policy lo hi tb" "hi \<le> length buf"
    and "\<forall>pol. policy = Some pol \<longrightarrow> length pol = maxtype + 1"
  shows "\<exists>err tb'. nla_parse_loop buf maxtype policy nla rem tb = Some (err, tb') \<and> err \<in> {-1, 0}
    \<and> (policy = None \<longrightarrow> err = 0) \<and> tb_ok buf maxtype policy lo hi tb'"
  using assms
proof (induction buf maxtype policy nla rem tb rule: nla_parse_loop.induct)
  case (1 buf maxtype policy nla rem tb)
  have "rem \<ge> 4 \<longrightarrow> nla + nat rem \<le> length buf" using "1.prems" by auto
  then show ?case
  proof (cases rule: nla_ok_cases)
    case stop
    then show ?thesis using "1.prems" by (auto simp: nla_parse_loop.simps[of _ _ _ nla])
  next
    case (attr len type)
    have fit: "rem - int (align4 (unat len)) \<ge> 4 \<longrightarrow> nla + align4 (unat len) + nat (rem - int (align4 (unat len))) \<le> hi"
      using "1.prems"(1) attr(4) align4_ge[of "unat len"] by auto
    have hi: "nla + unat len \<le> hi" using "1.prems"(1) attr(3,4) unat_le_nat[of len rem] by auto
    show ?thesis
    proof (cases "type > maxtype")
      case True
      then show ?thesis
        using "1.IH"(1)[OF attr(1,6) refl attr(5) True fit] "1.prems" attr by (simp add: nla_parse_loop.simps[of _ _ _ nla])
    next
      case False
      obtain e where e: "(case policy of None \<Rightarrow> Some 0 | Some pol \<Rightarrow> validate_nla buf nla maxtype pol) = Some e" "e \<in> {-1, 0}"
          "policy = None \<longrightarrow> e = 0"
        using validate_total[OF attr(5,2,3,7)] "1.prems"(5) by (cases policy) auto
      show ?thesis
      proof (cases "e < 0")
        case True
        then show ?thesis
          using e attr False "1.prems" by (auto simp: nla_parse_loop.simps[of _ _ _ nla])
      next
        case ok: False
        have tl: "type < length tb" using False "1.prems"(3) by (simp add: tb_ok_def)
        have "tb_ok buf maxtype policy lo hi (tb[type := Some nla])"
          using "1.prems"(2,3) attr hi e ok tl
          by (auto simp: tb_ok_def nla_in_def nla_valid_def nth_list_update split: option.splits)
        then show ?thesis
          using "1.IH"(2)[OF attr(1,6) refl attr(5) False e(1) ok tl fit] "1.prems"(2,4,5) attr e False ok tl
          by (simp add: nla_parse_loop.simps[of _ _ _ nla])
      qed
    qed
  qed
qed



subsection \<open>Streams of attributes\<close>

text \<open>The encoding of an attribute: header, payload, padding.\<close>

definition attr_bytes :: "u16 \<Rightarrow> u8 list \<Rightarrow> u8 list" where
  "attr_bytes type p = le16 (of_nat (4 + length p)) @ le16 type @ p @ replicate (align4 (length p) - length p) 0"

definition stream :: "(u16 \<times> u8 list) list \<Rightarrow> u8 list" where
  "stream attrs = concat (map (\<lambda>(t, p). attr_bytes t p) attrs)"

definition type_nr :: "u16 \<Rightarrow> nat" where
  "type_nr t = unat (t AND 0x3FFF)"

definition nla_payload :: "u8 list \<Rightarrow> nat \<Rightarrow> u8 list" where
  "nla_payload buf nla = (case load16 buf nla of None \<Rightarrow> [] | Some len \<Rightarrow> take (unat len - 4) (drop (nla + 4) buf))"

text \<open>The payload of the last attribute of each type.\<close>

definition last_attr :: "(u16 \<times> u8 list) list \<Rightarrow> nat \<Rightarrow> u8 list option" where
  "last_attr attrs t = map_of (rev (map (\<lambda>(t, p). (type_nr t, p)) attrs)) t"

lemma stream_simps [simp]: "stream [] = []" "stream ((t, p) # as) = attr_bytes t p @ stream as"
  by (simp_all add: stream_def)

lemma stream_append: "stream (as @ bs) = stream as @ stream bs"
  by (simp add: stream_def)

lemma length_attr_bytes: "length (attr_bytes t p) = 4 + align4 (length p)"
  using align4_ge(1)[of "length p"] by (simp add: attr_bytes_def)

lemma align4_add4: "align4 (4 + n) = 4 + align4 n"
proof -
  have "4 + n + 3 = n + 3 + 4" by simp
  then show ?thesis unfolding align4_def by (simp only: div_add_self2) simp
qed

lemma stream_dvd: "4 dvd length (stream as)"
  by (induction as) (auto simp: length_attr_bytes)

lemma last_attr_Cons:
  "last_attr ((t, p) # as) k = (case last_attr as k of Some q \<Rightarrow> Some q | None \<Rightarrow> if k = type_nr t then Some p else None)"
  by (auto simp: last_attr_def map_add_def split: option.split)

lemma attr_at:
  assumes "buf = pre @ attr_bytes t p @ post" "length p + 4 < 2 ^ 16"
  shows "load16 buf (length pre) = Some (of_nat (4 + length p))" "unat (of_nat (4 + length p) :: u16) = 4 + length p"
    "nla_type buf (length pre) = Some (type_nr t)" "nla_payload buf (length pre) = p"
proof -
  let ?pad = "replicate (align4 (length p) - length p) 0"
  show l: "load16 buf (length pre) = Some (of_nat (4 + length p))"
    unfolding assms(1) attr_bytes_def append_assoc by (rule load16_at) simp
  show u: "unat (of_nat (4 + length p) :: u16) = 4 + length p"
    using assms(2) by (simp add: unat_of_nat take_bit_nat_eq_self del: of_nat_add)
  have "load16 ((pre @ le16 (of_nat (4 + length p))) @ le16 t @ (p @ ?pad @ post)) (length pre + 2) = Some t"
    by (rule load16_at) simp
  then show "nla_type buf (length pre) = Some (type_nr t)"
    by (simp add: assms(1) attr_bytes_def nla_type_def type_nr_def)
  have "nla_payload buf (length pre) = take (length p) (drop (length pre + 4) buf)"
    unfolding nla_payload_def l using u by (simp only: option.case) simp
  also have "\<dots> = p" unfolding assms(1) attr_bytes_def by (simp add: drop_append le16_def)
  finally show "nla_payload buf (length pre) = p" .
qed

text \<open>An encoded attribute lies at an offset of the buffer.\<close>

definition attr_here :: "u8 list \<Rightarrow> nat \<Rightarrow> u8 list \<Rightarrow> bool" where
  "attr_here buf nla p \<longleftrightarrow> length p + 4 < 2 ^ 16 \<and> (\<exists>pre t post. buf = pre @ attr_bytes t p @ post \<and> nla = length pre)"

lemma attr_here_payload: "attr_here buf nla p \<Longrightarrow> nla_payload buf nla = p"
  using attr_at(4) by (auto simp: attr_here_def)

lemma parse_stream:
  assumes "\<forall>(t, p) \<in> set attrs. length p + 4 < 2 ^ 16" "buf = pre @ stream attrs @ post" "length tb = maxtype + 1"
  shows "\<exists>tb'. nla_parse_loop buf maxtype None (length pre) (int (length (stream attrs))) tb = Some (0, tb') \<and> length tb' = maxtype + 1
    \<and> (\<forall>k \<le> maxtype. map_option (nla_payload buf) (tb' ! k) =
         (case last_attr attrs k of Some p \<Rightarrow> Some p | None \<Rightarrow> map_option (nla_payload buf) (tb ! k)))
    \<and> (\<forall>k \<le> maxtype. \<forall>nla. tb' ! k = Some nla \<longrightarrow> tb ! k = Some nla \<or> (\<exists>p. attr_here buf nla p))"
  using assms
proof (induction attrs arbitrary: pre tb)
  case Nil
  then show ?case by (auto simp: nla_parse_loop.simps nla_ok_def last_attr_def)
next
  case (Cons a as)
  obtain t p where a: "a = (t, p)" by (cases a)
  note at = attr_at[of buf pre t p "stream as @ post"]
  have len: "length p + 4 < 2 ^ 16" and buf: "buf = pre @ attr_bytes t p @ stream as @ post"
    using Cons.prems a by auto
  note at = at[OF buf len]
  let ?rem = "int (length (stream (a # as)))"
  have ge: "int (4 + length p) \<le> ?rem" using align4_ge(1)[of "length p"] by (simp add: a length_attr_bytes)
  have ok: "nla_ok buf (length pre) ?rem = Some True"
    using ge at(1,2) by (simp add: nla_ok_def del: of_nat_add of_nat_unat)
  have nxt: "nla_next buf (length pre) ?rem = Some (length (pre @ attr_bytes t p), int (length (stream as)))"
    using at(1,2) by (simp add: nla_next_def a length_attr_bytes align4_add4 Let_def del: of_nat_add)
  have bufs: "buf = (pre @ attr_bytes t p) @ stream as @ post" using buf by simp
  have IH: "\<forall>(t, p) \<in> set as. length p + 4 < 2 ^ 16" using Cons.prems by simp
  define tb1 where "tb1 = (if type_nr t > maxtype then tb else tb[type_nr t := Some (length pre)])"
  have "length tb1 = maxtype + 1" using Cons.prems by (simp add: tb1_def)
  from Cons.IH[OF IH bufs this] obtain tb' where tb':
      "nla_parse_loop buf maxtype None (length (pre @ attr_bytes t p)) (int (length (stream as))) tb1 = Some (0, tb')"
      "length tb' = maxtype + 1"
      "\<forall>k \<le> maxtype. map_option (nla_payload buf) (tb' ! k) =
         (case last_attr as k of Some p \<Rightarrow> Some p | None \<Rightarrow> map_option (nla_payload buf) (tb1 ! k))"
      "\<forall>k \<le> maxtype. \<forall>nla. tb' ! k = Some nla \<longrightarrow> tb1 ! k = Some nla \<or> (\<exists>p. attr_here buf nla p)"
    by blast
  have "nla_parse_loop buf maxtype None (length pre) ?rem tb = Some (0, tb')"
    using tb'(1) ok nxt at(3) Cons.prems(3)
    by (subst nla_parse_loop.simps) (auto simp: tb1_def)
  moreover have "map_option (nla_payload buf) (tb1 ! k) = (if k = type_nr t then Some p else map_option (nla_payload buf) (tb ! k))"
    if "k \<le> maxtype" for k
    using that Cons.prems(3) at(4) by (auto simp: tb1_def)
  moreover have "tb ! k = Some nla \<or> (\<exists>p. attr_here buf nla p)" if "k \<le> maxtype" "tb1 ! k = Some nla" for k nla
  proof (cases "k = type_nr t")
    case True
    then have "nla = length pre" using that Cons.prems(3) by (simp add: tb1_def)
    then show ?thesis using buf len unfolding attr_here_def by blast
  qed (use that in \<open>simp add: tb1_def split: if_splits\<close>)
  moreover have "map_option (nla_payload buf) (tb' ! k) =
      (case last_attr (a # as) k of Some p \<Rightarrow> Some p | None \<Rightarrow> map_option (nla_payload buf) (tb ! k))" if "k \<le> maxtype" for k
    using tb'(3) calculation(2)[OF that] that by (auto simp: a last_attr_Cons split: option.split)
  ultimately show ?case using tb'(2,4) by blast
qed

lemma parse_whole:
  assumes "\<forall>(t, p) \<in> set attrs. length p + 4 < 2 ^ 16" "buf = pre @ stream attrs @ post"
  shows "\<exists>tb. libbpf_nla_parse buf maxtype (length pre) (int (length (stream attrs))) None = Some (0, tb) \<and> length tb = maxtype + 1
    \<and> (\<forall>k \<le> maxtype. case last_attr attrs k of None \<Rightarrow> tb ! k = None
         | Some p \<Rightarrow> \<exists>nla. tb ! k = Some nla \<and> attr_here buf nla p)"
proof -
  have "length (replicate (maxtype + 1) None) = maxtype + 1" by simp
  from parse_stream[OF assms this] obtain tb where
    tb: "libbpf_nla_parse buf maxtype (length pre) (int (length (stream attrs))) None = Some (0, tb)" "length tb = maxtype + 1"
    "\<forall>k \<le> maxtype. map_option (nla_payload buf) (tb ! k) = (case last_attr attrs k of Some p \<Rightarrow> Some p
       | None \<Rightarrow> map_option (nla_payload buf) (replicate (maxtype + 1) None ! k))"
    "\<forall>k \<le> maxtype. \<forall>nla. tb ! k = Some nla \<longrightarrow> replicate (maxtype + 1) None ! k = Some nla \<or> (\<exists>p. attr_here buf nla p)"
    unfolding libbpf_nla_parse_def by blast
  have rep: "replicate (maxtype + 1) None ! k = None" if "k \<le> maxtype" for k
    using that by (intro nth_replicate) simp
  have "case last_attr attrs k of None \<Rightarrow> tb ! k = None | Some p \<Rightarrow> \<exists>nla. tb ! k = Some nla \<and> attr_here buf nla p"
    if kle: "k \<le> maxtype" for k
  proof (cases "tb ! k")
    case None
    then show ?thesis using tb(3) rep kle by (auto simp del: replicate.simps split: option.splits)
  next
    case (Some nla)
    then obtain p where "attr_here buf nla p" using tb(4) rep[OF kle] kle by (metis option.distinct(1))
    moreover from this have "last_attr attrs k = Some p"
      using tb(3) rep[OF kle] kle Some attr_here_payload[of buf nla p] by (auto simp del: replicate.simps split: option.splits)
    ultimately show ?thesis using Some by simp
  qed
  then show ?thesis using tb(1,2) by blast
qed

lemma attr_here_split:
  assumes "attr_here buf nla p"
  obtains pre post where "buf = pre @ p @ post" "length pre = nla + 4" "libbpf_nla_len buf nla = Some (int (length p))"
proof -
  obtain pre t post where b: "buf = pre @ attr_bytes t p @ post" "nla = length pre" "length p + 4 < 2 ^ 16"
    using assms by (auto simp: attr_here_def)
  have "libbpf_nla_len buf nla = Some (int (length p))"
    using attr_at(1,2)[OF b(1,3)] b(2) by (simp add: libbpf_nla_len_def uint_nat del: of_nat_add of_nat_unat)
  then show thesis
    using that[of "pre @ le16 (of_nat (4 + length p)) @ le16 t"] b(1,2) by (simp add: attr_bytes_def del: of_nat_add)
qed

lemma parse_nested_here:
  assumes "attr_here buf nla (stream attrs)" "\<forall>(t, p) \<in> set attrs. length p + 4 < 2 ^ 16"
  shows "\<exists>tb. libbpf_nla_parse_nested buf maxtype nla None = Some (0, tb) \<and> length tb = maxtype + 1
    \<and> (\<forall>k \<le> maxtype. case last_attr attrs k of None \<Rightarrow> tb ! k = None
         | Some p \<Rightarrow> \<exists>nla. tb ! k = Some nla \<and> attr_here buf nla p)"
proof -
  obtain pre post where b: "buf = pre @ stream attrs @ post" "length pre = nla + 4"
      "libbpf_nla_len buf nla = Some (int (length (stream attrs)))"
    using attr_here_split[OF assms(1)] by blast
  then show ?thesis
    using parse_whole[OF assms(2) b(1), of maxtype] by (simp add: libbpf_nla_parse_nested_def libbpf_nla_data_def)
qed

lemma getattr_here:
  "attr_here buf nla (le32 w) \<Longrightarrow> libbpf_nla_getattr_u32 buf nla = Some w"
  "attr_here buf nla (c # x) \<Longrightarrow> libbpf_nla_getattr_u8 buf nla = Some c"
  by (erule attr_here_split; simp add: libbpf_nla_getattr_u32_def libbpf_nla_getattr_u8_def libbpf_nla_data_def load32_at load8_def nth_append)+

text \<open>what is encoded is read back: on a stream of attributes anywhere in a buffer, \<open>libbpf_nla_parse\<close> without a policy
  succeeds, and for every type up to the maximum the index leads to the payload of the last attribute of that type, or is empty
  when there is none.\<close>

theorem nla_parse_roundtrip:
  assumes "\<forall>(t, p) \<in> set attrs. length p + 4 < 2 ^ 16" "buf = pre @ stream attrs @ post"
  shows "\<exists>tb. libbpf_nla_parse buf maxtype (length pre) (int (length (stream attrs))) None = Some (0, tb) \<and> length tb = maxtype + 1
    \<and> (\<forall>k \<le> maxtype. map_option (nla_payload buf) (tb ! k) = last_attr attrs k)"
proof -
  obtain tb where "libbpf_nla_parse buf maxtype (length pre) (int (length (stream attrs))) None = Some (0, tb)" "length tb = maxtype + 1"
      and tb: "\<And>k. k \<le> maxtype \<Longrightarrow> case last_attr attrs k of None \<Rightarrow> tb ! k = None
         | Some p \<Rightarrow> \<exists>nla. tb ! k = Some nla \<and> attr_here buf nla p"
    using parse_whole[OF assms] by blast
  moreover have "map_option (nla_payload buf) (tb ! k) = last_attr attrs k" if "k \<le> maxtype" for k
    using tb[OF that] attr_here_payload by (fastforce split: option.splits)
  ultimately show ?thesis by blast
qed

theorem nla_parse_roundtrip_witness:
  "\<exists>tb. libbpf_nla_parse (stream [(1, [104, 105, 0]), (2, [9]), (1, [120, 0])]) 2 0 24 None = Some (0, tb)
     \<and> map_option (nla_payload (stream [(1, [104, 105, 0]), (2, [9]), (1, [120, 0])])) (tb ! 1) = Some [120, 0]"
proof -
  let ?as = "[(1, [104, 105, 0]), (2, [9]), (1, [120, 0])] :: (u16 \<times> u8 list) list"
  have "length (stream ?as) = 24" "last_attr ?as 1 = Some [120, 0]" by code_simp+
  moreover have "\<forall>(t, p) \<in> set ?as. length p + 4 < 2 ^ 16" by simp
  ultimately show ?thesis using nla_parse_roundtrip[of ?as "stream ?as" "[]" "[]" 2]
    by (metis append_Nil append_Nil2 list.size(3) of_nat_numeral one_le_numeral)
qed

subsection \<open>Writing requests\<close>

text \<open>A request under construction: the header without its length, and what follows.\<close>

definition req_is :: "u8 list \<Rightarrow> u8 list \<Rightarrow> u8 list \<Rightarrow> bool" where
  "req_is hdr body req \<longleftrightarrow> length hdr = 12 \<and> 4 dvd length body \<and> 16 + length body \<le> REQ_SIZE
     \<and> req = le32 (of_nat (16 + length body)) @ hdr @ body @ replicate (REQ_SIZE - (16 + length body)) 0"

lemma and_not_3: "unat ((x :: u32) AND NOT 3) = unat x div 4 * 4"
proof -
  have m: "(3 :: u32) = mask 2" by (simp add: mask_eq_exp_minus_1)
  have "x AND NOT 3 = push_bit 2 (drop_bit 2 x)"
    unfolding m
  proof (rule bit_word_eqI)
    fix n assume n: "n < LENGTH(32)"
    show "bit (x AND NOT (mask 2)) n = bit (push_bit 2 (drop_bit 2 x)) n"
    proof (cases "n < 2")
      case False
      then obtain k where "n = Suc (Suc k)" by (metis add_2_eq_Suc le_Suc_ex not_less)
      then show ?thesis using n by (simp add: bit_simps)
    qed (simp add: bit_simps)
  qed
  moreover have "unat x div 4 * 4 < 2 ^ 32"
    using unat_bound[of x] by (simp add: div_times_less_eq_dividend le_less_trans)
  ultimately show ?thesis by (simp add: unat_push_bit_mod unat_drop_bit_div)
qed

lemma nlmsg_align_small:
  assumes "4 dvd n" "n \<le> REQ_SIZE"
  shows "nlmsg_align (of_nat n) = of_nat n"
proof -
  have u: "unat (of_nat n + 3 :: u32) = n + 3"
    using assms(2) by (simp add: unat_word_ariths(1) unat_of_nat take_bit_nat_eq_self)
  have "unat (nlmsg_align (of_nat n)) = n"
    unfolding nlmsg_align_def and_not_3 u using align4_id[OF assms(1)] by (simp add: align4_def)
  moreover have "unat (of_nat n :: u32) = n" using assms(2) by (simp add: unat_of_nat take_bit_nat_eq_self)
  ultimately show ?thesis by (simp add: word_unat_eq_iff)
qed

lemma req_tail_is:
  assumes "req_is hdr body req"
  shows "load32 req 0 = Some (of_nat (16 + length body))" "nlmsg_align (of_nat (16 + length body)) = of_nat (16 + length body)"
    "req_tail req = Some (16 + length body)"
proof -
  have n: "4 dvd 16 + length body" "16 + length body \<le> REQ_SIZE" using assms by (auto simp: req_is_def)
  show l: "load32 req 0 = Some (of_nat (16 + length body))"
    using assms load32_at[of "[]" 0] by (simp add: req_is_def del: of_nat_add)
  show a: "nlmsg_align (of_nat (16 + length body)) = of_nat (16 + length body)" by (rule nlmsg_align_small[OF n])
  show "req_tail req = Some (16 + length body)"
    using l a n(2) by (simp add: req_tail_def unat_of_nat take_bit_nat_eq_self del: of_nat_add)
qed

lemma nlattr_add_fits:
  assumes req: "req_is hdr body req" and fits: "16 + length body + align4 (4 + length d) \<le> REQ_SIZE"
    and data: "data = (if d = [] then None else Some d)"
  shows "\<exists>req'. nlattr_add req type data (length d) = Some (0, req') \<and> req_is hdr (body @ attr_bytes type d) req'"
proof -
  define n where "n = 16 + length body"
  define pad where "pad = align4 (length d) - length d"
  define rest where "rest = REQ_SIZE - (n + align4 (4 + length d))"
  let ?A = "le32 (of_nat n) @ hdr @ body" and ?t = "replicate pad 0 @ replicate rest (0 :: u8)"
  have al: "align4 (4 + length d) = 4 + length d + pad"
    using align4_ge(1)[of "length d"] by (simp add: align4_add4 pad_def)
  have zs: "replicate (REQ_SIZE - n) (0 :: u8) = replicate 2 0 @ replicate 2 0 @ replicate (length d) 0 @ ?t"
  proof -
    have "REQ_SIZE - n = 2 + (2 + (length d + (pad + rest)))" using fits al by (simp add: n_def rest_def)
    then show ?thesis by (simp only: replicate_add)
  qed
  have A: "length ?A = n" using req by (simp add: req_is_def n_def)
  have req_eq: "req = ?A @ replicate 2 0 @ replicate 2 0 @ replicate (length d) 0 @ ?t"
    using req zs by (simp add: req_is_def n_def)
  note tail = req_tail_is[OF req, folded n_def]
  have small: "n + align4 (4 + length d) \<le> REQ_SIZE" using fits by (simp add: n_def)
  have "of_nat n + of_nat (align4 (4 + length d)) \<le> (of_nat REQ_SIZE :: u32)"
    using small by (simp add: word_le_nat_alt unat_of_nat take_bit_nat_eq_self flip: of_nat_add)
  then have g: "\<not> nlmsg_align (of_nat n) + of_nat (align4 (4 + length d)) > (of_nat REQ_SIZE :: u32)"
    using tail(2) by simp
  have s1: "store16 req (n + 2) type = Some (?A @ replicate 2 0 @ le16 type @ replicate (length d) 0 @ ?t)"
    using store_at[of "?A @ replicate 2 0" "n + 2" "replicate 2 0" "le16 type"] A unfolding req_eq store16_def le16_def[symmetric]
    by simp
  have s2: "store16 (?A @ replicate 2 0 @ le16 type @ replicate (length d) 0 @ ?t) n (of_nat (4 + length d))
      = Some (?A @ le16 (of_nat (4 + length d)) @ le16 type @ replicate (length d) 0 @ ?t)"
    using store_at[of ?A n "replicate 2 0" "le16 (of_nat (4 + length d))"] A unfolding store16_def le16_def[symmetric]
    by (simp del: of_nat_add)
  have s3: "store_bytes (?A @ le16 l @ le16 type @ replicate (length d) 0 @ ?t) (n + 4) d = Some (?A @ le16 l @ le16 type @ d @ ?t)" for l
    using store_at[of "?A @ le16 l @ le16 type" "n + 4" "replicate (length d) 0" d ?t] A by simp
  have l4: "load16 (?A @ le16 (of_nat (4 + length d)) @ le16 type @ d @ ?t) n = Some (of_nat (4 + length d))"
    by (rule load16_at[OF A])
  define m where "m = n + align4 (4 + length d)"
  define req' where "req' = le32 (of_nat m) @ hdr @ body @ le16 (of_nat (4 + length d)) @ le16 type @ d @ ?t"
  have u: "unat (of_nat (4 + length d) :: u16) = 4 + length d"
    using small align4_ge(1)[of "4 + length d"] by (simp add: unat_of_nat take_bit_nat_eq_self del: of_nat_add)
  have s5: "store32 (?A @ le16 (of_nat (4 + length d)) @ le16 type @ d @ ?t) 0 (of_nat m) = Some req'"
    using store_at[of "[]" 0 "le32 (of_nat n)" "le32 (of_nat m)"] by (simp add: store32_def req'_def del: of_nat_add)
  have "nlattr_add req type data (length d) = Some (0, req')"
    using tail g s1 s2 s3 l4 s5 u data by (cases "d = []") (simp_all add: nlattr_add_def m_def del: of_nat_add flip: of_nat_add)
  moreover have "req_is hdr (body @ attr_bytes type d) req'"
  proof -
    have len: "16 + length (body @ attr_bytes type d) = m" by (simp add: length_attr_bytes m_def n_def align4_add4)
    have "4 dvd length (body @ attr_bytes type d)" using req by (simp add: req_is_def length_attr_bytes)
    then show ?thesis
      using req small unfolding req_is_def len
      by (simp add: req'_def attr_bytes_def pad_def rest_def m_def)
  qed
  ultimately show ?thesis by blast
qed

lemma begin_nested_fits:
  assumes "req_is hdr body req" "16 + length body + 4 \<le> REQ_SIZE"
  shows "\<exists>req'. nlattr_begin_nested req type = Some (Some (16 + length body), req')
    \<and> req_is hdr (body @ attr_bytes (type OR 0x8000) []) req'"
proof -
  obtain req' where "nlattr_add req (type OR 0x8000) None 0 = Some (0, req')" "req_is hdr (body @ attr_bytes (type OR 0x8000) []) req'"
    using nlattr_add_fits[OF assms(1), of "[]"] assms(2) by (auto simp: align4_def)
  then show ?thesis using req_tail_is(3)[OF assms(1)] by (simp add: nlattr_begin_nested_def)
qed

lemma end_nested_closes:
  assumes "req_is hdr (body @ attr_bytes type [] @ inner) req" "4 dvd length inner" "4 dvd length body"
  shows "\<exists>req'. nlattr_end_nested req (16 + length body) = Some req' \<and> req_is hdr (body @ attr_bytes type inner) req'"
proof -
  let ?n = "16 + length body + 4 + length inner" and ?l = "of_nat (4 + length inner) :: u16"
  let ?z = "replicate (REQ_SIZE - ?n) (0 :: u8)"
  have e: "attr_bytes type [] = le16 4 @ le16 type" "attr_bytes type inner = le16 ?l @ le16 type @ inner"
    using assms(2) align4_id[of 0] by (simp_all add: attr_bytes_def align4_id)
  have len: "16 + length (body @ attr_bytes type [] @ inner) = ?n" by (simp add: e)
  have r: "req = (le32 (of_nat ?n) @ hdr @ body) @ le16 4 @ (le16 type @ inner @ ?z)" "length hdr = 12" "?n \<le> REQ_SIZE"
    using assms(1) unfolding req_is_def len by (simp_all add: e)
  have "store16 req (16 + length body) ?l = Some ((le32 (of_nat ?n) @ hdr @ body) @ le16 ?l @ (le16 type @ inner @ ?z))"
    unfolding r(1) store16_def le16_def[symmetric] by (rule store_at) (simp_all add: r(2))
  moreover have "req_tail req = Some ?n" using req_tail_is(3)[OF assms(1)] len by simp
  moreover have "?n - (16 + length body) = 4 + length inner" by simp
  moreover have "req_is hdr (body @ attr_bytes type inner) ((le32 (of_nat ?n) @ hdr @ body) @ le16 ?l @ (le16 type @ inner @ ?z))"
  proof -
    have n: "16 + length (body @ attr_bytes type inner) = ?n" by (simp add: e)
    have "4 dvd length (body @ attr_bytes type inner)" using assms(3) by (simp add: length_attr_bytes)
    then show ?thesis using r(2,3) unfolding req_is_def n by (simp add: e)
  qed
  ultimately show ?thesis unfolding nlattr_end_nested_def by (simp only: Option.bind.bind_lunit) blast
qed

end
