(* ===== verification/Btf_Raw.thy ===== *)
theory Btf_Raw
  imports Btf Nlattr
begin

text \<open>
  BTF as bytes (\<open>lib/libbpf/src/btf.c\<close>): checking the header, the string section and the type section of a blob, in either byte
  order, and writing it out again.  The blob is a list of bytes on which the functions load and store; an access outside of it is
  \<^const>\<open>None\<close>.  Offsets are positions in the blob.  Allocation is a function on a state of the world.  BTF on top of another one
  (split BTF) is not modelled.
\<close>

abbreviation (input) BTF_MAGIC :: u16 where "BTF_MAGIC \<equiv> 0xEB9F"
abbreviation (input) BTF_MAX_NR_TYPES :: nat where "BTF_MAX_NR_TYPES \<equiv> 0x7FFFFFFF"
abbreviation (input) BTF_MAX_STR_OFFSET :: nat where "BTF_MAX_STR_OFFSET \<equiv> 0x7FFFFFFF"

type_synonym 'w realloc = "nat \<Rightarrow> 'w \<Rightarrow> bool \<times> 'w"

subsection \<open>Growing an array\<close>

text \<open>The result is the new capacity; \<open>realloc\<close> gets the number of elements.\<close>

definition libbpf_add_mem :: "'w realloc \<Rightarrow> nat \<Rightarrow> nat \<Rightarrow> nat \<Rightarrow> nat \<Rightarrow> 'w \<Rightarrow> nat option \<times> 'w" where
  "libbpf_add_mem ra cap_cnt cur_cnt max_cnt add_cnt w =
     (if cur_cnt + add_cnt \<le> cap_cnt then (Some cap_cnt, w)
      else if cur_cnt + add_cnt > max_cnt then (None, w)
      else
        let new_cnt = cap_cnt + cap_cnt div 4;
            new_cnt = max new_cnt 16;
            new_cnt = min new_cnt max_cnt;
            new_cnt = max new_cnt (cur_cnt + add_cnt)
        in case ra new_cnt w of (ok, w) \<Rightarrow> (if ok then Some new_cnt else None, w))"

definition libbpf_ensure_mem :: "'w realloc \<Rightarrow> nat \<Rightarrow> nat \<Rightarrow> 'w \<Rightarrow> (int \<times> nat) \<times> 'w" where
  "libbpf_ensure_mem ra cap_cnt need_cnt w =
     (if need_cnt \<le> cap_cnt then ((0, cap_cnt), w)
      else case libbpf_add_mem ra cap_cnt cap_cnt (2 ^ 64 - 1) (need_cnt - cap_cnt) w of
             (None, w) \<Rightarrow> ((- ENOMEM, cap_cnt), w)
           | (Some cap, w) \<Rightarrow> ((0, cap), w))"

subsection \<open>Header\<close>

definition bswap_16_at :: "u8 list \<Rightarrow> nat \<Rightarrow> u8 list option" where
  "bswap_16_at p i = do { v \<leftarrow> load16 p i; store16 p i (bpf_ntohs v) }"

definition bswap_32_at :: "u8 list \<Rightarrow> nat \<Rightarrow> u8 list option" where
  "bswap_32_at p i = do { v \<leftarrow> load32 p i; store32 p i (bpf_ntohl v) }"

definition btf_bswap_hdr :: "u8 list \<Rightarrow> u8 list option" where
  "btf_bswap_hdr p = do {
     p \<leftarrow> bswap_16_at p 0;
     p \<leftarrow> bswap_32_at p 4;
     p \<leftarrow> bswap_32_at p 8;
     p \<leftarrow> bswap_32_at p 12;
     p \<leftarrow> bswap_32_at p 16;
     bswap_32_at p 20
   }"

record btf_header =
  hdr_len :: nat
  type_off :: nat
  type_len :: nat
  str_off :: nat
  str_len :: nat

definition read_hdr :: "u8 list \<Rightarrow> btf_header option" where
  "read_hdr p = do {
     l \<leftarrow> load32 p 4;
     t \<leftarrow> load32 p 8;
     tl \<leftarrow> load32 p 12;
     s \<leftarrow> load32 p 16;
     sl \<leftarrow> load32 p 20;
     Some \<lparr>hdr_len = unat l, type_off = unat t, type_len = unat tl, str_off = unat s, str_len = unat sl\<rparr>
   }"

text \<open>The error, or whether the byte order is the other one, and the blob with its header in the byte order of the host.\<close>

definition btf_parse_hdr :: "u8 list \<Rightarrow> (int + bool \<times> u8 list) option" where
  "btf_parse_hdr raw =
     (if length raw < 24 then Some (Inl (- EINVAL))
      else do {
        magic \<leftarrow> load16 raw 0;
        len \<leftarrow> load32 raw 4;
        if magic = bpf_ntohs BTF_MAGIC \<and> bpf_ntohl len \<noteq> 24 then Some (Inl (- EOPNOTSUPP))
        else if magic \<noteq> bpf_ntohs BTF_MAGIC \<and> magic \<noteq> BTF_MAGIC then Some (Inl (- EINVAL))
        else do {
          let swapped = (magic = bpf_ntohs BTF_MAGIC);
          raw \<leftarrow> (if swapped then btf_bswap_hdr raw else Some raw);
          hdr \<leftarrow> read_hdr raw;
          if length raw < hdr_len hdr then Some (Inl (- EINVAL))
          else if length raw - hdr_len hdr < str_off hdr + str_len hdr then Some (Inl (- EINVAL))
          else if type_off hdr + type_len hdr > str_off hdr then Some (Inl (- EINVAL))
          else if type_off hdr mod 4 \<noteq> 0 then Some (Inl (- EINVAL))
          else Some (Inr (swapped, raw))
        }
      })"

subsection \<open>String section\<close>

definition btf_parse_str_sec :: "u8 list \<Rightarrow> btf_header \<Rightarrow> nat \<Rightarrow> int option" where
  "btf_parse_str_sec raw hdr start =
     (if str_len hdr = 0 \<or> str_len hdr - 1 > BTF_MAX_STR_OFFSET then Some (- EINVAL)
      else do {
        last \<leftarrow> load8 raw (start + str_len hdr - 1);
        if last \<noteq> 0 then Some (- EINVAL)
        else do {
          first \<leftarrow> load8 raw start;
          Some (if first \<noteq> 0 then - EINVAL else 0)
        }
      })"

subsection \<open>Types\<close>

definition kind_of_code :: "nat \<Rightarrow> btf_kind option" where
  "kind_of_code n =
     (let ks = [BTF_KIND_UNKN, BTF_KIND_INT, BTF_KIND_PTR, BTF_KIND_ARRAY, BTF_KIND_STRUCT, BTF_KIND_UNION, BTF_KIND_ENUM,
        BTF_KIND_FWD, BTF_KIND_TYPEDEF, BTF_KIND_VOLATILE, BTF_KIND_CONST, BTF_KIND_RESTRICT, BTF_KIND_FUNC, BTF_KIND_FUNC_PROTO,
        BTF_KIND_VAR, BTF_KIND_DATASEC, BTF_KIND_FLOAT, BTF_KIND_DECL_TAG, BTF_KIND_TYPE_TAG, BTF_KIND_ENUM64]
      in if n < length ks then Some (ks ! n) else None)"

text \<open>The macros \<open>BTF_INFO_KIND\<close> and \<open>BTF_INFO_VLEN\<close>.\<close>

definition info_kind :: "u32 \<Rightarrow> nat" where
  "info_kind info = unat (drop_bit 24 info AND 0x1F)"

definition info_vlen :: "u32 \<Rightarrow> nat" where
  "info_vlen info = unat (info AND 0xFFFF)"

definition btf_type_size :: "u8 list \<Rightarrow> nat \<Rightarrow> int option" where
  "btf_type_size p t = do {
     info \<leftarrow> load32 p (t + 4);
     let vlen = int (info_vlen info);
     Some (case kind_of_code (info_kind info) of
             None \<Rightarrow> - EINVAL
           | Some k \<Rightarrow>
               if k \<in> {BTF_KIND_FWD, BTF_KIND_CONST, BTF_KIND_VOLATILE, BTF_KIND_RESTRICT, BTF_KIND_PTR, BTF_KIND_TYPEDEF,
                       BTF_KIND_FUNC, BTF_KIND_FLOAT, BTF_KIND_TYPE_TAG} then 12
               else if k = BTF_KIND_INT then 12 + 4
               else if k = BTF_KIND_ENUM then 12 + vlen * 8
               else if k = BTF_KIND_ENUM64 then 12 + vlen * 12
               else if k = BTF_KIND_ARRAY then 12 + 12
               else if k \<in> {BTF_KIND_STRUCT, BTF_KIND_UNION} then 12 + vlen * 12
               else if k = BTF_KIND_FUNC_PROTO then 12 + vlen * 8
               else if k = BTF_KIND_VAR then 12 + 4
               else if k = BTF_KIND_DATASEC then 12 + vlen * 12
               else if k = BTF_KIND_DECL_TAG then 12 + 4
               else - EINVAL)
   }"

definition btf_bswap_type_base :: "u8 list \<Rightarrow> nat \<Rightarrow> u8 list option" where
  "btf_bswap_type_base p t = do {
     p \<leftarrow> bswap_32_at p t;
     p \<leftarrow> bswap_32_at p (t + 4);
     bswap_32_at p (t + 8)
   }"

text \<open>The loops over the entries of a type: each has two or three words.\<close>

fun bswap_entries2 :: "nat \<Rightarrow> u8 list \<Rightarrow> nat \<Rightarrow> u8 list option" where
  "bswap_entries2 0 p e = Some p"
| "bswap_entries2 (Suc n) p e = do {
     p \<leftarrow> bswap_32_at p e;
     p \<leftarrow> bswap_32_at p (e + 4);
     bswap_entries2 n p (e + 8)
   }"

fun bswap_entries3 :: "nat \<Rightarrow> u8 list \<Rightarrow> nat \<Rightarrow> u8 list option" where
  "bswap_entries3 0 p e = Some p"
| "bswap_entries3 (Suc n) p e = do {
     p \<leftarrow> bswap_32_at p e;
     p \<leftarrow> bswap_32_at p (e + 4);
     p \<leftarrow> bswap_32_at p (e + 8);
     bswap_entries3 n p (e + 12)
   }"

definition btf_bswap_type_rest :: "u8 list \<Rightarrow> nat \<Rightarrow> (int \<times> u8 list) option" where
  "btf_bswap_type_rest p t = do {
     info \<leftarrow> load32 p (t + 4);
     let vlen = info_vlen info;
     let ok = map_option (Pair 0);
     case kind_of_code (info_kind info) of
       None \<Rightarrow> Some (- EINVAL, p)
     | Some k \<Rightarrow>
         if k \<in> {BTF_KIND_FWD, BTF_KIND_CONST, BTF_KIND_VOLATILE, BTF_KIND_RESTRICT, BTF_KIND_PTR, BTF_KIND_TYPEDEF,
                 BTF_KIND_FUNC, BTF_KIND_FLOAT, BTF_KIND_TYPE_TAG} then Some (0, p)
         else if k = BTF_KIND_INT then ok (bswap_32_at p (t + 12))
         else if k = BTF_KIND_ENUM then ok (bswap_entries2 vlen p (t + 12))
         else if k = BTF_KIND_ENUM64 then ok (bswap_entries3 vlen p (t + 12))
         else if k = BTF_KIND_ARRAY then ok (bswap_entries3 1 p (t + 12))
         else if k \<in> {BTF_KIND_STRUCT, BTF_KIND_UNION} then ok (bswap_entries3 vlen p (t + 12))
         else if k = BTF_KIND_FUNC_PROTO then ok (bswap_entries2 vlen p (t + 12))
         else if k = BTF_KIND_VAR then ok (bswap_32_at p (t + 12))
         else if k = BTF_KIND_DATASEC then ok (bswap_entries3 vlen p (t + 12))
         else if k = BTF_KIND_DECL_TAG then ok (bswap_32_at p (t + 12))
         else Some (- EINVAL, p)
   }"

lemma type_size_pos: "btf_type_size p t = Some n \<Longrightarrow> 0 \<le> n \<Longrightarrow> 12 \<le> n"
  by (auto simp: btf_type_size_def Let_def elim!: bind_SomeE split: option.splits if_splits)

text \<open>The loop of \<open>btf_parse_type_sec\<close>: the blob, the next type, the index of the types found so far and its capacity.\<close>

function type_sec_loop ::
  "'w realloc \<Rightarrow> bool \<Rightarrow> nat \<Rightarrow> nat \<Rightarrow> u8 list \<Rightarrow> nat \<Rightarrow> nat list \<Rightarrow> nat \<Rightarrow> 'w \<Rightarrow> ((int \<times> u8 list \<times> nat list \<times> nat) \<times> 'w) option" where
  "type_sec_loop ra swapped start end_type raw next offs cap w =
     (if next + 12 \<le> end_type then
        (case (if swapped then btf_bswap_type_base raw next else Some raw) of
           None \<Rightarrow> None
         | Some raw \<Rightarrow>
             (case btf_type_size raw next of
                None \<Rightarrow> None
              | Some type_size \<Rightarrow>
                  if type_size < 0 then Some ((type_size, raw, offs, cap), w)
                  else if next + nat type_size > end_type then Some ((- EINVAL, raw, offs, cap), w)
                  else
                    (case (if swapped then btf_bswap_type_rest raw next else Some (0, raw)) of
                       None \<Rightarrow> None
                     | Some (err, raw) \<Rightarrow>
                         if err \<noteq> 0 then Some ((- EINVAL, raw, offs, cap), w)
                         else
                           (case libbpf_add_mem ra cap (length offs) BTF_MAX_NR_TYPES 1 w of
                              (None, w) \<Rightarrow> Some ((- ENOMEM, raw, offs, cap), w)
                            | (Some cap, w) \<Rightarrow>
                                type_sec_loop ra swapped start end_type raw (next + nat type_size) (offs @ [next - start]) cap w))))
      else Some ((if next \<noteq> end_type then - EINVAL else 0, raw, offs, cap), w))"
  by pat_completeness auto

termination
proof (relation "measure (\<lambda>(_, _, _, e, _, n, _). e - n)")
qed (auto dest!: type_size_pos)

declare type_sec_loop.simps [simp del]

record btf_raw =
  raw_data :: "u8 list"
  raw_data_swapped :: "u8 list option"
  raw_size :: nat
  swapped_endian :: bool
  raw_hdr :: btf_header
  types_at :: nat
  strs_at :: nat
  type_offs :: "nat list"
  ptr_sz :: int

definition btf_new :: "'w realloc \<Rightarrow> u8 list \<Rightarrow> 'w \<Rightarrow> ((int + btf_raw) \<times> 'w) option" where
  "btf_new ra data w =
     (case ra 1 w of (ok, w) \<Rightarrow>
        if \<not> ok then Some (Inl (- ENOMEM), w)
        else case ra (length data) w of (ok, w) \<Rightarrow>
          if \<not> ok then Some (Inl (- ENOMEM), w)
          else do {
            r \<leftarrow> btf_parse_hdr data;
            case r of
              Inl e \<Rightarrow> Some (Inl e, w)
            | Inr (swapped, raw) \<Rightarrow> do {
                hdr \<leftarrow> read_hdr raw;
                let strs = hdr_len hdr + str_off hdr;
                let types = hdr_len hdr + type_off hdr;
                err \<leftarrow> btf_parse_str_sec raw hdr strs;
                if err \<noteq> 0 then Some (Inl err, w)
                else do {
                  ((err, raw, offs, _), w) \<leftarrow> type_sec_loop ra swapped types (types + type_len hdr) raw types [] 0 w;
                  if err \<noteq> 0 then Some (Inl err, w)
                  else Some (Inr \<lparr>raw_data = raw, raw_data_swapped = None, raw_size = length data, swapped_endian = swapped, raw_hdr = hdr, types_at = types,
                                  strs_at = strs, type_offs = offs, ptr_sz = 0\<rparr>, w)
                }
              }
          })"

subsection \<open>Writing it out\<close>

fun bswap_types :: "nat \<Rightarrow> nat list \<Rightarrow> u8 list \<Rightarrow> (int \<times> u8 list) option" where
  "bswap_types p [] data = Some (0, data)"
| "bswap_types p (off # offs) data = do {
     (err, data) \<leftarrow> btf_bswap_type_rest data (p + off);
     if err \<noteq> 0 then Some (err, data)
     else do {
       data \<leftarrow> btf_bswap_type_base data (p + off);
       bswap_types p offs data
     }
   }"

text \<open>The bytes and the size that is reported for them.\<close>

definition btf_get_raw_data :: "'w realloc \<Rightarrow> btf_raw \<Rightarrow> bool \<Rightarrow> 'w \<Rightarrow> ((u8 list \<times> nat) option \<times> 'w) option" where
  "btf_get_raw_data ra b swap_endian w =
     (case (if swap_endian then raw_data_swapped b else Some (raw_data b)) of
        Some data \<Rightarrow> Some (Some (data, raw_size b), w)
      | None \<Rightarrow>
          let hdr = raw_hdr b; data_sz = hdr_len hdr + type_len hdr + str_len hdr
          in case ra data_sz w of (ok, w) \<Rightarrow>
               if \<not> ok then Some (None, w)
               else do {
                 h \<leftarrow> load_bytes (raw_data b) 0 (hdr_len hdr);
                 data \<leftarrow> store_bytes (replicate data_sz 0) 0 h;
                 data \<leftarrow> (if swap_endian then btf_bswap_hdr data else Some data);
                 ts \<leftarrow> load_bytes (raw_data b) (types_at b) (type_len hdr);
                 data \<leftarrow> store_bytes data (hdr_len hdr) ts;
                 (err, data) \<leftarrow> (if swap_endian then bswap_types (hdr_len hdr) (type_offs b) data else Some (0, data));
                 if err \<noteq> 0 then Some (None, w)
                 else do {
                   s \<leftarrow> load_bytes (raw_data b) (strs_at b) (str_len hdr);
                   data \<leftarrow> store_bytes data (hdr_len hdr + type_len hdr) s;
                   Some (Some (data, data_sz), w)
                 }
               })"

definition btf__raw_data :: "'w realloc \<Rightarrow> btf_raw \<Rightarrow> 'w \<Rightarrow> (((u8 list \<times> nat) option \<times> btf_raw) \<times> 'w) option" where
  "btf__raw_data ra b w = do {
     (d, w) \<leftarrow> btf_get_raw_data ra b (swapped_endian b) w;
     case d of
       None \<Rightarrow> Some ((None, b), w)
     | Some (data, data_sz) \<Rightarrow>
         let b = b\<lparr>raw_size := data_sz\<rparr>
         in Some ((Some (data, data_sz), if swapped_endian b then b\<lparr>raw_data_swapped := Some data\<rparr> else b\<lparr>raw_data := data\<rparr>), w)
   }"

datatype btf_endianness = BTF_LITTLE_ENDIAN | BTF_BIG_ENDIAN

definition btf__endianness :: "btf_raw \<Rightarrow> btf_endianness" where
  "btf__endianness b = (if swapped_endian b then BTF_BIG_ENDIAN else BTF_LITTLE_ENDIAN)"

definition btf__set_endianness :: "btf_raw \<Rightarrow> btf_endianness \<Rightarrow> btf_raw" where
  "btf__set_endianness b e =
     (let b = b\<lparr>swapped_endian := (e = BTF_BIG_ENDIAN)\<rparr>
      in if \<not> swapped_endian b then b\<lparr>raw_data_swapped := None\<rparr> else b)"

subsection \<open>Reading types\<close>

text \<open>\<open>btf__name_by_offset\<close> and the string behind the pointer: \<^const>\<open>None\<close> when reading it leaves the blob, \<open>Some None\<close> for \<open>NULL\<close>.\<close>

definition btf__name_by_offset :: "btf_raw \<Rightarrow> nat \<Rightarrow> string option option" where
  "btf__name_by_offset b off =
     (if off < str_len (raw_hdr b)
      then map_option Some (cstr (map (char_of \<circ> unat) (drop (strs_at b + off) (raw_data b))))
      else Some None)"

fun read_members :: "btf_raw \<Rightarrow> nat \<Rightarrow> nat \<Rightarrow> btf_member list option" where
  "read_members b 0 e = Some []"
| "read_members b (Suc n) e = do {
     name_off \<leftarrow> load32 (raw_data b) e;
     name \<leftarrow> btf__name_by_offset b (unat name_off);
     ty \<leftarrow> load32 (raw_data b) (e + 4);
     ms \<leftarrow> read_members b n (e + 12);
     Some (\<lparr>m_name = name, m_type = unat ty\<rparr> # ms)
   }"

fun read_secinfos :: "btf_raw \<Rightarrow> nat \<Rightarrow> nat \<Rightarrow> nat list option" where
  "read_secinfos b 0 e = Some []"
| "read_secinfos b (Suc n) e = do {
     ty \<leftarrow> load32 (raw_data b) e;
     ss \<leftarrow> read_secinfos b n (e + 12);
     Some (unat ty # ss)
   }"

text \<open>The type at an offset as the queries of \<open>Btf\<close> see it.\<close>

definition read_type :: "btf_raw \<Rightarrow> nat \<Rightarrow> btf_type option" where
  "read_type b t = do {
     name_off \<leftarrow> load32 (raw_data b) t;
     name \<leftarrow> btf__name_by_offset b (unat name_off);
     info \<leftarrow> load32 (raw_data b) (t + 4);
     st \<leftarrow> load32 (raw_data b) (t + 8);
     k \<leftarrow> kind_of_code (info_kind info);
     ty \<leftarrow> (if k = BTF_KIND_ARRAY then load32 (raw_data b) (t + 12) else Some st);
     nelems \<leftarrow> (if k = BTF_KIND_ARRAY then load32 (raw_data b) (t + 20) else Some 0);
     ms \<leftarrow> (if k = BTF_KIND_STRUCT \<or> k = BTF_KIND_UNION then read_members b (info_vlen info) (t + 12) else Some []);
     ss \<leftarrow> (if k = BTF_KIND_DATASEC then read_secinfos b (info_vlen info) (t + 12) else Some []);
     lk \<leftarrow> (if k = BTF_KIND_VAR then load32 (raw_data b) (t + 12) else Some 0);
     Some \<lparr>bt_kind = k, bt_name = name, bt_size = st, bt_type = unat ty, bt_nelems = nelems, bt_members = ms,
           bt_secinfos = ss, bt_linkage = unat lk\<rparr>
   }"

fun read_types :: "btf_raw \<Rightarrow> nat list \<Rightarrow> btf_type list option" where
  "read_types b [] = Some []"
| "read_types b (off # offs) = do {
     t \<leftarrow> read_type b (types_at b + off);
     ts \<leftarrow> read_types b offs;
     Some (t # ts)
   }"

definition long_aliases :: "string list" where
  "long_aliases = [''long'', ''long int'', ''int long'', ''unsigned long'', ''long unsigned'', ''unsigned long int'', ''unsigned int long'',
     ''long unsigned int'', ''long int unsigned'', ''int unsigned long'', ''int long unsigned'']"

fun determine_ptr_size :: "btf_type list \<Rightarrow> int" where
  "determine_ptr_size [] = -1"
| "determine_ptr_size (t # ts) =
     (if bt_kind t = BTF_KIND_INT \<and> (bt_size t = 4 \<or> bt_size t = 8) \<and> (\<exists>n \<in> set long_aliases. bt_name t = Some n)
      then uint (bt_size t) else determine_ptr_size ts)"

text \<open>\<open>btf_ptr_sz\<close> and \<open>btf__pointer_size\<close>, with the field they set; a pointer of the host has 8 bytes.\<close>

definition guess_ptr_sz :: "btf_type list \<Rightarrow> int \<Rightarrow> int" where
  "guess_ptr_sz ts sz = (if sz = 0 then determine_ptr_size ts else sz)"

definition btf_ptr_sz_of :: "btf_type list \<Rightarrow> int \<Rightarrow> nat" where
  "btf_ptr_sz_of ts sz = (let sz = guess_ptr_sz ts sz in if sz < 0 then 8 else nat sz)"

definition btf__pointer_size :: "btf_type list \<Rightarrow> int \<Rightarrow> nat \<times> int" where
  "btf__pointer_size ts sz = (let sz = guess_ptr_sz ts sz in (if sz < 0 then 0 else nat sz, sz))"

definition btf__set_pointer_size :: "nat \<Rightarrow> int \<Rightarrow> int \<times> int" where
  "btf__set_pointer_size n sz = (if n \<noteq> 4 \<and> n \<noteq> 8 then (- EINVAL, sz) else (0, int n))"

definition read_btf :: "btf_raw \<Rightarrow> btf option" where
  "read_btf b = do {
     ts \<leftarrow> read_types b (type_offs b);
     Some \<lparr>btf_types = ts, btf_ptr_sz = btf_ptr_sz_of ts (ptr_sz b)\<rparr>
   }"

subsection \<open>From the kernel\<close>

text \<open>\<open>info n\<close> is \<open>bpf_btf_get_info_by_fd\<close> with a buffer of \<open>n\<close> bytes: the error, or the size of the BTF and the content of the buffer.\<close>

definition btf_get_from_fd ::
  "'w realloc \<Rightarrow> (nat \<Rightarrow> 'w \<Rightarrow> (int + nat \<times> u8 list) \<times> 'w) \<Rightarrow> 'w \<Rightarrow> ((int + btf_raw) \<times> 'w) option" where
  "btf_get_from_fd ra info w =
     (case ra 4096 w of (ok, w) \<Rightarrow>
        if \<not> ok then Some (Inl (- ENOMEM), w)
        else case info 4096 w of (r, w) \<Rightarrow>
          let grow = (case r of Inl _ \<Rightarrow> False | Inr (n, _) \<Rightarrow> n > 4096);
              last_size = (case r of Inr (n, _) \<Rightarrow> if n > 4096 then n else 4096 | Inl _ \<Rightarrow> 4096);
              (ok, w) = (if grow then ra last_size w else (True, w))
          in if \<not> ok then Some (Inl (- ENOMEM), w)
             else case (if grow then info last_size w else (r, w)) of (r, w) \<Rightarrow>
               (case r of
                  Inl e \<Rightarrow> Some (Inl e, w)
                | Inr (n, buf) \<Rightarrow>
                    if n > last_size then Some (Inl (- E2BIG), w)
                    else btf_new ra (take n (buf @ replicate n 0)) w))"

end
