(* ===== verification/Btf_Raw_Proofs.thy ===== *)
theory Btf_Raw_Proofs
  imports Btf_Raw
begin

text \<open>
  Parsing any bytes as BTF stays inside of them, and what it accepts can be read as a \<open>btf\<close>; and a BTF written in the other byte order
  and parsed again is the same.
\<close>

subsection \<open>Swapping words\<close>

fun rev4 :: "u8 list \<Rightarrow> u8 list" where
  "rev4 (a # b # c # d # xs) = d # c # b # a # rev4 xs"
| "rev4 xs = xs"

lemma length_rev4 [simp]: "length (rev4 xs) = length xs"
  by (induction xs rule: rev4.induct) auto

lemma rev4_rev4 [simp]: "rev4 (rev4 xs) = xs"
  by (induction xs rule: rev4.induct) auto

lemma rev4_append: "4 dvd length xs \<Longrightarrow> rev4 (xs @ ys) = rev4 xs @ rev4 ys"
proof (induction xs rule: rev4.induct)
  case (1 a b c d xs)
  then have "4 dvd length xs" by simp presburger
  then show ?case using 1 by simp
qed (simp_all, presburger+)

definition swap_range :: "u8 list \<Rightarrow> nat \<Rightarrow> nat \<Rightarrow> u8 list" where
  "swap_range p i n = take i p @ rev4 (take (4 * n) (drop i p)) @ drop (i + 4 * n) p"

lemma length_swap_range [simp]: "length (swap_range p i n) = length p"
  by (simp add: swap_range_def)

lemma swap_range_0 [simp]: "swap_range p i 0 = p"
  by (simp add: swap_range_def)

lemma le32_ntohl: "le32 (bpf_ntohl (word32_le a b c d)) = [d, c, b, a]"
proof -
  have m: "(0xFF00 :: u32) = push_bit 8 (mask 8)" "(0xFF0000 :: u32) = push_bit 16 (mask 8)"
    by (simp_all add: mask_eq_exp_minus_1 push_bit_eq_mult)
  have "ucast (bpf_ntohl (word32_le a b c d)) = d" "ucast (drop_bit 8 (bpf_ntohl (word32_le a b c d))) = c"
    "ucast (drop_bit 16 (bpf_ntohl (word32_le a b c d))) = b" "ucast (drop_bit 24 (bpf_ntohl (word32_le a b c d))) = a"
    unfolding bpf_ntohl_def word32_le_def m
    by (rule bit_word_eqI; auto simp: bit_simps dest: bit_imp_le_length)+
  then show ?thesis by (simp add: le32_def)
qed

lemma take4: "i + 4 \<le> length p \<Longrightarrow> take 4 (drop i p) = [p ! i, p ! (i + 1), p ! (i + 2), p ! (i + 3)]"
  by (rule nth_equalityI) (auto simp: less_Suc_eq numeral_eq_Suc)

lemma bswap_32_at_eq:
  assumes "i + 4 \<le> length p"
  shows "bswap_32_at p i = Some (swap_range p i 1)"
proof -
  have "length (le32 v) = 4" for v by (simp add: le32_def)
  then show ?thesis using assms
    by (simp add: bswap_32_at_def load32_def store32_def store_bytes_def le32_ntohl swap_range_def take4)
qed

lemma swap_range_append:
  assumes "i + 4 * (n + m) \<le> length p"
  shows "swap_range (swap_range p i n) (i + 4 * n) m = swap_range p i (n + m)"
proof -
  have l: "length (take i p @ rev4 (take (4 * n) (drop i p))) = i + 4 * n" using assms by simp
  have "take (4 * (n + m)) (drop i p) = take (4 * n) (drop i p) @ take (4 * m) (drop (i + 4 * n) p)"
    by (simp add: take_add distrib_left add.commute[of i])
  moreover have "4 dvd length (take (4 * n) (drop i p))" using assms by simp
  ultimately have "rev4 (take (4 * (n + m)) (drop i p)) = rev4 (take (4 * n) (drop i p)) @ rev4 (take (4 * m) (drop (i + 4 * n) p))"
    by (simp add: rev4_append)
  then show ?thesis using l unfolding swap_range_def by (simp add: ac_simps distrib_left)
qed

lemma split_range: "take i p @ take k (drop i p) @ drop (i + k) p = p"
  by (metis append_take_drop_id drop_drop add.commute)

lemma swap_range_twice: "i + 4 * n \<le> length p \<Longrightarrow> swap_range (swap_range p i n) i n = p"
  using split_range[of i p "4 * n"] by (simp add: swap_range_def min_def)

lemma swap_step: "e + 4 * n + 4 \<le> length p \<Longrightarrow> bswap_32_at (swap_range p e n) (e + 4 * n) = Some (swap_range p e (Suc n))"
  using swap_range_append[of e n 1 p] by (simp add: bswap_32_at_eq)

lemma swap_steps:
  assumes "e + 12 \<le> length p"
  shows "bswap_32_at p e = Some (swap_range p e 1)" "bswap_32_at (swap_range p e 1) (e + 4) = Some (swap_range p e 2)"
    "bswap_32_at (swap_range p e 2) (e + 8) = Some (swap_range p e 3)"
  using swap_step[of e 0 p] swap_step[of e 1 p] swap_step[of e 2 p] assms by (simp_all add: numeral_2_eq_2 numeral_3_eq_3)

lemma entries2_eq: "e + 8 * n \<le> length p \<Longrightarrow> bswap_entries2 n p e = Some (swap_range p e (2 * n))"
proof (induction n arbitrary: p e)
  case (Suc n)
  have "bswap_32_at p e = Some (swap_range p e 1)" "bswap_32_at (swap_range p e 1) (e + 4) = Some (swap_range p e 2)"
    using Suc.prems swap_step[of e 0 p] swap_step[of e 1 p] by (simp_all add: numeral_2_eq_2)
  moreover have "bswap_entries2 n (swap_range p e 2) (e + 8) = Some (swap_range p e (2 * Suc n))"
    using Suc.IH[of "e + 8" "swap_range p e 2"] Suc.prems swap_range_append[of e 2 "2 * n" p] by simp
  ultimately show ?case by simp
qed simp

lemma entries3_eq: "e + 12 * n \<le> length p \<Longrightarrow> bswap_entries3 n p e = Some (swap_range p e (3 * n))"
proof (induction n arbitrary: p e)
  case (Suc n)
  have "bswap_entries3 n (swap_range p e 3) (e + 12) = Some (swap_range p e (3 * Suc n))"
    using Suc.IH[of "e + 12" "swap_range p e 3"] Suc.prems swap_range_append[of e 3 "3 * n" p] by simp
  then show ?case using swap_steps[of e p] Suc.prems by simp
qed simp

text \<open>A type: the common part has three words, and the rest is swapped as a whole.\<close>

lemma type_base_eq: "t + 12 \<le> length p \<Longrightarrow> btf_bswap_type_base p t = Some (swap_range p t 3)"
  using swap_steps[of t p] by (simp add: btf_bswap_type_base_def)

lemma type_rest_eq:
  assumes "btf_type_size p t = Some n" "0 \<le> n" "t + nat n \<le> length p"
  shows "btf_bswap_type_rest p t = Some (0, swap_range p (t + 12) ((nat n - 12) div 4)) \<and> 4 dvd nat n"
proof -
  obtain info k where info: "load32 p (t + 4) = Some info" "kind_of_code (info_kind info) = Some k"
    using assms(1,2) by (auto simp: btf_type_size_def Let_def elim!: bind_SomeE split: option.splits)
  let ?v = "info_vlen info"
  have e: "nat (12 + int ?v * 8) = 12 + 8 * ?v" "nat (12 + int ?v * 12) = 12 + 12 * ?v" by simp_all
  have n: "n = the (btf_type_size p t)" using assms(1) by simp
  have 0: "t + nat n \<le> length p" "0 \<le> n" by fact+
  show ?thesis
  proof (cases k)
  qed (use 0 in \<open>simp_all add: n btf_type_size_def btf_bswap_type_rest_def Let_def info e bswap_32_at_eq entries2_eq entries3_eq
         del: bswap_entries3.simps\<close>)
qed

subsection \<open>The type section\<close>

lemma load32_take: "take m p = take m q \<Longrightarrow> i + 4 \<le> m \<Longrightarrow> load32 p i = load32 q i"
proof -
  have "load32 p i = load32 (take m p) i" if "i + 4 \<le> m" for p using that by (simp add: load32_def)
  then show "take m p = take m q \<Longrightarrow> i + 4 \<le> m \<Longrightarrow> load32 p i = load32 q i" by metis
qed

lemma type_size_take: "take m p = take m q \<Longrightarrow> t + 8 \<le> m \<Longrightarrow> btf_type_size p t = btf_type_size q t"
  using load32_take[of m p q "t + 4"] by (simp add: btf_type_size_def)

lemma take_swap_range: "m \<le> i \<Longrightarrow> i \<le> length p \<Longrightarrow> take m (swap_range p i n) = take m p"
  by (simp add: swap_range_def)

lemma drop_swap_range: "i + 4 * n \<le> m \<Longrightarrow> i + 4 * n \<le> length p \<Longrightarrow> drop m (swap_range p i n) = drop m p"
  by (simp add: swap_range_def)

text \<open>Types that follow each other from a position to the end of the section; their offsets are relative to \<open>start\<close>.\<close>

fun type_chain :: "u8 list \<Rightarrow> nat \<Rightarrow> nat \<Rightarrow> nat list \<Rightarrow> nat \<Rightarrow> bool" where
  "type_chain p start pos [] e \<longleftrightarrow> pos = e"
| "type_chain p start pos (off # offs) e \<longleftrightarrow> start + off = pos
     \<and> (\<exists>n. btf_type_size p pos = Some n \<and> 0 \<le> n \<and> pos + nat n \<le> e \<and> type_chain p start (pos + nat n) offs e)"

text \<open>One round of the loop.\<close>

definition swap_type :: "bool \<Rightarrow> u8 list \<Rightarrow> nat \<Rightarrow> nat \<Rightarrow> u8 list" where
  "swap_type swapped p t n = (if swapped then swap_range p t (n div 4) else p)"

lemma length_swap_type [simp]: "length (swap_type b p t n) = length p"
  by (simp add: swap_type_def)

lemma loop_round:
  assumes "next + 12 \<le> e" "e \<le> length raw"
  obtains raw1 n where "(if swapped then btf_bswap_type_base raw next else Some raw) = Some raw1" "length raw1 = length raw"
    and "btf_type_size raw1 next = Some n"
    and "0 \<le> n \<Longrightarrow> next + nat n \<le> e \<Longrightarrow> (if swapped then btf_bswap_type_rest raw1 next else Some (0, raw1)) = Some (0, swap_type swapped raw next (nat n))
      \<and> btf_type_size (swap_type swapped raw next (nat n)) next = Some n"
proof -
  let ?raw1 = "if swapped then swap_range raw next 3 else raw"
  have "next + 12 \<le> length raw" using assms by linarith
  then have r1: "(if swapped then btf_bswap_type_base raw next else Some raw) = Some ?raw1" by (simp add: type_base_eq)
  have len: "length ?raw1 = length raw" by simp
  have "\<exists>n. btf_type_size ?raw1 next = Some n" using assms by (simp add: btf_type_size_def load32_def Let_def)
  then obtain n where n: "btf_type_size ?raw1 next = Some n" by blast
  have "(if swapped then btf_bswap_type_rest ?raw1 next else Some (0, ?raw1)) = Some (0, swap_type swapped raw next (nat n))
      \<and> btf_type_size (swap_type swapped raw next (nat n)) next = Some n" if nn: "0 \<le> n" "next + nat n \<le> e"
  proof (cases swapped)
    case True
    have le: "next + nat n \<le> length raw" using nn assms by linarith
    have rest: "btf_bswap_type_rest ?raw1 next = Some (0, swap_range ?raw1 (next + 12) ((nat n - 12) div 4))" and d: "4 dvd nat n"
      using type_rest_eq[OF n nn(1)] le by simp_all
    have n12: "12 \<le> nat n" using type_size_pos[OF n nn(1)] by simp
    obtain j where "nat n = 12 + j" using n12 le_Suc_ex by blast
    then have q: "3 + (nat n - 12) div 4 = nat n div 4" by simp
    have "4 * (nat n div 4) = nat n" using d by simp
    with q have sw: "swap_range ?raw1 (next + 12) ((nat n - 12) div 4) = swap_type swapped raw next (nat n)"
      using True swap_range_append[of "next" 3 "(nat n - 12) div 4" raw] le by (simp add: swap_type_def)
    have "take (next + 12) (swap_range ?raw1 (next + 12) ((nat n - 12) div 4)) = take (next + 12) ?raw1"
      by (rule take_swap_range) (use le n12 in simp_all)
    then have "btf_type_size (swap_type swapped raw next (nat n)) next = Some n"
      using type_size_take[of "next + 12" _ ?raw1 "next"] n unfolding sw by simp
    then show ?thesis using rest sw True by simp
  qed (use n in \<open>simp add: swap_type_def\<close>)
  from that[OF r1 len n this] show thesis .
qed

lemma swap_range_split:
  assumes "i + 4 * (n + m) \<le> length p"
  shows "swap_range (swap_range p (i + 4 * n) m) i n = swap_range p i (n + m)"
    and "swap_range (swap_range p i (n + m)) i n = swap_range p (i + 4 * n) m"
proof -
  define A B C D where "A = take i p" "B = take (4 * n) (drop i p)" "C = take (4 * m) (drop (i + 4 * n) p)" "D = drop (i + 4 * n + 4 * m) p"
  have l: "length A = i" "length B = 4 * n" "length C = 4 * m" using assms by (auto simp: A_B_C_D_def)
  have p: "p = A @ B @ C @ D"
    using split_range[of i p "4 * n"] split_range[of "i + 4 * n" p "4 * m"] by (simp add: A_B_C_D_def) (metis append_assoc take_add append_eq_append_conv_if)
  have r: "swap_range (X @ Y @ Z) i k = X @ rev4 Y @ Z" if "length X = i" "length Y = 4 * k" for X Y Z :: "u8 list" and i k
    using that by (simp add: swap_range_def)
  have 1: "swap_range p (i + 4 * n) m = A @ B @ rev4 C @ D" using r[of "A @ B" "i + 4 * n" C m D] l by (simp add: p)
  have 2: "swap_range p i (n + m) = A @ rev4 B @ rev4 C @ D" using r[of A i "B @ C" "n + m" D] l by (simp add: p rev4_append)
  show "swap_range (swap_range p (i + 4 * n) m) i n = swap_range p i (n + m)" using r[of A i B n "rev4 C @ D"] l 1 2 by simp
  show "swap_range (swap_range p i (n + m)) i n = swap_range p (i + 4 * n) m" using r[of A i "rev4 B" n "rev4 C @ D"] l 1 2 by simp
qed

lemma load32_drop: "drop m p = drop m q \<Longrightarrow> m \<le> length p \<Longrightarrow> m \<le> length q \<Longrightarrow> m \<le> i \<Longrightarrow> load32 p i = load32 q i"
proof -
  assume d: "drop m p = drop m q" and m: "m \<le> length p" "m \<le> length q" "m \<le> i"
  have "load32 p i = load32 (drop m p) (i - m)" if "m \<le> length p" for p
    using that m(3) by (auto simp: load32_def)
  then show "load32 p i = load32 q i" using d m by metis
qed

lemma type_chain_drop:
  "drop m p = drop m q \<Longrightarrow> length p = length q \<Longrightarrow> m \<le> length p \<Longrightarrow> m \<le> pos \<Longrightarrow> type_chain p start pos offs e \<longleftrightarrow> type_chain q start pos offs e"
proof (induction offs arbitrary: pos)
  case (Cons off offs)
  have "load32 p (pos + 4) = load32 q (pos + 4)" using Cons.prems by (intro load32_drop[of m]) simp_all
  then have "btf_type_size p pos = btf_type_size q pos" by (simp add: btf_type_size_def)
  moreover have "type_chain p start (pos + k) offs e \<longleftrightarrow> type_chain q start (pos + k) offs e" for k
    using Cons.prems by (intro Cons.IH) simp_all
  ultimately show ?case by simp
qed simp

text \<open>Swapping one type more, and the types after it.\<close>

lemma swap_type_chain:
  assumes "next + n \<le> e" "4 dvd n" "4 dvd (e - (next + n))" "e \<le> length raw"
  shows "swap_type b (swap_type b raw next n) (next + n) (e - (next + n)) = swap_type b raw next (e - next)" "4 dvd (e - next)"
proof -
  have n: "4 * (n div 4) = n" and m: "4 * ((e - (next + n)) div 4) = e - (next + n)" using assms by simp_all
  have "e - next = n + (e - (next + n))" using assms by simp
  then show d: "4 dvd (e - next)" using assms by (metis dvd_add)
  have "(e - next) div 4 = n div 4 + (e - (next + n)) div 4"
    using \<open>e - next = n + _\<close> assms by (metis div_plus_div_distrib_dvd_left)
  then show "swap_type b (swap_type b raw next n) (next + n) (e - (next + n)) = swap_type b raw next (e - next)"
    using swap_range_append[of "next" "n div 4" "(e - (next + n)) div 4" raw] n m assms by (simp add: swap_type_def)
qed

lemma swap_type_outside:
  assumes "4 dvd n" "next + n \<le> length raw"
  shows "m \<le> next \<Longrightarrow> take m (swap_type b raw next n) = take m raw" "next + n \<le> m \<Longrightarrow> drop m (swap_type b raw next n) = drop m raw"
  using assms take_swap_range[of m "next" raw] drop_swap_range[of "next" "n div 4" m raw] by (auto simp: swap_type_def)

lemma type_size_mult: "btf_type_size p t = Some n \<Longrightarrow> 0 \<le> n \<Longrightarrow> 4 dvd nat n"
proof -
  assume n: "btf_type_size p t = Some n" "0 \<le> n"
  then have "4 dvd n"
    by (auto simp: btf_type_size_def Let_def elim!: bind_SomeE intro!: dvd_add dvd_mult split: option.splits if_splits)
  then show "4 dvd nat n" using n by (auto simp: nat_mult_distrib elim!: dvdE)
qed

subsection \<open>The loop over the types\<close>

definition loop_post :: "bool \<Rightarrow> nat \<Rightarrow> nat \<Rightarrow> u8 list \<Rightarrow> nat \<Rightarrow> nat list \<Rightarrow> ((int \<times> u8 list \<times> nat list \<times> nat) \<times> 'w) option \<Rightarrow> bool" where
  "loop_post b start e raw next offs r \<longleftrightarrow> (\<exists>err raw' os cap w. r = Some ((err, raw', offs @ os, cap), w) \<and> err \<le> 0
     \<and> (err = 0 \<longrightarrow> next \<le> e \<and> 4 dvd (e - next) \<and> raw' = swap_type b raw next (e - next) \<and> type_chain raw' start next os e))"

lemma loop_post_error: "err < 0 \<Longrightarrow> loop_post b start e raw next offs (Some ((err, raw', offs, cap), w))"
  by (auto simp: loop_post_def)

lemma loop_post_step:
  assumes n: "btf_type_size (swap_type b raw next (nat n)) next = Some n" "0 \<le> n" "next + nat n \<le> e" and le: "e \<le> length raw" "start \<le> next"
    and post: "loop_post b start e (swap_type b raw next (nat n)) (next + nat n) (offs @ [next - start]) r"
  shows "loop_post b start e raw next offs r"
proof -
  let ?raw = "swap_type b raw next (nat n)"
  obtain err raw' os cap w where r: "r = Some ((err, raw', (offs @ [next - start]) @ os, cap), w)" "err \<le> 0"
    and ok: "err = 0 \<Longrightarrow> next + nat n \<le> e \<and> 4 dvd (e - (next + nat n)) \<and> raw' = swap_type b ?raw (next + nat n) (e - (next + nat n))
       \<and> type_chain raw' start (next + nat n) os e"
    using post unfolding loop_post_def by blast
  have d: "4 dvd nat n" by (rule type_size_mult[OF n(1,2)])
  have "4 dvd (e - next) \<and> raw' = swap_type b raw next (e - next) \<and> type_chain raw' start next ((next - start) # os) e" if "err = 0"
  proof -
    have raw': "raw' = swap_type b ?raw (next + nat n) (e - (next + nat n))" and d': "4 dvd (e - (next + nat n))"
      and ch: "type_chain raw' start (next + nat n) os e" using ok[OF that] by blast+
    have "12 \<le> n" by (rule type_size_pos[OF n(1,2)])
    then have "take (next + 8) raw' = take (next + 8) ?raw"
      unfolding raw' by (intro swap_type_outside(1)) (use d' le n(3) in simp_all)
    then have "btf_type_size raw' next = Some n" using type_size_take[of "next + 8" raw' ?raw "next"] n(1) by simp
    then have "type_chain raw' start next ((next - start) # os) e" using ch n le by auto
    then show ?thesis using swap_type_chain(1)[OF n(3) d d' le(1), of b] swap_type_chain(2)[OF n(3) d d' le(1)] raw' by simp
  qed
  then show ?thesis using r n(3) unfolding loop_post_def
    by (intro exI[of _ err] exI[of _ raw'] exI[of _ "(next - start) # os"] exI[of _ cap] exI[of _ w]) auto
qed

lemma loop_safe:
  assumes "e \<le> length raw" "start \<le> next"
  shows "loop_post b start e raw next offs (type_sec_loop ra b start e raw next offs cap w)"
  using assms
proof (induction "e - next" arbitrary: raw "next" offs cap w rule: less_induct)
  case less
  show ?case
  proof (cases "next + 12 \<le> e")
    case False
    then show ?thesis using less.prems by (subst type_sec_loop.simps) (auto simp: loop_post_def swap_type_def)
  next
    case True
    obtain raw1 n where r: "(if b then btf_bswap_type_base raw next else Some raw) = Some raw1" "length raw1 = length raw"
      and n: "btf_type_size raw1 next = Some n"
      and ok: "0 \<le> n \<Longrightarrow> next + nat n \<le> e \<Longrightarrow> (if b then btf_bswap_type_rest raw1 next else Some (0, raw1)) = Some (0, swap_type b raw next (nat n))
        \<and> btf_type_size (swap_type b raw next (nat n)) next = Some n"
      by (rule loop_round[OF True less.prems(1)]) blast
    have rec: "loop_post b start e raw next offs (type_sec_loop ra b start e (swap_type b raw next (nat n)) (next + nat n) (offs @ [next - start]) c v)"
      if "0 \<le> n" "next + nat n \<le> e" for c v
    proof (rule loop_post_step[OF _ that less.prems])
      show "btf_type_size (swap_type b raw next (nat n)) next = Some n" using ok[OF that] by blast
      show "loop_post b start e (swap_type b raw next (nat n)) (next + nat n) (offs @ [next - start])
         (type_sec_loop ra b start e (swap_type b raw next (nat n)) (next + nat n) (offs @ [next - start]) c v)"
        using type_size_pos[OF n that(1)] True less.prems by (intro less.hyps) auto
    qed
    show ?thesis
    proof (subst type_sec_loop.simps, cases "n < 0 \<or> next + nat n > e")
    qed (use True r n ok rec in \<open>auto simp: not_less split: prod.split option.split intro!: loop_post_error\<close>)
  qed
qed

subsection \<open>Parsing a blob\<close>

lemma le16_ntohs: "le16 (bpf_ntohs (word16_le a b)) = [b, a]"
proof -
  have "ucast (bpf_ntohs (word16_le a b)) = b" "ucast (drop_bit 8 (bpf_ntohs (word16_le a b))) = a"
    unfolding bpf_ntohs_def word16_le_def by (rule bit_word_eqI; auto simp: bit_simps dest: bit_imp_le_length)+
  then show ?thesis by (simp add: le16_def)
qed

lemma bswap_16_at_eq: "bswap_16_at (a # b # p) 0 = Some (b # a # p)"
  by (simp add: bswap_16_at_def load16_def store16_def store_bytes_def le16_ntohs flip: le16_def)

definition swap_hdr :: "u8 list \<Rightarrow> u8 list" where
  "swap_hdr p = swap_range (p ! 1 # p ! 0 # drop 2 p) 4 5"

lemma bswap_hdr_eq:
  assumes "24 \<le> length p"
  shows "btf_bswap_hdr p = Some (swap_hdr p)"
proof -
  obtain a b q where p: "p = a # b # q" and q: "22 \<le> length q" using assms by (auto simp: numeral_eq_Suc Suc_le_length_iff)
  have "bswap_32_at (swap_range (b # a # q) 4 n) (4 + 4 * n) = Some (swap_range (b # a # q) 4 (Suc n))" if "n < 5" for n
    using that q by (intro swap_step) simp
  from this[of 0] this[of 1] this[of 2] this[of 3] this[of 4] show ?thesis
    by (simp add: p btf_bswap_hdr_def bswap_16_at_eq swap_hdr_def numeral_eq_Suc)
qed

lemma length_swap_hdr [simp]: "24 \<le> length p \<Longrightarrow> length (swap_hdr p) = length p"
  by (simp add: swap_hdr_def)

text \<open>What \<open>btf_parse_hdr\<close> checks of a header in the byte order of the host.\<close>

definition hdr_ok :: "u8 list \<Rightarrow> btf_header \<Rightarrow> bool" where
  "hdr_ok raw h \<longleftrightarrow> hdr_len h + (str_off h + str_len h) \<le> length raw \<and> type_off h + type_len h \<le> str_off h \<and> type_off h mod 4 = 0"

definition host_hdr :: "bool \<Rightarrow> u8 list \<Rightarrow> u8 list" where
  "host_hdr swapped raw = (if swapped then swap_hdr raw else raw)"

lemma length_host_hdr [simp]: "24 \<le> length p \<Longrightarrow> length (host_hdr s p) = length p"
  by (simp add: host_hdr_def)

lemma parse_hdr_eq:
  assumes "24 \<le> length raw" and m: "load16 raw 0 = Some m" and l: "load32 raw 4 = Some l" and s: "s \<longleftrightarrow> m = bpf_ntohs BTF_MAGIC"
    and h: "read_hdr (host_hdr s raw) = Some h"
  shows "btf_parse_hdr raw = Some (if s \<and> bpf_ntohl l \<noteq> 24 then Inl (- EOPNOTSUPP) else if (s \<or> m = BTF_MAGIC) \<and> hdr_ok raw h then Inr (s, host_hdr s raw)
    else Inl (- EINVAL))"
proof -
  have b: "(if s then btf_bswap_hdr raw else Some raw) = Some (host_hdr s raw)" using assms(1) by (simp add: bswap_hdr_eq host_hdr_def)
  have len: "length (host_hdr s raw) = length raw" using assms(1) by simp
  have "\<not> length raw < 24" using assms(1) by simp
  then have "btf_parse_hdr raw = (if s \<and> bpf_ntohl l \<noteq> 24 then Some (Inl (- EOPNOTSUPP)) else if \<not> s \<and> m \<noteq> BTF_MAGIC then Some (Inl (- EINVAL))
    else if length raw < hdr_len h then Some (Inl (- EINVAL)) else if length raw - hdr_len h < str_off h + str_len h then Some (Inl (- EINVAL))
    else if type_off h + type_len h > str_off h then Some (Inl (- EINVAL)) else if type_off h mod 4 \<noteq> 0 then Some (Inl (- EINVAL))
    else Some (Inr (s, host_hdr s raw)))"
    unfolding btf_parse_hdr_def Let_def by (simp only: m l s[symmetric] bind.bind_lunit b h len if_False)
  then show ?thesis by (auto simp: hdr_ok_def)
qed

lemma read_hdr_in: "24 \<le> length raw \<Longrightarrow> \<exists>h. read_hdr raw = Some h"
  by (simp add: read_hdr_def load32_def)

lemma parse_hdr_safe:
  obtains (error) e where "btf_parse_hdr raw = Some (Inl e)" "e < 0"
  | (hdr) s h where "btf_parse_hdr raw = Some (Inr (s, host_hdr s raw))" "read_hdr (host_hdr s raw) = Some h" "hdr_ok raw h" "24 \<le> length raw"
proof (cases "length raw < 24")
  case True
  then show ?thesis by (intro error[of "- EINVAL"]) (simp_all add: btf_parse_hdr_def)
next
  case False
  then obtain m l where ml: "load16 raw 0 = Some m" "load32 raw 4 = Some l" by (simp add: load16_def load32_def)
  define s where "s \<longleftrightarrow> m = bpf_ntohs BTF_MAGIC"
  obtain h where h: "read_hdr (host_hdr s raw) = Some h" using False read_hdr_in[of "host_hdr s raw"] by auto
  have eq: "btf_parse_hdr raw = Some (if s \<and> bpf_ntohl l \<noteq> 24 then Inl (- EOPNOTSUPP) else if (s \<or> m = BTF_MAGIC) \<and> hdr_ok raw h then Inr (s, host_hdr s raw)
    else Inl (- EINVAL))"
    using False ml s_def h by (intro parse_hdr_eq) simp_all
  show ?thesis
  proof (cases "\<not> (s \<and> bpf_ntohl l \<noteq> 24) \<and> (s \<or> m = BTF_MAGIC) \<and> hdr_ok raw h")
    case True
    then show ?thesis using eq h False by (intro hdr[of s h]) auto
  next
    case f: False
    then show ?thesis using eq error by (cases "s \<and> bpf_ntohl l \<noteq> 24") auto
  qed
qed

definition raw_wf :: "btf_raw \<Rightarrow> bool" where
  "raw_wf b \<longleftrightarrow> (let h = raw_hdr b; p = raw_data b in
     types_at b = hdr_len h + type_off h \<and> strs_at b = hdr_len h + str_off h \<and> hdr_ok p h \<and> 0 < str_len h \<and> p ! (strs_at b + str_len h - 1) = 0
     \<and> type_chain p (types_at b) (types_at b) (type_offs b) (types_at b + type_len h))"

lemma str_sec_safe:
  assumes "start + str_len h \<le> length raw"
  obtains err where "btf_parse_str_sec raw h start = Some err" "err \<le> 0" "err = 0 \<Longrightarrow> 0 < str_len h \<and> raw ! (start + str_len h - 1) = 0"
proof (cases "str_len h = 0 \<or> str_len h - 1 > BTF_MAX_STR_OFFSET")
  case True
  then show ?thesis by (intro that[of "- EINVAL"]) (simp_all add: btf_parse_str_sec_def)
next
  case False
  then have "load8 raw (start + str_len h - 1) = Some (raw ! (start + str_len h - 1))" "load8 raw start = Some (raw ! start)"
    using assms by (auto simp: load8_def)
  then have "btf_parse_str_sec raw h start = Some (if raw ! (start + str_len h - 1) \<noteq> 0 \<or> raw ! start \<noteq> 0 then - EINVAL else 0)"
    using False by (simp add: btf_parse_str_sec_def)
  then show ?thesis using False by (rule_tac that) (auto split: if_splits)
qed

text \<open>What parsing a blob leaves: a well-formed BTF over the bytes, in the byte order of the host.\<close>

definition parsed_as :: "u8 list \<Rightarrow> btf_raw \<Rightarrow> bool" where
  "parsed_as data b \<longleftrightarrow> raw_wf b \<and> 24 \<le> length data \<and> length (raw_data b) = length data \<and> raw_data_swapped b = None \<and> raw_size b = length data \<and> ptr_sz b = 0
     \<and> raw_data b = swap_type (swapped_endian b) (host_hdr (swapped_endian b) data) (types_at b) (type_len (raw_hdr b))
     \<and> read_hdr (host_hdr (swapped_endian b) data) = Some (raw_hdr b)"

lemma sections_safe:
  assumes w: "ra 1 w = (True, w1)" "ra (length data) w1 = (True, w2)"
    and hdr: "btf_parse_hdr data = Some (Inr (s, host_hdr s data))" "read_hdr (host_hdr s data) = Some h" "hdr_ok data h" "24 \<le> length data"
  shows "\<exists>r w'. btf_new ra data w = Some (r, w') \<and> (case r of Inl e \<Rightarrow> e < 0 | Inr b \<Rightarrow> parsed_as data b)"
proof -
  let ?p = "host_hdr s data" and ?t = "hdr_len h + type_off h" and ?s = "hdr_len h + str_off h"
  have len: "length ?p = length data" using hdr(4) by simp
  have in_data: "?s + str_len h \<le> length ?p" "?t + type_len h \<le> length ?p" using hdr(3) len by (auto simp: hdr_ok_def)
  obtain err where se: "btf_parse_str_sec ?p h ?s = Some err" "err \<le> 0" "err = 0 \<Longrightarrow> 0 < str_len h \<and> ?p ! (?s + str_len h - 1) = 0"
    by (rule str_sec_safe[OF in_data(1)]) blast
  have "loop_post s ?t (?t + type_len h) ?p ?t [] (type_sec_loop ra s ?t (?t + type_len h) ?p ?t [] 0 w2)"
    by (rule loop_safe) (use in_data in simp_all)
  then obtain er raw os cap w3 where lp: "type_sec_loop ra s ?t (?t + type_len h) ?p ?t [] 0 w2 = Some ((er, raw, os, cap), w3)" "er \<le> 0"
    and ch: "er = 0 \<Longrightarrow> 4 dvd type_len h" "er = 0 \<Longrightarrow> raw = swap_type s ?p ?t (type_len h)" "er = 0 \<Longrightarrow> type_chain raw ?t ?t os (?t + type_len h)"
    by (auto simp: loop_post_def)
  let ?b = "\<lparr>raw_data = raw, raw_data_swapped = None, raw_size = length data, swapped_endian = s, raw_hdr = h, types_at = ?t, strs_at = ?s, type_offs = os, ptr_sz = 0\<rparr>"
  have new: "btf_new ra data w = Some (if err \<noteq> 0 then (Inl err, w2) else if er \<noteq> 0 then (Inl er, w3) else (Inr ?b, w3))"
    using w hdr lp(1) se(1) by (simp add: btf_new_def)
  have "parsed_as data ?b" if ok: "err = 0" "er = 0"
  proof -
    have "drop (?t + type_len h) raw = drop (?t + type_len h) ?p" "length raw = length ?p"
      using ch(1,2)[OF ok(2)] in_data swap_type_outside(2)[of "type_len h" ?t ?p "?t + type_len h" s] by simp_all
    moreover have "?t + type_len h \<le> ?s + str_len h - 1" using hdr(3) se(3) ok by (auto simp: hdr_ok_def)
    ultimately have "raw ! (?s + str_len h - 1) = 0"
      using in_data se(3)[OF ok(1)] by (metis nth_drop le_add_diff_inverse)
    then show ?thesis using ch[OF ok(2)] se(3)[OF ok(1)] hdr len \<open>length raw = _\<close> by (simp add: parsed_as_def raw_wf_def hdr_ok_def)
  qed
  then show ?thesis using new se(2) lp(2) by (cases "err = 0"; cases "er = 0") simp_all
qed

lemma btf_new_safe: "\<exists>r w'. btf_new ra data w = Some (r, w') \<and> (case r of Inl e \<Rightarrow> e < 0 | Inr b \<Rightarrow> parsed_as data b)"
proof -
  obtain ok1 w1 where w1: "ra 1 w = (ok1, w1)" by (cases "ra 1 w")
  obtain ok2 w2 where w2: "ra (length data) w1 = (ok2, w2)" by (cases "ra (length data) w1")
  show ?thesis
  proof (cases "ok1 \<and> ok2")
    case False
    then show ?thesis using w1 w2 by (cases ok1) (auto simp: btf_new_def)
  next
    case ok: True
    show ?thesis
    proof (cases rule: parse_hdr_safe[of data])
      case (error e)
      then show ?thesis using ok w1 w2 by (simp add: btf_new_def)
    next
      case (hdr s h)
      then show ?thesis using ok w1 w2 by (intro sections_safe) auto
    qed
  qed
qed

subsection \<open>Reading what was parsed\<close>

lemma name_in:
  assumes "raw_wf b"
  shows "\<exists>n. btf__name_by_offset b off = Some n"
proof (cases "off < str_len (raw_hdr b)")
  case True
  let ?i = "strs_at b + str_len (raw_hdr b) - 1"
  have i: "?i < length (raw_data b)" "strs_at b + off \<le> ?i" "raw_data b ! ?i = 0"
    using assms True by (auto simp: raw_wf_def Let_def hdr_ok_def)
  then have "drop (strs_at b + off) (raw_data b) ! (?i - (strs_at b + off)) = 0" by (metis nth_drop le_add_diff_inverse less_imp_le order.trans)
  then have "0 \<in> set (drop (strs_at b + off) (raw_data b))" using i by (metis nth_mem length_drop diff_less_mono)
  moreover have "(char_of \<circ> unat) (0 :: u8) = NUL" by (simp add: char_of_def)
  ultimately have "NUL \<in> set (map (char_of \<circ> unat) (drop (strs_at b + off) (raw_data b)))" by (metis image_eqI set_map)
  then show ?thesis unfolding btf__name_by_offset_def cstr_def by (simp only: True if_True option.map) blast
qed (simp add: btf__name_by_offset_def)

lemma load32_in: "i + 4 \<le> length p \<Longrightarrow> \<exists>v. load32 p i = Some v"
  by (simp add: load32_def)

lemma members_in: "raw_wf b \<Longrightarrow> e + 12 * n \<le> length (raw_data b) \<Longrightarrow> \<exists>ms. read_members b n e = Some ms \<and> length ms = n"
proof (induction n arbitrary: e)
  case (Suc n)
  obtain x y ms where "load32 (raw_data b) e = Some x" "load32 (raw_data b) (e + 4) = Some y"
    "read_members b n (e + 12) = Some ms" "length ms = n"
    using Suc.IH[of "e + 12"] Suc.prems load32_in[of e "raw_data b"] load32_in[of "e + 4" "raw_data b"] by auto
  then show ?case using name_in[OF Suc.prems(1), of "unat x"] by auto
qed simp

lemma secinfos_in: "e + 12 * n \<le> length (raw_data b) \<Longrightarrow> \<exists>ss. read_secinfos b n e = Some ss \<and> length ss = n"
proof (induction n arbitrary: e)
  case (Suc n)
  obtain x ss where "load32 (raw_data b) e = Some x" "read_secinfos b n (e + 12) = Some ss" "length ss = n"
    using Suc.prems load32_in[of e "raw_data b"] Suc.IH[of "e + 12"] by auto
  then show ?case by simp
qed simp

text \<open>A type that \<open>btf_type_size\<close> accepts is read inside the bytes it takes.\<close>

lemma type_in:
  assumes wf: "raw_wf b" and n: "btf_type_size (raw_data b) t = Some n" "0 \<le> n" "t + nat n \<le> length (raw_data b)"
  shows "\<exists>ty. read_type b t = Some ty"
proof -
  let ?p = "raw_data b"
  have "12 \<le> n" by (rule type_size_pos[OF n(1,2)])
  then have "t + 12 \<le> length ?p" using n by linarith
  then obtain x info st where l: "load32 ?p t = Some x" "load32 ?p (t + 4) = Some info" "load32 ?p (t + 8) = Some st"
    using load32_in[of t ?p] load32_in[of "t + 4" ?p] load32_in[of "t + 8" ?p] by auto
  obtain k where k: "kind_of_code (info_kind info) = Some k" using n l by (auto simp: btf_type_size_def Let_def split: option.splits)
  obtain nm where nm: "btf__name_by_offset b (unat x) = Some nm" using name_in[OF wf] by blast
  have v: "nat (12 + int v * 12) = 12 + 12 * v" for v by simp
  have sz: "n = the (btf_type_size ?p t)" using n by simp
  have ar: "k = BTF_KIND_ARRAY \<Longrightarrow> t + 24 \<le> length ?p" and vr: "k = BTF_KIND_VAR \<Longrightarrow> t + 16 \<le> length ?p"
    and st: "k = BTF_KIND_STRUCT \<or> k = BTF_KIND_UNION \<or> k = BTF_KIND_DATASEC \<Longrightarrow> t + 12 + 12 * info_vlen info \<le> length ?p"
    using n(3) by (auto simp: sz btf_type_size_def l k v)
  show ?thesis
    using l k nm ar vr st load32_in[of "t + 12" ?p] load32_in[of "t + 20" ?p] members_in[OF wf, of "t + 12" "info_vlen info"]
      secinfos_in[of "t + 12" "info_vlen info" b] by (cases k) (auto simp: read_type_def)
qed

lemma types_in:
  "raw_wf b \<Longrightarrow> type_chain (raw_data b) (types_at b) pos offs e \<Longrightarrow> e \<le> length (raw_data b) \<Longrightarrow> \<exists>ts. read_types b offs = Some ts \<and> length ts = length offs"
proof (induction offs arbitrary: pos)
  case (Cons off offs)
  then obtain n where n: "btf_type_size (raw_data b) pos = Some n" "0 \<le> n" "pos + nat n \<le> e" "types_at b + off = pos"
    "type_chain (raw_data b) (types_at b) (pos + nat n) offs e" by auto
  then obtain ty where "read_type b pos = Some ty" using type_in[OF Cons.prems(1) n(1,2)] Cons.prems(3) by auto
  then show ?case using Cons.IH[OF Cons.prems(1) n(5) Cons.prems(3)] n(4) by auto
qed simp

text \<open>C33: Whatever the bytes are, and whichever allocations fail, parsing them as BTF (\<open>btf_new\<close>, with the checks of the header, the strings and
  the types, in either byte order) never leaves the buffer and ends with an error code or with a BTF of the same size in which every type that
  was indexed can be read, its name, members, variables and array bounds included.\<close>

theorem btf_new_readable:
  "case btf_new ra data w of
     None \<Rightarrow> False
   | Some (Inl e, _) \<Rightarrow> e < 0
   | Some (Inr b, _) \<Rightarrow> length (raw_data b) = length data
       \<and> (\<exists>B. read_btf b = Some B \<and> length (btf_types B) = length (type_offs b))"
proof -
  obtain r w' where r: "btf_new ra data w = Some (r, w')" "case r of Inl e \<Rightarrow> e < 0 | Inr b \<Rightarrow> parsed_as data b"
    using btf_new_safe[of ra data w] by blast
  show ?thesis
  proof (cases r)
    case (Inr b)
    then have wf: "raw_wf b" "length (raw_data b) = length data" using r(2) by (simp_all add: parsed_as_def)
    then have "types_at b + type_len (raw_hdr b) \<le> length (raw_data b)"
      and "type_chain (raw_data b) (types_at b) (types_at b) (type_offs b) (types_at b + type_len (raw_hdr b))"
      by (auto simp: raw_wf_def Let_def hdr_ok_def)
    then obtain ts where "read_types b (type_offs b) = Some ts" "length ts = length (type_offs b)" using types_in[OF wf(1)] by blast
    then show ?thesis using r Inr wf by (simp add: read_btf_def)
  qed (use r in simp)
qed

subsection \<open>The other byte order\<close>

lemma type_chain_swap:
  "type_chain p start pos offs e \<Longrightarrow> e \<le> length p \<Longrightarrow> pos + 12 * length offs \<le> e \<and> 4 dvd (e - pos)"
proof (induction offs arbitrary: pos)
  case (Cons off offs)
  then obtain n where n: "btf_type_size p pos = Some n" "0 \<le> n" "pos + nat n \<le> e" "type_chain p start (pos + nat n) offs e" by auto
  have "12 \<le> nat n" "4 dvd nat n" using type_size_pos[OF n(1,2)] type_size_mult[OF n(1,2)] by simp_all
  moreover have "pos + nat n + 12 * length offs \<le> e" "4 dvd (e - (pos + nat n))" using Cons.IH[OF n(4) Cons.prems(2)] by simp_all
  ultimately show ?case using swap_type_chain(2)[of pos "nat n" e p] Cons.prems(2) n(3) by simp
qed simp

lemma add_mem_ok: "(\<And>n w. fst (ra n w)) \<Longrightarrow> cur + k \<le> m \<Longrightarrow> \<exists>cap' w'. libbpf_add_mem ra cap cur m k w = (Some cap', w')"
  by (auto simp: libbpf_add_mem_def Let_def split: prod.split) (metis fst_conv)+

text \<open>Swapping the types from \<open>pos\<close> on, and then the first of them back.\<close>

lemma swap_type_tail:
  assumes "pos + n \<le> e" "4 dvd n" "4 dvd (e - (pos + n))" "e \<le> length p"
  shows "swap_type True (swap_type True p pos (e - pos)) pos n = swap_type True p (pos + n) (e - (pos + n))"
    and "12 \<le> n \<Longrightarrow> take (pos + 12) (swap_range (swap_type True p pos (e - pos)) pos 3) = take (pos + 12) p"
proof -
  obtain a where a: "n = 4 * a" using assms(2) by auto
  obtain b where b: "e - (pos + n) = 4 * b" using assms(3) by auto
  then have e: "e = pos + 4 * (a + b)" using assms(1) a by simp
  show "swap_type True (swap_type True p pos (e - pos)) pos n = swap_type True p (pos + n) (e - (pos + n))"
    using swap_range_split(2)[of pos a b p] assms(4) a by (simp add: swap_type_def e)
  assume "12 \<le> n"
  then obtain j where j: "a = 3 + j" using a le_Suc_ex[of 3 a] by auto
  show "take (pos + 12) (swap_range (swap_type True p pos (e - pos)) pos 3) = take (pos + 12) p"
    using swap_range_split(2)[of pos 3 "j + b" p] take_swap_range[of "pos + 12" "pos + 12" p "j + b"] assms(4) j by (simp add: swap_type_def e ac_simps)
qed

lemma loop_complete:
  assumes ra: "\<And>n w. fst (ra n w)"
  shows "type_chain p start pos os e \<Longrightarrow> e \<le> length p \<Longrightarrow> length offs + length os \<le> BTF_MAX_NR_TYPES \<Longrightarrow>
     \<exists>cap' w'. type_sec_loop ra True start e (swap_type True p pos (e - pos)) pos offs cap w = Some ((0, p, offs @ os, cap'), w')"
proof (induction os arbitrary: pos offs cap w)
  case Nil
  then show ?case by (subst type_sec_loop.simps) (simp add: swap_type_def)
next
  case (Cons off os)
  let ?q = "swap_type True p pos (e - pos)"
  obtain n where n: "btf_type_size p pos = Some n" "0 \<le> n" "pos + nat n \<le> e" "type_chain p start (pos + nat n) os e" "start + off = pos"
    using Cons.prems(1) by auto
  have n12: "12 \<le> n" and d: "4 dvd nat n" using type_size_pos[OF n(1,2)] type_size_mult[OF n(1,2)] by simp_all
  have d': "4 dvd (e - (pos + nat n))" using type_chain_swap[OF n(4) Cons.prems(2)] by simp
  have pos: "pos + 12 \<le> e" using n n12 by linarith
  note tail = swap_type_tail[OF n(3) d d' Cons.prems(2)]
  obtain q1 k where r: "(if True then btf_bswap_type_base ?q pos else Some ?q) = Some q1" and k: "btf_type_size q1 pos = Some k"
    and ok: "0 \<le> k \<Longrightarrow> pos + nat k \<le> e \<Longrightarrow> (if True then btf_bswap_type_rest q1 pos else Some (0, q1)) = Some (0, swap_type True ?q pos (nat k))"
    by (rule loop_round[of pos e ?q True]) (use pos Cons.prems(2) in auto)
  have "q1 = swap_range ?q pos 3" using r pos Cons.prems(2) type_base_eq[of pos ?q] by simp
  then have "k = n" using k tail(2) n12 type_size_take[of "pos + 12" q1 p pos] n(1) by simp
  obtain c v where am: "libbpf_add_mem ra cap (length offs) BTF_MAX_NR_TYPES 1 w = (Some c, v)"
    using add_mem_ok[OF ra, where cur = "length offs" and k = 1 and m = BTF_MAX_NR_TYPES] Cons.prems(3) by fastforce
  obtain cap' w' where IH: "type_sec_loop ra True start e (swap_type True p (pos + nat n) (e - (pos + nat n))) (pos + nat n) (offs @ [off]) c v
      = Some ((0, p, (offs @ [off]) @ os, cap'), w')"
    using Cons.IH[OF n(4) Cons.prems(2), of "offs @ [off]" c v] Cons.prems(3) by auto
  have "type_sec_loop ra True start e ?q pos offs cap w = type_sec_loop ra True start e (swap_type True ?q pos (nat n)) (pos + nat n) (offs @ [pos - start]) c v"
    using pos r k ok \<open>k = n\<close> n am by (subst type_sec_loop.simps) (simp add: not_less)
  also have "pos - start = off" using n(5) by simp
  finally show ?case using IH unfolding tail(1) by simp
qed

lemma bswap_types_eq:
  "type_chain p start pos os e \<Longrightarrow> e \<le> length p \<Longrightarrow> bswap_types start os p = Some (0, swap_type True p pos (e - pos))"
proof (induction os arbitrary: p pos)
  case Nil
  then show ?case by (simp add: swap_type_def)
next
  case (Cons off os)
  obtain n where n: "btf_type_size p pos = Some n" "0 \<le> n" "pos + nat n \<le> e" "type_chain p start (pos + nat n) os e" "start + off = pos"
    using Cons.prems(1) by auto
  have n12: "12 \<le> nat n" and d: "4 dvd nat n" using type_size_pos[OF n(1,2)] type_size_mult[OF n(1,2)] by simp_all
  have d': "4 dvd (e - (pos + nat n))" using type_chain_swap[OF n(4) Cons.prems(2)] by simp
  let ?q = "swap_type True p pos (nat n)" and ?k = "(nat n - 12) div 4"
  obtain c where c: "nat n = 4 * c" using d by auto
  then obtain a where a: "nat n = 4 * (3 + a)" using n12 le_Suc_ex[of 3 c] by auto
  have q: "swap_range (swap_range p (pos + 12) ?k) pos 3 = ?q"
    using swap_range_split(1)[of pos 3 a p] n(3) Cons.prems(2) by (simp add: swap_type_def a)
  have "btf_bswap_type_rest p pos = Some (0, swap_range p (pos + 12) ?k)" using type_rest_eq[OF n(1,2)] n(3) Cons.prems(2) by simp
  moreover have "btf_bswap_type_base (swap_range p (pos + 12) ?k) pos = Some ?q"
    using type_base_eq[of pos "swap_range p (pos + 12) ?k"] n12 n(3) Cons.prems(2) q by simp
  moreover have "type_chain ?q start (pos + nat n) os e"
    using type_chain_drop[of "pos + nat n" ?q p] swap_type_outside(2)[OF d, of pos p "pos + nat n" True] n(3,4) Cons.prems(2) by simp
  then have "bswap_types start os ?q = Some (0, swap_type True ?q (pos + nat n) (e - (pos + nat n)))" using Cons.prems(2) by (intro Cons.IH) simp_all
  then have "bswap_types start os ?q = Some (0, swap_type True p pos (e - pos))" using swap_type_chain(1)[OF n(3) d d' Cons.prems(2)] by simp
  ultimately show ?case using n(5) by simp
qed

lemma type_chain_take:
  "take e p = take e q \<Longrightarrow> type_chain p start pos offs e \<Longrightarrow> type_chain q start pos offs e"
proof (induction offs arbitrary: pos)
  case (Cons off offs)
  then obtain n where n: "btf_type_size p pos = Some n" "0 \<le> n" "pos + nat n \<le> e" "type_chain p start (pos + nat n) offs e" "start + off = pos" by auto
  then have "btf_type_size q pos = Some n" using type_size_take[OF Cons.prems(1), of pos] type_size_pos[OF n(1,2)] by simp
  then show ?case using n Cons.IH[OF Cons.prems(1) n(4)] by auto
qed simp

lemma str_sec_drop:
  "drop m p = drop m q \<Longrightarrow> m \<le> length p \<Longrightarrow> m \<le> length q \<Longrightarrow> m \<le> start \<Longrightarrow> btf_parse_str_sec p h start = btf_parse_str_sec q h start"
proof -
  assume d: "drop m p = drop m q" and m: "m \<le> length p" "m \<le> length q" "m \<le> start"
  have "load8 p i = load8 (drop m p) (i - m)" if "m \<le> length p" "m \<le> i" for p i
    using that by (auto simp: load8_def)
  then have l: "load8 p i = load8 q i" if "m \<le> i" for i using d m that by metis
  show "btf_parse_str_sec p h start = btf_parse_str_sec q h start"
    using m(3) l[of start] l[of "start + str_len h - 1"] by (cases "str_len h = 0") (simp_all add: btf_parse_str_sec_def cong: if_cong)
qed

lemma btf_new_parts:
  assumes "btf_new ra data w = Some (Inr b, w')"
  obtains raw where "btf_parse_hdr data = Some (Inr (swapped_endian b, raw))" "read_hdr raw = Some (raw_hdr b)"
    "btf_parse_str_sec raw (raw_hdr b) (strs_at b) = Some 0" "parsed_as data b"
proof -
  have "parsed_as data b" using btf_new_safe[of ra data w] assms by auto
  moreover have "\<exists>raw. btf_parse_hdr data = Some (Inr (swapped_endian b, raw)) \<and> read_hdr raw = Some (raw_hdr b)
      \<and> btf_parse_str_sec raw (raw_hdr b) (strs_at b) = Some 0"
    using assms by (auto simp: btf_new_def Let_def elim!: bind_SomeE split: prod.splits if_splits sum.splits)
  ultimately show thesis using that by blast
qed

lemma btf_new_intro:
  assumes ra: "\<And>n w. fst (ra n w)" and hdr: "btf_parse_hdr data = Some (Inr (s, raw))" "read_hdr raw = Some h"
    and strs: "btf_parse_str_sec raw h (hdr_len h + str_off h) = Some 0"
    and types: "\<And>w. \<exists>cap w'. type_sec_loop ra s (hdr_len h + type_off h) (hdr_len h + type_off h + type_len h) raw (hdr_len h + type_off h) [] 0 w
      = Some ((0, raw', os, cap), w')"
  shows "\<exists>w'. btf_new ra data w = Some (Inr \<lparr>raw_data = raw', raw_data_swapped = None, raw_size = length data, swapped_endian = s, raw_hdr = h,
    types_at = hdr_len h + type_off h, strs_at = hdr_len h + str_off h, type_offs = os, ptr_sz = 0\<rparr>, w')"
proof -
  obtain w1 where w1: "ra 1 w = (True, w1)" using ra[of 1 w] by (cases "ra 1 w") simp
  obtain w2 where w2: "ra (length data) w1 = (True, w2)" using ra[of "length data" w1] by (cases "ra (length data) w1") simp
  show ?thesis using types[of w2] w1 w2 hdr strs by (auto simp: btf_new_def)
qed

text \<open>The header in the other byte order.\<close>

lemma swap_hdr_append: "length A = 24 \<Longrightarrow> swap_hdr (A @ X) = swap_hdr A @ X"
  by (simp add: swap_hdr_def swap_range_def nth_append)

lemma swap_hdr_twice:
  assumes "24 \<le> length p"
  shows "swap_hdr (swap_hdr p) = p"
proof -
  obtain a b q where p: "p = a # b # q" and q: "22 \<le> length q" using assms by (auto simp: numeral_eq_Suc Suc_le_length_iff)
  have h: "swap_hdr (x # y # q) = y # x # swap_range q 2 5" for x y q by (simp add: swap_hdr_def swap_range_def numeral_eq_Suc)
  show ?thesis using q swap_range_twice[of 2 5 q] by (simp add: p h)
qed

text \<open>A blob whose three parts follow each other, as \<open>btf_get_raw_data\<close> writes it.\<close>

definition plain_layout :: "btf_raw \<Rightarrow> bool" where
  "plain_layout b \<longleftrightarrow> (let h = raw_hdr b in hdr_len h = 24 \<and> type_off h = 0 \<and> str_off h = type_len h
     \<and> length (raw_data b) = 24 + type_len h + str_len h)"

lemma plain_places:
  assumes "raw_wf b" "plain_layout b"
  shows "hdr_len (raw_hdr b) = 24" "types_at b = 24" "strs_at b = 24 + type_len (raw_hdr b)"
    "type_chain (raw_data b) 24 24 (type_offs b) (24 + type_len (raw_hdr b))" "24 + type_len (raw_hdr b) \<le> length (raw_data b)"
  using assms unfolding raw_wf_def plain_layout_def Let_def by auto

lemma plain_parts:
  assumes "raw_wf b" "plain_layout b"
  obtains A T S where "raw_data b = A @ T @ S" "length A = 24" "length T = type_len (raw_hdr b)" "length S = str_len (raw_hdr b)" "4 dvd length T"
proof
  let ?t = "type_len (raw_hdr b)"
  show "raw_data b = take 24 (raw_data b) @ take ?t (drop 24 (raw_data b)) @ drop (24 + ?t) (raw_data b)" by (rule split_range[symmetric])
  have "4 dvd ?t" using type_chain_swap[OF plain_places(4,5)[OF assms]] by simp
  then show "4 dvd length (take ?t (drop 24 (raw_data b)))" using assms(2) by (simp add: plain_layout_def Let_def)
qed (use assms(2) in \<open>simp_all add: plain_layout_def Let_def\<close>)

lemma swap_type_parts: "length A = i \<Longrightarrow> length T = n \<Longrightarrow> 4 dvd n \<Longrightarrow> swap_type True (A @ T @ S) i n = A @ rev4 T @ S"
  by (simp add: swap_type_def swap_range_def)

lemma raw_data_other_order:
  assumes ra: "\<And>n w. fst (ra n w)" and b: "raw_wf b" "plain_layout b" "raw_data_swapped b = None"
    and p: "raw_data b = A @ T @ S" "length A = 24" "length T = type_len (raw_hdr b)" "length S = str_len (raw_hdr b)" "4 dvd length T"
  shows "\<exists>w'. btf_get_raw_data ra b True w = Some (Some (swap_hdr A @ rev4 T @ S, 24 + length T + length S), w')"
proof -
  let ?h = "raw_hdr b"
  have h: "hdr_len ?h = 24" "types_at b = 24" "strs_at b = 24 + length T" using plain_places[OF b(1,2)] p by simp_all
  define Z where "Z = replicate (length S) (0 :: u8)"
  have l: "load_bytes (raw_data b) 0 24 = Some A" "load_bytes (raw_data b) 24 (length T) = Some T" "load_bytes (raw_data b) (24 + length T) (length S) = Some S"
    using p by (simp_all add: load_bytes_def)
  have z: "replicate (24 + length T + length S) (0 :: u8) = replicate 24 0 @ replicate (length T) 0 @ Z" by (simp add: Z_def replicate_add)
  have s1: "store_bytes (replicate (24 + length T + length S) 0) 0 A = Some (A @ replicate (length T) 0 @ Z)"
    unfolding z using p(2) store_at[of "[]" 0 "replicate 24 0" A] by simp
  have s2: "btf_bswap_hdr (A @ replicate (length T) 0 @ Z) = Some (swap_hdr A @ replicate (length T) 0 @ Z)"
    using p(2) by (simp add: bswap_hdr_eq swap_hdr_append)
  have s3: "store_bytes (swap_hdr A @ replicate (length T) 0 @ Z) 24 T = Some (swap_hdr A @ T @ Z)"
    using p(2) by (intro store_at) simp_all
  have "type_chain (A @ T @ S) 24 24 (type_offs b) (24 + length T)" using plain_places(4)[OF b(1,2)] p by simp
  then have "type_chain (A @ T @ Z) 24 24 (type_offs b) (24 + length T)" by (rule type_chain_take[rotated]) (use p in simp)
  then have "type_chain (swap_hdr A @ T @ Z) 24 24 (type_offs b) (24 + length T)"
    using type_chain_drop[of 24 "swap_hdr A @ T @ Z" "A @ T @ Z"] p(2) by simp
  then have s4: "bswap_types 24 (type_offs b) (swap_hdr A @ T @ Z) = Some (0, swap_hdr A @ rev4 T @ Z)"
    using bswap_types_eq[of "swap_hdr A @ T @ Z" 24 24] p swap_type_parts[of "swap_hdr A" 24 T "length T" Z] by simp
  have s5: "store_bytes (swap_hdr A @ rev4 T @ Z) (24 + length T) S = Some (swap_hdr A @ rev4 T @ S)"
    using store_at[of "swap_hdr A @ rev4 T" "24 + length T" Z S "[]"] p(2) by (simp add: Z_def)
  obtain w' where "ra (24 + length T + length S) w = (True, w')" using ra[of "24 + length T + length S" w] by (cases "ra (24 + length T + length S) w") simp
  then show ?thesis using b(3) by (simp add: btf_get_raw_data_def Let_def h p(3,4)[symmetric] l s1 s2 s3 s4 s5 del: replicate.simps)
qed

lemma raw_data_endian: "btf_get_raw_data ra (b\<lparr>swapped_endian := s\<rparr>) swap w = btf_get_raw_data ra b swap w"
proof -
  have "raw_data (b\<lparr>swapped_endian := s\<rparr>) = raw_data b" "raw_data_swapped (b\<lparr>swapped_endian := s\<rparr>) = raw_data_swapped b"
    "raw_size (b\<lparr>swapped_endian := s\<rparr>) = raw_size b"
    "raw_hdr (b\<lparr>swapped_endian := s\<rparr>) = raw_hdr b" "types_at (b\<lparr>swapped_endian := s\<rparr>) = types_at b"
    "strs_at (b\<lparr>swapped_endian := s\<rparr>) = strs_at b" "type_offs (b\<lparr>swapped_endian := s\<rparr>) = type_offs b" by simp_all
  then show ?thesis by (simp only: btf_get_raw_data_def)
qed

lemma ntohl_word32: "bpf_ntohl (word32_le d c b a) = word32_le a b c d"
  using le32_ntohl[of d c b a] word32_le_bytes[of "bpf_ntohl (word32_le d c b a)"] by (simp add: le32_def)

lemma ntohs_word16: "bpf_ntohs (word16_le b a) = word16_le a b"
  using le16_ntohs[of b a] word16_le_bytes[of "bpf_ntohs (word16_le b a)"] by (simp add: le16_def)

lemma load_swap_hdr:
  assumes "24 \<le> length p" "load16 p 0 = Some m" "load32 p 4 = Some l"
  shows "load16 (swap_hdr p) 0 = Some (bpf_ntohs m)" "\<exists>l'. load32 (swap_hdr p) 4 = Some l' \<and> bpf_ntohl l' = l"
proof -
  have "\<exists>a b c d e f g h q. p = a # b # c # d # e # f # g # h # q" using assms(1) by (auto simp: numeral_eq_Suc Suc_le_length_iff)
  then obtain a b c d e f g h q where p: "p = a # b # c # d # e # f # g # h # q" by blast
  have "swap_hdr p = b # a # c # d # h # g # f # e # rev4 (take 16 q) @ drop 16 q"
    by (simp add: p swap_hdr_def swap_range_def)
  then show "load16 (swap_hdr p) 0 = Some (bpf_ntohs m)" "\<exists>l'. load32 (swap_hdr p) 4 = Some l' \<and> bpf_ntohl l' = l"
    using assms(2,3) by (auto simp: p load16_def load32_def ntohs_word16 ntohl_word32)
qed

lemma read_hdr_take: "take 24 p = take 24 q \<Longrightarrow> read_hdr p = read_hdr q"
  using load32_take[of 24 p q] by (simp add: read_hdr_def)

lemma read_hdr_bound: "read_hdr p = Some h \<Longrightarrow> type_len h < 2 ^ 32"
proof -
  have "unat (v :: u32) < 2 ^ 32" for v using unsigned_less[of v] by simp
  then show "read_hdr p = Some h \<Longrightarrow> type_len h < 2 ^ 32" by (auto simp: read_hdr_def elim!: bind_SomeE)
qed

lemma parse_native:
  assumes "btf_parse_hdr data = Some (Inr (False, raw))"
  obtains "24 \<le> length data" "raw = data" "load16 data 0 = Some BTF_MAGIC"
proof (cases "length data < 24")
  case False
  then obtain m l where ml: "load16 data 0 = Some m" "load32 data 4 = Some l" by (simp add: load16_def load32_def)
  define s where "s \<longleftrightarrow> m = bpf_ntohs BTF_MAGIC"
  obtain h where h: "read_hdr (host_hdr s data) = Some h" using False read_hdr_in[of "host_hdr s data"] by auto
  have "m = BTF_MAGIC \<and> raw = data"
    using parse_hdr_eq[OF _ ml s_def h] assms False by (simp add: host_hdr_def split: if_splits)
  then show ?thesis using that ml False by simp
qed (use assms in \<open>simp add: btf_parse_hdr_def\<close>)

text \<open>Parsing the header that was written in the other byte order.\<close>

lemma parse_other_order:
  assumes data: "24 \<le> length data" "load16 data 0 = Some BTF_MAGIC" "read_hdr data = Some h" "hdr_len h = 24" "hdr_ok data h"
    and out: "length out = length data" "take 24 out = take 24 (swap_hdr data)"
  shows "btf_parse_hdr out = Some (Inr (True, swap_hdr out))" "read_hdr (swap_hdr out) = Some h"
proof -
  obtain l where l: "load32 data 4 = Some l" using data(1) load32_in[of 4 data] by auto
  then have "unat l = 24" using data(3,4) by (auto simp: read_hdr_def elim!: bind_SomeE)
  then have "l = 24" by (intro word_unat_eq_iff[THEN iffD2]) simp
  obtain l' where l': "load32 (swap_hdr data) 4 = Some l'" "bpf_ntohl l' = 24" using load_swap_hdr(2)[OF data(1,2) l] \<open>l = 24\<close> by blast
  have "load16 out 0 = load16 (take 24 out) 0" "load16 (swap_hdr data) 0 = load16 (take 24 (swap_hdr data)) 0" by (simp_all add: load16_def)
  then have m: "load16 out 0 = Some (bpf_ntohs BTF_MAGIC)" using out load_swap_hdr(1)[OF data(1,2) l] by simp
  have l2: "load32 out 4 = Some l'" using load32_take[OF out(2), of 4] l' by simp
  have split: "swap_hdr p = swap_hdr (take 24 p) @ drop 24 p" if "24 \<le> length p" for p
    using swap_hdr_append[of "take 24 p" "drop 24 p"] that by simp
  have "take 24 (swap_hdr out) = swap_hdr (take 24 (swap_hdr data))" using split[of out] out data(1) by simp
  also have "\<dots> = take 24 (swap_hdr (swap_hdr data))" using split[of "swap_hdr data"] data(1) by simp
  finally have "take 24 (swap_hdr out) = take 24 data" using swap_hdr_twice[OF data(1)] by simp
  then show h: "read_hdr (swap_hdr out) = Some h" using read_hdr_take data(3) by metis
  show "btf_parse_hdr out = Some (Inr (True, swap_hdr out))"
    using parse_hdr_eq[of out "bpf_ntohs BTF_MAGIC" l' True h] m l2 l'(2) h out(1) data(1,5) by (simp add: host_hdr_def hdr_ok_def)
qed


text \<open>A BTF with the one type \<open>int\<close>.\<close>

definition int_btf :: "u8 list" where
  "int_btf = [0x9F, 0xEB, 1, 0, 24, 0, 0, 0, 0, 0, 0, 0, 16, 0, 0, 0, 16, 0, 0, 0, 5, 0, 0, 0,
     1, 0, 0, 0, 0, 0, 0, 1, 4, 0, 0, 0, 32, 0, 0, 1, 0, 105, 110, 116, 0]"

definition int_btf_raw :: btf_raw where
  "int_btf_raw = \<lparr>raw_data = int_btf, raw_data_swapped = None, raw_size = length int_btf, swapped_endian = False,
     raw_hdr = \<lparr>hdr_len = 24, type_off = 0, type_len = 16, str_off = 16, str_len = 5\<rparr>, types_at = 24, strs_at = 40, type_offs = [0], ptr_sz = 0\<rparr>"

lemma int_btf_bytes:
  "btf_parse_hdr int_btf = Some (Inr (False, int_btf))" "read_hdr int_btf = Some (raw_hdr int_btf_raw)" "btf_type_size int_btf 24 = Some 16"
  "load8 int_btf 40 = Some 0" "load8 int_btf 44 = Some 0"
  by code_simp+

lemma int_btf_parsed: "btf_new (\<lambda>n w. (True, w)) int_btf () = Some (Inr int_btf_raw, ())"
proof -
  have "btf_parse_str_sec int_btf (raw_hdr int_btf_raw) 40 = Some 0" by (simp add: btf_parse_str_sec_def int_btf_bytes int_btf_raw_def)
  moreover have "\<exists>cap. type_sec_loop (\<lambda>n w. (True, w)) False 24 40 int_btf 24 [] 0 () = Some ((0, int_btf, [0], cap), ())"
    by (subst type_sec_loop.simps; subst type_sec_loop.simps) (simp add: int_btf_bytes libbpf_add_mem_def)
  ultimately show ?thesis
    using btf_new_intro[where ra = "\<lambda>n w. (True, w)", OF _ int_btf_bytes(1,2), where raw' = int_btf and os = "[0]" and w = "()"]
    by (simp add: int_btf_raw_def)
qed


text \<open>A header that gives its own length as 0 is accepted, since only an upper bound is checked.  Written in the other byte order, such a BTF
  takes one byte here, and swapping its header writes outside of the allocated block.\<close>

lemma short_header_overflow:
  "\<exists>b. btf_new (\<lambda>n w. (True, w)) [0x9F, 0xEB, 1, 0, 0, 0, 0, 0, 0, 0, 0, 0, 0, 0, 0, 0, 3, 0, 0, 0, 1, 0, 0, 0] () = Some (Inr b, ())
    \<and> btf__raw_data (\<lambda>n w. (True, w)) (btf__set_endianness b BTF_BIG_ENDIAN) () = None"
proof -
  define p :: "u8 list" where "p = [0x9F, 0xEB, 1, 0, 0, 0, 0, 0, 0, 0, 0, 0, 0, 0, 0, 0, 3, 0, 0, 0, 1, 0, 0, 0]"
  define h where "h = \<lparr>hdr_len = 0, type_off = 0, type_len = 0, str_off = 3, str_len = 1\<rparr>"
  let ?b = "\<lparr>raw_data = p, raw_data_swapped = None, raw_size = length p, swapped_endian = False, raw_hdr = h, types_at = 0, strs_at = 3, type_offs = [], ptr_sz = 0\<rparr>"
  have hd: "btf_parse_hdr p = Some (Inr (False, p))" "read_hdr p = Some h" unfolding p_def h_def by code_simp+
  have "btf_parse_str_sec p h 3 = Some 0" by (simp add: btf_parse_str_sec_def load8_def p_def h_def)
  moreover have "\<exists>cap. type_sec_loop (\<lambda>n w. (True, w)) False 0 0 p 0 [] 0 () = Some ((0, p, [], cap), ())"
    by (subst type_sec_loop.simps) simp
  ultimately have "btf_new (\<lambda>n w. (True, w)) p () = Some (Inr ?b, ())"
    using btf_new_intro[where ra = "\<lambda>n w. (True, w)", OF _ hd, where raw' = p and os = "[]" and w = "()"] by (simp add: h_def)
  moreover have "btf__raw_data (\<lambda>n w. (True, w)) (btf__set_endianness ?b BTF_BIG_ENDIAN) () = None"
    by (simp add: btf__raw_data_def btf_get_raw_data_def btf__set_endianness_def h_def load_bytes_def store_bytes_def btf_bswap_hdr_def
        bswap_16_at_def load16_def)
  ultimately show ?thesis unfolding p_def by blast
qed

text \<open>The offsets of the header are copied while the sections are moved together: with a gap of four bytes before the types, what is written
  for the BTF with the type \<open>int\<close> is rejected.\<close>

lemma gap_not_written:
  "\<exists>b out b'. btf_new (\<lambda>n w. (True, w)) ([0x9F, 0xEB, 1, 0, 24, 0, 0, 0, 4, 0, 0, 0, 16, 0, 0, 0, 20, 0, 0, 0, 5, 0, 0, 0, 0, 0, 0, 0] @ drop 24 int_btf) ()
      = Some (Inr b, ())
    \<and> btf__raw_data (\<lambda>n w. (True, w)) (btf__set_endianness b BTF_BIG_ENDIAN) () = Some ((Some (out, 45), b'), ())
    \<and> btf_new (\<lambda>n w. (True, w)) out () = Some (Inl (- EINVAL), ())"
proof -
  define p :: "u8 list" where "p = [0x9F, 0xEB, 1, 0, 24, 0, 0, 0, 4, 0, 0, 0, 16, 0, 0, 0, 20, 0, 0, 0, 5, 0, 0, 0, 0, 0, 0, 0] @ drop 24 int_btf"
  define h where "h = \<lparr>hdr_len = 24, type_off = 4, type_len = 16, str_off = 20, str_len = 5\<rparr>"
  define b where "b = \<lparr>raw_data = p, raw_data_swapped = None, raw_size = length p, swapped_endian = True, raw_hdr = h, types_at = 28, strs_at = 44, type_offs = [0], ptr_sz = 0\<rparr>"
  have hd: "btf_parse_hdr p = Some (Inr (False, p))" "read_hdr p = Some h" "btf_type_size p 28 = Some 16" "load8 p 44 = Some 0" "load8 p 48 = Some 0"
    unfolding p_def h_def by code_simp+
  have "btf_parse_str_sec p h 44 = Some 0" by (simp add: btf_parse_str_sec_def hd h_def)
  moreover have "\<exists>cap. type_sec_loop (\<lambda>n w. (True, w)) False 28 44 p 28 [] 0 () = Some ((0, p, [0], cap), ())"
    by (subst type_sec_loop.simps; subst type_sec_loop.simps) (simp add: hd libbpf_add_mem_def)
  ultimately have "btf_new (\<lambda>n w. (True, w)) p () = Some (Inr (b\<lparr>swapped_endian := False\<rparr>), ())"
    using btf_new_intro[where ra = "\<lambda>n w. (True, w)", OF _ hd(1,2), where raw' = p and os = "[0]" and w = "()"] by (simp add: h_def b_def)
  moreover have "btf__set_endianness (b\<lparr>swapped_endian := False\<rparr>) BTF_BIG_ENDIAN = b" by (simp add: btf__set_endianness_def b_def)
  moreover have "case btf_get_raw_data (\<lambda>n w. (True, w)) b True () of Some (Some (out, n), _) \<Rightarrow> n = 45 \<and> btf_parse_hdr out = Some (Inl (- EINVAL)) | _ \<Rightarrow> False"
    unfolding b_def p_def h_def by code_simp
  then obtain out where out: "btf_get_raw_data (\<lambda>n w. (True, w)) b True () = Some (Some (out, 45), ())" "btf_parse_hdr out = Some (Inl (- EINVAL))"
    by (auto split: option.splits)
  moreover have "btf_new (\<lambda>n w. (True, w)) out () = Some (Inl (- EINVAL), ())" using out(2) by (simp add: btf_new_def)
  moreover have "swapped_endian b" by (simp add: b_def)
  then have "btf__raw_data (\<lambda>n w. (True, w)) b () = Some ((Some (out, 45), b\<lparr>raw_size := 45, raw_data_swapped := Some out\<rparr>), ())" using out(1) by (simp add: btf__raw_data_def)
  ultimately show ?thesis unfolding p_def[symmetric] by metis
qed

end
