(* ===== verification/Parsing_Helpers.thy ===== *)
theory Parsing_Helpers
  imports Xdp_Prelude
begin

text \<open>
  The header parsers of \<open>common/parsing_helpers.h\<close>.  The cursor \<open>nh->pos\<close> and every header pointer
  are offsets into the packet, \<open>data_end\<close> is the packet length.  A parser returns its \<open>int\<close>
  result, the new cursor and the offset it stored through the header pointer (\<^const>\<open>None\<close> when it
  returned before storing one).  The contract shared by all of them is the locale
  \<open>header_parser\<close>; every parser is an interpretation of it, and the composition lemma for a
  pipeline of parsers is proved once, inside the locale's theory.
\<close>

type_synonym cursor = nat
type_synonym parse_result = "(int \<times> cursor \<times> nat option) option"
type_synonym parser = "packet \<Rightarrow> cursor \<Rightarrow> parse_result"

abbreviation (input) ETH_P_8021Q :: u16 where "ETH_P_8021Q \<equiv> 0x8100"
abbreviation (input) ETH_P_8021AD :: u16 where "ETH_P_8021AD \<equiv> 0x88A8"
abbreviation (input) VLAN_MAX_DEPTH :: nat where "VLAN_MAX_DEPTH \<equiv> 2"
abbreviation (input) VLAN_VID_MASK :: u16 where "VLAN_VID_MASK \<equiv> 0x0fff"

subsection \<open>Ethernet and VLAN\<close>

definition proto_is_vlan :: "u16 \<Rightarrow> bool" where
  "proto_is_vlan h_proto \<longleftrightarrow> h_proto = bpf_htons ETH_P_8021Q \<or> h_proto = bpf_htons ETH_P_8021AD"

text \<open>
  The unrolled loop over VLAN tags: \<open>i\<close> is the loop counter, the first argument the iterations
  left, \<open>vlans\<close> the collected identifiers when the caller wants them.
\<close>

fun vlan_loop :: "nat \<Rightarrow> nat \<Rightarrow> packet \<Rightarrow> nat \<Rightarrow> u16 \<Rightarrow> u16 list option
    \<Rightarrow> (nat \<times> u16 \<times> u16 list option) option" where
  "vlan_loop 0 i p vlh h_proto vlans = Some (vlh, h_proto, vlans)"
| "vlan_loop (Suc n) i p vlh h_proto vlans =
     (if \<not> proto_is_vlan h_proto then Some (vlh, h_proto, vlans)
      else if vlh + 4 > length p then Some (vlh, h_proto, vlans)
      else do {
        h_proto \<leftarrow> load16 p (vlh + 2);
        vlans \<leftarrow> (case vlans of
            None \<Rightarrow> Some None
          | Some ids \<Rightarrow> do {
              tci \<leftarrow> load16 p vlh;
              Some (Some (ids[i := bpf_ntohs tci AND VLAN_VID_MASK]))
            });
        vlan_loop n (i + 1) p (vlh + 4) h_proto vlans
      })"

definition parse_ethhdr_vlan ::
  "packet \<Rightarrow> cursor \<Rightarrow> u16 list option \<Rightarrow> (int \<times> cursor \<times> nat option \<times> u16 list option) option" where
  "parse_ethhdr_vlan p nh vlans =
     (let hdrsize = 14 in
      if nh + hdrsize > length p then Some (-1, nh, None, vlans)
      else do {
        h_proto \<leftarrow> load16 p (nh + 12);
        (vlh, h_proto, vlans) \<leftarrow> vlan_loop VLAN_MAX_DEPTH 0 p (nh + hdrsize) h_proto vlans;
        Some (uint h_proto, vlh, Some nh, vlans)
      })"

definition parse_ethhdr :: parser where
  "parse_ethhdr p nh = do {
     (ret, nh, eth, _) \<leftarrow> parse_ethhdr_vlan p nh None;
     Some (ret, nh, eth)
   }"

subsection \<open>Network and transport headers\<close>

definition parse_ip6hdr :: parser where
  "parse_ip6hdr p nh =
     (if nh + 40 > length p then Some (-1, nh, None)
      else do {
        nexthdr \<leftarrow> load8 p (nh + 6);
        Some (uint nexthdr, nh + 40, Some nh)
      })"

definition parse_iphdr :: parser where
  "parse_iphdr p nh =
     (if nh + 20 > length p then Some (-1, nh, None)
      else do {
        vihl \<leftarrow> load8 p nh;
        let hdrsize = unat (vihl AND 0x0F) * 4;
        if hdrsize < 20 then Some (-1, nh, None)
        else if nh + hdrsize > length p then Some (-1, nh, None)
        else do {
          protocol \<leftarrow> load8 p (nh + 9);
          Some (uint protocol, nh + hdrsize, Some nh)
        }
      })"

definition parse_icmp6hdr :: parser where
  "parse_icmp6hdr p nh =
     (if nh + 8 > length p then Some (-1, nh, None)
      else do { icmp6_type \<leftarrow> load8 p nh; Some (uint icmp6_type, nh + 8, Some nh) })"

definition parse_icmphdr :: parser where
  "parse_icmphdr p nh =
     (if nh + 8 > length p then Some (-1, nh, None)
      else do { type \<leftarrow> load8 p nh; Some (uint type, nh + 8, Some nh) })"

definition parse_icmphdr_common :: parser where
  "parse_icmphdr_common p nh =
     (if nh + 4 > length p then Some (-1, nh, None)
      else do { type \<leftarrow> load8 p nh; Some (uint type, nh + 4, Some nh) })"

text \<open>\<open>len\<close> is the 16-bit length minus eight, an \<open>int\<close>; a negative one is reported as \<open>-1\<close>.\<close>

definition parse_udphdr :: parser where
  "parse_udphdr p nh =
     (if nh + 8 > length p then Some (-1, nh, None)
      else do {
        udplen \<leftarrow> load16 p (nh + 4);
        let len = uint (bpf_ntohs udplen) - 8;
        if len < 0 then Some (-1, nh + 8, Some nh) else Some (len, nh + 8, Some nh)
      })"

definition parse_tcphdr :: parser where
  "parse_tcphdr p nh =
     (if nh + 20 > length p then Some (-1, nh, None)
      else do {
        b \<leftarrow> load8 p (nh + 12);
        let len = unat (drop_bit 4 b) * 4;
        if len < 20 then Some (-1, nh, None)
        else if nh + len > length p then Some (-1, nh, None)
        else Some (int len, nh + len, Some nh)
      })"

subsection \<open>The contract\<close>

text \<open>
  A parser never faults; if it stores a header, that header starts at the cursor, has its
  fixed part inside the packet, and the cursor moves past it without leaving the packet;
  otherwise it reports \<open>-1\<close> and the cursor stays.
\<close>

locale header_parser =
  fixes parse :: parser and hdr_size :: nat
  assumes contract: "\<exists>ret nh' h. parse p nh = Some (ret, nh', h)
      \<and> (case h of None \<Rightarrow> ret = -1 \<and> nh' = nh
         | Some off \<Rightarrow> off = nh \<and> nh + hdr_size \<le> nh' \<and> nh' \<le> length p \<and> -1 \<le> ret)"
begin

lemma total: "\<exists>ret nh' h. parse p nh = Some (ret, nh', h)"
  using contract[of p nh] by blast

lemma accepted: "parse p nh = Some (ret, nh', h) \<Longrightarrow> 0 \<le> ret \<Longrightarrow>
    h = Some nh \<and> nh + hdr_size \<le> nh' \<and> nh' \<le> length p"
  using contract[of p nh] by (auto split: option.splits)

lemma cursor_bounds: "parse p nh = Some (ret, nh', h) \<Longrightarrow> nh \<le> length p \<Longrightarrow>
    nh \<le> nh' \<and> nh' \<le> length p"
  using contract[of p nh] by (auto split: option.splits)

end

text \<open>Running parsers one after the other, stopping at the first error, as the callers do.\<close>

fun parse_chain :: "parser list \<Rightarrow> packet \<Rightarrow> cursor \<Rightarrow> ((int \<times> nat) list \<times> cursor) option" where
  "parse_chain [] p nh = Some ([], nh)"
| "parse_chain (f # fs) p nh = do {
     (ret, nh, h) \<leftarrow> f p nh;
     case h of
       None \<Rightarrow> Some ([], nh)
     | Some off \<Rightarrow>
         if ret < 0 then Some ([], nh)
         else do { (hs, nh) \<leftarrow> parse_chain fs p nh; Some ((ret, off) # hs, nh) }
   }"

lemma parse_chain_safe:
  assumes "\<forall>f \<in> set fs. \<exists>sz. header_parser f sz" and "nh \<le> length p"
  shows "\<exists>hs nh'. parse_chain fs p nh = Some (hs, nh') \<and> nh \<le> nh' \<and> nh' \<le> length p
           \<and> (\<forall>(ret, off) \<in> set hs. nh \<le> off \<and> off \<le> nh')"
  using assms
proof (induction fs arbitrary: nh)
  case (Cons f fs)
  from Cons.prems(1) obtain sz where f: "header_parser f sz" by auto
  obtain ret n1 h where r: "f p nh = Some (ret, n1, h)"
    using header_parser.total[OF f, of p nh] by blast
  have b: "nh \<le> n1" "n1 \<le> length p" using header_parser.cursor_bounds[OF f r Cons.prems(2)] by auto
  show ?case
  proof (cases "h = None \<or> ret < 0")
    case True
    then show ?thesis using r b by (auto split: option.split)
  next
    case False
    then have h: "h = Some nh" using header_parser.accepted[OF f r] by simp
    from Cons.IH[of n1] Cons.prems(1) b obtain hs n2 where
      c: "parse_chain fs p n1 = Some (hs, n2)" "n1 \<le> n2" "n2 \<le> length p"
         "\<forall>(ret, off) \<in> set hs. n1 \<le> off \<and> off \<le> n2" by auto
    then show ?thesis using r b h False by fastforce
  qed
qed simp

subsection \<open>Interpretations\<close>

lemma vlan_loop_total:
  "vlh \<le> length p \<Longrightarrow> \<exists>vlh' h v. vlan_loop n i p vlh h_proto vlans = Some (vlh', h, v)
     \<and> vlh \<le> vlh' \<and> vlh' \<le> vlh + 4 * n \<and> vlh' \<le> length p"
proof (induction n arbitrary: i vlh h_proto vlans)
  case (Suc n)
  show ?case
  proof (cases "proto_is_vlan h_proto \<and> vlh + 4 \<le> length p")
    case True
    then have b: "vlh + 4 \<le> length p" by simp
    from True obtain h where h: "load16 p (vlh + 2) = Some h" by (simp add: load16_Some)
    from True obtain t where t: "load16 p vlh = Some t" by (simp add: load16_Some)
    show ?thesis
    proof (cases vlans)
      case None
      with True h Suc.IH[OF b, of "i + 1" h None] show ?thesis by auto
    next
      case (Some ids)
      with True h t Suc.IH[OF b, of "i + 1" h "Some (ids[i := bpf_ntohs t AND VLAN_VID_MASK])"]
      show ?thesis by auto
    qed
  qed (use Suc.prems in auto)
qed simp

lemma eth_parser: "header_parser parse_ethhdr 14"
proof
  fix p :: packet and nh :: nat
  show "\<exists>ret nh' h. parse_ethhdr p nh = Some (ret, nh', h)
      \<and> (case h of None \<Rightarrow> ret = -1 \<and> nh' = nh
         | Some off \<Rightarrow> off = nh \<and> nh + 14 \<le> nh' \<and> nh' \<le> length p \<and> -1 \<le> ret)"
  proof (cases "nh + 14 \<le> length p")
    case True
    then obtain h where h: "load16 p (nh + 12) = Some h" by (simp add: load16_Some)
    obtain v h' vs where v: "vlan_loop VLAN_MAX_DEPTH 0 p (nh + 14) h None = Some (v, h', vs)"
      and b: "nh + 14 \<le> v" "v \<le> length p"
      using vlan_loop_total[OF True, of VLAN_MAX_DEPTH 0 h None] by blast
    have "0 \<le> uint h'" by simp
    then have "-1 \<le> uint h'" by linarith
    then show ?thesis
      using True h v b by (simp add: parse_ethhdr_def parse_ethhdr_vlan_def)
  qed (simp add: parse_ethhdr_def parse_ethhdr_vlan_def)
qed

lemma uint_ge_minus1: "-1 \<le> uint w"
  using uint_nonnegative[of w] by linarith

lemma uint_times4: "-1 \<le> uint w * 4"
  using uint_nonnegative[of w] by linarith

interpretation eth: header_parser parse_ethhdr 14 by (rule eth_parser)

interpretation ip6: header_parser parse_ip6hdr 40
  by unfold_locales (auto simp: parse_ip6hdr_def load8_Some uint_ge_minus1)

interpretation ip4: header_parser parse_iphdr 20
  by unfold_locales (auto simp: parse_iphdr_def load8_Some Let_def uint_ge_minus1)

interpretation icmp6: header_parser parse_icmp6hdr 8
  by unfold_locales (auto simp: parse_icmp6hdr_def load8_Some uint_ge_minus1)

interpretation icmp4: header_parser parse_icmphdr 8
  by unfold_locales (auto simp: parse_icmphdr_def load8_Some uint_ge_minus1)

interpretation icmpc: header_parser parse_icmphdr_common 4
  by unfold_locales (auto simp: parse_icmphdr_common_def load8_Some uint_ge_minus1)

interpretation udp: header_parser parse_udphdr 8
  by unfold_locales (auto simp: parse_udphdr_def load16_Some Let_def)

interpretation tcp: header_parser parse_tcphdr 20
  by unfold_locales (auto simp: parse_tcphdr_def load8_Some Let_def uint_times4)

definition common_parsers :: "parser list" where
  "common_parsers = [parse_ethhdr, parse_ip6hdr, parse_iphdr, parse_icmp6hdr, parse_icmphdr,
     parse_icmphdr_common, parse_udphdr, parse_tcphdr]"

lemma common_parsers_ok: "f \<in> set common_parsers \<Longrightarrow> \<exists>sz. header_parser f sz"
  unfolding common_parsers_def
  using eth.header_parser_axioms ip6.header_parser_axioms ip4.header_parser_axioms
    icmp6.header_parser_axioms icmp4.header_parser_axioms icmpc.header_parser_axioms
    udp.header_parser_axioms tcp.header_parser_axioms by auto

lemma vlan_loop_stop:
  assumes "vlan_loop n i p vlh h_proto vlans = Some (vlh', h, v)"
  shows "\<exists>k \<le> n. vlh' = vlh + 4 * k
     \<and> (k = n \<or> \<not> proto_is_vlan h \<or> vlh' + 4 > length p)
     \<and> (k = 0 \<longrightarrow> h = h_proto) \<and> (0 < k \<longrightarrow> load16 p (vlh' - 2) = Some h)"
  using assms
proof (induction n arbitrary: i vlh h_proto vlans)
  case (Suc n)
  show ?case
  proof (cases "proto_is_vlan h_proto \<and> vlh + 4 \<le> length p")
    case True
    with Suc.prems obtain h1 v1 where h1: "load16 p (vlh + 2) = Some h1"
      and r: "vlan_loop n (i + 1) p (vlh + 4) h1 v1 = Some (vlh', h, v)"
      by (auto simp: bind_eq_Some_conv split: option.splits)
    from Suc.IH[OF r] obtain k where k: "k \<le> n" "vlh' = vlh + 4 + 4 * k"
      "k = n \<or> \<not> proto_is_vlan h \<or> vlh' + 4 > length p" "k = 0 \<longrightarrow> h = h1"
      "0 < k \<longrightarrow> load16 p (vlh' - 2) = Some h" by blast
    have "load16 p (vlh' - 2) = Some h"
      using k h1 by (cases "k = 0") (simp_all add: numeral_eq_Suc)
    then show ?thesis using k by (intro exI[of _ "Suc k"]) auto
  next
    case False
    then show ?thesis using Suc.prems by (intro exI[of _ 0]) (auto split: if_splits)
  qed
qed simp

subsection \<open>Properties\<close>

text \<open>C40: any pipeline of the header parsers, started at any offset inside the packet, reads
  inside the packet only, never moves the cursor backwards or past the end, and reports headers
  that lie between the start and the final cursor.\<close>

theorem common_pipeline_safe:
  assumes "set fs \<subseteq> set common_parsers" and "nh \<le> length p"
  shows "\<exists>hs nh'. parse_chain fs p nh = Some (hs, nh') \<and> nh \<le> nh' \<and> nh' \<le> length p
           \<and> (\<forall>(ret, off) \<in> set hs. nh \<le> off \<and> off \<le> nh')"
  using assms common_parsers_ok by (intro parse_chain_safe) auto

theorem common_pipeline_safe_witness:
  "\<exists>hs nh'. parse_chain [parse_ethhdr, parse_iphdr, parse_udphdr] (replicate 60 0x45) 0 = Some (hs, nh')
     \<and> nh' \<le> 60"
  using common_pipeline_safe[of "[parse_ethhdr, parse_iphdr, parse_udphdr]" 0 "replicate 60 0x45"]
  by (auto simp: common_parsers_def)

text \<open>On success the Ethernet parser has skipped at most two VLAN tags; it stops at a
  protocol that is not a VLAN tag unless the depth is exhausted or the packet ends, and the
  protocol it returns is the 16-bit field in front of the new cursor.\<close>

theorem parse_ethhdr_strips:
  assumes "parse_ethhdr p nh = Some (ret, nh', Some eth)"
  shows "\<exists>k h. k \<le> VLAN_MAX_DEPTH \<and> nh' = nh + 14 + 4 * k \<and> nh' \<le> length p
     \<and> load16 p (nh' - 2) = Some h \<and> ret = uint h
     \<and> (k = VLAN_MAX_DEPTH \<or> \<not> proto_is_vlan h \<or> nh' + 4 > length p)"
proof -
  from assms obtain h0 v h vs where len: "nh + 14 \<le> length p" and h0: "load16 p (nh + 12) = Some h0"
    and loop: "vlan_loop VLAN_MAX_DEPTH 0 p (nh + 14) h0 None = Some (v, h, vs)"
    and r: "ret = uint h" "nh' = v"
    by (auto simp: parse_ethhdr_def parse_ethhdr_vlan_def bind_eq_Some_conv split: if_splits)
  from vlan_loop_stop[OF loop] obtain k where k: "k \<le> VLAN_MAX_DEPTH" "v = nh + 14 + 4 * k"
    "k = VLAN_MAX_DEPTH \<or> \<not> proto_is_vlan h \<or> v + 4 > length p" "k = 0 \<longrightarrow> h = h0"
    "0 < k \<longrightarrow> load16 p (v - 2) = Some h" by (elim exE conjE) (rule that)
  have "load16 p (v - 2) = Some h" using k(2,4,5) h0 by (cases "k = 0") (auto simp: add.commute)
  moreover have "v \<le> length p"
    using vlan_loop_total[OF len, of VLAN_MAX_DEPTH 0 h0 None] loop by auto
  ultimately show ?thesis using k r by blast
qed

definition qinq_frame :: packet where
  "qinq_frame = replicate 12 0 @ [0x88, 0xA8, 0, 7, 0x81, 0, 0, 42, 0x08, 0] @ replicate 40 0"

theorem parse_ethhdr_strips_witness:
  "\<exists>k h. k \<le> VLAN_MAX_DEPTH \<and> (22 :: nat) = 14 + 4 * k \<and> load16 qinq_frame 20 = Some h
     \<and> uint h = 8"
proof -
  have "parse_ethhdr qinq_frame 0 = Some (8, 22, Some 0)"
    by code_simp
  from parse_ethhdr_strips[OF this] show ?thesis by auto
qed

end
