(* ===== verification/Rewrite_Helpers.thy ===== *)
theory Rewrite_Helpers
  imports Parsing_Helpers Bpf_Maps
begin

text \<open>
  The packet rewriting functions of \<open>common/rewrite_helpers.h\<close> and the per-action statistics of
  \<open>common/xdp_stats_kern.h\<close>.  \<open>bpf_xdp_adjust_head\<close> is kernel code and a parameter; the locale
  \<open>xdp_adjust\<close> states what its documentation promises: moving the head forward cuts bytes off the
  front, moving it backward adds bytes of unspecified content, and a failing call changes
  nothing.  An \<open>eth\<close> pointer argument is an offset into the packet.
\<close>

type_synonym adjust_head = "packet \<Rightarrow> int \<Rightarrow> int \<times> packet"

subsection \<open>VLAN tags\<close>

definition vlan_tag_pop :: "adjust_head \<Rightarrow> packet \<Rightarrow> nat \<Rightarrow> (int \<times> packet) option" where
  "vlan_tag_pop adj p eth = do {
     eth_proto \<leftarrow> load16 p (eth + 12);
     if \<not> proto_is_vlan eth_proto then Some (-1, p)
     else if eth + 14 + 4 > length p then Some (-1, p)
     else do {
       tci \<leftarrow> load16 p (eth + 14);
       let vlid = uint (bpf_ntohs tci);
       h_proto \<leftarrow> load16 p (eth + 14 + 2);
       eth_cpy \<leftarrow> load_bytes p eth 14;
       let (err, p) = adj p 4;
       if err \<noteq> 0 then Some (-1, p)
       else if 14 > length p then Some (-1, p)
       else do {
         p \<leftarrow> store_bytes p 0 eth_cpy;
         p \<leftarrow> store16 p 12 h_proto;
         Some (vlid, p)
       }
     }
   }"

definition vlan_tag_push :: "adjust_head \<Rightarrow> packet \<Rightarrow> nat \<Rightarrow> int \<Rightarrow> (int \<times> packet) option" where
  "vlan_tag_push adj p eth vlid = do {
     eth_cpy \<leftarrow> load_bytes p eth 14;
     let (err, p) = adj p (-4);
     if err \<noteq> 0 then Some (-1, p)
     else if 14 > length p then Some (-1, p)
     else do {
       p \<leftarrow> store_bytes p 0 eth_cpy;
       if 14 + 4 > length p then Some (-1, p)
       else do {
         p \<leftarrow> store16 p 14 (bpf_htons (word_of_int vlid));
         eth_proto \<leftarrow> load16 p 12;
         p \<leftarrow> store16 p 16 eth_proto;
         p \<leftarrow> store16 p 12 (bpf_htons ETH_P_8021Q);
         Some (0, p)
       }
     }
   }"

subsection \<open>Address swaps\<close>

definition swap_src_dst_mac :: "packet \<Rightarrow> nat \<Rightarrow> packet option" where
  "swap_src_dst_mac p eth = do {
     h_tmp \<leftarrow> load_bytes p (eth + 6) 6;
     h_dest \<leftarrow> load_bytes p eth 6;
     p \<leftarrow> store_bytes p (eth + 6) h_dest;
     store_bytes p eth h_tmp
   }"

definition swap_src_dst_ipv6 :: "packet \<Rightarrow> nat \<Rightarrow> packet option" where
  "swap_src_dst_ipv6 p ipv6 = do {
     tmp \<leftarrow> load_bytes p (ipv6 + 8) 16;
     daddr \<leftarrow> load_bytes p (ipv6 + 24) 16;
     p \<leftarrow> store_bytes p (ipv6 + 8) daddr;
     store_bytes p (ipv6 + 24) tmp
   }"

definition swap_src_dst_ipv4 :: "packet \<Rightarrow> nat \<Rightarrow> packet option" where
  "swap_src_dst_ipv4 p iphdr = do {
     tmp \<leftarrow> load_bytes p (iphdr + 12) 4;
     daddr \<leftarrow> load_bytes p (iphdr + 16) 4;
     p \<leftarrow> store_bytes p (iphdr + 12) daddr;
     store_bytes p (iphdr + 16) tmp
   }"

subsection \<open>Statistics per action\<close>

record datarec =
  rx_packets :: u64
  rx_bytes :: u64

abbreviation (input) XDP_ACTION_MAX :: u32 where "XDP_ACTION_MAX \<equiv> 5"

text \<open>\<open>ctx->data_end - ctx->data\<close> is a 32-bit difference.\<close>

definition xdp_stats_record_action ::
  "('s, u32, datarec) bpf_map_ops \<Rightarrow> 's \<Rightarrow> packet \<Rightarrow> u32 \<Rightarrow> u32 \<times> 's" where
  "xdp_stats_record_action ops m p action =
     (if action \<ge> XDP_ACTION_MAX then (xdp_action_code XDP_ABORTED, m)
      else case map_lookup ops m action of
             None \<Rightarrow> (xdp_action_code XDP_ABORTED, m)
           | Some rec \<Rightarrow>
               (let rec = rec\<lparr>rx_packets := rx_packets rec + 1\<rparr>;
                    rec = rec\<lparr>rx_bytes := rx_bytes rec + ucast (of_nat (length p) :: u32)\<rparr>
                in (action, map_poke ops m action rec)))"

subsection \<open>Lemmas\<close>

lemma load_store_split:
  assumes "p = a @ x @ b @ y @ c" and "length x = n" and "length y = n"
  shows "do { t \<leftarrow> load_bytes p (length a) n; d \<leftarrow> load_bytes p (length a + n + length b) n;
              p \<leftarrow> store_bytes p (length a) d; store_bytes p (length a + n + length b) t }
         = Some (a @ y @ b @ x @ c)"
  using assms by (simp add: load_bytes_def store_bytes_def)

lemma split_regions:
  assumes "i + n + k + n \<le> length p"
  obtains a x b y c where "p = a @ x @ b @ y @ c" "length a = i" "length x = n" "length b = k"
    "length y = n"
proof
  show "p = take i p @ take n (drop i p) @ take k (drop (i + n) p) @ take n (drop (i + n + k) p)
           @ drop (i + n + k + n) p"
    by (metis append_take_drop_id drop_drop add.commute add.assoc)
qed (use assms in auto)

text \<open>The three swaps exchange two regions of the packet and leave the rest in place.\<close>

lemma swap_mac_regions:
  assumes "length x = 6" and "length y = 6"
  shows "swap_src_dst_mac (a @ x @ y @ c) (length a) = Some (a @ y @ x @ c)"
  using assms by (simp add: swap_src_dst_mac_def load_bytes_def store_bytes_def)

lemma swap_ipv6_regions:
  assumes "length x = 16" and "length y = 16" and "length a = i + 8"
  shows "swap_src_dst_ipv6 (a @ x @ y @ c) i = Some (a @ y @ x @ c)"
  using assms by (simp add: swap_src_dst_ipv6_def load_bytes_def store_bytes_def)

lemma swap_ipv4_regions:
  assumes "length x = 4" and "length y = 4" and "length a = i + 12"
  shows "swap_src_dst_ipv4 (a @ x @ y @ c) i = Some (a @ y @ x @ c)"
  using assms by (simp add: swap_src_dst_ipv4_def load_bytes_def store_bytes_def)

lemma bpf_htons_bytes:
  "bpf_htons w = word16_le (ucast (drop_bit 8 w)) (ucast w)"
  unfolding bpf_htons_def word16_le_def
  by (rule bit_word_eqI) (auto simp: bit_simps dest: bit_imp_le_length)

lemma word16_le_split:
  "ucast (word16_le a b) = a" "ucast (drop_bit 8 (word16_le a b)) = b"
  by (rule bit_word_eqI; auto simp: word16_le_def bit_simps dest: bit_imp_le_length)+

lemma store16_app:
  "length a = i \<Longrightarrow> store16 (a @ x # y # c) i w = Some (a @ ucast w # ucast (drop_bit 8 w) # c)"
  by (simp add: store16_def store_bytes_def)

lemma load16_app: "length a = i \<Longrightarrow> load16 (a @ x # y # c) i = Some (word16_le x y)"
  by (simp add: load16_def nth_append)

locale xdp_adjust =
  fixes adj :: adjust_head
  assumes shrink: "adj p (int n) = (0, q) \<Longrightarrow> q = drop n p"
    and grow: "adj p (- int n) = (0, q) \<Longrightarrow> \<exists>pre. length pre = n \<and> q = pre @ p"
    and fail: "adj p d = (e, q) \<Longrightarrow> e \<noteq> 0 \<Longrightarrow> q = p"
begin

text \<open>What a successful push and a successful pop at the start of the packet leave behind.\<close>

lemma push_result:
  assumes "length m = 12" and "fst (adj (m @ a # b # rest) (-4)) = 0"
  shows "vlan_tag_push adj (m @ a # b # rest) 0 vlid =
    Some (0, m @ 0x81 # 0 # ucast (drop_bit 8 (word_of_int vlid :: u16)) # ucast (word_of_int vlid :: u16)
            # a # b # rest)"
proof -
  let ?p = "m @ a # b # rest"
  obtain q where adj: "adj ?p (-4) = (0, q)" using assms(2) by (cases "adj ?p (-4)") auto
  then obtain pre where "length pre = 4" and q: "q = pre @ ?p" using grow[of ?p 4 q] by auto
  then obtain p0 p1 p2 p3 where pre: "pre = [p0, p1, p2, p3]"
    by (auto simp: numeral_eq_Suc length_Suc_conv)
  have "length (drop 10 m) = 2" using assms(1) by simp
  then obtain x y where xy: "drop 10 m = [x, y]" by (rule length2E)
  have cpy: "load_bytes ?p 0 14 = Some (m @ [a, b])" using assms(1) by (simp add: load_bytes_def)
  have "drop 14 q = x # y # a # b # rest" using assms(1) xy by (simp add: q pre)
  then have s1: "store_bytes q 0 (m @ [a, b]) = Some ((m @ [a, b]) @ x # y # a # b # rest)"
    using assms(1) by (simp add: store_bytes_def q pre)
  let ?v = "bpf_htons (word_of_int vlid)"
  have s2: "store16 ((m @ [a, b]) @ x # y # a # b # rest) 14 ?v =
      Some (m @ a # b # ucast ?v # ucast (drop_bit 8 ?v) # a # b # rest)"
    using assms(1) by (subst store16_app) simp_all
  have s3: "store16 (m @ a # b # ucast ?v # ucast (drop_bit 8 ?v) # a # b # rest) 16 (word16_le a b) =
      Some (m @ a # b # ucast ?v # ucast (drop_bit 8 ?v) # a # b # rest)"
    using assms(1) store16_app[of "m @ [a, b, ucast ?v, ucast (drop_bit 8 ?v)]" 16 a b rest]
    by (simp add: word16_le_split)
  have s4: "store16 (m @ a # b # ucast ?v # ucast (drop_bit 8 ?v) # a # b # rest) 12
        (bpf_htons ETH_P_8021Q) = Some (m @ 0x81 # 0 # ucast ?v # ucast (drop_bit 8 ?v) # a # b # rest)"
    using assms(1) by (subst store16_app) (simp_all add: bpf_htons_def)
  have l: "load16 (m @ a # b # ucast ?v # ucast (drop_bit 8 ?v) # a # b # rest) 12 = Some (word16_le a b)"
    using assms(1) by (rule load16_app)
  have v: "ucast ?v = (ucast (drop_bit 8 (word_of_int vlid :: u16)) :: u8)"
    "ucast (drop_bit 8 ?v) = (ucast (word_of_int vlid :: u16) :: u8)"
    by (simp_all only: bpf_htons_bytes word16_le_split)
  have len: "\<not> length q < 14" using assms(1) by (simp add: q pre)
  show ?thesis
    using assms(1) by (simp add: vlan_tag_push_def cpy adj len s1 s2[unfolded v] l[unfolded v] s3[unfolded v]
        s4[unfolded v] del: append.assoc append_assoc)
qed

lemma pop_result:
  assumes "length m = 12" and "proto_is_vlan (word16_le t0 t1)"
    and "fst (adj (m @ t0 # t1 # v0 # v1 # a # b # rest) 4) = 0"
  shows "vlan_tag_pop adj (m @ t0 # t1 # v0 # v1 # a # b # rest) 0 =
    Some (uint (word16_le v1 v0), m @ a # b # rest)"
proof -
  let ?p = "m @ t0 # t1 # v0 # v1 # a # b # rest"
  obtain q where adj: "adj ?p 4 = (0, q)" using assms(3) by (cases "adj ?p 4") auto
  then have q: "q = drop 4 m @ t0 # t1 # v0 # v1 # a # b # rest"
    using shrink[of ?p 4 q] assms(1) by simp
  have l1: "load16 ?p 12 = Some (word16_le t0 t1)" using assms(1) by (rule load16_app)
  have l2: "load16 ?p 14 = Some (word16_le v0 v1)"
    using assms(1) load16_app[of "m @ [t0, t1]" 14 v0 v1] by simp
  have l3: "load16 ?p 16 = Some (word16_le a b)"
    using assms(1) load16_app[of "m @ [t0, t1, v0, v1]" 16 a b] by simp
  have cpy: "load_bytes ?p 0 14 = Some (m @ [t0, t1])" using assms(1) by (simp add: load_bytes_def)
  have "drop 14 q = rest" using assms(1) by (simp add: q)
  then have s1: "store_bytes q 0 (m @ [t0, t1]) = Some (m @ t0 # t1 # rest)"
    using assms(1) by (simp add: store_bytes_def q)
  have s2: "store16 (m @ t0 # t1 # rest) 12 (word16_le a b) = Some (m @ a # b # rest)"
    using assms(1) by (simp add: store16_app word16_le_split)
  show ?thesis
    using assms(1,2) by (simp add: vlan_tag_pop_def l1 l2 l3 cpy adj s1 s2 bpf_ntohs_word16_le) (simp add: q)
qed

end

text \<open>A head adjustment with room for \<open>hr\<close> bytes in front of the packet.\<close>

definition headroom_adj :: "nat \<Rightarrow> adjust_head" where
  "headroom_adj hr p d =
     (if 0 \<le> d \<and> d \<le> int (length p) then (0, drop (nat d) p)
      else if d < 0 \<and> - d \<le> int hr then (0, replicate (nat (- d)) 0 @ p)
      else (-22, p))"

interpretation hra: xdp_adjust "headroom_adj hr" for hr
  by unfold_locales (auto simp: headroom_adj_def split: if_splits)

lemma split12:
  assumes "14 \<le> length p"
  obtains m a b rest where "length m = 12" "p = m @ a # b # rest"
proof -
  have l: "length (take 2 (drop 12 p)) = 2" using assms by simp
  then obtain a b where ab: "take 2 (drop 12 p) = [a, b]" by (rule length2E)
  have "p = take 12 p @ take 2 (drop 12 p) @ drop 2 (drop 12 p)"
    by (simp only: append_take_drop_id)
  then have "p = take 12 p @ a # b # drop 2 (drop 12 p)" by (simp only: ab append.simps)
  moreover have "length (take 12 p) = 12" using assms by simp
  ultimately show ?thesis using that by blast
qed

lemma word16_le_of_int:
  "0 \<le> v \<Longrightarrow> v < 65536 \<Longrightarrow>
   uint (word16_le (ucast (word_of_int v :: u16)) (ucast (drop_bit 8 (word_of_int v :: u16)))) = v"
  by (simp add: word16_le_bytes uint_word_of_int_eq take_bit_int_eq_self)

subsection \<open>Properties\<close>

text \<open>pushing a VLAN tag and popping it again restores the packet and returns the pushed
  16-bit tag, whatever bytes the kernel left in the new head room.\<close>

theorem vlan_push_pop_roundtrip:
  assumes "xdp_adjust adj" and "14 \<le> length p" and "0 \<le> vlid" and "vlid < 65536"
    and "vlan_tag_push adj p 0 vlid = Some (0, q)" and "fst (adj q 4) = 0"
  shows "vlan_tag_pop adj q 0 = Some (vlid, p)"
proof -
  from assms(2) obtain m a b rest where m: "length m = 12" and p: "p = m @ a # b # rest"
    by (rule split12)
  let ?v = "word_of_int vlid :: u16"
  have adj: "fst (adj (m @ a # b # rest) (-4)) = 0"
    using assms(5) unfolding p vlan_tag_push_def
    by (cases "adj (m @ a # b # rest) (-4)") (auto simp: bind_eq_Some_conv split: if_splits)
  have q: "q = m @ 0x81 # 0 # ucast (drop_bit 8 ?v) # ucast ?v # a # b # rest"
    using xdp_adjust.push_result[OF assms(1) m adj, of vlid] assms(5) by (simp add: p)
  have vl: "proto_is_vlan (word16_le 0x81 0)"
    by (simp add: proto_is_vlan_def word16_le_def bpf_htons_def)
  show ?thesis
    using xdp_adjust.pop_result[OF assms(1) m vl] assms(3,4,6)
    by (simp add: q p word16_le_of_int)
qed

theorem vlan_push_pop_roundtrip_witness:
  "\<exists>q. vlan_tag_push (headroom_adj 256) (replicate 60 7) 0 42 = Some (0, q)
       \<and> vlan_tag_pop (headroom_adj 256) q 0 = Some (42, replicate 60 7)"
proof -
  have len: "14 \<le> length (replicate 60 (7 :: u8))" by simp
  have r: "replicate 60 (7 :: u8) = replicate 12 7 @ 7 # 7 # replicate 46 7"
    by (simp add: numeral_eq_Suc)
  have "fst (headroom_adj 256 (replicate 12 7 @ 7 # 7 # replicate 46 7) (-4)) = 0"
    by (simp add: headroom_adj_def)
  from hra.push_result[OF _ this, of 42] obtain q where
    q: "vlan_tag_push (headroom_adj 256) (replicate 60 7) 0 42 = Some (0, q)" "length q = 64"
    by (auto simp: r)
  have "fst (headroom_adj 256 q 4) = 0" using q(2) by (simp add: headroom_adj_def)
  from vlan_push_pop_roundtrip[OF hra.xdp_adjust_axioms len _ _ q(1) this] q(1) show ?thesis by simp
qed

text \<open>The address swaps stay inside a header that lies inside the packet, keep the packet's
  length, and are their own inverses.\<close>

theorem swaps_involutive:
  assumes "i + 40 \<le> length p"
  shows "(\<exists>q. swap_src_dst_mac p i = Some q \<and> swap_src_dst_mac q i = Some p \<and> length q = length p)
    \<and> (\<exists>q. swap_src_dst_ipv6 p i = Some q \<and> swap_src_dst_ipv6 q i = Some p \<and> length q = length p)
    \<and> (\<exists>q. swap_src_dst_ipv4 p i = Some q \<and> swap_src_dst_ipv4 q i = Some p \<and> length q = length p)"
proof (intro conjI)
  have r: "\<exists>a x y c. p = a @ x @ y @ c \<and> length a = j \<and> length x = n \<and> length y = n"
    if "j + n + n \<le> length p" for j n
    using split_regions[of j n 0 p] that by (metis (no_types) add_0_right append_Nil length_0_conv)
  from r[of i 6] assms show "\<exists>q. swap_src_dst_mac p i = Some q \<and> swap_src_dst_mac q i = Some p
      \<and> length q = length p" by (auto simp: swap_mac_regions)
  from r[of "i + 8" 16] assms show "\<exists>q. swap_src_dst_ipv6 p i = Some q
      \<and> swap_src_dst_ipv6 q i = Some p \<and> length q = length p" by (auto simp: swap_ipv6_regions)
  from r[of "i + 12" 4] assms show "\<exists>q. swap_src_dst_ipv4 p i = Some q
      \<and> swap_src_dst_ipv4 q i = Some p \<and> length q = length p" by (auto simp: swap_ipv4_regions)
qed

theorem swaps_involutive_witness:
  "\<exists>q. swap_src_dst_ipv6 (map of_nat [0..<60]) 14 = Some q
       \<and> swap_src_dst_ipv6 q 14 = Some (map of_nat [0..<60])"
  using swaps_involutive[of 14 "map of_nat [0..<60]"] by auto

text \<open>The statistics record of an action counts the packet and its bytes and the action is
  returned unchanged; an action outside the enumeration, or one without a record, is turned into
  \<open>XDP_ABORTED\<close> and leaves the map alone; other actions' records never change.\<close>

theorem stats_record_action:
  assumes "bpf_map ops" and "xdp_stats_record_action ops m p action = (v, m')"
  shows "(case map_lookup ops m action of
      Some rec \<Rightarrow> if action < XDP_ACTION_MAX
        then v = action \<and> map_lookup ops m' = (map_lookup ops m)(action \<mapsto>
               \<lparr>rx_packets = rx_packets rec + 1, rx_bytes = rx_bytes rec + ucast (of_nat (length p) :: u32)\<rparr>)
        else v = 0 \<and> m' = m
    | None \<Rightarrow> v = 0 \<and> m' = m)"
  using assms(2) bpf_map.lookup_poke[OF assms(1), of m action]
  by (auto simp: xdp_stats_record_action_def Let_def not_le not_less split: option.splits if_splits)

theorem stats_record_action_witness:
  "map_lookup ka_ops (snd (xdp_stats_record_action ka_ops (replicate 5 \<lparr>rx_packets = 0, rx_bytes = 0\<rparr>)
      (replicate 60 0) 2)) 2 = Some \<lparr>rx_packets = 1, rx_bytes = 60\<rparr>"
  using stats_record_action[OF ka.bpf_map_axioms prod.collapse[symmetric],
      of "replicate 5 \<lparr>rx_packets = 0, rx_bytes = 0\<rparr>" "replicate 60 0" 2]
  by (simp add: ka_ops_def)

end
