(* ===== verification/Loader_Proofs.thy ===== *)
theory Loader_Proofs
  imports User_Tools
begin

text \<open>
  Properties of the loader: its command line (what each accepted argument list means, which arguments
  crash it), the unload option it accepts and ignores, and the files it leaves under \<open>/sys/fs/bpf\<close>.
  What the loader needs of libbpf's pinning calls is the locale \<open>map_pins\<close>.
\<close>

subsection \<open>The command line\<close>

definition loader_opts :: "long_option list" where
  "loader_opts = map ow_option (butlast long_options)"

lemma loader_options: "option_wrappers_to_options True long_options = Some (Inr loader_opts)"
  by code_simp

lemma getopt_long_name:
  "name \<noteq> [] \<Longrightarrow> getopt_long os opts ([], (''--'' @ name) # rest) = scan_long opts name rest"
  by (cases name) (simp_all add: getopt_long_def nonoption_def)

lemma takeWhile_no_eq: "CHR ''='' \<notin> set name \<Longrightarrow>
    takeWhile (\<lambda>c. c \<noteq> CHR ''='') name = name \<and> dropWhile (\<lambda>c. c \<noteq> CHR ''='') name = []"
  by (induction name) auto

lemma scan_long_plain: "CHR ''='' \<notin> set name \<Longrightarrow> find (\<lambda>p. lo_name p = Some name) opts = Some p \<Longrightarrow>
    scan_long opts name rest =
      (if lo_has_arg p = required_argument
       then case rest of [] \<Rightarrow> Some ((QUERY, None), ([], [])) | a # rest' \<Rightarrow> Some ((lo_val p, Some a), ([], rest'))
       else Some ((lo_val p, None), ([], rest)))"
  by (simp add: scan_long_def takeWhile_no_eq)

text \<open>One step of the option loop for a long option without an argument, and with one.\<close>

lemma loop_flag:
  assumes "find (\<lambda>p. lo_name p = Some name) opts = Some p" and "lo_has_arg p = no_argument"
    and "CHR ''='' \<notin> set name" and "name \<noteq> []" and "lo_val p \<noteq> -1"
    and "handle_opt nt (lo_val p) None st = Some (Inr st')"
  shows "parse_loop nt opts ([], (''--'' @ name) # rest) st = parse_loop nt opts ([], rest) st'"
  using assms getopt_long_name[OF assms(4), of optstring opts rest]
  by (subst parse_loop.simps) (simp add: scan_long_plain del: append.simps)

lemma loop_arg:
  assumes "find (\<lambda>p. lo_name p = Some name) opts = Some p" and "lo_has_arg p = required_argument"
    and "CHR ''='' \<notin> set name" and "name \<noteq> []" and "lo_val p \<noteq> -1"
    and "handle_opt nt (lo_val p) (Some a) st = Some (Inr st')"
  shows "parse_loop nt opts ([], (''--'' @ name) # a # rest) st = parse_loop nt opts ([], rest) st'"
  using assms getopt_long_name[OF assms(4), of optstring opts "a # rest"]
  by (subst parse_loop.simps) (simp add: scan_long_plain del: append.simps)

lemma loop_end: "parse_loop nt opts ([], []) st = Some (Inr st)"
  by (subst parse_loop.simps) (simp add: getopt_long_def)

record settings =
  s_dev :: string
  s_mode :: xdp_attach_mode
  s_quiet :: bool
  s_filename :: "string option"
  s_progname :: "string option"

definition render_args :: "settings \<Rightarrow> string list" where
  "render_args x =
     [''--dev'', s_dev x]
     @ (case s_mode x of XDP_MODE_SKB \<Rightarrow> [''--skb-mode''] | XDP_MODE_NATIVE \<Rightarrow> [''--native-mode'']
        | _ \<Rightarrow> [''--auto-mode''])
     @ (if s_quiet x then [''--quiet''] else [])
     @ (case s_filename x of Some f \<Rightarrow> [''--filename'', f] | None \<Rightarrow> [])
     @ (case s_progname x of Some f \<Rightarrow> [''--progname'', f] | None \<Rightarrow> [])"

definition valid_settings :: "(string \<Rightarrow> u32) \<Rightarrow> settings \<Rightarrow> bool" where
  "valid_settings nt x \<longleftrightarrow> length (s_dev x) < IF_NAMESIZE \<and> NUL \<notin> set (s_dev x) \<and> nt (s_dev x) \<noteq> 0
     \<and> s_mode x \<noteq> XDP_MODE_HW
     \<and> (\<forall>f. s_filename x = Some f \<longrightarrow> length f < 512 \<and> NUL \<notin> set f)
     \<and> (\<forall>f. s_progname x = Some f \<longrightarrow> length f < 32 \<and> NUL \<notin> set f)"

lemma sint_0_iff: "sint (w :: u32) = 0 \<longleftrightarrow> w = 0"
  by (metis signed_eq_0_iff)

lemma handle_dev_ok:
  assumes "length d < IF_NAMESIZE" "NUL \<notin> set d" "nt d \<noteq> 0"
  shows "handle_opt nt (char_val CHR ''d'') (Some d) (c, v) =
    Some (Inr (c\<lparr>cfg_ifname := Own_buf, cfg_ifname_buf := strncpy d IF_NAMESIZE, cfg_ifindex := sint (nt d)\<rparr>, v))"
  using assms by (simp add: handle_opt_def handle_dev_def cstr_strncpy sint_0_iff)

lemma handle_flags:
  "handle_opt nt (char_val CHR ''S'') a (c, v) = Some (Inr (set_copy (c\<lparr>cfg_attach_mode := XDP_MODE_SKB\<rparr>), v))"
  "handle_opt nt (char_val CHR ''N'') a (c, v) = Some (Inr (c\<lparr>cfg_attach_mode := XDP_MODE_NATIVE\<rparr>, v))"
  "handle_opt nt (char_val CHR ''A'') a (c, v) = Some (Inr (c\<lparr>cfg_attach_mode := XDP_MODE_UNSPEC\<rparr>, v))"
  "handle_opt nt (char_val CHR ''q'') a (c, v) = Some (Inr (c, False))"
  "handle_opt nt 1 (Some f) (c, v) = Some (Inr (c\<lparr>cfg_filename := strncpy f 512\<rparr>, v))"
  "handle_opt nt 2 (Some f) (c, v) = Some (Inr (c\<lparr>cfg_progname := strncpy f 32\<rparr>, v))"
  by (simp_all add: handle_opt_def char_val_def)

lemma find_loader_opts:
  "find (\<lambda>p. lo_name p = Some ''dev'') loader_opts
     = Some \<lparr>lo_name = Some ''dev'', lo_has_arg = required_argument, lo_val = char_val CHR ''d''\<rparr>"
  "find (\<lambda>p. lo_name p = Some ''skb-mode'') loader_opts
     = Some \<lparr>lo_name = Some ''skb-mode'', lo_has_arg = no_argument, lo_val = char_val CHR ''S''\<rparr>"
  "find (\<lambda>p. lo_name p = Some ''native-mode'') loader_opts
     = Some \<lparr>lo_name = Some ''native-mode'', lo_has_arg = no_argument, lo_val = char_val CHR ''N''\<rparr>"
  "find (\<lambda>p. lo_name p = Some ''auto-mode'') loader_opts
     = Some \<lparr>lo_name = Some ''auto-mode'', lo_has_arg = no_argument, lo_val = char_val CHR ''A''\<rparr>"
  "find (\<lambda>p. lo_name p = Some ''unload'') loader_opts
     = Some \<lparr>lo_name = Some ''unload'', lo_has_arg = no_argument, lo_val = char_val CHR ''U''\<rparr>"
  "find (\<lambda>p. lo_name p = Some ''quiet'') loader_opts
     = Some \<lparr>lo_name = Some ''quiet'', lo_has_arg = no_argument, lo_val = char_val CHR ''q''\<rparr>"
  "find (\<lambda>p. lo_name p = Some ''filename'') loader_opts
     = Some \<lparr>lo_name = Some ''filename'', lo_has_arg = required_argument, lo_val = 1\<rparr>"
  "find (\<lambda>p. lo_name p = Some ''progname'') loader_opts
     = Some \<lparr>lo_name = Some ''progname'', lo_has_arg = required_argument, lo_val = 2\<rparr>"
  by code_simp+

lemma char_val_nonneg: "char_val c \<noteq> -1"
  by (simp add: char_val_def) (metis of_nat_0_le_iff of_nat_of_char neg_0_le_iff_le not_one_le_zero)

text \<open>The loader's options, one rewrite rule each.\<close>

lemma loader_steps:
  "length d < IF_NAMESIZE \<Longrightarrow> NUL \<notin> set d \<Longrightarrow> nt d \<noteq> 0 \<Longrightarrow>
   parse_loop nt loader_opts ([], ''--dev'' # d # rest) (c, v) = parse_loop nt loader_opts ([], rest)
     (c\<lparr>cfg_ifname := Own_buf, cfg_ifname_buf := strncpy d IF_NAMESIZE, cfg_ifindex := sint (nt d)\<rparr>, v)"
  "parse_loop nt loader_opts ([], ''--skb-mode'' # rest) (c, v) =
   parse_loop nt loader_opts ([], rest) (set_copy (c\<lparr>cfg_attach_mode := XDP_MODE_SKB\<rparr>), v)"
  "parse_loop nt loader_opts ([], ''--native-mode'' # rest) (c, v) =
   parse_loop nt loader_opts ([], rest) (c\<lparr>cfg_attach_mode := XDP_MODE_NATIVE\<rparr>, v)"
  "parse_loop nt loader_opts ([], ''--auto-mode'' # rest) (c, v) =
   parse_loop nt loader_opts ([], rest) (c\<lparr>cfg_attach_mode := XDP_MODE_UNSPEC\<rparr>, v)"
  "parse_loop nt loader_opts ([], ''--quiet'' # rest) (c, v) = parse_loop nt loader_opts ([], rest) (c, False)"
  "parse_loop nt loader_opts ([], ''--filename'' # f # rest) (c, v) =
   parse_loop nt loader_opts ([], rest) (c\<lparr>cfg_filename := strncpy f 512\<rparr>, v)"
  "parse_loop nt loader_opts ([], ''--progname'' # f # rest) (c, v) =
   parse_loop nt loader_opts ([], rest) (c\<lparr>cfg_progname := strncpy f 32\<rparr>, v)"
  using loop_arg[OF find_loader_opts(1)] loop_flag[OF find_loader_opts(2)] loop_flag[OF find_loader_opts(3)]
    loop_flag[OF find_loader_opts(4)] loop_flag[OF find_loader_opts(6)] loop_arg[OF find_loader_opts(7)]
    loop_arg[OF find_loader_opts(8)]
  by (simp_all add: handle_dev_ok handle_flags char_val_nonneg)

definition chosen_config :: "(string \<Rightarrow> u32) \<Rightarrow> settings \<Rightarrow> config \<Rightarrow> config" where
  "chosen_config nt x c =
     (let c = c\<lparr>cfg_ifname := Own_buf, cfg_ifname_buf := strncpy (s_dev x) IF_NAMESIZE,
                 cfg_ifindex := sint (nt (s_dev x))\<rparr>;
          c = c\<lparr>cfg_attach_mode := s_mode x\<rparr>;
          c = (if s_mode x = XDP_MODE_SKB then set_copy c else c);
          c = (case s_filename x of Some f \<Rightarrow> c\<lparr>cfg_filename := strncpy f 512\<rparr> | None \<Rightarrow> c);
          c = (case s_progname x of Some f \<Rightarrow> c\<lparr>cfg_progname := strncpy f 32\<rparr> | None \<Rightarrow> c)
      in c)"

text \<open>C37: the loader's command line means what it says.  For every device the system knows (a name of
  fewer than \<open>IF_NAMESIZE\<close> characters), attach mode, verbosity, object file and program name that fit their
  buffers, the argument list that spells them out is accepted, and the configuration holds exactly these
  choices, with the device's index and with the file, program and device names as terminated strings.\<close>

theorem loader_cmdline_roundtrip:
  assumes "valid_settings nt x"
  shows "parse_cmdline_args True nt (prog # render_args x) long_options loader_doc (loader_config, True)
      = Some (Returns (chosen_config nt x loader_config, \<not> s_quiet x))
    \<and> ifname_of (chosen_config nt x loader_config) = Some (s_dev x)
    \<and> cfg_ifindex (chosen_config nt x loader_config) = sint (nt (s_dev x))
    \<and> cfg_attach_mode (chosen_config nt x loader_config) = s_mode x
    \<and> cstr (cfg_filename (chosen_config nt x loader_config))
        = Some (case s_filename x of Some f \<Rightarrow> f | None \<Rightarrow> ''xdp_prog_kern.o'')
    \<and> cstr (cfg_progname (chosen_config nt x loader_config))
        = Some (case s_progname x of Some f \<Rightarrow> f | None \<Rightarrow> ''xdp_anomaly_detector'')"
proof (intro conjI)
  have d: "cstr (strncpy ''xdp_prog_kern.o'' 512) = Some ''xdp_prog_kern.o''"
    "cstr (strncpy ''xdp_anomaly_detector'' 31 @ [NUL]) = Some ''xdp_anomaly_detector''" by code_simp+
  have p: "parse_loop nt loader_opts ([], render_args x) (loader_config, True)
      = Some (Inr (chosen_config nt x loader_config, \<not> s_quiet x))"
    using assms
    by (cases "s_mode x"; cases "s_filename x"; cases "s_progname x"; cases "s_quiet x")
      (simp_all add: valid_settings_def render_args_def loader_steps loop_end chosen_config_def Let_def)
  show "parse_cmdline_args True nt (prog # render_args x) long_options loader_doc (loader_config, True)
      = Some (Returns (chosen_config nt x loader_config, \<not> s_quiet x))"
    by (simp add: parse_cmdline_args_def loader_options p)
  show "ifname_of (chosen_config nt x loader_config) = Some (s_dev x)"
    "cfg_ifindex (chosen_config nt x loader_config) = sint (nt (s_dev x))"
    "cfg_attach_mode (chosen_config nt x loader_config) = s_mode x"
    "cstr (cfg_filename (chosen_config nt x loader_config))
        = Some (case s_filename x of Some f \<Rightarrow> f | None \<Rightarrow> ''xdp_prog_kern.o'')"
    "cstr (cfg_progname (chosen_config nt x loader_config))
        = Some (case s_progname x of Some f \<Rightarrow> f | None \<Rightarrow> ''xdp_anomaly_detector'')"
    using assms d
    by (auto simp: valid_settings_def chosen_config_def Let_def ifname_of_def cstr_strncpy set_copy_def loader_config_def
        split: option.splits)
qed

theorem loader_cmdline_roundtrip_witness:
  "parse_cmdline_args True (\<lambda>n. if n = ''wlan0'' then 3 else 0)
     [''xdp_loader'', ''--dev'', ''wlan0'', ''--native-mode'', ''--quiet'', ''--progname'', ''xdp_test'']
     long_options loader_doc (loader_config, True)
   = Some (Returns (chosen_config (\<lambda>n. if n = ''wlan0'' then 3 else 0)
       \<lparr>s_dev = ''wlan0'', s_mode = XDP_MODE_NATIVE, s_quiet = True, s_filename = None, s_progname = Some ''xdp_test''\<rparr>
       loader_config, False))"
proof -
  let ?nt = "\<lambda>n. if n = ''wlan0'' then 3 else 0 :: u32"
  let ?x = "\<lparr>s_dev = ''wlan0'', s_mode = XDP_MODE_NATIVE, s_quiet = True, s_filename = None,
     s_progname = Some ''xdp_test''\<rparr>"
  have "valid_settings ?nt ?x" by (simp add: valid_settings_def)
  from loader_cmdline_roundtrip[OF this, of "''xdp_loader''"] show ?thesis
    by (simp add: render_args_def)
qed

text \<open>arguments that crash the loader.  A long option whose name is none of the table's (a misspelt
  name, or the abbreviation the C library would otherwise accept) sends the scanner past the end of the
  option array, which has no terminating entry; and \<open>--unload\<close>, declared without an argument, reaches
  \<open>atoi\<close> with a null pointer.  No other arguments can prevent this when it comes first.\<close>

theorem loader_cmdline_faults:
  assumes "arg \<noteq> []"
    and "takeWhile (\<lambda>c. c \<noteq> CHR ''='') arg \<notin> set (map (the \<circ> lo_name) loader_opts) \<or> arg = ''unload''"
  shows "parse_cmdline_args True nt (prog # (''--'' @ arg) # rest) long_options loader_doc (cfg, v) = None"
proof -
  have named: "\<forall>p\<in>set loader_opts. lo_name p \<noteq> None" by code_simp
  have "parse_loop nt loader_opts ([], (''--'' @ arg) # rest) (cfg, v) = None"
  proof (cases "arg = ''unload''")
    case True
    have "scan_long loader_opts ''unload'' rest = Some ((char_val CHR ''U'', None), ([], rest))"
      using scan_long_plain[OF _ find_loader_opts(5), of rest] by simp
    then show ?thesis
      using getopt_long_name[of arg optstring loader_opts rest] True
      by (subst parse_loop.simps) (simp add: handle_opt_def char_val_def)
  next
    case False
    have "find (\<lambda>p. lo_name p = Some (takeWhile (\<lambda>c. c \<noteq> CHR ''='') arg)) loader_opts = None"
      using assms(2) False named by (auto simp: find_None_iff image_iff)
    then have "scan_long loader_opts arg rest = None" by (simp add: scan_long_def)
    then show ?thesis
      using getopt_long_name[OF assms(1), of optstring loader_opts rest]
      by (subst parse_loop.simps) simp
  qed
  then show ?thesis by (simp add: parse_cmdline_args_def loader_options)
qed

theorem loader_cmdline_faults_witness:
  "parse_cmdline_args True (\<lambda>_. 7) [''xdp_loader'', ''--skb'', ''--dev'', ''eth0''] long_options loader_doc
     (loader_config, True) = None"
proof -
  have "takeWhile (\<lambda>c. c \<noteq> CHR ''='') ''skb'' \<notin> set (map (the \<circ> lo_name) loader_opts)" by code_simp
  then show ?thesis
    using loader_cmdline_faults[of "''skb''" "\<lambda>_. 7" "''xdp_loader''" "[''--dev'', ''eth0'']"] by simp
qed

subsection \<open>The unload option\<close>

definition erase :: "config \<Rightarrow> config" where
  "erase c = c\<lparr>cfg_do_unload := False, cfg_prog_id := 0\<rparr>"

definition erase_r :: "(bool + config \<times> bool) option \<Rightarrow> (bool + config \<times> bool) option" where
  "erase_r = map_option (map_sum (\<lambda>b. b) (apfst erase))"

text \<open>The other options neither read nor change the two fields.\<close>

lemma erase_if: "(P \<Longrightarrow> erase_r a = erase_r a') \<Longrightarrow> (\<not> P \<Longrightarrow> erase_r b = erase_r b') \<Longrightarrow>
    erase_r (if P then a else b) = erase_r (if P then a' else b')"
  by simp

lemma erase_bind: "(\<And>x. r = Some x \<Longrightarrow> erase_r (f x) = erase_r (f' x)) \<Longrightarrow> erase_r (r \<bind> f) = erase_r (r \<bind> f')"
  by (cases r) simp_all

lemma erase_eqE:
  assumes "erase c = erase c'"
  obtains d i where "c' = c\<lparr>cfg_do_unload := d, cfg_prog_id := i\<rparr>"
proof -
  have "c' = c\<lparr>cfg_do_unload := cfg_do_unload c', cfg_prog_id := cfg_prog_id c'\<rparr>"
    using assms by (cases c; cases c') (simp add: erase_def)
  then show ?thesis by (rule that)
qed

lemma erase_upd [simp]: "erase (c\<lparr>cfg_do_unload := d, cfg_prog_id := i\<rparr>) = erase c"
  by (simp add: erase_def)

lemma handle_dev_erase:
  "erase_r (handle_dev nt a c \<bind> (\<lambda>r. Some (map_sum (\<lambda>b. b) (\<lambda>c. (c, v)) r)))
   = erase_r (handle_dev nt a (c\<lparr>cfg_do_unload := d, cfg_prog_id := i\<rparr>)
       \<bind> (\<lambda>r. Some (map_sum (\<lambda>b. b) (\<lambda>c. (c, v)) r)))"
  "erase_r (handle_redirect_dev nt a c \<bind> (\<lambda>r. Some (map_sum (\<lambda>b. b) (\<lambda>c. (c, v)) r)))
   = erase_r (handle_redirect_dev nt a (c\<lparr>cfg_do_unload := d, cfg_prog_id := i\<rparr>)
       \<bind> (\<lambda>r. Some (map_sum (\<lambda>b. b) (\<lambda>c. (c, v)) r)))"
  by (auto simp: handle_dev_def handle_redirect_dev_def erase_r_def erase_def Let_def split: Option.bind_splits)

lemma handle_opt_erase_upd:
  "erase_r (handle_opt nt opt arg (c, v))
   = erase_r (handle_opt nt opt arg (c\<lparr>cfg_do_unload := d, cfg_prog_id := i\<rparr>, v))"
  unfolding handle_opt_def Let_def fst_conv snd_conv
  by (intro erase_if erase_bind handle_dev_erase refl;
      simp add: erase_r_def erase_def set_copy_def set_zerocopy_def)

lemma erase_r_cases:
  assumes "erase_r r = erase_r r'"
  obtains "r = None" "r' = None"
  | b where "r = Some (Inl b)" "r' = Some (Inl b)"
  | st1 st2 where "r = Some (Inr st1)" "r' = Some (Inr st2)" "erase (fst st1) = erase (fst st2)" "snd st1 = snd st2"
proof (cases r)
  case None
  with assms that(1) show ?thesis by (simp add: erase_r_def)
next
  case (Some x)
  with assms obtain x' where r': "r' = Some x'" by (cases r') (simp_all add: erase_r_def)
  with Some assms that(2,3) show ?thesis by (cases x; cases x') (auto simp: erase_r_def apfst_def map_prod_def split: prod.splits)
qed

lemma parse_loop_erase:
  "erase (fst st) = erase (fst st') \<Longrightarrow> snd st = snd st' \<Longrightarrow>
   erase_r (parse_loop nt opts g st) = erase_r (parse_loop nt opts g st')"
proof (induction nt opts g st arbitrary: st' rule: parse_loop.induct)
  case (1 nt opts g st)
  obtain d i where "fst st' = (fst st)\<lparr>cfg_do_unload := d, cfg_prog_id := i\<rparr>"
    using erase_eqE[OF 1(2)] by blast
  with 1(3) have st': "st' = ((fst st)\<lparr>cfg_do_unload := d, cfg_prog_id := i\<rparr>, snd st)"
    by (cases st') simp
  show ?case
  proof (cases "getopt_long optstring opts g")
    case (Some r)
    then obtain opt arg g' where g: "getopt_long optstring opts g = Some ((opt, arg), g')" by (cases r) auto
    have h: "erase_r (handle_opt nt opt arg st) = erase_r (handle_opt nt opt arg st')"
      using handle_opt_erase_upd[of nt opt arg "fst st" "snd st" i d] by (simp add: st')
    show ?thesis
    proof (cases "opt = -1")
      case True
      then show ?thesis
        by (subst (1 2) parse_loop.simps) (cases st, simp add: g erase_r_def st')
    next
      case False
      from h show ?thesis
      proof (cases rule: erase_r_cases)
        case (3 st1 st2)
        with "1.IH"[OF g refl refl False 3(1) refl, of st2] False show ?thesis
          by (subst (1 2) parse_loop.simps) (simp add: g)
      qed (subst (1 2) parse_loop.simps, simp add: g False)+
    qed
  qed (subst (1 2) parse_loop.simps, simp)
qed

lemma loader_run_erase: "loader_run env u path qsrt (erase cfg) v s = loader_run env u path qsrt cfg v s"
proof -
  have "ifname_of (erase cfg) = ifname_of cfg"
    by (cases "cfg_ifname cfg") (simp_all add: ifname_of_def erase_def)
  moreover have "load_bpf_and_xdp_attach env path qsrt ((erase cfg)\<lparr>cfg_pin_dir := d\<rparr>) s
      = load_bpf_and_xdp_attach env path qsrt (cfg\<lparr>cfg_pin_dir := d\<rparr>) s" for d
  proof -
    let ?a = "(erase cfg)\<lparr>cfg_pin_dir := d\<rparr>" and ?b = "cfg\<lparr>cfg_pin_dir := d\<rparr>"
    have f: "cfg_filename ?a = cfg_filename ?b" "cfg_progname ?a = cfg_progname ?b"
      "cfg_ifindex ?a = cfg_ifindex ?b" "cfg_attach_mode ?a = cfg_attach_mode ?b"
      by (simp_all add: erase_def)
    show ?thesis unfolding load_bpf_and_xdp_attach_def f by (rule refl)
  qed
  ultimately show ?thesis by (simp add: loader_run_def Let_def)
qed

lemma loader_usage: "usage prog loader_doc long_options full \<noteq> None"
proof -
  have "x_print_options long_options True (replicate 30 CHR ''?'') \<noteq> None"
    "x_print_options long_options False (replicate 30 CHR ''?'') \<noteq> None" by code_simp+
  then show ?thesis by (auto simp: usage_def Let_def)
qed

lemma loader_usage_Some: "\<exists>txt. usage prog loader_doc long_options full = Some txt"
  using loader_usage by auto

lemma loop_unload:
  "parse_loop nt loader_opts ([], ''-U'' # a # rest) (c, v)
   = parse_loop nt loader_opts ([], rest) (c\<lparr>cfg_do_unload := True, cfg_prog_id := word_of_int (atoi a)\<rparr>, v)"
proof -
  have "getopt_long optstring loader_opts ([], ''-U'' # a # rest) = Some ((char_val CHR ''U'', Some a), ([], rest))"
    by (simp add: getopt_long_def nonoption_def scan_short_def)
  then show ?thesis
    by (subst parse_loop.simps) (simp add: char_val_nonneg handle_opt_def char_val_def)
qed

definition finish_main ::
  "'w libxdp_env \<Rightarrow> 'w user_env \<Rightarrow> string \<Rightarrow> sorter \<Rightarrow> 'w st \<Rightarrow> (bool + config \<times> bool) option
   \<Rightarrow> (int \<times> 'w st) option" where
  "finish_main env u path qsrt s r =
     (case r of
        None \<Rightarrow> None
      | Some (Inl _) \<Rightarrow> Some (EXIT_FAIL_OPTION, s)
      | Some (Inr (cfg, v)) \<Rightarrow>
          if cfg_ifindex cfg = -1 then Some (EXIT_FAIL_OPTION, s) else loader_run env u path qsrt cfg v s)"

lemma loader_main_finish:
  fixes env :: "'w libxdp_env"
  shows "loader_main env u path qsrt True nt argv s
   = finish_main env u path qsrt s (parse_loop nt loader_opts ([], tl argv) (loader_config, True))"
proof -
  have "usage (hd argv) loader_doc long_options b \<bind> (\<lambda>_. x) = x" for b and x :: "(int \<times> 'w st) option"
    using loader_usage_Some[of "hd argv" b] by auto
  then show ?thesis
    by (simp add: loader_main_def parse_cmdline_args_def loader_options finish_main_def
        split: option.splits sum.splits prod.splits)
qed

lemma finish_main_erase: "erase_r r = erase_r r' \<Longrightarrow> finish_main env u path qsrt s r = finish_main env u path qsrt s r'"
proof -
  have f: "finish_main env u path qsrt s (erase_r r) = finish_main env u path qsrt s r" for r
  proof (cases r)
    case (Some x)
    then show ?thesis
    proof (cases x)
      case (Inr y)
      with Some show ?thesis
        by (cases y) (simp add: finish_main_def erase_r_def loader_run_erase, simp add: erase_def)
    qed (simp add: finish_main_def erase_r_def)
  qed (simp add: finish_main_def erase_r_def)
  assume "erase_r r = erase_r r'"
  with f[of r] f[of r'] show ?thesis by simp
qed

text \<open>the loader accepts \<open>-U <id>\<close> and does not unload anything: for every kernel, file system and
  remaining argument list, the run with the option and the run without it have the same exit status and the
  same effect, so the program is attached and its maps are pinned as if the option were absent.\<close>

theorem loader_ignores_unload:
  "loader_main env u path qsrt True nt (prog # ''-U'' # a # args) s
   = loader_main env u path qsrt True nt (prog # args) s"
  unfolding loader_main_finish list.sel loop_unload
  by (rule finish_main_erase, rule parse_loop_erase) simp_all

subsection \<open>Pinned map files\<close>

definition map_path :: "string \<Rightarrow> nat \<times> string \<Rightarrow> string" where
  "map_path subdir m = pin_basedir @ ''/'' @ subdir @ ''/'' @ snd m"

text \<open>What the loader uses of \<open>bpf_object__for_each_map\<close>, \<open>access\<close>, \<open>bpf_map__pin\<close> and
  \<open>bpf_object__unpin_maps\<close>: \<open>pins\<close> are the existing files, \<open>maps\<close> the maps of an object.  Pinning
  creates the file or fails without effect, and fails where a file exists; unpinning removes the
  object's files under the directory.\<close>

locale map_pins =
  fixes u :: "'w user_env" and pins :: "'w \<Rightarrow> string set" and maps :: "nat \<Rightarrow> (nat \<times> string) list"
  assumes obj_maps: "u_obj_maps u ob w = (ms, w') \<Longrightarrow> ms = maps ob \<and> pins w' = pins w"
    and access: "u_access u p w = (r, w') \<Longrightarrow> pins w' = pins w \<and> (r = -1 \<longleftrightarrow> p \<notin> pins w)"
    and pin: "u_map_pin u m p w = (e, w') \<Longrightarrow> pins w' = (if e = 0 then insert p (pins w) else pins w)"
    and unpin: "u_unpin_maps u ob d w = (e, w') \<Longrightarrow>
      pins w' \<subseteq> pins w \<and> (e = 0 \<longrightarrow> pins w' = pins w - (\<lambda>m. d @ ''/'' @ snd m) ` set (maps ob))"
begin

text \<open>Pinning at a path without a file never fails.\<close>

definition pins_free :: bool where
  "pins_free \<longleftrightarrow> (\<forall>m p w. p \<notin> pins w \<longrightarrow> fst (u_map_pin u m p w) = 0)"

lemma pin_each_files:
  assumes "pin_each u d ms n s = Some (n', s')" and "\<forall>m\<in>set ms. length (d @ ''/'' @ snd m) < PATH_MAX"
  shows "pins (snd s) \<subseteq> pins (snd s') \<and> pins (snd s') \<subseteq> pins (snd s) \<union> (\<lambda>m. d @ ''/'' @ snd m) ` set ms
    \<and> (pins_free \<longrightarrow> (\<lambda>m. d @ ''/'' @ snd m) ` set ms \<subseteq> pins (snd s'))"
  using assms
proof (induction ms arbitrary: n s)
  case (Cons x ms)
  obtain m name where x: "x = (m, name)" by (cases x)
  let ?p = "d @ ''/'' @ name"
  have p: "take (PATH_MAX - 1) ?p = ?p" using Cons.prems(2) by (intro take_all) (simp add: x)
  from Cons.prems(1) obtain e s1 where e: "u_map_pin u m ?p (snd s) = (e, snd s1)"
    and r: "pin_each u d ms (if e \<noteq> 0 then n else n + 1) s1 = Some (n', s')"
    unfolding x pin_each.simps p by (elim bind_pair_SomeE) (auto simp: sys_Some)
  have "pins (snd s) \<subseteq> pins (snd s1) \<and> pins (snd s1) \<subseteq> insert ?p (pins (snd s))"
    "pins_free \<Longrightarrow> ?p \<in> pins (snd s1)"
    using pin[OF e] e by (auto simp: pins_free_def split: if_splits) (metis fst_conv)+
  with Cons.IH[OF r] Cons.prems(2) show ?case by (auto simp: x)
qed simp

text \<open>The part of \<open>pin_maps_in_bpf_object\<close> behind the removal of old files.\<close>

definition pin_body :: "nat \<Rightarrow> string \<Rightarrow> bool \<Rightarrow> 'w st \<Rightarrow> (int \<times> 'w st) option" where
  "pin_body ob d v s = do {
     (ms, s) \<leftarrow> obj_maps_of u (Some ob) s;
     (map_count, s) \<leftarrow> pin_each u d ms 0 s;
     if v then do {
       (_, s) \<leftarrow> sys (u_access u (take (PATH_MAX - 1) (d @ ''/xdp_flow_tracking''))) s;
       (_, s) \<leftarrow> sys (u_access u (take (PATH_MAX - 1) (d @ ''/dt_map''))) s;
       Some (0, s)
     }
     else Some (0, s)
   }"

lemma pin_body_files:
  assumes "pin_body ob d v s = Some (r, s')"
  shows "r = 0 \<and> (\<exists>s3 n s4. pins (snd s3) = pins (snd s) \<and> pin_each u d (maps ob) 0 s3 = Some (n, s4)
    \<and> pins (snd s') = pins (snd s4))"
proof -
  from assms obtain ms s3 n s4 where m: "u_obj_maps u ob (snd s) = (ms, snd s3)"
    and p: "pin_each u d ms 0 s3 = Some (n, s4)"
    and v: "(if v then do {
       (_, s) \<leftarrow> sys (u_access u (take (PATH_MAX - 1) (d @ ''/xdp_flow_tracking''))) s4;
       (_, s) \<leftarrow> sys (u_access u (take (PATH_MAX - 1) (d @ ''/dt_map''))) s;
       Some (0, s)
     }
     else Some (0, s4)) = Some (r, s')"
    unfolding pin_body_def obj_maps_of_def option.case by (elim bind_pair_SomeE) (simp only: sys_Some)
  have "r = 0 \<and> pins (snd s') = pins (snd s4)"
    using v by (cases v) (auto simp: sys_Some elim!: bind_pair_SomeE dest!: access)
  then show ?thesis using obj_maps[OF m] p by (intro conjI exI[of _ s3] exI[of _ n] exI[of _ s4]) auto
qed

lemma pin_maps_result:
  assumes "pin_maps_in_bpf_object u v (Some ob) subdir s = Some (r, s')"
    and "\<forall>m\<in>set (maps ob). length (map_path subdir m) < PATH_MAX"
    and "length (pin_basedir @ ''/'' @ subdir @ ''/xdp_flow_tracking'') < PATH_MAX"
  shows "r = 0 \<or> r = EXIT_FAIL_BPF"
    and "r \<noteq> 0 \<Longrightarrow> pin_basedir @ ''/'' @ subdir @ ''/xdp_flow_tracking'' \<in> pins (snd s)"
    and "pins (snd s') \<subseteq> pins (snd s) \<union> map_path subdir ` set (maps ob)"
    and "r = 0 \<Longrightarrow> pins_free \<Longrightarrow> map_path subdir ` set (maps ob) \<subseteq> pins (snd s')"
proof -
  let ?f = "pin_basedir @ ''/'' @ subdir @ ''/xdp_flow_tracking''" and ?d = "pin_basedir @ ''/'' @ subdir"
  have t: "take (PATH_MAX - 1) ?f = ?f" "take (PATH_MAX - 1) ?d = ?d" using assms(3) by simp_all
  have mp: "map_path subdir = (\<lambda>m. ?d @ ''/'' @ snd m)" by (simp add: map_path_def fun_eq_iff)
  have len: "\<forall>m\<in>set (maps ob). length (?d @ ''/'' @ snd m) < PATH_MAX" using assms(2) by (simp add: map_path_def)
  from assms(1) obtain a s1 e s2 where acc: "u_access u ?f (snd s) = (a, snd s1)"
    and un: "(if a \<noteq> -1 then sys (u_unpin_maps u ob ?d) s1 else Some (0, s1)) = Some (e, s2)"
    and body: "(if e \<noteq> 0 then Some (EXIT_FAIL_BPF, s2) else pin_body ob ?d v s2) = Some (r, s')"
    unfolding pin_maps_in_bpf_object_def Let_def t option.case pin_body_def
    by (elim bind_pair_SomeE) (simp only: sys_Some)
  have rest: "e \<noteq> 0 \<and> r = EXIT_FAIL_BPF \<and> s' = s2
      \<or> e = 0 \<and> r = 0 \<and> (\<exists>s3 n s4. pins (snd s3) = pins (snd s2)
            \<and> pin_each u ?d (maps ob) 0 s3 = Some (n, s4) \<and> pins (snd s') = pins (snd s4))"
    using body pin_body_files[of ob ?d v s2 r s'] by (cases "e = 0") (simp_all del: append.simps)
  have s2: "pins (snd s2) \<subseteq> pins (snd s)" "a = -1 \<Longrightarrow> e = 0"
    using un access[OF acc] by (auto simp: sys_Some split: if_splits dest!: unpin)
  show "r = 0 \<or> r = EXIT_FAIL_BPF" using rest by blast
  show "r \<noteq> 0 \<Longrightarrow> ?f \<in> pins (snd s)" using rest s2(2) access[OF acc] by auto
  let ?P = "map_path subdir ` set (maps ob)"
  have ok: "pins (snd s') \<subseteq> pins (snd s2) \<union> ?P \<and> (pins_free \<longrightarrow> ?P \<subseteq> pins (snd s'))" if r0: "r = 0"
  proof -
    from rest r0 obtain s3 n s4 where q: "pins (snd s3) = pins (snd s2)"
      "pin_each u ?d (maps ob) 0 s3 = Some (n, s4)" "pins (snd s') = pins (snd s4)" by auto
    from pin_each_files[OF q(2) len] show ?thesis unfolding mp q(1,3) by blast
  qed
  show "pins (snd s') \<subseteq> pins (snd s) \<union> ?P"
  proof (cases "r = 0")
    case False
    with rest s2(1) show ?thesis by auto
  qed (use ok s2(1) in blast)
  show "r = 0 \<Longrightarrow> pins_free \<Longrightarrow> ?P \<subseteq> pins (snd s')" using ok by blast
qed

end

text \<open>The maps of the detector's object file on the kernel of \<open>Libxdp_Proofs\<close>, which has a list of files.\<close>

definition ku_env :: "kworld user_env" where
  "ku_env = \<lparr>u_obj_maps = (\<lambda>_ w. ([(0, ''xdp_flow_tracking''), (1, ''dt_map''), (2, ''accounting_map'')], w)),
     u_map_reuse_fd = (\<lambda>_ _ w. (0, w)),
     u_map_pin = (\<lambda>_ p w. if p \<in> set (w_files w) then (- EEXIST, w) else (0, w\<lparr>w_files := p # w_files w\<rparr>)),
     u_map_fd = (\<lambda>m w. (10 + int m, w)), u_map_offload_neutral = (\<lambda>_ w. (False, w)),
     u_map_set_ifindex = (\<lambda>_ _ w. ((), w)),
     u_unpin_maps = (\<lambda>_ d w. (0, w\<lparr>w_files := filter
        (\<lambda>p. p \<notin> {d @ ''/xdp_flow_tracking'', d @ ''/dt_map'', d @ ''/accounting_map''}) (w_files w)\<rparr>)),
     u_access = (\<lambda>p w. (if p \<in> set (w_files w) then 0 else -1, w)),
     u_lookup_accounting = (\<lambda>_ _ w. (Inl (- ENOENT), w)),
     u_open_xattr = (\<lambda>_ _ w. (Some 0, w)), u_obj_progs = (\<lambda>_ w. ([0], w)),
     u_prog_setup = (\<lambda>_ _ _ _ w. ((), w))\<rparr>"

abbreviation (input) ku_maps :: "nat \<Rightarrow> (nat \<times> string) list" where
  "ku_maps \<equiv> \<lambda>_. [(0, ''xdp_flow_tracking''), (1, ''dt_map''), (2, ''accounting_map'')]"

interpretation ku: map_pins ku_env "set \<circ> w_files" ku_maps
  by unfold_locales (auto simp: ku_env_def split: if_splits)



end
