(* ===== verification/Bpffs.thy ===== *)
theory Bpffs
  imports Libxdp_Env
begin

text \<open>
  How \<open>libxdp.c\<close> finds its directory in the BPF file system and takes its lock: \<open>find_bpffs\<close>,
  \<open>get_bpffs_dir\<close>, \<open>get_lock_dir\<close> and \<open>xdp_lock_acquire\<close>.  The static variables of these functions are the
  record \<open>lib_statics\<close>, which every call gets and returns; the system calls are the fields of \<open>fs_env\<close>.  A system
  call that fails yields the negated \<open>errno\<close>.  Directories that the build fixes are arguments.
\<close>

subsection \<open>Static variables and system calls\<close>

text \<open>\<open>bpf_mnt_cached\<close> and \<open>mnt\<close>; \<open>dir\<close> of \<open>get_bpffs_dir\<close>; \<open>dir\<close> of \<open>get_lock_dir\<close>, which may hold an
  error pointer.  Another value than the null pointer is \<^const>\<open>Some\<close>.\<close>

record lib_statics =
  st_mnt :: "string option"
  st_bpffs_dir :: "string option"
  st_lock_dir :: "(int + string) option"

definition fresh_statics :: lib_statics where
  "fresh_statics = \<lparr>st_mnt = None, st_bpffs_dir = None, st_lock_dir = None\<rparr>"

datatype mount_call = Make_private string | Bind string | Mount_bpf string

record 'w fs_env =
  fs_statfs :: "string \<Rightarrow> 'w \<Rightarrow> (int + u64) \<times> 'w"
  fs_mount :: "mount_call \<Rightarrow> 'w \<Rightarrow> int \<times> 'w"
  fs_getenv :: "string \<Rightarrow> 'w \<Rightarrow> string option \<times> 'w"
  fs_mkdir :: "string \<Rightarrow> 'w \<Rightarrow> int \<times> 'w"
  fs_open_dir :: "string \<Rightarrow> 'w \<Rightarrow> int \<times> 'w"
  fs_flock :: "int \<Rightarrow> bool \<Rightarrow> 'w \<Rightarrow> int \<times> 'w"
  fs_close :: "int \<Rightarrow> 'w \<Rightarrow> 'w"

abbreviation (input) BPF_FS_MAGIC :: u64 where "BPF_FS_MAGIC \<equiv> 0xcafe4a11"

subsection \<open>The mount point\<close>

definition bpf_is_valid_mntpt :: "'w fs_env \<Rightarrow> string \<Rightarrow> 'w \<Rightarrow> bool \<times> 'w" where
  "bpf_is_valid_mntpt env mnt w =
     (case fs_statfs env mnt w of
        (Inl _, w) \<Rightarrow> (False, w)
      | (Inr f_type, w) \<Rightarrow> (f_type = BPF_FS_MAGIC, w))"

text \<open>The jump back to \<open>retry\<close> is taken only while \<open>bind_done\<close> is not set.\<close>

function mnt_private :: "'w fs_env \<Rightarrow> string \<Rightarrow> bool \<Rightarrow> 'w \<Rightarrow> int \<times> 'w" where
  "mnt_private env target bind_done w =
     (case fs_mount env (Make_private target) w of (err, w) \<Rightarrow>
        if err \<noteq> 0 then
          if err \<noteq> - EINVAL \<or> bind_done then (err, w)
          else (case fs_mount env (Bind target) w of (err, w) \<Rightarrow>
                  if err \<noteq> 0 then (err, w) else mnt_private env target True w)
        else (0, w))"
  by pat_completeness auto

termination
  by (relation "measure (\<lambda>(_, _, bind_done, _). if bind_done then 0 else 1)") auto

declare mnt_private.simps [simp del]

definition bpf_mnt_fs :: "'w fs_env \<Rightarrow> string \<Rightarrow> 'w \<Rightarrow> int \<times> 'w" where
  "bpf_mnt_fs env target w =
     (case mnt_private env target False w of (err, w) \<Rightarrow>
        if err \<noteq> 0 then (err, w) else fs_mount env (Mount_bpf target) w)"

definition bpf_find_mntpt_single :: "'w fs_env \<Rightarrow> nat \<Rightarrow> string \<Rightarrow> bool \<Rightarrow> 'w \<Rightarrow> string option \<times> 'w" where
  "bpf_find_mntpt_single env len mntpt mount w =
     (case bpf_is_valid_mntpt env mntpt w of (ok, w) \<Rightarrow>
        if ok then (Some (take (len - 1) mntpt), w)
        else if \<not> mount then (None, w)
        else (case bpf_mnt_fs env mntpt w of (err, w) \<Rightarrow>
                if err \<noteq> 0 then (None, w) else (Some (take (len - 1) mntpt), w)))"

definition find_bpffs :: "'w fs_env \<Rightarrow> string \<Rightarrow> lib_statics \<Rightarrow> 'w \<Rightarrow> string option \<times> lib_statics \<times> 'w" where
  "find_bpffs env bpf_dir_mnt st w =
     (case st_mnt st of
        Some mnt \<Rightarrow> (Some mnt, st, w)
      | None \<Rightarrow>
          (case fs_getenv env ''LIBXDP_BPFFS'' w of (envdir, w) \<Rightarrow>
           case fs_getenv env ''LIBXDP_BPFFS_AUTOMOUNT'' w of (envval, w) \<Rightarrow>
           case bpf_find_mntpt_single env PATH_MAX (case envdir of Some d \<Rightarrow> d | None \<Rightarrow> bpf_dir_mnt)
                  (envval = Some ''1'') w of (mnt, w) \<Rightarrow>
             (mnt, st\<lparr>st_mnt := mnt\<rparr>, w)))"

subsection \<open>The state directories and the lock\<close>

definition mk_state_subdir :: "'w fs_env \<Rightarrow> nat \<Rightarrow> string \<Rightarrow> 'w \<Rightarrow> (int + string) \<times> 'w" where
  "mk_state_subdir env dir_sz parent w =
     (let dir = parent @ ''/xdp''; err = try_snprintf dir_sz dir
      in if err \<noteq> 0 then (Inl err, w)
         else case fs_mkdir env dir w of (err, w) \<Rightarrow>
           if err \<noteq> 0 \<and> err \<noteq> - EEXIST then (Inl err, w) else (Inr dir, w))"

definition get_bpffs_dir :: "'w fs_env \<Rightarrow> string \<Rightarrow> lib_statics \<Rightarrow> 'w \<Rightarrow> (int + string) \<times> lib_statics \<times> 'w" where
  "get_bpffs_dir env bpf_dir_mnt st w =
     (case st_bpffs_dir st of
        Some dir \<Rightarrow> (Inr dir, st, w)
      | None \<Rightarrow>
          (case find_bpffs env bpf_dir_mnt st w of
             (None, st, w) \<Rightarrow> (Inl (- ENOENT), st, w)
           | (Some parent, st, w) \<Rightarrow>
               (case mk_state_subdir env PATH_MAX parent w of
                  (Inl err, w) \<Rightarrow> (Inl err, st, w)
                | (Inr dir, w) \<Rightarrow> (Inr dir, st\<lparr>st_bpffs_dir := Some dir\<rparr>, w))))"

text \<open>The static \<open>dir\<close> is assigned the result of \<open>get_bpffs_dir\<close>, an error pointer included, and keeps it when the
  second directory cannot be made either.\<close>

definition get_lock_dir ::
  "'w fs_env \<Rightarrow> string \<Rightarrow> string \<Rightarrow> lib_statics \<Rightarrow> 'w \<Rightarrow> (int + string) \<times> lib_statics \<times> 'w" where
  "get_lock_dir env bpf_dir_mnt run st w =
     (case st_lock_dir st of
        Some r \<Rightarrow> (r, st, w)
      | None \<Rightarrow>
          (case get_bpffs_dir env bpf_dir_mnt st w of (r, st, w) \<Rightarrow>
             let st = st\<lparr>st_lock_dir := Some r\<rparr>
             in case r of
                  Inr dir \<Rightarrow> (Inr dir, st, w)
                | Inl _ \<Rightarrow>
                    (case mk_state_subdir env PATH_MAX run w of
                       (Inl err, w) \<Rightarrow> (Inl err, st, w)
                     | (Inr rundir, w) \<Rightarrow> (Inr rundir, st\<lparr>st_lock_dir := Some (Inr rundir)\<rparr>, w))))"

definition xdp_lock_acquire ::
  "'w fs_env \<Rightarrow> string \<Rightarrow> string \<Rightarrow> lib_statics \<Rightarrow> 'w \<Rightarrow> int \<times> lib_statics \<times> 'w" where
  "xdp_lock_acquire env bpf_dir_mnt run st w =
     (case get_lock_dir env bpf_dir_mnt run st w of
        (Inl err, st, w) \<Rightarrow> (err, st, w)
      | (Inr dir, st, w) \<Rightarrow>
          (case fs_open_dir env dir w of (lock_fd, w) \<Rightarrow>
             if lock_fd < 0 then (lock_fd, st, w)
             else (case fs_flock env lock_fd True w of (err, w) \<Rightarrow>
                     if err \<noteq> 0 then (err, st, fs_close env lock_fd w) else (lock_fd, st, w))))"

definition xdp_lock_release :: "'w fs_env \<Rightarrow> int \<Rightarrow> 'w \<Rightarrow> int \<times> 'w" where
  "xdp_lock_release env lock_fd w =
     (case fs_flock env lock_fd False w of (err, w) \<Rightarrow> (err, fs_close env lock_fd w))"

subsection \<open>The cached lock directory\<close>

text \<open>What a call of \<open>get_lock_dir\<close> leaves behind: a result for all later calls, whatever the state of the system is
  then.\<close>

lemma get_lock_dir_result:
  assumes "st_lock_dir st = None" and "get_lock_dir env bd run st w = (r, st', w')"
  shows "case r of Inr d \<Rightarrow> st_lock_dir st' = Some (Inr d)
    | Inl _ \<Rightarrow> \<exists>e. fst (get_bpffs_dir env bd st w) = Inl e \<and> st_lock_dir st' = Some (Inl e)"
  using assms by (auto simp: get_lock_dir_def Let_def split: prod.splits sum.splits)

lemma get_lock_dir_cached: "st_lock_dir st = Some c \<Longrightarrow> get_lock_dir env bd run st w = (c, st, w)"
  by (simp add: get_lock_dir_def)

text \<open>the lock directory is looked up once.  After the first call the answer does not depend on the system any more
  and the system is not touched.  A directory that was found is found again.  But if neither the BPF
  file system nor the run directory could be used, the error of the former stays: every later attempt to
  take the lock fails with it without a system call, also when both directories have become available.\<close>

theorem lock_dir_cached:
  assumes "st_lock_dir st = None" and "get_lock_dir env bd run st w = (r, st', w')"
  shows "(\<forall>d. r = Inr d \<longrightarrow> (\<forall>env2 w2. get_lock_dir env2 bd run st' w2 = (Inr d, st', w2)))
    \<and> (\<forall>err. r = Inl err \<longrightarrow> (\<exists>e. fst (get_bpffs_dir env bd st w) = Inl e
         \<and> (\<forall>env2 w2. xdp_lock_acquire env2 bd run st' w2 = (e, st', w2))))"
proof (intro conjI allI impI)
  fix d env2 w2 assume "r = Inr d"
  then show "get_lock_dir env2 bd run st' w2 = (Inr d, st', w2)"
    using get_lock_dir_result[OF assms] by (simp add: get_lock_dir_cached)
next
  fix err assume "r = Inl err"
  then obtain e where e: "fst (get_bpffs_dir env bd st w) = Inl e" "st_lock_dir st' = Some (Inl e)"
    using get_lock_dir_result[OF assms] by auto
  then show "\<exists>e. fst (get_bpffs_dir env bd st w) = Inl e
      \<and> (\<forall>env2 w2. xdp_lock_acquire env2 bd run st' w2 = (e, st', w2))"
    by (auto simp: xdp_lock_acquire_def get_lock_dir_cached)
qed

text \<open>A system whose state says whether it works at all.\<close>

definition switch_env :: "bool fs_env" where
  "switch_env = \<lparr>fs_statfs = (\<lambda>_ w. (if w then Inr BPF_FS_MAGIC else Inl (- ENOENT), w)),
     fs_mount = (\<lambda>_ w. (if w then 0 else - EPERM, w)), fs_getenv = (\<lambda>_ w. (None, w)),
     fs_mkdir = (\<lambda>_ w. (if w then 0 else - EPERM, w)), fs_open_dir = (\<lambda>_ w. (if w then 3 else - ENOENT, w)),
     fs_flock = (\<lambda>_ _ w. (0, w)), fs_close = (\<lambda>_ w. w)\<rparr>"

theorem lock_dir_cached_witness:
  "fst (xdp_lock_acquire switch_env ''/sys/fs/bpf'' ''/run'' fresh_statics True) = 3
   \<and> (\<exists>st'. get_lock_dir switch_env ''/sys/fs/bpf'' ''/run'' fresh_statics False = (Inl (- EPERM), st', False)
          \<and> xdp_lock_acquire switch_env ''/sys/fs/bpf'' ''/run'' st' True = (- ENOENT, st', True))"
proof
  show "fst (xdp_lock_acquire switch_env ''/sys/fs/bpf'' ''/run'' fresh_statics True) = 3" by code_simp
  let ?g = "get_lock_dir switch_env ''/sys/fs/bpf'' ''/run'' fresh_statics False"
  have g: "fst ?g = Inl (- EPERM)" "snd (snd ?g) = False"
    "fst (get_bpffs_dir switch_env ''/sys/fs/bpf'' fresh_statics False) = Inl (- ENOENT)" by code_simp+
  then obtain st' where st': "?g = (Inl (- EPERM), st', False)" by (cases ?g) auto
  have "st_lock_dir fresh_statics = None" by (simp add: fresh_statics_def)
  from lock_dir_cached[OF this st'] g(3) st'
  show "\<exists>st'. ?g = (Inl (- EPERM), st', False)
      \<and> xdp_lock_acquire switch_env ''/sys/fs/bpf'' ''/run'' st' True = (- ENOENT, st', True)" by auto
qed

end
