(* ===== verification/Libxdp_Clean.thy ===== *)
theory Libxdp_Clean
  imports Libxdp_Proofs
begin

text \<open>
  \<open>libxdp_clean_references\<close> of \<open>libxdp.c\<close>: it removes the directories of dispatchers that are no longer
  attached.  \<open>opendir\<close> and the \<open>readdir\<close> loop over a directory are one service that yields the names with the
  test \<open>d_type == DT_DIR\<close>, or the negated \<open>errno\<close> of \<open>opendir\<close>.  The locale \<open>pin_tree\<close> states what the file
  system promises about the two levels of directories.
\<close>

subsection \<open>Directory names\<close>

text \<open>The conversions \<open>%d\<close> and \<open>%u\<close> of \<open>sscanf\<close>: white space, a sign, at least one digit; the value is
  that of \<open>strtol\<close> or \<open>strtoul\<close>, cut to 32 bits.\<close>

definition scan_int :: "string \<Rightarrow> (int \<times> string) option" where
  "scan_int s =
     (let s = dropWhile is_space s;
          (neg, s) = (case s of c # cs \<Rightarrow>
                        if c = CHR 0x2D then (True, cs) else if c = CHR 0x2B then (False, cs) else (False, s)
                      | [] \<Rightarrow> (False, s));
          v = digits_value (takeWhile is_digit s)
      in if takeWhile is_digit s = [] then None
         else Some (if neg then - v else v, dropWhile is_digit s))"

definition conv_d :: "int \<Rightarrow> int" where
  "conv_d v = sint (word_of_int (max (- (2 ^ 63)) (min (2 ^ 63 - 1) v)) :: 32 word)"

definition conv_u :: "int \<Rightarrow> u32" where
  "conv_u v = word_of_int (if \<bar>v\<bar> \<ge> 2 ^ 64 then 2 ^ 64 - 1 else v)"

definition sscanf_dispatch :: "string \<Rightarrow> (int \<times> u32) option" where
  "sscanf_dispatch name =
     (if take 9 name \<noteq> ''dispatch-'' then None
      else do {
        (i, rest) \<leftarrow> scan_int (drop 9 name);
        if take 1 rest \<noteq> ''-'' then None
        else do { (p, _) \<leftarrow> scan_int (drop 1 rest); Some (conv_d i, conv_u p) }
      })"

subsection \<open>Removing directories\<close>

type_synonym 'w lister = "string \<Rightarrow> 'w \<Rightarrow> (int + (string \<times> bool) list) \<times> 'w"

fun remove_files :: "'w libxdp_env \<Rightarrow> string \<Rightarrow> (string \<times> bool) list \<Rightarrow> 'w st \<Rightarrow> (int \<times> 'w st) option" where
  "remove_files env pin_path [] s = Some (0, s)"
| "remove_files env pin_path ((d_name, is_dir) # ents) s =
     (if is_dir then remove_files env pin_path ents s
      else let prog_path = pin_path @ ''/'' @ d_name
           in if try_snprintf PATH_MAX prog_path \<noteq> 0 then Some (try_snprintf PATH_MAX prog_path, s)
              else do {
                (err, s) \<leftarrow> sys (unlink env prog_path) s;
                if err \<noteq> 0 then Some (err, s) else remove_files env pin_path ents s
              })"

definition remove_pin_dir :: "'w libxdp_env \<Rightarrow> 'w lister \<Rightarrow> string \<Rightarrow> 'w st \<Rightarrow> (int \<times> 'w st) option" where
  "remove_pin_dir env ls subdir s = do {
     (r, s) \<leftarrow> sys (bpffs_dir env) s;
     case r of
       Inl err \<Rightarrow> Some (err, s)
     | Inr dir \<Rightarrow>
         (let pin_path = dir @ ''/'' @ subdir
          in if try_snprintf PATH_MAX pin_path \<noteq> 0 then Some (try_snprintf PATH_MAX pin_path, s)
             else do {
               (d, s) \<leftarrow> sys (ls pin_path) s;
               case d of
                 Inl err \<Rightarrow> Some (err, s)
               | Inr ents \<Rightarrow> do {
                   (err, s) \<leftarrow> remove_files env pin_path ents s;
                   if err \<noteq> 0 then Some (err, s) else sys (rmdir env pin_path) s
                 }
             })
   }"

text \<open>\<open>prog_id\<close> (here \<open>cur_id\<close>) is set only when the query reports a program: otherwise it keeps the id of an earlier
  directory.\<close>

fun clean_loop ::
  "'w libxdp_env \<Rightarrow> 'w lister \<Rightarrow> int \<Rightarrow> u32 \<Rightarrow> (string \<times> bool) list \<Rightarrow> 'w st \<Rightarrow> (int \<times> 'w st) option" where
  "clean_loop env ls ifindex cur_id [] s = Some (0, s)"
| "clean_loop env ls ifindex cur_id ((d_name, is_dir) # ents) s =
     (if \<not> is_dir then clean_loop env ls ifindex cur_id ents s
      else case sscanf_dispatch d_name of
          None \<Rightarrow> clean_loop env ls ifindex cur_id ents s
        | Some (path_ifindex, dir_prog_id) \<Rightarrow>
            if ifindex \<noteq> 0 \<and> path_ifindex \<noteq> ifindex then clean_loop env ls ifindex cur_id ents s
            else do {
              (r, s) \<leftarrow> xdp_get_ifindex_prog_id env path_ifindex (cur_id, 0, XDP_MODE_UNSPEC) s;
              let cur_id = (case r of Inl _ \<Rightarrow> cur_id | Inr (pid, _, _) \<Rightarrow> pid);
              if cur_id = 0 \<or> cur_id \<noteq> dir_prog_id then do {
                (err, s) \<leftarrow> remove_pin_dir env ls d_name s;
                if err \<noteq> 0 then Some (err, s) else clean_loop env ls ifindex cur_id ents s
              }
              else clean_loop env ls ifindex cur_id ents s
            })"

definition libxdp_clean_references ::
  "'w libxdp_env \<Rightarrow> 'w lister \<Rightarrow> int \<Rightarrow> 'w st \<Rightarrow> (int \<times> 'w st) option" where
  "libxdp_clean_references env ls ifindex s = do {
     (r, s) \<leftarrow> sys (bpffs_dir env) s;
     case r of
       Inl err \<Rightarrow> Some (err, s)
     | Inr dir \<Rightarrow> do {
         (lock_fd, s) \<leftarrow> sys (lock_acquire env) s;
         if lock_fd < 0 then Some (lock_fd, s)
         else do {
           (d, s) \<leftarrow> sys (ls dir) s;
           (err, s) \<leftarrow> (case d of
                          Inl err \<Rightarrow> Some (err, s)
                        | Inr ents \<Rightarrow> clean_loop env ls ifindex 0 ents s);
           (_, s) \<leftarrow> sys (lock_release env lock_fd) s;
           Some (err, s)
         }
       }
   }"

subsection \<open>Names are read back\<close>

definition dispatch_name :: "int \<Rightarrow> u32 \<Rightarrow> string" where
  "dispatch_name ifindex pid = ''dispatch-'' @ dec_int ifindex @ ''-'' @ dec_int (sint pid)"

lemma scan_int_dec_int:
  assumes "rest = [] \<or> \<not> is_digit (hd rest)"
  shows "scan_int (dec_int i @ rest) = Some (i, rest)"
proof -
  have d: "takeWhile is_digit (dec_digits n @ rest) = dec_digits n" "dropWhile is_digit (dec_digits n @ rest) = rest" for n
    using assms dec_digits_digit[of _ n] by (cases rest; auto simp: takeWhile_append dropWhile_append)+
  obtain c cs where c: "dec_digits (nat i) = c # cs" using dec_digits_ne by (cases "dec_digits (nat i)") auto
  then have "is_digit c" using dec_digits_digit[of c "nat i"] by simp
  then have s: "\<not> is_space c" "c \<noteq> CHR 0x2D" "c \<noteq> CHR 0x2B" using is_digit_not_space by auto
  show ?thesis
  proof (cases "i < 0")
    case True
    have "\<not> is_space CHR 0x2D" by (simp add: is_space_def)
    then show ?thesis using True d[of "nat (- i)"] dec_digits_ne[of "nat (- i)"] digits_value_dec_digits[of "nat (- i)"]
      by (simp add: scan_int_def dec_int_def Let_def)
  next
    case False
    moreover have "dropWhile is_space (c # cs @ rest) = c # cs @ rest" using s by simp
    ultimately show ?thesis using d[of "nat i"] digits_value_dec_digits[of "nat i"] s
      by (simp add: scan_int_def dec_int_def Let_def c del: takeWhile.simps dropWhile.simps(2))
  qed
qed

lemma sscanf_dispatch_name:
  assumes "- (2 ^ 31) \<le> i" "i < 2 ^ 31"
  shows "sscanf_dispatch (dispatch_name i pid) = Some (i, pid)"
proof -
  have "scan_int (dec_int i @ ''-'' @ dec_int (sint pid)) = Some (i, ''-'' @ dec_int (sint pid))"
    by (rule scan_int_dec_int) (simp add: is_digit_def)
  moreover have "scan_int (dec_int (sint pid)) = Some (sint pid, [])"
    using scan_int_dec_int[of "[]" "sint pid"] by simp
  moreover have "conv_d i = i" using assms by (simp add: conv_d_def sint_sbintrunc' signed_take_bit_int_eq_self)
  moreover have "\<bar>sint pid\<bar> < 2 ^ 64" using sint_range_size[of pid] by (simp add: word_size abs_if)
  then have "conv_u (sint pid) = pid" by (simp add: conv_u_def)
  ultimately show ?thesis by (simp add: sscanf_dispatch_def dispatch_name_def)
qed

subsection \<open>The two levels of directories\<close>

definition attached_id :: "xdp_query \<Rightarrow> u32" where
  "attached_id q = fst (ifindex_prog_id q 0 0 XDP_MODE_UNSPEC)"

lemma ifindex_prog_id_carry:
  "fst (ifindex_prog_id q c h m) = attached_id q \<or> attached_id q = 0 \<and> fst (ifindex_prog_id q c h m) = c"
  by (auto simp: attached_id_def ifindex_prog_id_def split: xdp_attached.splits)

text \<open>The directories that cleaning is to remove.\<close>

definition stale :: "(int \<Rightarrow> xdp_query) \<Rightarrow> int \<Rightarrow> string \<Rightarrow> bool" where
  "stale q ifindex n \<longleftrightarrow> (case sscanf_dispatch n of None \<Rightarrow> False
     | Some (i, pid) \<Rightarrow> (ifindex = 0 \<or> i = ifindex) \<and> (pid = 0 \<or> attached_id (q i) \<noteq> pid))"

text \<open>No directory names an interface together with a program that is attached to another one.\<close>

definition own_ids :: "(int \<Rightarrow> xdp_query) \<Rightarrow> string set \<Rightarrow> bool" where
  "own_ids q ns \<longleftrightarrow> (\<forall>n\<in>ns. \<forall>i pid j. sscanf_dispatch n = Some (i, pid) \<and> attached_id (q j) = pid \<longrightarrow> pid = 0 \<or> j = i)"

text \<open>\<open>subdirs w\<close> are the directories below \<open>dir\<close>, \<open>files_in w n\<close> the files in such a directory, \<open>attached\<close> the answers
  of the interfaces, which do not change while the lock is held.  Removing a file that exists and a directory that is
  empty succeeds.\<close>

locale pin_tree =
  fixes env :: "'w libxdp_env" and ls :: "'w lister" and dir :: string
    and subdirs :: "'w \<Rightarrow> string set" and files_in :: "'w \<Rightarrow> string \<Rightarrow> string set" and attached :: "int \<Rightarrow> xdp_query"
  assumes bpffs: "bpffs_dir env w = (Inr dir, w)"
    and root: "\<exists>ents. ls dir w = (Inr ents, w) \<and> distinct ents \<and> (\<forall>n. (n, True) \<in> set ents \<and> sscanf_dispatch n \<noteq> None
          \<longleftrightarrow> n \<in> subdirs w \<and> sscanf_dispatch n \<noteq> None)"
    and sub: "n \<in> subdirs w \<Longrightarrow> \<exists>ents. ls (dir @ ''/'' @ n) w = (Inr ents, w) \<and> distinct ents
          \<and> (\<forall>x. (x, False) \<in> set ents \<longleftrightarrow> x \<in> files_in w n)"
    and unlink_file: "n \<in> subdirs w \<Longrightarrow> x \<in> files_in w n \<Longrightarrow> \<exists>w'. unlink env (dir @ ''/'' @ n @ ''/'' @ x) w = (0, w')
          \<and> subdirs w' = subdirs w \<and> files_in w' = (files_in w)(n := files_in w n - {x})"
    and rmdir_empty: "n \<in> subdirs w \<Longrightarrow> files_in w n = {} \<Longrightarrow> \<exists>w'. rmdir env (dir @ ''/'' @ n) w = (0, w')
          \<and> subdirs w' = subdirs w - {n} \<and> files_in w' = files_in w"
    and query: "xdp_query env i w = (Inr (attached i), w)"
    and lock: "lock_acquire env w = (r, w') \<Longrightarrow> subdirs w' = subdirs w \<and> files_in w' = files_in w"
    and release: "lock_release env fd w = (u, w') \<Longrightarrow> subdirs w' = subdirs w \<and> files_in w' = files_in w"
begin

lemma remove_files_ok:
  assumes "distinct ents" "n \<in> subdirs (snd s)"
    and "\<forall>x. (x, False) \<in> set ents \<longrightarrow> x \<in> files_in (snd s) n \<and> length (dir @ ''/'' @ n @ ''/'' @ x) < PATH_MAX"
  shows "\<exists>w'. remove_files env (dir @ ''/'' @ n) ents s = Some (0, (fst s, w')) \<and> subdirs w' = subdirs (snd s)
    \<and> files_in w' = (files_in (snd s))(n := files_in (snd s) n - {x. (x, False) \<in> set ents})"
  using assms
proof (induction ents arbitrary: s)
  case Nil
  then show ?case by (cases s) simp
next
  case (Cons e ents)
  obtain x d where e: "e = (x, d)" by (cases e)
  show ?case
  proof (cases d)
    case True
    then show ?thesis using Cons e by auto
  next
    case False
    with Cons.prems e obtain w1 where w1: "unlink env (dir @ ''/'' @ n @ ''/'' @ x) (snd s) = (0, w1)"
      "subdirs w1 = subdirs (snd s)" "files_in w1 = (files_in (snd s))(n := files_in (snd s) n - {x})"
      using unlink_file[of n "snd s" x] by auto
    have "length (dir @ ''/'' @ n @ ''/'' @ x) < PATH_MAX" using Cons.prems(3) e False by simp
    then have r: "remove_files env (dir @ ''/'' @ n) (e # ents) s = remove_files env (dir @ ''/'' @ n) ents (fst s, w1)"
      using w1(1) e False by (simp add: Let_def try_snprintf_def sys_def)
    have "\<forall>y. (y, False) \<in> set ents \<longrightarrow> y \<in> files_in w1 n \<and> length (dir @ ''/'' @ n @ ''/'' @ y) < PATH_MAX"
      using Cons.prems(1,3) w1(3) e False by auto
    with Cons.IH[of "(fst s, w1)"] Cons.prems(1,2) w1(2) obtain w' where
      w': "remove_files env (dir @ ''/'' @ n) ents (fst s, w1) = Some (0, (fst s, w'))" "subdirs w' = subdirs w1"
      "files_in w' = (files_in w1)(n := files_in w1 n - {x. (x, False) \<in> set ents})" by (auto simp: fun_upd_def)
    then have "files_in w' = (files_in (snd s))(n := files_in (snd s) n - {y. (y, False) \<in> set (e # ents)})"
      using w1(3) e False by (auto simp: fun_eq_iff)
    then show ?thesis unfolding r using w' w1(2) by blast
  qed
qed

lemma remove_pin_dir_ok:
  assumes "n \<in> subdirs (snd s)"
    and "\<forall>x\<in>files_in (snd s) n. length (dir @ ''/'' @ n @ ''/'' @ x) < PATH_MAX" "length (dir @ ''/'' @ n) < PATH_MAX"
  shows "\<exists>w'. remove_pin_dir env ls n s = Some (0, (fst s, w')) \<and> subdirs w' = subdirs (snd s) - {n}
    \<and> files_in w' = (files_in (snd s))(n := {})"
proof -
  obtain ents where ls: "ls (dir @ ''/'' @ n) (snd s) = (Inr ents, snd s)" "distinct ents"
    "\<forall>x. (x, False) \<in> set ents \<longleftrightarrow> x \<in> files_in (snd s) n" using sub[OF assms(1)] by blast
  then have "{x. (x, False) \<in> set ents} = files_in (snd s) n" by auto
  with remove_files_ok[OF ls(2) assms(1)] ls(3) assms(2) obtain w1 where
    w1: "remove_files env (dir @ ''/'' @ n) ents s = Some (0, (fst s, w1))" "subdirs w1 = subdirs (snd s)"
    "files_in w1 = (files_in (snd s))(n := {})" by auto
  then obtain w' where "rmdir env (dir @ ''/'' @ n) w1 = (0, w')" "subdirs w' = subdirs w1 - {n}" "files_in w' = files_in w1"
    using rmdir_empty[of n w1] assms(1) by auto
  with w1 ls(1) assms(3) show ?thesis
    by (intro exI[of _ w']) (simp add: remove_pin_dir_def sys_def bpffs Let_def try_snprintf_def)
qed

definition fits :: "'w \<Rightarrow> bool" where
  "fits w \<longleftrightarrow> (\<forall>n\<in>subdirs w. length (dir @ ''/'' @ n) < PATH_MAX
     \<and> (\<forall>x\<in>files_in w n. length (dir @ ''/'' @ n @ ''/'' @ x) < PATH_MAX))"

text \<open>Whether a directory is removed depends only on its own interface, although the id is carried along.\<close>

lemma carried_id:
  assumes "cur = 0 \<or> (\<exists>j. cur = attached_id (attached j))" and "own_ids attached {n}"
    and "sscanf_dispatch n = Some (i, pid)" and "c = fst (ifindex_prog_id (attached i) cur h m)"
  shows "(c = 0 \<or> c \<noteq> pid \<longleftrightarrow> pid = 0 \<or> attached_id (attached i) \<noteq> pid)
    \<and> (c = 0 \<or> (\<exists>j. c = attached_id (attached j)))"
  using ifindex_prog_id_carry[of "attached i" cur h m] assms by (auto simp: own_ids_def)

lemma clean_loop_ok:
  assumes "distinct ents" "fits (snd s)" "cur = 0 \<or> (\<exists>j. cur = attached_id (attached j))"
    and "\<forall>n. (n, True) \<in> set ents \<and> sscanf_dispatch n \<noteq> None \<longrightarrow> n \<in> subdirs (snd s) \<and> own_ids attached {n}"
  shows "\<exists>w'. clean_loop env ls ifx cur ents s = Some (0, (fst s, w'))
    \<and> subdirs w' = subdirs (snd s) - {n. (n, True) \<in> set ents \<and> stale attached ifx n}
    \<and> (\<forall>n\<in>subdirs w'. files_in w' n = files_in (snd s) n)"
  using assms
proof (induction ents arbitrary: s cur)
  case Nil
  then show ?case by (cases s) simp
next
  case (Cons e ents)
  obtain n d where e: "e = (n, d)" by (cases e)
  show ?case
  proof (cases "d \<and> (\<exists>i pid. sscanf_dispatch n = Some (i, pid) \<and> (ifx = 0 \<or> i = ifx))")
    case False
    then have "clean_loop env ls ifx cur (e # ents) s = clean_loop env ls ifx cur ents s" "d \<longrightarrow> \<not> stale attached ifx n"
      using e by (auto simp: stale_def split: option.splits)
    moreover from this(2) have "{n. (n, True) \<in> set (e # ents) \<and> stale attached ifx n} = {n. (n, True) \<in> set ents \<and> stale attached ifx n}"
      using e by auto
    moreover have "distinct ents" "\<forall>n. (n, True) \<in> set ents \<and> sscanf_dispatch n \<noteq> None \<longrightarrow> n \<in> subdirs (snd s) \<and> own_ids attached {n}"
      using Cons.prems(1,4) by auto
    ultimately show ?thesis using Cons.IH[OF _ Cons.prems(2,3)] by presburger
  next
    case True
    then obtain i pid where n: "d" "sscanf_dispatch n = Some (i, pid)" "ifx = 0 \<or> i = ifx" by blast
    define c where "c = fst (ifindex_prog_id (attached i) cur 0 XDP_MODE_UNSPEC)"
    have "own_ids attached {n}" "n \<in> subdirs (snd s)" using Cons.prems(4) e n by auto
    note cid = carried_id[OF Cons.prems(3) this(1) n(2) c_def]
    have st: "stale attached ifx n \<longleftrightarrow> c = 0 \<or> c \<noteq> pid" using cid n by (simp add: stale_def)
    obtain w1 where w1: "(if c = 0 \<or> c \<noteq> pid then remove_pin_dir env ls n s else Some (0, s)) = Some (0, (fst s, w1))"
      "subdirs w1 = (if c = 0 \<or> c \<noteq> pid then subdirs (snd s) - {n} else subdirs (snd s))"
      "\<forall>m\<in>subdirs w1. files_in w1 m = files_in (snd s) m"
    proof (cases "c = 0 \<or> c \<noteq> pid")
      case True
      with remove_pin_dir_ok[OF \<open>n \<in> subdirs (snd s)\<close>] Cons.prems(2) \<open>n \<in> subdirs (snd s)\<close>
      show ?thesis by (auto simp: fits_def intro: that)
    next
      case False
      then show ?thesis by (intro that[of "snd s"]) auto
    qed
    have q: "xdp_get_ifindex_prog_id env i (cur, 0, XDP_MODE_UNSPEC) s
        = Some (Inr (c, snd (ifindex_prog_id (attached i) cur 0 XDP_MODE_UNSPEC)), s)"
      by (cases s) (simp add: xdp_get_ifindex_prog_id_def sys_def query c_def)
    have r: "clean_loop env ls ifx cur (e # ents) s = clean_loop env ls ifx c ents (fst s, w1)"
      using w1(1) e n q by (auto simp: Let_def split: prod.splits if_splits)
    have "fits w1" using Cons.prems(2) w1(2,3) by (auto simp: fits_def split: if_splits)
    have "\<exists>w'. clean_loop env ls ifx c ents (fst s, w1) = Some (0, (fst s, w'))
      \<and> subdirs w' = subdirs w1 - {n. (n, True) \<in> set ents \<and> stale attached ifx n}
      \<and> (\<forall>n\<in>subdirs w'. files_in w' n = files_in w1 n)"
    proof -
      have "\<forall>m. (m, True) \<in> set ents \<and> sscanf_dispatch m \<noteq> None \<longrightarrow> m \<in> subdirs w1 \<and> own_ids attached {m}"
        using Cons.prems(1,4) w1(2) e n(1) by auto
      then show ?thesis using Cons.IH[of "(fst s, w1)" c] Cons.prems(1) \<open>fits w1\<close> cid by simp
    qed
    then show ?thesis unfolding r using w1 st e n by auto
  qed
qed

lemma clean_references_ok:
  assumes "fits (snd s)" "own_ids attached (subdirs (snd s))" "fst (lock_acquire env (snd s)) \<ge> 0"
  shows "\<exists>w'. libxdp_clean_references env ls ifx s = Some (0, (fst s, w'))
    \<and> subdirs w' = {n \<in> subdirs (snd s). \<not> stale attached ifx n}
    \<and> (\<forall>n\<in>subdirs w'. files_in w' n = files_in (snd s) n)"
proof -
  obtain fd w1 where l: "lock_acquire env (snd s) = (fd, w1)" "fd \<ge> 0" using assms(3) by (cases "lock_acquire env (snd s)") auto
  have w1: "subdirs w1 = subdirs (snd s)" "files_in w1 = files_in (snd s)" using lock[OF l(1)] by auto
  obtain ents where ls: "ls dir w1 = (Inr ents, w1)" "distinct ents"
    "\<forall>n. (n, True) \<in> set ents \<and> sscanf_dispatch n \<noteq> None \<longleftrightarrow> n \<in> subdirs w1 \<and> sscanf_dispatch n \<noteq> None" using root by blast
  then have m: "\<forall>n. (n, True) \<in> set ents \<and> sscanf_dispatch n \<noteq> None \<longrightarrow> n \<in> subdirs (snd (fst s, w1)) \<and> own_ids attached {n}"
    using assms(2) w1 by (auto simp: own_ids_def)
  have "fits (snd (fst s, w1))" using assms(1) w1 by (simp add: fits_def)
  from clean_loop_ok[OF ls(2) this _ m, of 0 ifx] obtain w2 where
    w2: "clean_loop env ls ifx 0 ents (fst s, w1) = Some (0, (fst s, w2))"
    "subdirs w2 = subdirs w1 - {n. (n, True) \<in> set ents \<and> stale attached ifx n}"
    "\<forall>n\<in>subdirs w2. files_in w2 n = files_in w1 n" by auto
  obtain u w3 where w3: "lock_release env fd w2 = (u, w3)" by (cases "lock_release env fd w2")
  have "subdirs w2 = {n \<in> subdirs (snd s). \<not> stale attached ifx n}"
    using w2(2) ls(3) w1 by (auto simp: stale_def split: option.splits)
  then show ?thesis using l ls(1) w1 w2 w3 release[OF w3]
    by (intro exI[of _ w3]) (simp add: libxdp_clean_references_def sys_def bpffs)
qed

end

subsection \<open>An instance\<close>

text \<open>A file system with the directory \<open>/bpf\<close>: a directory below it is the path with a final slash.\<close>

definition kt_names :: "string \<Rightarrow> string list \<Rightarrow> string list" where
  "kt_names p fs = remdups (filter (\<lambda>x. x \<noteq> [] \<and> CHR ''/'' \<notin> set x)
     (map (drop (length p + 1)) (filter (\<lambda>f. take (length p + 1) f = p @ ''/'') fs)))"

definition kt_subdirs :: "kworld \<Rightarrow> string list" where
  "kt_subdirs w = kt_names ''/bpf'' (map butlast (filter (\<lambda>f. f \<noteq> [] \<and> last f = CHR ''/'') (w_files w)))"

definition kt_files :: "kworld \<Rightarrow> string \<Rightarrow> string list" where
  "kt_files w n = (if CHR ''/'' \<in> set n then [] else kt_names (''/bpf/'' @ n) (w_files w))"

definition kt_ls :: "kworld lister" where
  "kt_ls p w = (Inr (if p = ''/bpf'' then map (\<lambda>n. (n, True)) (kt_subdirs w)
                     else map (\<lambda>x. (x, False)) (kt_files w (drop 5 p))), w)"

definition kt_query :: "int \<Rightarrow> xdp_query" where
  "kt_query i = (if i = 2 then \<lparr>q_drv_prog_id = 10, q_skb_prog_id = 0, q_hw_prog_id = 0, q_attach_mode = XDP_ATTACHED_DRV\<rparr>
     else \<lparr>q_drv_prog_id = 0, q_skb_prog_id = 0, q_hw_prog_id = 0, q_attach_mode = XDP_ATTACHED_NONE\<rparr>)"

definition kt_env :: "kworld libxdp_env" where
  "kt_env = k_env\<lparr>xdp_query := \<lambda>i w. (Inr (kt_query i), w),
     rmdir := \<lambda>p w. (0, w\<lparr>w_files := removeAll (p @ ''/'') (w_files w)\<rparr>)\<rparr>"

lemma set_kt_names: "x \<in> set (kt_names p fs) \<longleftrightarrow> x \<noteq> [] \<and> CHR ''/'' \<notin> set x \<and> p @ ''/'' @ x \<in> set fs"
proof -
  have "take (length p + 1) f = p @ ''/'' \<and> x = drop (length p + 1) f \<longleftrightarrow> f = p @ ''/'' @ x" for f
    by (auto simp: append_eq_conv_conj) (metis append_take_drop_id append_assoc append_Cons append_Nil)+
  then show ?thesis by (auto simp: kt_names_def image_iff)
qed

lemma set_kt_subdirs: "n \<in> set (kt_subdirs w) \<longleftrightarrow> n \<noteq> [] \<and> CHR ''/'' \<notin> set n \<and> ''/bpf/'' @ n @ ''/'' \<in> set (w_files w)"
proof -
  have "f \<noteq> [] \<and> last f = CHR ''/'' \<and> g = butlast f \<longleftrightarrow> f = g @ ''/''" for f g :: string
    by (metis append_butlast_last_id butlast_snoc last_snoc snoc_eq_iff_butlast)
  then have "g \<in> set (map butlast (filter (\<lambda>f. f \<noteq> [] \<and> last f = CHR ''/'') fs)) \<longleftrightarrow> g @ ''/'' \<in> set fs" for g fs
    by (auto simp: image_iff)
  then show ?thesis by (simp add: kt_subdirs_def set_kt_names del: set_map)
qed

lemma split_slash:
  "CHR ''/'' \<notin> set n \<Longrightarrow> CHR ''/'' \<notin> set m \<Longrightarrow> n @ ''/'' @ x = m @ ''/'' @ y \<longleftrightarrow> n = m \<and> x = y"
proof (induction n arbitrary: m)
  case Nil
  then show ?case by (cases m) auto
next
  case (Cons c n)
  then show ?case by (cases m) auto
qed

lemma set_kt_files: "x \<in> set (kt_files w n) \<longleftrightarrow> CHR ''/'' \<notin> set n \<and> x \<noteq> [] \<and> CHR ''/'' \<notin> set x \<and> ''/bpf/'' @ n @ ''/'' @ x \<in> set (w_files w)"
  by (simp add: kt_files_def set_kt_names)

interpretation kt: pin_tree kt_env kt_ls "''/bpf''" "set \<circ> kt_subdirs" "\<lambda>w n. set (kt_files w n)" kt_query
proof unfold_locales
  fix w :: kworld and n x :: string
  let ?f = "''/bpf/'' @ n @ ''/'' @ x"
  let ?u = "w\<lparr>w_files := removeAll ?f (w_files w)\<rparr>" and ?r = "w\<lparr>w_files := removeAll (''/bpf/'' @ n @ ''/'') (w_files w)\<rparr>"
  show "\<exists>ents. kt_ls ''/bpf'' w = (Inr ents, w) \<and> distinct ents \<and> (\<forall>n. (n, True) \<in> set ents \<and> sscanf_dispatch n \<noteq> None
      \<longleftrightarrow> n \<in> (set \<circ> kt_subdirs) w \<and> sscanf_dispatch n \<noteq> None)"
    by (auto simp: kt_ls_def distinct_map inj_on_def kt_subdirs_def kt_names_def)
  show "\<exists>ents. kt_ls (''/bpf'' @ ''/'' @ n) w = (Inr ents, w) \<and> distinct ents \<and> (\<forall>x. (x, False) \<in> set ents \<longleftrightarrow> x \<in> set (kt_files w n))"
    by (auto simp: kt_ls_def distinct_map inj_on_def kt_files_def kt_names_def)
  show "\<exists>w'. unlink kt_env (''/bpf'' @ ''/'' @ n @ ''/'' @ x) w = (0, w') \<and> (set \<circ> kt_subdirs) w' = (set \<circ> kt_subdirs) w
      \<and> (\<lambda>n. set (kt_files w' n)) = (\<lambda>n. set (kt_files w n))(n := set (kt_files w n) - {x})"
    if "n \<in> (set \<circ> kt_subdirs) w" "x \<in> set (kt_files w n)"
  proof (intro exI[of _ ?u] conjI)
    show "unlink kt_env (''/bpf'' @ ''/'' @ n @ ''/'' @ x) w = (0, ?u)"
      using that(2) by (simp add: set_kt_files kt_env_def k_env_def)
    show "(set \<circ> kt_subdirs) ?u = (set \<circ> kt_subdirs) w"
      using that(2) split_slash[of _ n "[]" x] by (auto simp: set_kt_subdirs set_kt_files set_eq_iff)
    show "(\<lambda>n. set (kt_files ?u n)) = (\<lambda>n. set (kt_files w n))(n := set (kt_files w n) - {x})"
      using that(2) split_slash[of _ n _ x] by (auto simp: set_kt_files set_eq_iff fun_eq_iff)
  qed
  show "\<exists>w'. rmdir kt_env (''/bpf'' @ ''/'' @ n) w = (0, w') \<and> (set \<circ> kt_subdirs) w' = (set \<circ> kt_subdirs) w - {n}
      \<and> (\<lambda>n. set (kt_files w' n)) = (\<lambda>n. set (kt_files w n))" if "n \<in> (set \<circ> kt_subdirs) w"
  proof (intro exI[of _ ?r] conjI)
    show "rmdir kt_env (''/bpf'' @ ''/'' @ n) w = (0, ?r)" by (simp add: kt_env_def)
    show "(set \<circ> kt_subdirs) ?r = (set \<circ> kt_subdirs) w - {n}"
      using that by (auto simp: set_kt_subdirs set_eq_iff)
    show "(\<lambda>n. set (kt_files ?r n)) = (\<lambda>n. set (kt_files w n))"
      using that split_slash[of _ n _ "[]"] by (auto simp: set_kt_files set_kt_subdirs set_eq_iff fun_eq_iff)
  qed
qed (auto simp: kt_env_def k_env_def)

subsection \<open>Properties\<close>


definition kt_world :: kworld where
  "kt_world = \<lparr>w_fds = [], w_files = [''/bpf/dispatch-2-10/'', ''/bpf/dispatch-2-10/prog0-prog'',
     ''/bpf/dispatch-3-12/'', ''/bpf/dispatch-3-12/prog0-prog'', ''/bpf/dispatch-3-12/prog0-link'']\<rparr>"

lemma kt_world_dirs: "set (kt_subdirs kt_world) = {''dispatch-2-10'', ''dispatch-3-12''}"
  by code_simp


end
