(* ===== verification/Libxdp_Compat.thy ===== *)
theory Libxdp_Compat
  imports Libxdp_Proofs
begin

text \<open>
  The rest of the interface of \<open>libxdp.c\<close>: the check whether the kernel can run a dispatcher
  (\<open>libxdp_check_kern_compat\<close>, with its static variable), test runs, pinning a single program, and the small accessors.
  The services are those of \<open>Libxdp_Env\<close>; \<open>bpf_prog_test_run_opts\<close> and the file system part of
  \<open>bpf_program__pin\<close> are arguments.
\<close>

abbreviation (input) ENOEXEC :: int where "ENOEXEC \<equiv> 8"

subsection \<open>Accessors\<close>

text \<open>The result of an error, a null pointer with \<open>errno\<close> cleared, is \<^const>\<open>None\<close>.\<close>

definition xdp_program__btf :: "xdp_program option \<Rightarrow> btf option" where
  "xdp_program__btf p = (case p of None \<Rightarrow> None | Some p \<Rightarrow> prog_btf p)"

definition xdp_program__name :: "xdp_program option \<Rightarrow> string option" where
  "xdp_program__name p = (case p of None \<Rightarrow> None | Some p \<Rightarrow> prog_name p)"

definition xdp_program__bpf_obj :: "xdp_program option \<Rightarrow> nat option" where
  "xdp_program__bpf_obj p = (case p of None \<Rightarrow> None | Some p \<Rightarrow> bpf_obj p)"

definition xdp_program__tag :: "xdp_program option \<Rightarrow> u8 list option" where
  "xdp_program__tag p = (case p of None \<Rightarrow> None | Some p \<Rightarrow> Some (prog_tag p))"

definition xdp_multiprog__xdp_frags_support :: "xdp_multiprog option \<Rightarrow> bool option" where
  "xdp_multiprog__xdp_frags_support mpo =
     (if xdp_multiprog__is_legacy mpo then Some False
      else case mpo of None \<Rightarrow> None | Some mp \<Rightarrow> Some (is_xdp_frags (mp_config mp)))"

definition xdp_program__from_bpf_obj ::
  "'w libxdp_env \<Rightarrow> nat option \<Rightarrow> string option \<Rightarrow> 'w st \<Rightarrow> ((int + ptr) \<times> 'w st) option" where
  "xdp_program__from_bpf_obj env obj section_name s = xdp_program__create_from_obj env obj section_name None True s"

text \<open>\<open>bpf_program__pin\<close> of libbpf reads the descriptor in \<open>prog\<close> first; \<open>pin\<close> is the rest of it.\<close>

definition xdp_program__pin ::
  "(nat \<Rightarrow> string \<Rightarrow> 'w \<Rightarrow> int \<times> 'w) \<Rightarrow> ptr option \<Rightarrow> string \<Rightarrow> 'w st \<Rightarrow> (int \<times> 'w st) option" where
  "xdp_program__pin pin prog pin_path s =
     (case prog of
        None \<Rightarrow> Some (- EINVAL, s)
      | Some p \<Rightarrow>
          if prog_fd (prog_at s p) < 0 then Some (- EINVAL, s)
          else do {
            bp \<leftarrow> bpf_prog (prog_at s p);
            sys (pin (bp_handle bp) pin_path) s
          })"

subsection \<open>Test runs\<close>

definition xdp_program__test_run ::
  "'w libxdp_env \<Rightarrow> string \<Rightarrow> ((ptr \<Rightarrow> ptr \<Rightarrow> int) \<Rightarrow> ptr list \<Rightarrow> ptr list) \<Rightarrow> (int \<Rightarrow> 'w \<Rightarrow> int \<times> 'w)
   \<Rightarrow> ptr option \<Rightarrow> nat \<Rightarrow> 'w st \<Rightarrow> (int \<times> 'w st) option" where
  "xdp_program__test_run env path qsrt test_run prog flags s =
     (case prog of
        None \<Rightarrow> Some (- EINVAL, s)
      | Some p \<Rightarrow>
          if flags \<noteq> 0 then Some (- EINVAL, s)
          else do {
            (err, s) \<leftarrow> (if prog_fd (prog_at s p) < 0 then xdp_program__load env (Some p) s else Some (0, s));
            if err \<noteq> 0 then Some (err, s)
            else if prog_type (prog_at s p) = BPF_PROG_TYPE_EXT then do {
              (r, s) \<leftarrow> xdp_multiprog__generate env path qsrt [p] 0 None False s;
              case r of
                Inl e \<Rightarrow> Some (e, s)
              | Inr mp \<Rightarrow> do {
                  (err, s) \<leftarrow> sys (test_run (xdp_multiprog__main_fd (fst s) (Some mp))) s;
                  (_, s) \<leftarrow> xdp_multiprog__close env (Some mp) s;
                  Some (err, s)
                }
            }
            else if prog_type (prog_at s p) \<noteq> BPF_PROG_TYPE_XDP then Some (- ENOEXEC, s)
            else sys (test_run (prog_fd (prog_at s p))) s
          })"

subsection \<open>Compatibility of the kernel\<close>

text \<open>The static variable \<open>kernel_compat\<close>.\<close>

datatype kernel_compat = COMPAT_UNKNOWN | COMPAT_SUPPORTED | COMPAT_UNSUPPORTED

definition compat_result :: "kernel_compat \<Rightarrow> int" where
  "compat_result kc = (if kc = COMPAT_SUPPORTED then 0 else - EOPNOTSUPP)"

definition test_link_path :: "string \<Rightarrow> xdp_program \<Rightarrow> string" where
  "test_link_path dir p = dir @ ''/prog-test-link-'' @ dec_int 1 @ ''-'' @ dec_int (sint (prog_id p))"

text \<open>Pinning the link and removing the file again, under the lock.\<close>

definition compat_pin :: "'w libxdp_env \<Rightarrow> string \<Rightarrow> ptr \<Rightarrow> 'w st \<Rightarrow> (int \<times> 'w st) option" where
  "compat_pin env dir test_prog s =
     (let buf = test_link_path dir (prog_at s test_prog); err = try_snprintf PATH_MAX buf
      in if err \<noteq> 0 then Some (err, s)
         else do {
           (lock_fd, s) \<leftarrow> sys (lock_acquire env) s;
           if lock_fd < 0 then Some (lock_fd, s)
           else do {
             (err, s) \<leftarrow> sys (obj_pin env (link_fd (prog_at s test_prog)) buf) s;
             (err, s) \<leftarrow> (if err \<noteq> 0 then Some (err, s) else sys (unlink env buf) s);
             (_, s) \<leftarrow> sys (lock_release env lock_fd) s;
             Some (err, s)
           }
         })"

definition compat_attach :: "'w libxdp_env \<Rightarrow> string \<Rightarrow> ptr \<Rightarrow> 'w st \<Rightarrow> (int \<times> 'w st) option" where
  "compat_attach env dir test_prog s = do {
     (err, s) \<leftarrow> xdp_program__load env (Some test_prog) s;
     if err \<noteq> 0 then Some (err, s)
     else do {
       (lfd, s) \<leftarrow> sys (raw_tp_open env (prog_fd (prog_at s test_prog))) s;
       let s = set_prog test_prog ((prog_at s test_prog)\<lparr>link_fd := lfd\<rparr>) s;
       if lfd < 0 then Some (lfd, s) else compat_pin env dir test_prog s
     }
   }"

definition compat_try :: "'w libxdp_env \<Rightarrow> string \<Rightarrow> ptr \<Rightarrow> ptr \<Rightarrow> 'w st \<Rightarrow> (int \<times> 'w st) option" where
  "compat_try env dir tgt_prog test_prog s = do {
     (err, s) \<leftarrow> xdp_program__load env (Some tgt_prog) s;
     if err \<noteq> 0 then Some (err, s)
     else do {
       bp \<leftarrow> bpf_prog (prog_at s test_prog);
       (err, s) \<leftarrow> sys (prog_set_target env (bp_handle bp) (prog_fd (prog_at s tgt_prog)) ''xdp_pass'') s;
       if err \<noteq> 0 then Some (err, s)
       else do {
         (_, s) \<leftarrow> sys (prog_set_type env (bp_handle bp) BPF_PROG_TYPE_EXT) s;
         let s = set_prog test_prog ((prog_at s test_prog)\<lparr>bpf_prog := Some (bp\<lparr>bp_type := BPF_PROG_TYPE_EXT\<rparr>)\<rparr>) s;
         compat_attach env dir test_prog s
       }
     }
   }"

definition libxdp_check_kern_compat ::
  "'w libxdp_env \<Rightarrow> string \<Rightarrow> kernel_compat \<Rightarrow> 'w st \<Rightarrow> ((int \<times> kernel_compat) \<times> 'w st) option" where
  "libxdp_check_kern_compat env path kc s = do {
     (dir, s) \<leftarrow> sys (bpffs_dir env) s;
     case dir of
       Inl _ \<Rightarrow> Some ((- EOPNOTSUPP, kc), s)
     | Inr d \<Rightarrow>
         if kc \<noteq> COMPAT_UNKNOWN then Some ((compat_result kc, kc), s)
         else do {
           (tgt, s) \<leftarrow> xdp_program__find_file env path ''xdp-dispatcher.o'' None (Some ''xdp_pass'') s;
           case tgt of
             Inl e \<Rightarrow> Some ((e, kc), s)
           | Inr tgt_prog \<Rightarrow> do {
               (test, s) \<leftarrow> xdp_program__find_file env path ''xdp-dispatcher.o'' None (Some ''xdp_pass'') s;
               case test of
                 Inl e \<Rightarrow> Some ((e, kc), s)
               | Inr test_prog \<Rightarrow> do {
                   (err, s) \<leftarrow> compat_try env d tgt_prog test_prog s;
                   (_, s) \<leftarrow> xdp_program__close env (Some test_prog) s;
                   (_, s) \<leftarrow> xdp_program__close env (Some tgt_prog) s;
                   let kc = (if err \<noteq> 0 then COMPAT_UNSUPPORTED else COMPAT_SUPPORTED);
                   Some ((compat_result kc, kc), s)
                 }
             }
         }
   }"

subsection \<open>What the check leaves behind\<close>

text \<open>The resources of the process: descriptors, files in the BPF file system, and open libbpf objects.  A service that
  creates or removes one says so, every other service leaves them alone.\<close>

locale kernel_resources =
  fixes env :: "'w libxdp_env" and fds :: "'w \<Rightarrow> int set" and files :: "'w \<Rightarrow> string set" and objs :: "'w \<Rightarrow> nat set"
    and same :: "'w \<Rightarrow> 'w \<Rightarrow> bool"
  assumes same: "same w w' \<longleftrightarrow> fds w' = fds w \<and> files w' = files w \<and> objs w' = objs w"
    and dup: "dup_fd env fd w = (r, w') \<Longrightarrow> files w' = files w \<and> objs w' = objs w
      \<and> (if r < 0 then fds w' = fds w else r \<notin> fds w \<and> fds w' = insert r (fds w))"
    and raw: "raw_tp_open env fd w = (r, w') \<Longrightarrow> files w' = files w \<and> objs w' = objs w
      \<and> (if r < 0 then fds w' = fds w else r \<notin> fds w \<and> fds w' = insert r (fds w))"
    and lock: "lock_acquire env w = (r, w') \<Longrightarrow> files w' = files w \<and> objs w' = objs w
      \<and> (if r < 0 then fds w' = fds w else r \<notin> fds w \<and> fds w' = insert r (fds w))"
    and close: "close_fd env fd w = (u, w') \<Longrightarrow> files w' = files w \<and> objs w' = objs w \<and> fds w' = fds w - {fd}"
    and release: "lock_release env fd w = (u, w') \<Longrightarrow> files w' = files w \<and> objs w' = objs w \<and> fds w' = fds w - {fd}"
    and opn: "obj_open env f w = (r2, w') \<Longrightarrow> files w' = files w \<and> fds w' = fds w
      \<and> (case r2 of Inl _ \<Rightarrow> objs w' = objs w | Inr ob \<Rightarrow> ob \<notin> objs w \<and> objs w' = insert ob (objs w))"
    and oclose: "obj_close env ob w = (u, w') \<Longrightarrow> files w' = files w \<and> fds w' = fds w \<and> objs w' = objs w - {ob}"
    and pin: "obj_pin env fd f w = (r, w') \<Longrightarrow> fds w' = fds w \<and> objs w' = objs w
      \<and> (if r = 0 then f \<notin> files w \<and> files w' = insert f (files w) else files w' = files w)"
    and unlink: "unlink env f w = (r, w') \<Longrightarrow> fds w' = fds w \<and> objs w' = objs w \<and> files w' = files w - {f}"
    and quiet: "bpffs_dir env w = (d, w') \<Longrightarrow> same w w'" "getenv env f w = (so, w') \<Longrightarrow> same w w'"
      "stat_path env f w = (r, w') \<Longrightarrow> same w w'" "alloc env w = (ok, w') \<Longrightarrow> same w w'"
      "get_prog_info env fd w = (pinfo, w') \<Longrightarrow> same w w'" "btf_by_id env n w = (b, w') \<Longrightarrow> same w w'"
      "obj_progs env ob w = (ps, w') \<Longrightarrow> same w w'" "obj_btf env ob w = (b, w') \<Longrightarrow> same w w'"
      "obj_load env ob w = (r, w') \<Longrightarrow> same w w'" "prog_loaded env h w = (ok, w') \<Longrightarrow> same w w'"
      "prog_set_flags env h fl w = (r, w') \<Longrightarrow> same w w'" "prog_set_type env h ty w = (u, w') \<Longrightarrow> same w w'"
      "prog_set_target env h fd f w = (r, w') \<Longrightarrow> same w w'" "libbpf_prog_fd env h w = (r, w') \<Longrightarrow> same w w'"
begin

lemmas quiet' = quiet[unfolded same]

definition fresh_prog :: "nat \<Rightarrow> xdp_program \<Rightarrow> bool" where
  "fresh_prog ob x \<longleftrightarrow> link_fd x = -1 \<and> prog_fd x = -1 \<and> bpf_obj x = Some ob \<and> \<not> from_external_obj x"

lemma create_resources:
  assumes "xdp_program__create_from_obj env (Some ob) None (Some n) False s = Some (r, s')"
  shows "same (snd s) (snd s') \<and> (\<forall>q < length (fst s). prog_at s' q = prog_at s q) \<and> length (fst s) \<le> length (fst s')
    \<and> (case r of Inl _ \<Rightarrow> True | Inr p \<Rightarrow> length (fst s) \<le> p \<and> p < length (fst s') \<and> fresh_prog ob (prog_at s' p))"
  using assms unfolding xdp_program__create_from_obj_def xdp_program__close_def close_if_def
  by (auto elim!: bind_pair_SomeE simp: sys_Some Let_def prog_at_def set_prog_def new_prog_def fresh_prog_def same
      xdp_program__new_def nth_append
      dest!: quiet' parse_btf_keeps split: if_splits option.splits prod.splits)

lemma find_bpf_file_quiet: "find_bpf_file env path f s = Some (r, s') \<Longrightarrow> fst s' = fst s \<and> same (snd s) (snd s')"
  unfolding find_bpf_file_def try_bpf_file_def Let_def
  by (auto elim!: bind_pair_SomeE simp: sys_Some same dest!: quiet' split: if_splits option.splits)

definition opened :: "'w st \<Rightarrow> int + ptr \<Rightarrow> 'w st \<Rightarrow> bool" where
  "opened s r s' \<longleftrightarrow> files (snd s') = files (snd s) \<and> fds (snd s') = fds (snd s)
    \<and> (\<forall>q < length (fst s). prog_at s' q = prog_at s q) \<and> length (fst s) \<le> length (fst s')
    \<and> (case r of Inl _ \<Rightarrow> objs (snd s') = objs (snd s)
       | Inr p \<Rightarrow> \<exists>ob. ob \<notin> objs (snd s) \<and> objs (snd s') = insert ob (objs (snd s))
           \<and> length (fst s) \<le> p \<and> p < length (fst s') \<and> fresh_prog ob (prog_at s' p))"

lemma open_file_resources: "xdp_program__open_file env (Some f) None (Some n) s = Some (r, s') \<Longrightarrow> opened s r s'"
  unfolding xdp_program__open_file_def opened_def option.case
  by (auto elim!: bind_pair_SomeE simp: sys_Some same prog_at_def dest!: opn oclose create_resources
      split: if_splits sum.splits) blast

lemma find_file_resources: "xdp_program__find_file env path f None (Some n) s = Some (r, s') \<Longrightarrow> opened s r s'"
  unfolding xdp_program__find_file_def
  by (elim bind_pair_SomeE, frule find_bpf_file_quiet)
    (auto simp: same opened_def prog_at_def dest!: open_file_resources split: sum.splits)

text \<open>The descriptors a program owns.\<close>

definition own :: "xdp_program \<Rightarrow> int set" where
  "own x = {fd. 0 \<le> fd \<and> (fd = link_fd x \<or> fd = prog_fd x)}"

definition keeps_rest :: "ptr \<Rightarrow> 'w st \<Rightarrow> 'w st \<Rightarrow> bool" where
  "keeps_rest p s s' \<longleftrightarrow> files (snd s') = files (snd s) \<and> objs (snd s') = objs (snd s) \<and> length (fst s') = length (fst s)
    \<and> (\<forall>q. q \<noteq> p \<longrightarrow> prog_at s' q = prog_at s q) \<and> bpf_obj (prog_at s' p) = bpf_obj (prog_at s p)
    \<and> from_external_obj (prog_at s' p) = from_external_obj (prog_at s p)"

lemma fill_resources:
  assumes "xdp_program__fill_from_fd env p fd s = Some (err, s')" "p < length (fst s)" "prog_fd (prog_at s p) = -1"
  shows "keeps_rest p s s' \<and> link_fd (prog_at s' p) = link_fd (prog_at s p)
    \<and> (if prog_fd (prog_at s' p) < 0 then fds (snd s') = fds (snd s)
       else prog_fd (prog_at s' p) \<notin> fds (snd s) \<and> fds (snd s') = insert (prog_fd (prog_at s' p)) (fds (snd s)))"
  using assms unfolding xdp_program__fill_from_fd_def
  by (auto elim!: bind_pair_SomeE simp: sys_Some Let_def prog_at_def set_prog_def same keeps_rest_def
      dest!: dup close quiet' split: if_splits sum.splits option.splits)

definition prepared :: "ptr \<Rightarrow> 'w st \<Rightarrow> 'w st \<Rightarrow> bool" where
  "prepared p s s' \<longleftrightarrow> keeps_rest p s s' \<and> fds (snd s') = fds (snd s) \<and> link_fd (prog_at s' p) = link_fd (prog_at s p)
    \<and> prog_fd (prog_at s' p) = prog_fd (prog_at s p)"

lemmas prepared_simps = prepared_def keeps_rest_def sys_Some same prog_at_def set_prog_def

lemma load_resources:
  assumes "xdp_program__load env (Some p) s = Some (err, s')" "p < length (fst s)" "prog_fd (prog_at s p) = -1"
  shows "keeps_rest p s s' \<and> link_fd (prog_at s' p) = link_fd (prog_at s p)
    \<and> (if prog_fd (prog_at s' p) < 0 then fds (snd s') = fds (snd s)
       else prog_fd (prog_at s' p) \<notin> fds (snd s) \<and> fds (snd s') = insert (prog_fd (prog_at s' p)) (fds (snd s)))"
proof (cases "bpf_obj (prog_at s p) = None \<or> bpf_prog (prog_at s p) = None")
  case True
  then have "s' = s" using assms(1,3) by (auto simp: xdp_program__load_def split: option.splits)
  then show ?thesis using assms(3) by (simp add: keeps_rest_def)
next
  case False
  then obtain ob bp where o: "bpf_obj (prog_at s p) = Some ob" "bpf_prog (prog_at s p) = Some bp" by auto
  have "\<exists>s2. prepared p s s2 \<and> (s' = s2 \<or> (\<exists>fd. xdp_program__fill_from_fd env p fd s2 = Some (err, s')))"
    using assms(1) unfolding xdp_program__load_def option.case o prod.case assms(3)
    apply (simp del: split_paired_Ex)
    apply (elim bind_pair_SomeE)
    subgoal premises prems for l s1 e s2
    proof -
      have "prepared p s s1" using prems(1) by (auto simp: prepared_simps dest: quiet')
      then have p2: "prepared p s s2"
        using prems(2) assms(2) by (cases l)
          (auto elim!: bind_pair_SomeE simp: prepared_simps Let_def dest!: quiet' split: if_splits)
      show ?thesis
      proof (cases "e = 0")
        case True
        then obtain fd s3 where "sys (libbpf_prog_fd env (bp_handle bp)) s2 = Some (fd, s3)"
            "xdp_program__fill_from_fd env p fd s3 = Some (err, s')"
          using prems(3) by (auto elim!: bind_pair_SomeE)
        moreover from this(1) p2 have "prepared p s s3" by (auto simp: prepared_simps dest!: quiet')
        ultimately show ?thesis by blast
      qed (use prems(3) p2 in \<open>auto simp del: split_paired_Ex\<close>)
    qed
    done
  then obtain s2 fd where s2: "prepared p s s2" and alt: "s' = s2 \<or> xdp_program__fill_from_fd env p fd s2 = Some (err, s')"
    by blast
  from alt show ?thesis
  proof
    assume "s' = s2"
    then show ?thesis using s2 assms(3) by (simp add: prepared_def)
  next
    assume f: "xdp_program__fill_from_fd env p fd s2 = Some (err, s')"
    have "p < length (fst s2)" "prog_fd (prog_at s2 p) = -1"
      using s2 assms(2,3) by (simp_all add: prepared_def keeps_rest_def)
    from fill_resources[OF f this] show ?thesis using s2 by (auto simp: prepared_def keeps_rest_def split: if_splits)
  qed
qed

lemma close_resources:
  assumes "xdp_program__close env (Some p) s = Some (u, s')" "bpf_obj (prog_at s p) = Some ob" "\<not> from_external_obj (prog_at s p)"
  shows "fst s' = fst s \<and> files (snd s') = files (snd s) \<and> objs (snd s') = objs (snd s) - {ob}
    \<and> fds (snd s') = fds (snd s) - own (prog_at s p)"
  using assms unfolding xdp_program__close_def close_if_def own_def
  by (auto elim!: bind_pair_SomeE simp: sys_Some prog_at_def dest!: close oclose split: if_splits)

lemma compat_pin_resources:
  "compat_pin env dir p s = Some (err, s') \<Longrightarrow> fst s' = fst s \<and> same (snd s) (snd s')"
  unfolding compat_pin_def Let_def
  by (auto elim!: bind_pair_SomeE simp: sys_Some same dest!: lock release pin unlink split: if_splits)

definition held :: "'w st \<Rightarrow> ptr \<Rightarrow> ptr \<Rightarrow> nat \<Rightarrow> nat \<Rightarrow> 'w st \<Rightarrow> bool" where
  "held s tgt test ob ob' s' \<longleftrightarrow> files (snd s') = files (snd s) \<and> objs (snd s') = objs (snd s)
    \<and> length (fst s') = length (fst s)
    \<and> bpf_obj (prog_at s' tgt) = Some ob \<and> \<not> from_external_obj (prog_at s' tgt)
    \<and> bpf_obj (prog_at s' test) = Some ob' \<and> \<not> from_external_obj (prog_at s' test)
    \<and> fds (snd s') = fds (snd s) \<union> own (prog_at s' tgt) \<union> own (prog_at s' test)
    \<and> (own (prog_at s' tgt) \<union> own (prog_at s' test)) \<inter> fds (snd s) = {}"

lemma held_quiet: "held s tgt test ob ob' s1 \<Longrightarrow> fst s2 = fst s1 \<Longrightarrow> same (snd s1) (snd s2) \<Longrightarrow> held s tgt test ob ob' s2"
  by (simp add: held_def same prog_at_def)

lemma held_load:
  assumes "held s tgt test ob ob' s1" "xdp_program__load env (Some p) s1 = Some (err, s2)" "p \<in> {tgt, test}" "tgt \<noteq> test"
    and "p < length (fst s)" "prog_fd (prog_at s1 p) = -1"
  shows "held s tgt test ob ob' s2 \<and> (\<forall>q. q \<noteq> p \<longrightarrow> prog_at s2 q = prog_at s1 q) \<and> link_fd (prog_at s2 p) = link_fd (prog_at s1 p)"
proof -
  have "p < length (fst s1)" using assms by (simp add: held_def)
  note l = load_resources[OF assms(2) this assms(6)]
  have "own (prog_at s2 p) = (if prog_fd (prog_at s2 p) < 0 then own (prog_at s1 p)
      else insert (prog_fd (prog_at s2 p)) (own (prog_at s1 p)))"
    using l assms(6) by (auto simp: own_def)
  then show ?thesis using l assms by (auto simp: held_def keeps_rest_def split: if_splits)
qed

lemma compat_attach_resources:
  assumes "compat_attach env dir test s1 = Some (err, s')" "held s tgt test ob ob' s1" "test < length (fst s)" "tgt \<noteq> test"
    and "prog_fd (prog_at s1 test) = -1" "link_fd (prog_at s1 test) = -1"
  shows "held s tgt test ob ob' s'"
proof -
  obtain e2 s2 where l2: "xdp_program__load env (Some test) s1 = Some (e2, s2)"
    and r: "(if e2 \<noteq> 0 then Some (e2, s2) else do {
       (lfd, s) \<leftarrow> sys (raw_tp_open env (prog_fd (prog_at s2 test))) s2;
       let s = set_prog test ((prog_at s test)\<lparr>link_fd := lfd\<rparr>) s;
       if lfd < 0 then Some (lfd, s) else compat_pin env dir test s }) = Some (err, s')"
    using assms(1) by (auto simp: compat_attach_def elim!: bind_pair_SomeE)
  have h2: "held s tgt test ob ob' s2" "link_fd (prog_at s2 test) = -1"
    using held_load[OF assms(2) l2 _ assms(4)] assms by auto
  show ?thesis
  proof (cases "e2 = 0")
    case True
    then obtain lfd s3 where s3: "sys (raw_tp_open env (prog_fd (prog_at s2 test))) s2 = Some (lfd, s3)"
        and r3: "(if lfd < 0 then Some (lfd, set_prog test ((prog_at s3 test)\<lparr>link_fd := lfd\<rparr>) s3)
          else compat_pin env dir test (set_prog test ((prog_at s3 test)\<lparr>link_fd := lfd\<rparr>) s3)) = Some (err, s')"
      using r by (auto elim!: bind_pair_SomeE simp: Let_def)
    let ?x = "(prog_at s3 test)\<lparr>link_fd := lfd\<rparr>"
    have p3: "prog_at s3 = prog_at s2" using s3 by (auto simp: sys_Some prog_at_def)
    have "own ?x = (if lfd < 0 then own (prog_at s2 test) else insert lfd (own (prog_at s2 test)))"
      using h2(2) by (auto simp: own_def p3)
    moreover have "prog_at (set_prog test ?x s3) q = (if q = test then ?x else prog_at s2 q)" for q
      using s3 h2 assms(3) by (auto simp: set_prog_def prog_at_def sys_Some held_def)
    ultimately have h3: "held s tgt test ob ob' (set_prog test ?x s3)"
      using h2 s3 assms(4) by (auto simp: held_def p3 sys_Some set_prog_def dest!: raw split: if_splits)
    then show ?thesis
      using r3 held_quiet compat_pin_resources by (metis Pair_inject option.inject)
  qed (use r h2 in simp)
qed

lemma compat_try_resources:
  assumes "compat_try env dir tgt test s = Some (err, s')" "tgt < length (fst s)" "test < length (fst s)" "tgt \<noteq> test"
    and "fresh_prog ob (prog_at s tgt)" "fresh_prog ob' (prog_at s test)"
  shows "held s tgt test ob ob' s'"
proof -
  have h0: "held s tgt test ob ob' s" using assms(5,6) by (simp add: held_def fresh_prog_def own_def) auto
  obtain e1 s1 where l1: "xdp_program__load env (Some tgt) s = Some (e1, s1)"
    using assms(1) by (auto simp: compat_try_def elim!: bind_pair_SomeE)
  have h1: "held s tgt test ob ob' s1" "prog_at s1 test = prog_at s test"
    using held_load[OF h0 l1] assms by (auto simp: fresh_prog_def)
  show ?thesis
  proof (cases "e1 = 0")
    case True
    then obtain bp e2 s2 where bp: "bpf_prog (prog_at s1 test) = Some bp"
        and s2: "sys (prog_set_target env (bp_handle bp) (prog_fd (prog_at s1 tgt)) ''xdp_pass'') s1 = Some (e2, s2)"
        and r: "(if e2 \<noteq> 0 then Some (e2, s2) else do {
           (_, s) \<leftarrow> sys (prog_set_type env (bp_handle bp) BPF_PROG_TYPE_EXT) s2;
           let s = set_prog test ((prog_at s test)\<lparr>bpf_prog := Some (bp\<lparr>bp_type := BPF_PROG_TYPE_EXT\<rparr>)\<rparr>) s;
           compat_attach env dir test s }) = Some (err, s')"
      using assms(1) l1 by (auto simp: compat_try_def elim!: bind_SomeE bind_pair_SomeE)
    have h2: "held s tgt test ob ob' s2" "prog_at s2 test = prog_at s test"
      using held_quiet[OF h1(1), of s2] h1(2) s2 by (auto simp: sys_Some prog_at_def dest!: quiet(13))
    show ?thesis
    proof (cases "e2 = 0")
      case True
      then obtain u s3 where s3: "sys (prog_set_type env (bp_handle bp) BPF_PROG_TYPE_EXT) s2 = Some (u, s3)"
          and r3: "compat_attach env dir test
            (set_prog test ((prog_at s3 test)\<lparr>bpf_prog := Some (bp\<lparr>bp_type := BPF_PROG_TYPE_EXT\<rparr>)\<rparr>) s3) = Some (err, s')"
        using r by (auto elim!: bind_pair_SomeE simp: Let_def)
      have h3: "held s tgt test ob ob' s3" "prog_at s3 test = prog_at s test"
        using held_quiet[OF h2(1), of s3] h2(2) s3 by (auto simp: sys_Some prog_at_def dest!: quiet(12))
      show ?thesis
        by (rule compat_attach_resources[OF r3 _ assms(3,4)])
          (use h3 assms(3,4,6) in \<open>auto simp: held_def set_prog_def prog_at_def own_def fresh_prog_def\<close>)
    qed (use r h2 in simp)
  qed (use assms(1) l1 h1 in \<open>simp add: compat_try_def\<close>)
qed

lemma check_resources:
  assumes "libxdp_check_kern_compat env path kc s = Some ((r, kc'), s')"
  shows "fds (snd s') = fds (snd s) \<and> files (snd s') = files (snd s)
    \<and> (objs (snd s') = objs (snd s) \<or> kc = COMPAT_UNKNOWN \<and> kc' = COMPAT_UNKNOWN
         \<and> (\<exists>ob. ob \<notin> objs (snd s) \<and> objs (snd s') = insert ob (objs (snd s))))"
proof -
  obtain dir s0 where d: "sys (bpffs_dir env) s = Some (dir, s0)"
    using assms by (auto simp: libxdp_check_kern_compat_def elim!: bind_pair_SomeE)
  then have s0: "same (snd s) (snd s0)" using quiet(1) by (auto simp: sys_Some)
  show ?thesis
  proof (cases "isl dir \<or> kc \<noteq> COMPAT_UNKNOWN")
    case True
    then have "s' = s0" using assms d by (auto simp: libxdp_check_kern_compat_def split: sum.splits if_splits)
    then show ?thesis using s0 by (simp add: same)
  next
    case False
    then obtain dd where kc: "dir = Inr dd" "kc = COMPAT_UNKNOWN" by (cases dir) auto
    let ?find = "xdp_program__find_file env path ''xdp-dispatcher.o'' None (Some ''xdp_pass'')"
    obtain tgt s1 where t: "?find s0 = Some (tgt, s1)"
      using assms d kc by (auto simp: libxdp_check_kern_compat_def elim!: bind_pair_SomeE)
    have o1: "opened s0 tgt s1" using find_file_resources t by blast
    show ?thesis
    proof (cases tgt)
      case (Inl e)
      then show ?thesis using assms d kc t o1 s0 by (auto simp: libxdp_check_kern_compat_def opened_def same)
    next
      case (Inr tp)
      obtain test s2 where t2: "?find s1 = Some (test, s2)"
        using assms d kc t Inr by (auto simp: libxdp_check_kern_compat_def elim!: bind_pair_SomeE)
      have o2: "opened s1 test s2" using find_file_resources t2 by blast
      show ?thesis
      proof (cases test)
        case (Inl e)
        then show ?thesis using assms d kc t t2 o1 o2 s0 Inr by (auto simp: libxdp_check_kern_compat_def opened_def same)
      next
        case inr2: (Inr sp)
        obtain err s3 s4 where c: "compat_try env dd tp sp s2 = Some (err, s3)"
            "xdp_program__close env (Some sp) s3 = Some ((), s4)" "xdp_program__close env (Some tp) s4 = Some ((), s')"
          using assms d kc t t2 Inr inr2
          by (auto simp: libxdp_check_kern_compat_def Let_def elim!: bind_pair_SomeE)
        obtain ob where ob: "ob \<notin> objs (snd s0)" "objs (snd s1) = insert ob (objs (snd s0))" "tp < length (fst s1)"
            "fresh_prog ob (prog_at s1 tp)"
          using o1 Inr by (auto simp: opened_def)
        obtain ob' where ob': "ob' \<notin> objs (snd s1)" "objs (snd s2) = insert ob' (objs (snd s1))" "length (fst s1) \<le> sp"
            "sp < length (fst s2)" "fresh_prog ob' (prog_at s2 sp)"
          using o2 inr2 by (auto simp: opened_def)
        have h: "held s2 tp sp ob ob' s3"
          by (rule compat_try_resources[OF c(1)]) (use ob ob' o2 in \<open>auto simp: opened_def\<close>)
        have c1: "fst s4 = fst s3 \<and> files (snd s4) = files (snd s3) \<and> objs (snd s4) = objs (snd s3) - {ob'}
            \<and> fds (snd s4) = fds (snd s3) - own (prog_at s3 sp)"
          using close_resources[OF c(2)] h by (auto simp: held_def)
        moreover have "files (snd s') = files (snd s4) \<and> objs (snd s') = objs (snd s4) - {ob}
            \<and> fds (snd s') = fds (snd s4) - own (prog_at s4 tp)"
          using close_resources[OF c(3), of ob] c1 h by (auto simp: held_def prog_at_def)
        moreover have "prog_at s4 tp = prog_at s3 tp" using c1 by (simp add: prog_at_def)
        ultimately show ?thesis
          using h o1 o2 s0 ob ob' Inr inr2 by (auto simp: held_def opened_def same)
      qed
    qed
  qed
qed

end

subsection \<open>A concrete kernel\<close>

record cworld = kworld +
  w_objs :: "nat list"

definition c_open :: "cworld \<Rightarrow> int \<times> cworld" where
  "c_open w = (fresh_fd (w_fds w), w\<lparr>w_fds := fresh_fd (w_fds w) # w_fds w\<rparr>)"

definition fresh_obj :: "nat list \<Rightarrow> nat" where
  "fresh_obj l = Suc (foldr max l 0)"

lemma fresh_obj: "fresh_obj l \<notin> set l"
proof -
  have "x \<in> set l \<Longrightarrow> x \<le> foldr max l 0" for x by (induction l) auto
  then show ?thesis by (force simp: fresh_obj_def)
qed

definition c_env :: "cworld libxdp_env" where
  "c_env = \<lparr>alloc = \<lambda>w. (True, w),
     close_fd = \<lambda>fd w. ((), w\<lparr>w_fds := removeAll fd (w_fds w)\<rparr>),
     dup_fd = \<lambda>_. c_open, get_prog_info = \<lambda>_ w. (Inr k_info, w), btf_by_id = \<lambda>_ w. (Some k_btf, w),
     prog_fd_by_id = \<lambda>_. c_open, map_fd_by_id = \<lambda>_. c_open,
     get_map_info = \<lambda>_ w. (Inl (- ENOENT), w), map_lookup0 = \<lambda>_ w. (Inl (- ENOENT), w),
     xdp_attach = \<lambda>_ _ _ _ w. (0, w), xdp_query = \<lambda>_ w. (Inl (- ENOENT), w),
     link_ids = \<lambda>w. (([], - ENOENT), w), link_fd_by_id = \<lambda>_. c_open,
     get_link_info = \<lambda>_ w. (Inl (- ENOENT), w), link_detach = \<lambda>_ w. (0, w), link_create = \<lambda>_ _ _. c_open,
     raw_tp_open = \<lambda>_. c_open, kern_compat = \<lambda>w. (0, w), getenv = \<lambda>_ w. (None, w),
     bpffs_dir = \<lambda>w. (Inr ''/bpf'', w), lock_acquire = c_open,
     lock_release = \<lambda>fd w. ((), w\<lparr>w_fds := removeAll fd (w_fds w)\<rparr>),
     mkdir = \<lambda>_ w. (0, w), rmdir = \<lambda>_ w. (0, w),
     unlink = \<lambda>f w. if f \<in> set (w_files w) then (0, w\<lparr>w_files := removeAll f (w_files w)\<rparr>) else (- ENOENT, w),
     stat_path = \<lambda>_ w. (0, w),
     obj_pin = \<lambda>_ f w. if f \<in> set (w_files w) then (- EEXIST, w) else (0, w\<lparr>w_files := f # w_files w\<rparr>),
     obj_get = \<lambda>_. c_open,
     obj_open = \<lambda>_ w. (Inr (fresh_obj (w_objs w)), w\<lparr>w_objs := fresh_obj (w_objs w) # w_objs w\<rparr>),
     obj_close = \<lambda>ob w. ((), w\<lparr>w_objs := removeAll ob (w_objs w)\<rparr>),
     obj_progs = \<lambda>_ w. ([(k_bpf_prog ''xdp_dispatcher'', Some ''xdp''), (k_bpf_prog ''xdp_pass'', Some ''xdp'')], w),
     obj_btf = \<lambda>_ w. (Some k_btf, w), obj_has_map = \<lambda>_ w. (True, w), obj_set_rodata = \<lambda>_ _ w. (0, w),
     obj_set_ifindex = \<lambda>_ _ w. ((), w), obj_load = \<lambda>_ w. (0, w), prog_loaded = \<lambda>_ w. (False, w),
     prog_set_flags = \<lambda>_ _ w. (0, w), prog_set_type = \<lambda>_ _ w. ((), w), prog_set_target = \<lambda>_ _ _ w. (0, w),
     libbpf_prog_fd = \<lambda>_ w. (4, w)\<rparr>"

definition c_same :: "cworld \<Rightarrow> cworld \<Rightarrow> bool" where
  "c_same w w' \<longleftrightarrow> set (w_fds w') = set (w_fds w) \<and> set (w_files w') = set (w_files w) \<and> set (w_objs w') = set (w_objs w)"

lemma c_open_laws: "c_open w = (r, w') \<Longrightarrow> 0 \<le> r \<and> r \<notin> set (w_fds w) \<and> set (w_fds w') = insert r (set (w_fds w))
    \<and> w_files w' = w_files w \<and> w_objs w' = w_objs w"
  using fresh_fd[of "w_fds w"] by (auto simp: c_open_def)

interpretation ckr: kernel_resources c_env "\<lambda>w. set (w_fds w)" "\<lambda>w. set (w_files w)" "\<lambda>w. set (w_objs w)" c_same
  by unfold_locales (auto simp: c_env_def c_same_def fresh_obj dest: c_open_laws split: if_splits)

subsection \<open>Properties\<close>

lemma check_result:
  assumes "errors_nonzero env" "libxdp_check_kern_compat env path kc s = Some ((r, kc'), s')"
  shows "(r = 0 \<longrightarrow> kc' = COMPAT_SUPPORTED) \<and> (kc \<noteq> COMPAT_UNKNOWN \<longrightarrow> kc' = kc)"
proof -
  have "xdp_program__find_file env path f sn pn s \<noteq> Some (Inl 0, s')" for f sn pn s s'
    by (rule find_file_error) (use assms(1) in \<open>simp add: errors_nonzero_def\<close>)
  then show ?thesis
    using assms(2) unfolding libxdp_check_kern_compat_def compat_result_def Let_def
    by (auto elim!: bind_pair_SomeE split: sum.splits if_splits)
qed


definition c_start :: "cworld st" where
  "c_start = ([], \<lparr>w_fds = [0, 1, 2], w_files = [], w_objs = []\<rparr>)"

lemma c_run: "map_option fst (libxdp_check_kern_compat c_env ''/lib'' COMPAT_UNKNOWN c_start) = Some (0, COMPAT_SUPPORTED)"
  by code_simp


lemma parse_members_bpf_prog: "parse_members b ms p = Some (e, p') \<Longrightarrow> bpf_prog p' = bpf_prog p"
proof (induction ms arbitrary: p)
  case (Cons m ms)
  have set: "bpf_prog q = bpf_prog p" if "snd (xdp_program__set_chain_call_enabled (Some p) a v) = Some q" for a v q
    using that by (auto simp: xdp_program__set_chain_call_enabled_def split: if_splits)
  from Cons show ?case
    by (auto elim!: bind_SomeE dest!: Cons.IH dest: set split: option.splits if_splits)
qed auto

lemma parse_btf_bpf_prog: "xdp_program__parse_btf ok p bo = Some (e, p') \<Longrightarrow> bpf_prog p' = bpf_prog p"
  unfolding xdp_program__parse_btf_def Let_def
  by (auto elim!: bind_SomeE dest!: parse_members_bpf_prog split: option.splits if_splits prod.splits sum.splits)

lemma fill_bpf_prog:
  "xdp_program__fill_from_fd env p fd s = Some (err, s') \<Longrightarrow> p < length (fst s) \<Longrightarrow>
     bpf_prog (prog_at s' p) = bpf_prog (prog_at s p) \<and> length (fst s') = length (fst s)"
  unfolding xdp_program__fill_from_fd_def
  by (auto elim!: bind_pair_SomeE simp: sys_Some Let_def prog_at_def set_prog_def split: if_splits sum.splits option.splits)

lemma from_fd_bpf_prog: "xdp_program__from_fd env fd s = Some (Inr p, s') \<Longrightarrow> bpf_prog (prog_at s' p) = None"
  unfolding xdp_program__from_fd_def new_prog_def Let_def
  by (auto elim!: bind_pair_SomeE dest!: fill_bpf_prog parse_btf_bpf_prog
      simp: sys_Some prog_at_def set_prog_def xdp_program__new_def nth_append split: if_splits prod.splits)

text \<open>pinning a program that was opened from a descriptor uses a null pointer: such a program has a descriptor but no libbpf
  program, and \<open>xdp_program__pin\<close> tests only the descriptor.\<close>

theorem pin_opened_program_faults:
  assumes "xdp_program__from_fd env fd s = Some (Inr p, s')" "0 \<le> prog_fd (prog_at s' p)"
  shows "xdp_program__pin pin (Some p) path s' = None"
  using from_fd_bpf_prog[OF assms(1)] assms(2) by (simp add: xdp_program__pin_def)

theorem pin_opened_program_faults_witness:
  "\<exists>p s'. xdp_program__from_fd k_env 5 k_start = Some (Inr p, s') \<and> 0 \<le> prog_fd (prog_at s' p)
     \<and> xdp_program__pin (\<lambda>_ _ w. (0, w)) (Some p) ''/sys/fs/bpf/x'' s' = None"
proof -
  have "(case xdp_program__from_fd k_env 5 k_start of Some (Inr p, s') \<Rightarrow> 0 \<le> prog_fd (prog_at s' p) | _ \<Rightarrow> False)"
    by code_simp
  then obtain p s' where "xdp_program__from_fd k_env 5 k_start = Some (Inr p, s')" "0 \<le> prog_fd (prog_at s' p)"
    by (auto split: option.splits sum.splits) (metis sumE)
  with pin_opened_program_faults[OF this] show ?thesis by blast
qed

end
