(* ===== verification/Xsk_Ring.thy ===== *)
theory Xsk_Ring
  imports Xdp_Prelude
begin

text \<open>
  The single-producer single-consumer rings of AF_XDP sockets, the inline functions of
  \<open>headers/xdp/xsk.h\<close>.  A ring lives in memory shared by two parties: the two counters and the array of
  entries; each party keeps a structure with cached copies of the counters.  All counters are 32-bit words
  that wrap around.

  The protocol is the step relation \<open>ring_step\<close>: one party runs the producer's functions and the other
  the consumer's, in any interleaving.  (In a socket the other party is the kernel, whose code is not part of
  the library; here both parties are the library's functions.)  Counters of unbounded size, which the code does not
  have, record how often each action has happened; the invariant says that the words are these counts modulo
  \<open>2^32\<close>, and that the consumer reads what the producer wrote.
\<close>

subsection \<open>Data and operations\<close>

record xsk_ring =
  cached_prod :: u32
  cached_cons :: u32
  r_mask :: u32
  r_size :: u32

record 'a xsk_mem =
  producer :: u32
  consumer :: u32
  ring :: "'a list"

text \<open>\<open>&descs[idx & mask]\<close>, common to the four entry accessors.\<close>

definition ring_slot :: "xsk_ring \<Rightarrow> u32 \<Rightarrow> nat" where
  "ring_slot r idx = unat (idx AND r_mask r)"

definition xsk_ring_prod__tx_desc :: "xsk_ring \<Rightarrow> 'a xsk_mem \<Rightarrow> u32 \<Rightarrow> 'a \<Rightarrow> 'a xsk_mem option" where
  "xsk_ring_prod__tx_desc r m idx x =
     (if ring_slot r idx < length (ring m) then Some (m\<lparr>ring := (ring m)[ring_slot r idx := x]\<rparr>) else None)"

definition xsk_ring_cons__rx_desc :: "xsk_ring \<Rightarrow> 'a xsk_mem \<Rightarrow> u32 \<Rightarrow> 'a option" where
  "xsk_ring_cons__rx_desc r m idx =
     (if ring_slot r idx < length (ring m) then Some (ring m ! ring_slot r idx) else None)"

definition xsk_prod_nb_free :: "xsk_ring \<Rightarrow> 'a xsk_mem \<Rightarrow> u32 \<Rightarrow> u32 \<times> xsk_ring" where
  "xsk_prod_nb_free r m nb =
     (let free_entries = cached_cons r - cached_prod r
      in if free_entries \<ge> nb then (free_entries, r)
         else let r = r\<lparr>cached_cons := consumer m\<rparr>;
                  r = r\<lparr>cached_cons := cached_cons r + r_size r\<rparr>
              in (cached_cons r - cached_prod r, r))"

definition xsk_cons_nb_avail :: "xsk_ring \<Rightarrow> 'a xsk_mem \<Rightarrow> u32 \<Rightarrow> u32 \<times> xsk_ring" where
  "xsk_cons_nb_avail r m nb =
     (let entries = cached_prod r - cached_cons r;
          (entries, r) =
            (if entries = 0
             then (let r = r\<lparr>cached_prod := producer m\<rparr> in (cached_prod r - cached_cons r, r))
             else (entries, r))
      in (if entries > nb then nb else entries, r))"

text \<open>The index is only written when entries are reserved.\<close>

definition xsk_ring_prod__reserve ::
  "xsk_ring \<Rightarrow> 'a xsk_mem \<Rightarrow> u32 \<Rightarrow> u32 \<times> u32 option \<times> xsk_ring" where
  "xsk_ring_prod__reserve pr m nb =
     (case xsk_prod_nb_free pr m nb of (free, pr) \<Rightarrow>
        if free < nb then (0, None, pr)
        else (nb, Some (cached_prod pr), pr\<lparr>cached_prod := cached_prod pr + nb\<rparr>))"

definition xsk_ring_prod__submit :: "'a xsk_mem \<Rightarrow> u32 \<Rightarrow> 'a xsk_mem" where
  "xsk_ring_prod__submit m nb = m\<lparr>producer := producer m + nb\<rparr>"

definition xsk_ring_cons__peek ::
  "xsk_ring \<Rightarrow> 'a xsk_mem \<Rightarrow> u32 \<Rightarrow> u32 \<times> u32 option \<times> xsk_ring" where
  "xsk_ring_cons__peek co m nb =
     (case xsk_cons_nb_avail co m nb of (entries, co) \<Rightarrow>
        if entries > 0
        then (entries, Some (cached_cons co), co\<lparr>cached_cons := cached_cons co + entries\<rparr>)
        else (entries, None, co))"

definition xsk_ring_cons__cancel :: "xsk_ring \<Rightarrow> u32 \<Rightarrow> xsk_ring" where
  "xsk_ring_cons__cancel co nb = co\<lparr>cached_cons := cached_cons co - nb\<rparr>"

definition xsk_ring_cons__release :: "'a xsk_mem \<Rightarrow> u32 \<Rightarrow> 'a xsk_mem" where
  "xsk_ring_cons__release m nb = m\<lparr>consumer := consumer m + nb\<rparr>"

definition xsk_ring_prod__needs_wakeup :: "u32 \<Rightarrow> u32" where
  "xsk_ring_prod__needs_wakeup flags = flags AND 1"

definition xsk_umem__extract_addr :: "u64 \<Rightarrow> u64" where
  "xsk_umem__extract_addr addr = addr AND (push_bit 48 1 - 1)"

definition xsk_umem__extract_offset :: "u64 \<Rightarrow> u64" where
  "xsk_umem__extract_offset addr = drop_bit 48 addr"

definition xsk_umem__add_offset_to_addr :: "u64 \<Rightarrow> u64" where
  "xsk_umem__add_offset_to_addr addr = xsk_umem__extract_addr addr + xsk_umem__extract_offset addr"

subsection \<open>The protocol\<close>

text \<open>Counts of entries: reserved, submitted, peeked (and not cancelled), released; \<open>sent i\<close> is the
  entry that was written as number \<open>i\<close> (what the slot holds at its reservation, until it is written).\<close>

record 'a ring_state =
  p_ring :: xsk_ring
  c_ring :: xsk_ring
  shm :: "'a xsk_mem"
  reserved :: nat
  submitted :: nat
  peeked :: nat
  released :: nat
  sent :: "nat \<Rightarrow> 'a"

inductive ring_step :: "'a ring_state \<Rightarrow> 'a ring_state \<Rightarrow> bool" where
  reserve: "xsk_ring_prod__reserve (p_ring s) (shm s) nb = (n, idx, r) \<Longrightarrow>
    ring_step s (s\<lparr>p_ring := r, reserved := reserved s + unat n,
      sent := (\<lambda>i. if reserved s \<le> i \<and> i < reserved s + unat n then ring (shm s) ! ring_slot r (of_nat i) else sent s i)\<rparr>)"
| fill: "submitted s \<le> j \<Longrightarrow> j < reserved s \<Longrightarrow>
    xsk_ring_prod__tx_desc (p_ring s) (shm s) (of_nat j) x = Some m \<Longrightarrow>
    ring_step s (s\<lparr>shm := m, sent := (sent s)(j := x)\<rparr>)"
| submit: "submitted s + unat nb \<le> reserved s \<Longrightarrow>
    ring_step s (s\<lparr>shm := xsk_ring_prod__submit (shm s) nb, submitted := submitted s + unat nb\<rparr>)"
| peek: "xsk_ring_cons__peek (c_ring s) (shm s) nb = (n, idx, r) \<Longrightarrow>
    ring_step s (s\<lparr>c_ring := r, peeked := peeked s + unat n\<rparr>)"
| cancel: "released s + unat nb \<le> peeked s \<Longrightarrow>
    ring_step s (s\<lparr>c_ring := xsk_ring_cons__cancel (c_ring s) nb, peeked := peeked s - unat nb\<rparr>)"
| release: "released s + unat nb \<le> peeked s \<Longrightarrow>
    ring_step s (s\<lparr>shm := xsk_ring_cons__release (shm s) nb, released := released s + unat nb\<rparr>)"

inductive_cases ring_stepE: "ring_step s s'"

text \<open>A ring of \<open>2 ^ k\<close> entries as the socket setup leaves it.\<close>

definition ring_init :: "nat \<Rightarrow> 'a list \<Rightarrow> 'a ring_state" where
  "ring_init k junk =
     (let r = \<lparr>cached_prod = 0, cached_cons = 0, r_mask = 2 ^ k - 1, r_size = 2 ^ k\<rparr>
      in \<lparr>p_ring = r\<lparr>cached_cons := 2 ^ k\<rparr>, c_ring = r, shm = \<lparr>producer = 0, consumer = 0, ring = junk\<rparr>,
          reserved = 0, submitted = 0, peeked = 0, released = 0, sent = (\<lambda>_. junk ! 0)\<rparr>)"

inductive ring_reachable :: "nat \<Rightarrow> 'a list \<Rightarrow> 'a ring_state \<Rightarrow> bool" for k junk where
  init: "ring_reachable k junk (ring_init k junk)"
| step: "ring_reachable k junk s \<Longrightarrow> ring_step s s' \<Longrightarrow> ring_reachable k junk s'"

subsection \<open>Invariant\<close>

text \<open>\<open>cp\<close> and \<open>pp\<close> are the counts behind the cached copies of the other party's counter.\<close>

definition ring_inv :: "nat \<Rightarrow> 'a ring_state \<Rightarrow> nat \<Rightarrow> nat \<Rightarrow> bool" where
  "ring_inv k s cp pp \<longleftrightarrow>
     r_mask (p_ring s) = 2 ^ k - 1 \<and> r_size (p_ring s) = 2 ^ k \<and> r_mask (c_ring s) = 2 ^ k - 1 \<and>
     length (ring (shm s)) = 2 ^ k \<and>
     cached_prod (p_ring s) = of_nat (reserved s) \<and> cached_cons (p_ring s) = of_nat (cp + 2 ^ k) \<and>
     cached_prod (c_ring s) = of_nat pp \<and> cached_cons (c_ring s) = of_nat (peeked s) \<and>
     producer (shm s) = of_nat (submitted s) \<and> consumer (shm s) = of_nat (released s) \<and>
     cp \<le> released s \<and> released s \<le> peeked s \<and> peeked s \<le> pp \<and> pp \<le> submitted s \<and>
     submitted s \<le> reserved s \<and> reserved s \<le> cp + 2 ^ k \<and>
     (\<forall>i. released s \<le> i \<and> i < reserved s \<longrightarrow> ring (shm s) ! (i mod 2 ^ k) = sent s i)"

lemma unat_and_mask:
  assumes "k < 32"
  shows "unat (of_nat i AND (2 ^ k - 1) :: u32) = i mod 2 ^ k"
proof -
  have "(2 ^ k - 1 :: u32) = mask k" by (simp add: mask_eq_exp_minus_1)
  then have "unat (of_nat i AND (2 ^ k - 1) :: u32) = take_bit k (unat (of_nat i :: u32))"
    by (simp add: take_bit_eq_mask[symmetric] unsigned_take_bit_eq)
  also have "\<dots> = unat (of_nat i :: u32) mod 2 ^ k" by (simp only: take_bit_eq_mod)
  also have "\<dots> = i mod 2 ^ 32 mod 2 ^ k" by (simp add: unat_of_nat take_bit_eq_mod)
  also have "\<dots> = i mod 2 ^ k" using assms by (simp only: mod_mod_cancel le_imp_power_dvd less_imp_le)
  finally show ?thesis .
qed

text \<open>Differences of counters are exact while they stay below \<open>2^32\<close>.\<close>

lemma unat_diff_of_nat:
  assumes "a \<le> b" and "b - a < 2 ^ 32"
  shows "unat (of_nat b - of_nat a :: u32) = b - a"
proof -
  have "(of_nat b - of_nat a :: u32) = of_nat (b - a)" using assms(1) by (simp add: of_nat_diff)
  then show ?thesis using assms(2) by (simp only: unat_of_nat) (simp add: take_bit_nat_eq_self)
qed

lemma pow_lt_32: "k < 32 \<Longrightarrow> (2::nat) ^ k < 2 ^ 32"
  by (rule power_strict_increasing) simp_all

lemma nb_free_spec:
  assumes "ring_inv k s cp pp" and "k < 32" and "xsk_prod_nb_free (p_ring s) (shm s) nb = (free, r)"
  obtains cp' where "cp \<le> cp'" "cp' \<le> released s" "r = (p_ring s)\<lparr>cached_cons := of_nat (cp' + 2 ^ k)\<rparr>"
    "unat free = cp' + 2 ^ k - reserved s" "nb \<le> free \<or> cp' = released s"
proof -
  let ?free = "\<lambda>c. of_nat (c + 2 ^ k) - of_nat (reserved s) :: u32"
  have ex: "unat (?free c) = c + 2 ^ k - reserved s" if "cp \<le> c" "c \<le> released s" for c
    using assms(1) that pow_lt_32[OF assms(2)] by (intro unat_diff_of_nat) (auto simp: ring_inv_def)
  show ?thesis
  proof (cases "nb \<le> ?free cp")
    case True
    then show ?thesis
      using assms(1,3) ex[of cp] by (intro that[of cp]) (auto simp: xsk_prod_nb_free_def ring_inv_def Let_def)
  next
    case False
    then show ?thesis
      using assms(1,3) ex[of "released s"]
      by (intro that[of "released s"]) (auto simp: xsk_prod_nb_free_def ring_inv_def Let_def)
  qed
qed

lemma reserve_inv:
  assumes "ring_inv k s cp pp" and "k < 32" and "xsk_ring_prod__reserve (p_ring s) (shm s) nb = (n, idx, r)"
  shows "\<exists>cp'. ring_inv k (s\<lparr>p_ring := r, reserved := reserved s + unat n,
      sent := (\<lambda>i. if reserved s \<le> i \<and> i < reserved s + unat n then ring (shm s) ! ring_slot r (of_nat i)
                   else sent s i)\<rparr>) cp' pp"
proof -
  obtain free r1 where f: "xsk_prod_nb_free (p_ring s) (shm s) nb = (free, r1)" by fastforce
  from nb_free_spec[OF assms(1,2) f] obtain cp' where c: "cp \<le> cp'" "cp' \<le> released s"
    "r1 = (p_ring s)\<lparr>cached_cons := of_nat (cp' + 2 ^ k)\<rparr>" "unat free = cp' + 2 ^ k - reserved s" by blast
  have r: "n = (if free < nb then 0 else nb)" "r = (if free < nb then r1 else r1\<lparr>cached_prod := cached_prod r1 + nb\<rparr>)"
    using assms(3) by (auto simp: xsk_ring_prod__reserve_def f split: if_splits)
  have room: "reserved s + unat n \<le> cp' + 2 ^ k"
    using c assms(1) by (auto simp: r ring_inv_def word_less_nat_alt)
  have "ring_slot r (of_nat i) = i mod 2 ^ k" for i
    using assms(1) unat_and_mask[OF assms(2), of i] by (simp add: ring_slot_def r c(3) ring_inv_def)
  then show ?thesis
    using assms(1) room c by (intro exI[of _ cp']) (auto simp: ring_inv_def r)
qed

lemma fill_inv:
  assumes "ring_inv k s cp pp" and "k < 32" and "submitted s \<le> j" and "j < reserved s"
    and "xsk_ring_prod__tx_desc (p_ring s) (shm s) (of_nat j) x = Some m"
  shows "ring_inv k (s\<lparr>shm := m, sent := (sent s)(j := x)\<rparr>) cp pp"
proof -
  have slot: "ring_slot (p_ring s) (of_nat j) = j mod 2 ^ k"
    using assms(1) unat_and_mask[OF assms(2), of j] by (simp add: ring_slot_def ring_inv_def)
  have m: "m = (shm s)\<lparr>ring := (ring (shm s))[j mod 2 ^ k := x]\<rparr>"
    using assms(5) by (auto simp: xsk_ring_prod__tx_desc_def slot split: if_splits)
  have "(ring (shm s))[j mod 2 ^ k := x] ! (i mod 2 ^ k) = ((sent s)(j := x)) i"
    if i: "released s \<le> i" "i < reserved s" for i
  proof (cases "i = j")
    case True
    then show ?thesis using assms(1) by (simp add: ring_inv_def)
  next
    case False
    then have "i mod 2 ^ k \<noteq> j mod 2 ^ k"
      using mod_window[of "released s" i "2 ^ k" j] i assms(1,3,4) by (auto simp: ring_inv_def)
    then show ?thesis using False i assms(1) by (simp add: ring_inv_def)
  qed
  then show ?thesis using assms(1) by (simp add: ring_inv_def m)
qed

lemma nb_avail_spec:
  assumes "ring_inv k s cp pp" and "k < 32"
  obtains e r p where "xsk_cons_nb_avail (c_ring s) (shm s) nb = (e, r)"
    "pp \<le> p" "p \<le> submitted s" "r = (c_ring s)\<lparr>cached_prod := of_nat p\<rparr>" "unat e = min (unat nb) (p - peeked s)"
    "peeked s < p \<or> p = submitted s"
proof -
  have ex: "unat (of_nat p - of_nat (peeked s) :: u32) = p - peeked s" if "pp \<le> p" "p \<le> submitted s" for p
    using assms(1) that pow_lt_32[OF assms(2)] by (intro unat_diff_of_nat) (auto simp: ring_inv_def)
  let ?p = "if of_nat pp - of_nat (peeked s) = (0 :: u32) then submitted s else pp"
  let ?e = "of_nat ?p - of_nat (peeked s) :: u32"
  have p: "pp \<le> ?p" "?p \<le> submitted s" using assms(1) by (auto simp: ring_inv_def)
  have "of_nat pp - of_nat (peeked s) = (0 :: u32) \<longleftrightarrow> pp \<le> peeked s"
    using ex[of pp] assms(1) by (auto simp: ring_inv_def unat_eq_zero[symmetric])
  then have fresh: "peeked s < ?p \<or> ?p = submitted s" by auto
  have "xsk_cons_nb_avail (c_ring s) (shm s) nb = (if ?e > nb then nb else ?e, (c_ring s)\<lparr>cached_prod := of_nat ?p\<rparr>)"
    using assms(1) by (simp add: xsk_cons_nb_avail_def ring_inv_def Let_def)
  moreover have "unat (if ?e > nb then nb else ?e) = min (unat nb) (?p - peeked s)"
    using ex[OF p] by (auto simp: word_less_nat_alt)
  ultimately show ?thesis using that p fresh by blast
qed

lemma peek_inv:
  assumes "ring_inv k s cp pp" and "k < 32" and "xsk_ring_cons__peek (c_ring s) (shm s) nb = (n, idx, r)"
  shows "\<exists>pp'. ring_inv k (s\<lparr>c_ring := r, peeked := peeked s + unat n\<rparr>) cp pp'"
proof -
  from nb_avail_spec[OF assms(1,2)] obtain e r1 p where f: "xsk_cons_nb_avail (c_ring s) (shm s) nb = (e, r1)"
    and p: "pp \<le> p" "p \<le> submitted s" "r1 = (c_ring s)\<lparr>cached_prod := of_nat p\<rparr>"
      "unat e = min (unat nb) (p - peeked s)" by blast
  have "n = e" "r = r1\<lparr>cached_cons := cached_cons r1 + e\<rparr>"
    using assms(3) by (auto simp: xsk_ring_cons__peek_def f word_gt_0 split: if_splits)
  moreover have "peeked s + unat e \<le> p" using p assms(1) by (auto simp: ring_inv_def)
  ultimately show ?thesis using assms(1) p(1-3) by (intro exI[of _ p]) (auto simp: ring_inv_def)
qed

lemma step_inv:
  assumes "ring_step s s'" and "ring_inv k s cp pp" and "k < 32"
  shows "\<exists>cp' pp'. ring_inv k s' cp' pp'"
  using assms(1)
proof (cases rule: ring_step.cases)
  case (reserve nb n idx r)
  then show ?thesis using reserve_inv[OF assms(2,3)] by blast
next
  case (fill j x m)
  then show ?thesis using fill_inv[OF assms(2,3)] by blast
next
  case (submit nb)
  then show ?thesis using assms(2) by (intro exI[of _ cp] exI[of _ pp]) (auto simp: ring_inv_def xsk_ring_prod__submit_def)
next
  case (peek nb n idx r)
  then show ?thesis using peek_inv[OF assms(2,3)] by blast
next
  case (cancel nb)
  then have "(of_nat (peeked s - unat nb) :: u32) = of_nat (peeked s) - nb" by (simp add: of_nat_diff)
  then show ?thesis using cancel assms(2)
    by (intro exI[of _ cp] exI[of _ pp]) (auto simp: ring_inv_def xsk_ring_cons__cancel_def)
next
  case (release nb)
  then show ?thesis using assms(2)
    by (intro exI[of _ cp] exI[of _ pp]) (auto simp: ring_inv_def xsk_ring_cons__release_def)
qed

lemma reachable_inv:
  assumes "ring_reachable k junk s" and "k < 32" and "length junk = 2 ^ k"
  shows "\<exists>cp pp. ring_inv k s cp pp"
  using assms(1)
proof induction
  case init
  show ?case using assms(3) by (intro exI[of _ 0]) (simp add: ring_init_def ring_inv_def Let_def)
next
  case (step s s')
  then show ?case using step_inv assms(2) by blast
qed

subsection \<open>Properties\<close>

text \<open>C19: in every reachable state of a ring of \<open>2 ^ k\<close> entries, however the producer's and the
  consumer's calls interleave and however often the 32-bit counters have wrapped around: the consumer has peeked
  only submitted entries, at most \<open>2 ^ k\<close> entries are in flight, and reading any peeked and not yet released
  entry stays inside the ring and yields the entry the producer wrote under that number.  So entries arrive
  in order, none twice, none lost and none overwritten before it is released.\<close>

theorem xsk_ring_fifo:
  assumes "ring_reachable k junk s" and "k < 32" and "length junk = 2 ^ k"
  shows "released s \<le> peeked s \<and> peeked s \<le> submitted s \<and> submitted s \<le> reserved s
    \<and> reserved s \<le> released s + 2 ^ k
    \<and> (\<forall>i. released s \<le> i \<and> i < peeked s \<longrightarrow>
         xsk_ring_cons__rx_desc (c_ring s) (shm s) (of_nat i) = Some (sent s i))"
proof -
  from reachable_inv[OF assms] obtain cp pp where inv: "ring_inv k s cp pp" by blast
  have "ring_slot (c_ring s) (of_nat i) = i mod 2 ^ k" for i
    using inv unat_and_mask[OF assms(2), of i] by (simp add: ring_slot_def ring_inv_def)
  with inv show ?thesis by (auto simp: ring_inv_def xsk_ring_cons__rx_desc_def)
qed

text \<open>The steps as a function, to evaluate runs.\<close>

datatype 'a ring_action = Reserve u32 | Fill nat 'a | Submit u32 | Peek u32 | Cancel u32 | Release u32

fun ring_exec :: "'a ring_action \<Rightarrow> 'a ring_state \<Rightarrow> 'a ring_state option" where
  "ring_exec (Reserve nb) s = (case xsk_ring_prod__reserve (p_ring s) (shm s) nb of (n, idx, r) \<Rightarrow>
     Some (s\<lparr>p_ring := r, reserved := reserved s + unat n,
       sent := (\<lambda>i. if reserved s \<le> i \<and> i < reserved s + unat n then ring (shm s) ! ring_slot r (of_nat i)
                    else sent s i)\<rparr>))"
| "ring_exec (Fill j x) s =
     (if submitted s \<le> j \<and> j < reserved s
      then map_option (\<lambda>m. s\<lparr>shm := m, sent := (sent s)(j := x)\<rparr>)
             (xsk_ring_prod__tx_desc (p_ring s) (shm s) (of_nat j) x)
      else None)"
| "ring_exec (Submit nb) s =
     (if submitted s + unat nb \<le> reserved s
      then Some (s\<lparr>shm := xsk_ring_prod__submit (shm s) nb, submitted := submitted s + unat nb\<rparr>) else None)"
| "ring_exec (Peek nb) s = (case xsk_ring_cons__peek (c_ring s) (shm s) nb of (n, idx, r) \<Rightarrow>
     Some (s\<lparr>c_ring := r, peeked := peeked s + unat n\<rparr>))"
| "ring_exec (Cancel nb) s =
     (if released s + unat nb \<le> peeked s
      then Some (s\<lparr>c_ring := xsk_ring_cons__cancel (c_ring s) nb, peeked := peeked s - unat nb\<rparr>) else None)"
| "ring_exec (Release nb) s =
     (if released s + unat nb \<le> peeked s
      then Some (s\<lparr>shm := xsk_ring_cons__release (shm s) nb, released := released s + unat nb\<rparr>) else None)"

fun ring_run :: "'a ring_action list \<Rightarrow> 'a ring_state \<Rightarrow> 'a ring_state option" where
  "ring_run [] s = Some s"
| "ring_run (a # as) s = ring_exec a s \<bind> ring_run as"

lemma ring_exec_step: "ring_exec a s = Some s' \<Longrightarrow> ring_step s s'"
  by (cases a) (auto intro: ring_step.intros split: prod.splits if_splits)

lemma ring_run_reachable: "ring_run as s = Some s' \<Longrightarrow> ring_reachable k junk s \<Longrightarrow> ring_reachable k junk s'"
  by (induction as arbitrary: s)
    (auto simp: bind_eq_Some_conv dest!: ring_exec_step intro: ring_reachable.step)

text \<open>A ring of one entry whose slot is used three times.\<close>

theorem xsk_ring_fifo_witness:
  "\<exists>s :: nat ring_state.
     ring_run [Reserve 1, Fill 0 41, Submit 1, Peek 3, Release 1, Reserve 1, Fill 1 42, Submit 1, Reserve 1, Peek 3]
       (ring_init 0 [0]) = Some s
   \<and> peeked s = 2 \<and> xsk_ring_cons__rx_desc (c_ring s) (shm s) (of_nat 1) = Some 42"
proof -
  let ?as = "[Reserve 1, Fill 0 41, Submit 1, Peek 3, Release 1, Reserve 1, Fill 1 42, Submit 1, Reserve 1, Peek 3]
    :: nat ring_action list"
  have e: "map_option (\<lambda>s. (released s, peeked s, sent s 1)) (ring_run ?as (ring_init 0 [0])) = Some (1, 2, 42)"
    by code_simp
  then obtain s where s: "ring_run ?as (ring_init 0 [0]) = Some s" "released s = 1" "peeked s = 2" "sent s 1 = 42"
    by auto
  from xsk_ring_fifo[OF ring_run_reachable[OF s(1) ring_reachable.init]] s show ?thesis by auto
qed

text \<open>the answers of the two requests are exact.  In every reachable state a producer gets the entries
  it asks for if and only if they are free, and the first index is that of the first of them; a consumer
  that asks for at least one entry gets some if and only if an unseen one has been submitted, never
  more than it asked for, and the first index is that of the oldest unseen entry.\<close>

theorem xsk_ring_requests_exact:
  assumes "ring_reachable k junk s" and "k < 32" and "length junk = 2 ^ k" and "0 < nb"
  shows "(\<exists>r. xsk_ring_prod__reserve (p_ring s) (shm s) nb =
            (if reserved s + unat nb \<le> released s + 2 ^ k then (nb, Some (of_nat (reserved s)), r) else (0, None, r)))
    \<and> (\<exists>n r. xsk_ring_cons__peek (c_ring s) (shm s) nb =
            (n, if peeked s < submitted s then Some (of_nat (peeked s)) else None, r)
          \<and> (0 < n \<longleftrightarrow> peeked s < submitted s) \<and> n \<le> nb \<and> peeked s + unat n \<le> submitted s)"
proof (intro conjI)
  from reachable_inv[OF assms(1-3)] obtain cp pp where inv: "ring_inv k s cp pp" by blast
  obtain free r1 where f: "xsk_prod_nb_free (p_ring s) (shm s) nb = (free, r1)" by fastforce
  from nb_free_spec[OF inv assms(2) f] obtain cp' where c: "cp \<le> cp'" "cp' \<le> released s"
    "r1 = (p_ring s)\<lparr>cached_cons := of_nat (cp' + 2 ^ k)\<rparr>" "unat free = cp' + 2 ^ k - reserved s"
    "nb \<le> free \<or> cp' = released s" by blast
  have "free < nb \<longleftrightarrow> \<not> reserved s + unat nb \<le> released s + 2 ^ k"
    using c inv assms(4) by (auto simp: word_less_nat_alt word_le_nat_alt ring_inv_def)
  then show "\<exists>r. xsk_ring_prod__reserve (p_ring s) (shm s) nb =
      (if reserved s + unat nb \<le> released s + 2 ^ k then (nb, Some (of_nat (reserved s)), r) else (0, None, r))"
    using inv by (auto simp: xsk_ring_prod__reserve_def f c(3) ring_inv_def)
  obtain n idx r where p: "xsk_ring_cons__peek (c_ring s) (shm s) nb = (n, idx, r)" by (metis prod_cases3)
  from nb_avail_spec[OF inv assms(2)] obtain e r1 p' where a: "xsk_cons_nb_avail (c_ring s) (shm s) nb = (e, r1)"
    "pp \<le> p'" "p' \<le> submitted s" "r1 = (c_ring s)\<lparr>cached_prod := of_nat p'\<rparr>" "unat e = min (unat nb) (p' - peeked s)"
    "peeked s < p' \<or> p' = submitted s" by blast
  have "0 < e \<longleftrightarrow> peeked s < submitted s"
    using a(3,5,6) assms(4) by (auto simp: word_less_nat_alt)
  moreover have "e \<le> nb" "peeked s + unat e \<le> submitted s"
    using a(3,5) inv by (auto simp: word_le_nat_alt ring_inv_def)
  ultimately show "\<exists>n r. xsk_ring_cons__peek (c_ring s) (shm s) nb =
            (n, if peeked s < submitted s then Some (of_nat (peeked s)) else None, r)
          \<and> (0 < n \<longleftrightarrow> peeked s < submitted s) \<and> n \<le> nb \<and> peeked s + unat n \<le> submitted s"
    using inv by (auto simp: xsk_ring_cons__peek_def a(1,4) ring_inv_def)
qed

theorem xsk_ring_requests_exact_witness:
  "\<exists>s :: nat ring_state. ring_run [Reserve 1] (ring_init 0 [0]) = Some s
     \<and> (\<exists>r. xsk_ring_prod__reserve (p_ring s) (shm s) 1 = (0, None, r))"
proof -
  have "map_option (\<lambda>s. (reserved s, released s)) (ring_run [Reserve 1] (ring_init 0 [0 :: nat])) = Some (1, 0)"
    by code_simp
  then obtain s where s: "ring_run [Reserve 1] (ring_init 0 [0 :: nat]) = Some s" "reserved s = 1" "released s = 0" by auto
  have "\<exists>r. xsk_ring_prod__reserve (p_ring s) (shm s) 1 = (0, None, r)"
    using xsk_ring_requests_exact[OF ring_run_reachable[OF s(1) ring_reachable.init], of 1] s(2,3) by auto
  with s(1) show ?thesis by blast
qed

end
