(* ===== verification/Xsk_Prog.thy ===== *)
theory Xsk_Prog
  imports Libxdp_Compat Xsk_Ring
begin

text \<open>
  AF\_XDP sockets, first part (\<open>libxdp/xsk.c\<close>): the structures, the system calls, and the program that delivers frames to the
  sockets: finding it on an interface, loading the default one, its map of sockets, and the counter of its users.

  Sockets, contexts and memory regions live in a heap of their own, beside the programs of libxdp; a use of a structure that has
  been freed, programs included, is \<^const>\<open>None\<close>.  A system call that fails yields the negated error number; \<open>x_errno\<close> is
  the value that \<open>errno\<close> has where the code reads it although no call failed before.
\<close>

abbreviation (input) XSK_PROG_VERSION :: u32 where "XSK_PROG_VERSION \<equiv> 1"

subsection \<open>Structures\<close>

record xsk_umem_config =
  fill_size :: u32
  comp_size :: u32
  frame_size :: u32
  frame_headroom :: u32
  umem_flags :: u32

record xsk_socket_config =
  rx_size :: u32
  tx_size :: u32
  libbpf_flags :: u32
  xdp_flags :: u32
  bind_flags :: u16

text \<open>A ring structure in the memory of the caller: the counters of \<open>Xsk_Ring\<close> and the addresses of the mapping.\<close>

record mapped_ring = xsk_ring +
  ring_producer :: u64
  ring_consumer :: u64
  ring_descs :: u64
  ring_flags :: u64

record xsk_umem =
  fill_save :: "nat option"
  comp_save :: "nat option"
  umem_area :: u64
  umem_config :: xsk_umem_config
  umem_fd :: int
  umem_refcount :: int
  ctx_list :: "nat list"
  rx_ring_setup_done :: bool
  tx_ring_setup_done :: bool

text \<open>A pointer to a program is null, an error, or a program.\<close>

type_synonym prog_ptr = "(int + ptr) option"

record xsk_ctx =
  ctx_fill :: "nat option"
  ctx_comp :: "nat option"
  ctx_umem :: "nat option"
  ctx_queue_id :: u32
  ctx_refcount :: int
  ctx_ifindex :: int
  ctx_netns_cookie :: u64
  ctx_xsks_map_fd :: int
  ctx_prog :: prog_ptr
  ctx_refcnt_map_fd :: int
  ctx_ifname :: string

record xsk_socket =
  sk_rx :: "nat option"
  sk_tx :: "nat option"
  sk_ctx :: "nat option"
  sk_config :: xsk_socket_config
  sk_fd :: int

record xmem =
  umems :: "nat \<Rightarrow> xsk_umem option"
  ctxs :: "nat \<Rightarrow> xsk_ctx option"
  xsks :: "nat \<Rightarrow> xsk_socket option"
  rings :: "nat \<Rightarrow> mapped_ring"
  next_addr :: nat
  freed_progs :: "ptr list"

type_synonym 'w xst = "xmem \<times> 'w st"

subsection \<open>System calls\<close>

record xdp_umem_reg =
  reg_addr :: u64
  reg_len :: u64
  reg_chunk_size :: u32
  reg_headroom :: u32
  reg_flags :: u32

datatype xsk_option = XDP_UMEM_REG xdp_umem_reg | XDP_UMEM_FILL_RING u32 | XDP_UMEM_COMPLETION_RING u32
  | XDP_RX_RING u32 | XDP_TX_RING u32

datatype xsk_pgoff = XDP_PGOFF_RX_RING | XDP_PGOFF_TX_RING | XDP_UMEM_PGOFF_FILL_RING | XDP_UMEM_PGOFF_COMPLETION_RING

record sockaddr_xdp =
  sxdp_flags :: u16
  sxdp_ifindex :: int
  sxdp_queue_id :: u32
  sxdp_shared_umem_fd :: int

record xsk_map_info =
  xm_name :: string
  xm_key_size :: u32
  xm_value_size :: u32

record 'w xsk_env =
  x_lib :: "'w libxdp_env"
  x_object_path :: string
  x_qsort :: "(ptr \<Rightarrow> ptr \<Rightarrow> int) \<Rightarrow> ptr list \<Rightarrow> ptr list"
  x_pagesize :: u64
  x_errno :: "'w \<Rightarrow> int \<times> 'w"
  x_socket :: "'w \<Rightarrow> int \<times> 'w"
  x_local_socket :: "'w \<Rightarrow> int \<times> 'w"
  x_setsockopt :: "int \<Rightarrow> xsk_option \<Rightarrow> 'w \<Rightarrow> int \<times> 'w"
  x_offsets :: "int \<Rightarrow> 'w \<Rightarrow> (int + u64 list) \<times> 'w"
  x_netns_cookie :: "int \<Rightarrow> 'w \<Rightarrow> (int + u64) \<times> 'w"
  x_bind :: "int \<Rightarrow> sockaddr_xdp \<Rightarrow> 'w \<Rightarrow> int \<times> 'w"
  x_mmap :: "u64 \<Rightarrow> int \<Rightarrow> xsk_pgoff \<Rightarrow> 'w \<Rightarrow> (int + u64) \<times> 'w"
  x_munmap :: "u64 \<Rightarrow> u64 \<Rightarrow> 'w \<Rightarrow> int \<times> 'w"
  x_load32 :: "u64 \<Rightarrow> 'w \<Rightarrow> u32 \<times> 'w"
  x_nametoindex :: "string \<Rightarrow> 'w \<Rightarrow> (int + int) \<times> 'w"
  x_indextoname :: "int \<Rightarrow> 'w \<Rightarrow> (int + string) \<times> 'w"
  x_channels :: "int \<Rightarrow> string \<Rightarrow> 'w \<Rightarrow> (int + u32 \<times> u32 \<times> u32) \<times> 'w"
  x_readdir :: "string \<Rightarrow> 'w \<Rightarrow> string list option \<times> 'w"
  x_find_map :: "nat \<Rightarrow> string \<Rightarrow> 'w \<Rightarrow> nat option \<times> 'w"
  x_set_max_entries :: "nat \<Rightarrow> u32 \<Rightarrow> 'w \<Rightarrow> int \<times> 'w"
  x_map_ids :: "int \<Rightarrow> nat \<Rightarrow> 'w \<Rightarrow> (int + nat \<times> u32 list) \<times> 'w"
  x_map_info :: "int \<Rightarrow> 'w \<Rightarrow> (int + xsk_map_info) \<times> 'w"
  x_map_update :: "int \<Rightarrow> u32 \<Rightarrow> int \<Rightarrow> 'w \<Rightarrow> int \<times> 'w"
  x_map_update0 :: "int \<Rightarrow> u8 list \<Rightarrow> 'w \<Rightarrow> int \<times> 'w"
  x_map_delete :: "int \<Rightarrow> u32 \<Rightarrow> 'w \<Rightarrow> int \<times> 'w"
  x_map_create :: "'w \<Rightarrow> int \<times> 'w"
  x_load_test_prog :: "int \<Rightarrow> 'w \<Rightarrow> int \<times> 'w"
  x_test_run :: "int \<Rightarrow> 'w \<Rightarrow> (int + u32) \<times> 'w"

text \<open>Steps on the whole state: an operation of libxdp, a system call, reading and writing structures.\<close>

definition lib :: "('w st \<Rightarrow> ('a \<times> 'w st) option) \<Rightarrow> 'w xst \<Rightarrow> ('a \<times> 'w xst) option" where
  "lib f s = (case f (snd s) of None \<Rightarrow> None | Some (r, t) \<Rightarrow> Some (r, (fst s, t)))"

definition osys :: "('w \<Rightarrow> 'a \<times> 'w) \<Rightarrow> 'w xst \<Rightarrow> ('a \<times> 'w xst) option" where
  "osys f s = (case f (snd (snd s)) of (r, w) \<Rightarrow> Some (r, (fst s, (fst (snd s), w))))"

definition upd_ctx :: "nat \<Rightarrow> (xsk_ctx \<Rightarrow> xsk_ctx) \<Rightarrow> 'w xst \<Rightarrow> 'w xst option" where
  "upd_ctx c f s = do {
     x \<leftarrow> ctxs (fst s) c;
     Some ((fst s)\<lparr>ctxs := (ctxs (fst s))(c \<mapsto> f x)\<rparr>, snd s)
   }"

definition upd_umem :: "nat \<Rightarrow> (xsk_umem \<Rightarrow> xsk_umem) \<Rightarrow> 'w xst \<Rightarrow> 'w xst option" where
  "upd_umem u f s = do {
     x \<leftarrow> umems (fst s) u;
     Some ((fst s)\<lparr>umems := (umems (fst s))(u \<mapsto> f x)\<rparr>, snd s)
   }"

text \<open>Using and closing a program; a closed one is gone.  \<open>xdp_program__close\<close> tests for null only: closing an error pointer
  faults.\<close>

definition use_prog :: "prog_ptr \<Rightarrow> 'w xst \<Rightarrow> xdp_program option option" where
  "use_prog p s =
     (case p of
        Some (Inr q) \<Rightarrow> if q \<in> set (freed_progs (fst s)) then None else Some (Some (prog_at (snd s) q))
      | _ \<Rightarrow> Some None)"

definition close_prog :: "'w xsk_env \<Rightarrow> prog_ptr \<Rightarrow> 'w xst \<Rightarrow> (unit \<times> 'w xst) option" where
  "close_prog env p s =
     (case p of
        Some (Inr q) \<Rightarrow>
          if q \<in> set (freed_progs (fst s)) then None
          else do {
            (_, s) \<leftarrow> lib (xdp_program__close (x_lib env) (Some q)) s;
            Some ((), ((fst s)\<lparr>freed_progs := q # freed_progs (fst s)\<rparr>, snd s))
          }
      | Some (Inl _) \<Rightarrow> None
      | None \<Rightarrow> Some ((), s))"

definition close' :: "'w xsk_env \<Rightarrow> int \<Rightarrow> 'w xst \<Rightarrow> (unit \<times> 'w xst) option" where
  "close' env fd s = osys (close_fd (x_lib env) fd) s"

subsection \<open>Queues of the interface\<close>

definition xsk_convert_xdp_flags :: "u32 \<Rightarrow> xdp_attach_mode" where
  "xsk_convert_xdp_flags fl =
     (if fl AND XDP_FLAGS_SKB_MODE \<noteq> 0 then XDP_MODE_SKB
      else if fl AND XDP_FLAGS_DRV_MODE \<noteq> 0 then XDP_MODE_NATIVE
      else if fl AND XDP_FLAGS_HW_MODE \<noteq> 0 then XDP_MODE_HW
      else XDP_MODE_NATIVE)"

definition xsk_get_queues_from_sysfs :: "'w xsk_env \<Rightarrow> string \<Rightarrow> 'w xst \<Rightarrow> ((u32 \<times> u32) \<times> 'w xst) option" where
  "xsk_get_queues_from_sysfs env ifname s =
     (let buf = ''/sys/class/net/'' @ ifname @ ''/queues/''
      in if try_snprintf 64 buf \<noteq> 0 then Some ((0, 0), s)
         else do {
           (dir, s) \<leftarrow> osys (x_readdir env buf) s;
           case dir of
             None \<Rightarrow> Some ((0, 0), s)
           | Some names \<Rightarrow>
               Some ((of_nat (length (filter (\<lambda>n. take 2 n = ''rx'') names)), of_nat (length (filter (\<lambda>n. take 2 n = ''tx'') names))), s)
         })"

definition xsk_get_max_queues :: "'w xsk_env \<Rightarrow> string \<Rightarrow> 'w xst \<Rightarrow> (int \<times> 'w xst) option" where
  "xsk_get_max_queues env ifname s = do {
     (fd, s) \<leftarrow> osys (x_local_socket env) s;
     if fd < 0 then Some (fd, s)
     else do {
       let ifr_name = take 15 ifname;
       (r, s) \<leftarrow> osys (x_channels env fd ifr_name) s;
       (ret, s) \<leftarrow>
         (case r of
            Inl e \<Rightarrow>
              if e \<noteq> - EOPNOTSUPP then Some (e, s)
              else do {
                ((rx, tx), s) \<leftarrow> xsk_get_queues_from_sysfs env ifr_name s;
                Some (sint (max (max rx tx) 1), s)
              }
          | Inr (rx, tx, combined) \<Rightarrow> Some (max (sint (max rx tx)) (sint combined), s));
       (_, s) \<leftarrow> close' env fd s;
       Some (ret, s)
     }
   }"

definition xsk_size_map :: "'w xsk_env \<Rightarrow> prog_ptr \<Rightarrow> string \<Rightarrow> 'w xst \<Rightarrow> (int \<times> 'w xst) option" where
  "xsk_size_map env prog ifname s = do {
     x \<leftarrow> use_prog prog s;
     (max_queues, s) \<leftarrow> xsk_get_max_queues env ifname s;
     if max_queues < 0 then Some (max_queues, s)
     else (case xdp_program__bpf_obj x of
             None \<Rightarrow> Some (- ENOENT, s)
           | Some obj \<Rightarrow> do {
               (m, s) \<leftarrow> osys (x_find_map env obj ''xsks_map'') s;
               case m of
                 None \<Rightarrow> Some (- ENOENT, s)
               | Some m \<Rightarrow> osys (x_set_max_entries env m (word_of_int max_queues)) s
             })
   }"

subsection \<open>Maps of a program\<close>

text \<open>\<open>x_map_ids fd n\<close> is the second query of the program: the number of maps the kernel reports, and what it writes to
  the array of \<open>n\<close> ids.\<close>

fun lookup_map_loop ::
  "'w xsk_env \<Rightarrow> (xsk_map_info \<Rightarrow> bool) \<Rightarrow> u32 list \<Rightarrow> nat list \<Rightarrow> 'w xst \<Rightarrow> (int \<times> 'w xst) option" where
  "lookup_map_loop env flt map_ids [] s = Some (- ENOENT, s)"
| "lookup_map_loop env flt map_ids (i # is) s = do {
     mid \<leftarrow> (if i < length map_ids then Some (map_ids ! i) else None);
     (fd, s) \<leftarrow> osys (map_fd_by_id (x_lib env) mid) s;
     if fd < 0 then lookup_map_loop env flt map_ids is s
     else do {
       (info, s) \<leftarrow> osys (x_map_info env fd) s;
       case info of
         Inl _ \<Rightarrow> do { (_, s) \<leftarrow> close' env fd s; lookup_map_loop env flt map_ids is s }
       | Inr info \<Rightarrow>
           if flt info then Some (fd, s)
           else do { (_, s) \<leftarrow> close' env fd s; lookup_map_loop env flt map_ids is s }
     }
   }"

definition xsk_lookup_map_by_filter ::
  "'w xsk_env \<Rightarrow> int \<Rightarrow> (xsk_map_info \<Rightarrow> bool) \<Rightarrow> 'w xst \<Rightarrow> (int \<times> 'w xst) option" where
  "xsk_lookup_map_by_filter env fd flt s = do {
     (info, s) \<leftarrow> osys (get_prog_info (x_lib env) fd) s;
     case info of
       Inl err \<Rightarrow> Some (err, s)
     | Inr info \<Rightarrow> do {
         let num_maps = info_nr_map_ids info;
         (ok, s) \<leftarrow> osys (alloc (x_lib env)) s;
         if \<not> ok then Some (- ENOMEM, s)
         else do {
           (r, s) \<leftarrow> osys (x_map_ids env fd num_maps) s;
           case r of
             Inl err \<Rightarrow> Some (err, s)
           | Inr (nr, ids) \<Rightarrow> lookup_map_loop env flt (take num_maps (ids @ replicate num_maps 0)) [0..<nr] s
         }
       }
   }"

text \<open>Names are compared over the 16 bytes of the field.\<close>

definition xsk_map_is_socket_map :: "xsk_map_info \<Rightarrow> bool" where
  "xsk_map_is_socket_map i \<longleftrightarrow> xm_name i = ''xsks_map'' \<and> xm_key_size i = 4 \<and> xm_value_size i = 4"

definition xsk_map_is_refcnt_map :: "xsk_map_info \<Rightarrow> bool" where
  "xsk_map_is_refcnt_map i \<longleftrightarrow> xm_name i = ''xsk_def_.data'' \<and> xm_value_size i \<ge> 4"

definition xsk_lookup_bpf_map :: "'w xsk_env \<Rightarrow> int \<Rightarrow> 'w xst \<Rightarrow> (int \<times> 'w xst) option" where
  "xsk_lookup_bpf_map env fd s = xsk_lookup_map_by_filter env fd xsk_map_is_socket_map s"

definition xsk_lookup_refcnt_map :: "'w xsk_env \<Rightarrow> int \<Rightarrow> 'w xst \<Rightarrow> (int \<times> 'w xst) option" where
  "xsk_lookup_refcnt_map env fd s = xsk_lookup_map_by_filter env fd xsk_map_is_refcnt_map s"

definition xsk_delete_map_entry :: "'w xsk_env \<Rightarrow> int \<Rightarrow> u32 \<Rightarrow> 'w xst \<Rightarrow> (unit \<times> 'w xst) option" where
  "xsk_delete_map_entry env fd queue_id s = do {
     (_, s) \<leftarrow> osys (x_map_delete env fd queue_id) s;
     close' env fd s
   }"

definition xsk_check_redirect_flags :: "'w xsk_env \<Rightarrow> 'w xst \<Rightarrow> (bool \<times> 'w xst) option" where
  "xsk_check_redirect_flags env s = do {
     (map_fd, s) \<leftarrow> osys (x_map_create env) s;
     if map_fd < 0 then Some (False, s)
     else do {
       (pfd, s) \<leftarrow> osys (x_load_test_prog env map_fd) s;
       if pfd < 0 then do { (_, s) \<leftarrow> close' env map_fd s; Some (False, s) }
       else do {
         (r, s) \<leftarrow> osys (x_test_run env pfd) s;
         let detected = (case r of Inl _ \<Rightarrow> False | Inr retval \<Rightarrow> retval = 2);
         (_, s) \<leftarrow> close' env pfd s;
         (_, s) \<leftarrow> close' env map_fd s;
         Some (detected, s)
       }
     }
   }"

subsection \<open>The program on an interface\<close>

text \<open>The first program of the list with the default name; comparing with a null name faults.\<close>

fun find_def_prog :: "ptr list \<Rightarrow> 'w xst \<Rightarrow> ptr option option" where
  "find_def_prog [] s = Some None"
| "find_def_prog (p # ps) s = do {
     n \<leftarrow> xdp_program__name (Some (prog_at (snd s) p));
     if n = ''xsk_def_prog'' then Some (Some p) else find_def_prog ps s
   }"

definition xsk_lookup_program :: "'w xsk_env \<Rightarrow> int \<Rightarrow> 'w xst \<Rightarrow> (prog_ptr \<times> 'w xst) option" where
  "xsk_lookup_program env ifindex s = do {
     (m, s) \<leftarrow> lib (xdp_multiprog__get_from_ifindex (x_lib env) ifindex) s;
     case m of
       Inl _ \<Rightarrow> Some (None, s)
     | Inr mp \<Rightarrow> do {
         p \<leftarrow> (if xdp_multiprog__is_legacy (Some mp)
               then do {
                 p \<leftarrow> xdp_multiprog__main_prog (Some mp);
                 find_def_prog [p] s
               }
               else find_def_prog (xdp_multiprog__next_prog (Some mp)) s);
         (r, s) \<leftarrow>
           (case p of
              None \<Rightarrow> Some (None, s)
            | Some p \<Rightarrow> do {
                v \<leftarrow> check_xdp_prog_version (xdp_program__btf (Some (prog_at (snd s) p))) ''xsk_prog_version'';
                case v of
                  Inl err \<Rightarrow> Some (Some (Inl err), s)
                | Inr version \<Rightarrow>
                    if version > XSK_PROG_VERSION then Some (Some (Inl (- EOPNOTSUPP)), s)
                    else do {
                      (q, s) \<leftarrow> lib (xdp_program__clone (x_lib env) (Some p) 0) s;
                      Some (Some q, s)
                    }
              });
         (_, s) \<leftarrow> lib (xdp_multiprog__close (x_lib env) (Some mp)) s;
         Some (r, s)
       }
   }"

text \<open>The counter is the first word of the only value of the map; a counter of 0 stays 0.\<close>

definition xsk_update_prog_refcnt :: "'w xsk_env \<Rightarrow> int \<Rightarrow> int \<Rightarrow> 'w xst \<Rightarrow> (int \<times> 'w xst) option" where
  "xsk_update_prog_refcnt env fd delta s = do {
     (info, s) \<leftarrow> osys (x_map_info env fd) s;
     case info of
       Inl err \<Rightarrow> Some (err, s)
     | Inr info \<Rightarrow> do {
         (ok, s) \<leftarrow> osys (alloc (x_lib env)) s;
         if \<not> ok then Some (- ENOMEM, s)
         else do {
           (lock_fd, s) \<leftarrow> osys (lock_acquire (x_lib env)) s;
           if lock_fd < 0 then Some (lock_fd, s)
           else do {
             (v, s) \<leftarrow> osys (map_lookup0 (x_lib env) fd) s;
             (ret, s) \<leftarrow>
               (case v of
                  Inl err \<Rightarrow> Some (err, s)
                | Inr value_data \<Rightarrow> do {
                    n \<leftarrow> load32 (take (unat (xm_value_size info)) value_data) 0;
                    if n \<noteq> 0 then do {
                      let n = n + word_of_int delta;
                      (err, s) \<leftarrow> osys (x_map_update0 env fd ([ucast n, ucast (drop_bit 8 n), ucast (drop_bit 16 n), ucast (drop_bit 24 n)]
                                    @ drop 4 value_data)) s;
                      if err \<noteq> 0 then Some (err, s) else Some (sint n, s)
                    }
                    else Some (sint n, s)
                  });
             (_, s) \<leftarrow> osys (lock_release (x_lib env) lock_fd) s;
             Some (ret, s)
           }
         }
       }
   }"

definition xsk_incr_prog_refcnt :: "'w xsk_env \<Rightarrow> int \<Rightarrow> 'w xst \<Rightarrow> (int \<times> 'w xst) option" where
  "xsk_incr_prog_refcnt env fd s = xsk_update_prog_refcnt env fd 1 s"

definition xsk_decr_prog_refcnt :: "'w xsk_env \<Rightarrow> int \<Rightarrow> 'w xst \<Rightarrow> (int \<times> 'w xst) option" where
  "xsk_decr_prog_refcnt env fd s = xsk_update_prog_refcnt env fd (-1) s"

subsection \<open>Setting up the program of a socket\<close>

text \<open>The error exits \<open>err_prog_load\<close> and \<open>err_lookup\<close> of \<open>__xsk_setup_xdp_prog\<close>.\<close>

definition setup_err_prog_load :: "'w xsk_env \<Rightarrow> nat \<Rightarrow> int \<Rightarrow> 'w xst \<Rightarrow> ((int \<times> int option) \<times> 'w xst) option" where
  "setup_err_prog_load env c err s = do {
     ctx \<leftarrow> ctxs (fst s) c;
     (_, s) \<leftarrow> (if ctx_refcnt_map_fd ctx \<ge> 0 then close' env (ctx_refcnt_map_fd ctx) s else Some ((), s));
     s \<leftarrow> upd_ctx c (\<lambda>x. x\<lparr>ctx_refcnt_map_fd := - ENOENT\<rparr>) s;
     (_, s) \<leftarrow> close_prog env (ctx_prog ctx) s;
     s \<leftarrow> upd_ctx c (\<lambda>x. x\<lparr>ctx_prog := None\<rparr>) s;
     Some ((err, None), s)
   }"

definition setup_err_lookup :: "'w xsk_env \<Rightarrow> nat \<Rightarrow> u32 \<Rightarrow> bool \<Rightarrow> int \<Rightarrow> 'w xst \<Rightarrow> ((int \<times> int option) \<times> 'w xst) option" where
  "setup_err_lookup env c fl attached err s = do {
     ctx \<leftarrow> ctxs (fst s) c;
     (_, s) \<leftarrow>
       (if attached then
          (case ctx_prog ctx of
             Some (Inr p) \<Rightarrow>
               if p \<in> set (freed_progs (fst s)) then None
               else lib (xdp_program__detach (x_lib env) (x_object_path env) (x_qsort env) (Some p) (ctx_ifindex ctx) (xsk_convert_xdp_flags fl) 0) s
           | _ \<Rightarrow> Some (0, s))
        else Some (0, s));
     setup_err_prog_load env c err s
   }"

text \<open>From the label \<open>map_lookup\<close> on.\<close>

definition setup_map_lookup ::
  "'w xsk_env \<Rightarrow> nat \<Rightarrow> xsk_socket \<Rightarrow> bool \<Rightarrow> 'w xst \<Rightarrow> ((int \<times> int option) \<times> 'w xst) option" where
  "setup_map_lookup env c xsk attached s = do {
     ctx \<leftarrow> ctxs (fst s) c;
     x \<leftarrow> use_prog (ctx_prog ctx) s;
     (fd, s) \<leftarrow> xsk_lookup_bpf_map env (xdp_program__fd x) s;
     s \<leftarrow> upd_ctx c (\<lambda>x. x\<lparr>ctx_xsks_map_fd := fd\<rparr>) s;
     if fd < 0 then setup_err_lookup env c (xdp_flags (sk_config xsk)) attached fd s
     else do {
       (err, s) \<leftarrow> (if sk_rx xsk \<noteq> None then osys (x_map_update env fd (ctx_queue_id ctx) (sk_fd xsk)) s else Some (0, s));
       if err \<noteq> 0 then setup_err_lookup env c (xdp_flags (sk_config xsk)) attached err s
       else Some ((0, Some fd), s)
     }
   }"

text \<open>When there is no program: loading and attaching the default one.  The result tells whether it is attached, and otherwise the
  error, with \<open>True\<close> when the code returns at once.\<close>

definition setup_load ::
  "'w xsk_env \<Rightarrow> nat \<Rightarrow> xsk_socket \<Rightarrow> 'w xst \<Rightarrow> ((bool \<times> int) option \<times> 'w xst) option" where
  "setup_load env c xsk s = do {
     ctx \<leftarrow> ctxs (fst s) c;
     (flags, s) \<leftarrow> xsk_check_redirect_flags env s;
     (p, s) \<leftarrow> lib (xdp_program__find_file (x_lib env) (x_object_path env)
                  (if flags then ''xsk_def_xdp_prog.o'' else ''xsk_def_xdp_prog_5.3.o'') None None) s;
     s \<leftarrow> upd_ctx c (\<lambda>x. x\<lparr>ctx_prog := Some p\<rparr>) s;
     case p of
       Inl e \<Rightarrow> Some (Some (True, e), s)
     | Inr q \<Rightarrow> do {
         (err, s) \<leftarrow> xsk_size_map env (Some p) (ctx_ifname ctx) s;
         if err \<noteq> 0 then Some (Some (False, err), s)
         else do {
           (err, s) \<leftarrow> lib (xdp_program__attach (x_lib env) (x_object_path env) (x_qsort env) (Some q) (ctx_ifindex ctx)
                        (xsk_convert_xdp_flags (xdp_flags (sk_config xsk))) 0) s;
           Some (if err \<noteq> 0 then Some (False, err) else None, s)
         }
       }
   }"

text \<open>From the second test of \<open>ctx->xdp_prog\<close> on.\<close>

definition setup_from_prog ::
  "'w xsk_env \<Rightarrow> nat \<Rightarrow> xsk_socket \<Rightarrow> 'w xst \<Rightarrow> ((int \<times> int option) \<times> 'w xst) option" where
  "setup_from_prog env c xsk s = do {
     ctx \<leftarrow> ctxs (fst s) c;
     let attached = (ctx_prog ctx = None);
     (r, s) \<leftarrow> (if attached then setup_load env c xsk s else Some (None, s));
     case r of
       Some (True, e) \<Rightarrow> Some ((e, None), s)
     | Some (False, err) \<Rightarrow> setup_err_prog_load env c err s
     | None \<Rightarrow> do {
         ctx \<leftarrow> ctxs (fst s) c;
         if ctx_refcnt_map_fd ctx < 0 then do {
           x \<leftarrow> use_prog (ctx_prog ctx) s;
           (fd, s) \<leftarrow> xsk_lookup_refcnt_map env (xdp_program__fd x) s;
           s \<leftarrow> upd_ctx c (\<lambda>x. x\<lparr>ctx_refcnt_map_fd := fd\<rparr>) s;
           if fd < 0 \<and> fd \<noteq> - ENOENT then setup_err_prog_load env c fd s else setup_map_lookup env c xsk attached s
         }
         else setup_map_lookup env c xsk attached s
       }
   }"

definition xsk_setup_prog ::
  "'w xsk_env \<Rightarrow> nat \<Rightarrow> xsk_socket \<Rightarrow> 'w xst \<Rightarrow> ((int \<times> int option) \<times> 'w xst) option" where
  "xsk_setup_prog env c xsk s = do {
     ctx \<leftarrow> ctxs (fst s) c;
     (p, s) \<leftarrow> xsk_lookup_program env (ctx_ifindex ctx) s;
     s \<leftarrow> upd_ctx c (\<lambda>x. x\<lparr>ctx_prog := p\<rparr>) s;
     case p of
       Some (Inl e) \<Rightarrow> Some ((e, None), s)
     | None \<Rightarrow> do {
         s \<leftarrow> upd_ctx c (\<lambda>x. x\<lparr>ctx_refcnt_map_fd := - ENOENT\<rparr>) s;
         setup_from_prog env c xsk s
       }
     | Some (Inr q) \<Rightarrow> do {
         x \<leftarrow> use_prog p s;
         (fd, s) \<leftarrow> xsk_lookup_refcnt_map env (xdp_program__fd x) s;
         s \<leftarrow> upd_ctx c (\<lambda>x. x\<lparr>ctx_refcnt_map_fd := fd\<rparr>) s;
         if fd = - ENOENT then setup_map_lookup env c xsk False s
         else if fd < 0 then setup_err_prog_load env c fd s
         else do {
           (refcnt, s) \<leftarrow> xsk_incr_prog_refcnt env fd s;
           if refcnt < 0 then setup_err_prog_load env c refcnt s
           else if refcnt = 0 then do {
             (_, s) \<leftarrow> close' env fd s;
             s \<leftarrow> upd_ctx c (\<lambda>x. x\<lparr>ctx_refcnt_map_fd := - ENOENT\<rparr>) s;
             (_, s) \<leftarrow> close_prog env p s;
             s \<leftarrow> upd_ctx c (\<lambda>x. x\<lparr>ctx_prog := None\<rparr>) s;
             setup_from_prog env c xsk s
           }
           else setup_from_prog env c xsk s
         }
       }
   }"

text \<open>Giving the program up when a socket is closed.\<close>

definition xsk_release_xdp_prog :: "'w xsk_env \<Rightarrow> nat \<Rightarrow> xsk_socket \<Rightarrow> 'w xst \<Rightarrow> (unit \<times> 'w xst) option" where
  "xsk_release_xdp_prog env c xsk s = do {
     ctx \<leftarrow> ctxs (fst s) c;
     (detach, s) \<leftarrow>
       (if ctx_refcnt_map_fd ctx < 0 then Some (False, s)
        else do {
          (v, s) \<leftarrow> xsk_decr_prog_refcnt env (ctx_refcnt_map_fd ctx) s;
          Some (v = 0, s)
        });
     (_, s) \<leftarrow>
       (if detach then
          (case ctx_prog ctx of
             Some (Inr p) \<Rightarrow>
               if p \<in> set (freed_progs (fst s)) then None
               else lib (xdp_program__detach (x_lib env) (x_object_path env) (x_qsort env) (Some p) (ctx_ifindex ctx)
                      (xsk_convert_xdp_flags (xdp_flags (sk_config xsk))) 0) s
           | _ \<Rightarrow> Some (0, s))
        else Some (0, s));
     close_prog env (ctx_prog ctx) s
   }"

end
