(* ===== verification/Xsk.thy ===== *)
theory Xsk
  imports Xsk_Prog
begin

text \<open>
  AF\_XDP sockets, second part (\<open>libxdp/xsk.c\<close>): memory regions with their fill and completion rings, contexts that the sockets of
  one queue share, and creating and deleting sockets.
\<close>

abbreviation (input) EFAULT :: int where "EFAULT \<equiv> 14"
abbreviation (input) ENOPROTOOPT :: int where "ENOPROTOOPT \<equiv> 92"
abbreviation (input) MAP_FAILED :: u64 where "MAP_FAILED \<equiv> -1"
abbreviation (input) XDP_SHARED_UMEM :: u16 where "XDP_SHARED_UMEM \<equiv> 1"

subsection \<open>Configuration\<close>

definition xsk_umem__fd :: "xsk_umem option \<Rightarrow> int" where
  "xsk_umem__fd umem = (case umem of None \<Rightarrow> - EINVAL | Some u \<Rightarrow> umem_fd u)"

definition xsk_socket__fd :: "xsk_socket option \<Rightarrow> int" where
  "xsk_socket__fd xsk = (case xsk of None \<Rightarrow> - EINVAL | Some k \<Rightarrow> sk_fd k)"

definition xsk_page_aligned :: "'w xsk_env \<Rightarrow> u64 \<Rightarrow> bool" where
  "xsk_page_aligned env buffer \<longleftrightarrow> buffer AND (x_pagesize env - 1) = 0"

definition xsk_set_umem_config :: "xsk_umem_config option \<Rightarrow> xsk_umem_config" where
  "xsk_set_umem_config usr_cfg =
     (case usr_cfg of
        None \<Rightarrow> \<lparr>fill_size = 2048, comp_size = 2048, frame_size = 4096, frame_headroom = 0, umem_flags = 0\<rparr>
      | Some c \<Rightarrow> c)"

definition xsk_set_xdp_socket_config :: "xsk_socket_config option \<Rightarrow> int + xsk_socket_config" where
  "xsk_set_xdp_socket_config usr_cfg =
     (case usr_cfg of
        None \<Rightarrow> Inr \<lparr>rx_size = 2048, tx_size = 2048, libbpf_flags = 0, xdp_flags = 0, bind_flags = 0\<rparr>
      | Some c \<Rightarrow> if libbpf_flags c AND NOT 1 \<noteq> 0 then Inl (- EINVAL) else Inr c)"

subsection \<open>Offsets of the rings\<close>

record xdp_ring_offset =
  off_producer :: u64
  off_consumer :: u64
  off_desc :: u64
  off_flags :: u64

record xdp_mmap_offsets =
  off_rx :: xdp_ring_offset
  off_tx :: xdp_ring_offset
  off_fr :: xdp_ring_offset
  off_cr :: xdp_ring_offset

text \<open>What \<open>getsockopt\<close> writes is a list of 64-bit words: four per ring, or three on kernels before 5.4.\<close>

definition ring_offset :: "u64 list \<Rightarrow> nat \<Rightarrow> xdp_ring_offset" where
  "ring_offset ws i = \<lparr>off_producer = ws ! i, off_consumer = ws ! (i + 1), off_desc = ws ! (i + 2), off_flags = ws ! (i + 3)\<rparr>"

definition ring_offset_v1 :: "u64 list \<Rightarrow> nat \<Rightarrow> xdp_ring_offset" where
  "ring_offset_v1 ws i = \<lparr>off_producer = ws ! i, off_consumer = ws ! (i + 1), off_desc = ws ! (i + 2), off_flags = ws ! (i + 1) + 4\<rparr>"

definition xsk_mmap_offsets_v1 :: "u64 list \<Rightarrow> xdp_mmap_offsets" where
  "xsk_mmap_offsets_v1 ws =
     \<lparr>off_rx = ring_offset_v1 ws 0, off_tx = ring_offset_v1 ws 3, off_fr = ring_offset_v1 ws 6, off_cr = ring_offset_v1 ws 9\<rparr>"

text \<open>The result \<open>Inl True\<close> is a failed call, which sets \<open>errno\<close>; \<open>Inl False\<close> an answer of another size, which does not.\<close>

definition xsk_get_mmap_offsets :: "'w xsk_env \<Rightarrow> int \<Rightarrow> 'w xst \<Rightarrow> (((bool \<times> int) + xdp_mmap_offsets) \<times> 'w xst) option" where
  "xsk_get_mmap_offsets env fd s = do {
     (r, s) \<leftarrow> osys (x_offsets env fd) s;
     Some (case r of
             Inl e \<Rightarrow> Inl (True, e)
           | Inr ws \<Rightarrow>
               if length ws = 16
               then Inr \<lparr>off_rx = ring_offset ws 0, off_tx = ring_offset ws 4, off_fr = ring_offset ws 8, off_cr = ring_offset ws 12\<rparr>
               else if length ws = 12 then Inr (xsk_mmap_offsets_v1 ws)
               else Inl (False, - EINVAL), s)
   }"

text \<open>\<open>-errno\<close> after \<open>xsk_get_mmap_offsets\<close> has returned an error.\<close>

definition offsets_errno :: "'w xsk_env \<Rightarrow> bool \<times> int \<Rightarrow> 'w xst \<Rightarrow> (int \<times> 'w xst) option" where
  "offsets_errno env e s =
     (case e of (failed, err) \<Rightarrow>
        if failed then Some (err, s) else do { (n, s) \<leftarrow> osys (x_errno env) s; Some (- n, s) })"

subsection \<open>Rings of a memory region\<close>

definition ring_bytes :: "xdp_ring_offset \<Rightarrow> u32 \<Rightarrow> u64 \<Rightarrow> u64" where
  "ring_bytes off n entry = off_desc off + ucast n * entry"

definition set_ring :: "nat \<Rightarrow> (mapped_ring \<Rightarrow> mapped_ring) \<Rightarrow> 'w xst \<Rightarrow> 'w xst" where
  "set_ring r f s = ((fst s)\<lparr>rings := (rings (fst s))(r := f (rings (fst s) r))\<rparr>, snd s)"

definition map_ring :: "u64 \<Rightarrow> xdp_ring_offset \<Rightarrow> u32 \<Rightarrow> mapped_ring \<Rightarrow> mapped_ring" where
  "map_ring mp off n r = r\<lparr>r_mask := n - 1, r_size := n, ring_producer := mp + off_producer off, ring_consumer := mp + off_consumer off,
     ring_flags := mp + off_flags off, ring_descs := mp + off_desc off\<rparr>"

text \<open>At \<open>out_mmap\<close> the variable \<open>map\<close> holds the result of the failed call.\<close>

definition xsk_create_umem_rings ::
  "'w xsk_env \<Rightarrow> xsk_umem \<Rightarrow> int \<Rightarrow> nat \<Rightarrow> nat \<Rightarrow> 'w xst \<Rightarrow> (int \<times> 'w xst) option" where
  "xsk_create_umem_rings env umem fd fill cmpl s = do {
     let cfg = umem_config umem;
     (err, s) \<leftarrow> osys (x_setsockopt env fd (XDP_UMEM_FILL_RING (fill_size cfg))) s;
     if err \<noteq> 0 then Some (err, s)
     else do {
       (err, s) \<leftarrow> osys (x_setsockopt env fd (XDP_UMEM_COMPLETION_RING (comp_size cfg))) s;
       if err \<noteq> 0 then Some (err, s)
       else do {
         (ofs, s) \<leftarrow> xsk_get_mmap_offsets env fd s;
         case ofs of
           Inl e \<Rightarrow> offsets_errno env e s
         | Inr off \<Rightarrow> do {
             (m, s) \<leftarrow> osys (x_mmap env (ring_bytes (off_fr off) (fill_size cfg) 8) fd XDP_UMEM_PGOFF_FILL_RING) s;
             case m of
               Inl e \<Rightarrow> Some (e, s)
             | Inr mp \<Rightarrow> do {
                 let s = set_ring fill (\<lambda>r. (map_ring mp (off_fr off) (fill_size cfg) r)\<lparr>cached_cons := fill_size cfg\<rparr>) s;
                 (m, s) \<leftarrow> osys (x_mmap env (ring_bytes (off_cr off) (comp_size cfg) 8) fd XDP_UMEM_PGOFF_COMPLETION_RING) s;
                 case m of
                   Inl e \<Rightarrow> do {
                     (_, s) \<leftarrow> osys (x_munmap env MAP_FAILED (ring_bytes (off_fr off) (fill_size cfg) 8)) s;
                     Some (e, s)
                   }
                 | Inr mp \<Rightarrow> Some (0, set_ring cmpl (map_ring mp (off_cr off) (comp_size cfg)) s)
               }
           }
       }
     }
   }"

definition new_umem :: "int \<Rightarrow> xsk_umem" where
  "new_umem fd = \<lparr>fill_save = None, comp_save = None, umem_area = 0, umem_config = \<lparr>fill_size = 0, comp_size = 0, frame_size = 0,
     frame_headroom = 0, umem_flags = 0\<rparr>, umem_fd = fd, umem_refcount = 0, ctx_list = [], rx_ring_setup_done = False, tx_ring_setup_done = False\<rparr>"

text \<open>Registering the memory and creating the rings.\<close>

definition umem_setup :: "'w xsk_env \<Rightarrow> xsk_umem \<Rightarrow> u64 \<Rightarrow> nat \<Rightarrow> nat \<Rightarrow> 'w xst \<Rightarrow> (int \<times> 'w xst) option" where
  "umem_setup env umem sz fill cmpl s = do {
     let cfg = umem_config umem;
     let mr = \<lparr>reg_addr = umem_area umem, reg_len = sz, reg_chunk_size = frame_size cfg, reg_headroom = frame_headroom cfg,
               reg_flags = umem_flags cfg\<rparr>;
     (err, s) \<leftarrow> osys (x_setsockopt env (umem_fd umem) (XDP_UMEM_REG mr)) s;
     if err \<noteq> 0 then Some (err, s) else xsk_create_umem_rings env umem (umem_fd umem) fill cmpl s
   }"

definition link_umem :: "xsk_umem \<Rightarrow> 'w xst \<Rightarrow> ((int \<times> nat option) \<times> 'w xst) option" where
  "link_umem umem s =
     (let u = next_addr (fst s) in Some ((0, Some u), ((fst s)\<lparr>umems := (umems (fst s))(u \<mapsto> umem), next_addr := u + 1\<rparr>, snd s)))"

definition umem_create_on :: "'w xsk_env \<Rightarrow> xsk_umem \<Rightarrow> u64 \<Rightarrow> nat \<Rightarrow> nat \<Rightarrow> 'w xst \<Rightarrow> ((int \<times> nat option) \<times> 'w xst) option" where
  "umem_create_on env umem sz fill cmpl s = do {
     (err, s) \<leftarrow> umem_setup env umem sz fill cmpl s;
     if err \<noteq> 0 then do { (_, s) \<leftarrow> close' env (umem_fd umem) s; Some ((err, None), s) }
     else link_umem (umem\<lparr>fill_save := Some fill, comp_save := Some cmpl\<rparr>) s
   }"

text \<open>The result is the error, and the region when it is 0.  The region is put into the heap when it is returned: until then no other
  function sees it.\<close>

definition xsk_umem__create_with_fd ::
  "'w xsk_env \<Rightarrow> int \<Rightarrow> u64 \<Rightarrow> u64 \<Rightarrow> nat option \<Rightarrow> nat option \<Rightarrow> xsk_umem_config option \<Rightarrow> 'w xst
   \<Rightarrow> ((int \<times> nat option) \<times> 'w xst) option" where
  "xsk_umem__create_with_fd env fd area sz fillo compo usr_config s =
     (case (fillo, compo) of
        (Some fill, Some cmpl) \<Rightarrow>
          if area = 0 then Some ((- EFAULT, None), s)
          else if sz = 0 \<and> \<not> xsk_page_aligned env area then Some ((- EINVAL, None), s)
          else do {
            (ok, s) \<leftarrow> osys (alloc (x_lib env)) s;
            if \<not> ok then Some ((- ENOMEM, None), s)
            else do {
              (ufd, s) \<leftarrow> (if fd < 0 then osys (x_socket env) s else Some (fd, s));
              if ufd < 0 then Some ((ufd, None), s)
              else umem_create_on env ((new_umem ufd)\<lparr>umem_area := area, umem_config := xsk_set_umem_config usr_config\<rparr>) sz fill cmpl s
            }
          }
      | _ \<Rightarrow> Some ((- EFAULT, None), s))"

definition xsk_umem__create ::
  "'w xsk_env \<Rightarrow> u64 \<Rightarrow> u64 \<Rightarrow> nat option \<Rightarrow> nat option \<Rightarrow> xsk_umem_config option \<Rightarrow> 'w xst \<Rightarrow> ((int \<times> nat option) \<times> 'w xst) option" where
  "xsk_umem__create env area sz fill cmpl usr_config s = xsk_umem__create_with_fd env (-1) area sz fill cmpl usr_config s"

text \<open>Unmapping two rings at the addresses their structures hold.\<close>

definition unmap_ring :: "'w xsk_env \<Rightarrow> nat \<Rightarrow> xdp_ring_offset \<Rightarrow> u32 \<Rightarrow> u64 \<Rightarrow> 'w xst \<Rightarrow> (int \<times> 'w xst) option" where
  "unmap_ring env r off n entry s = osys (x_munmap env (ring_descs (rings (fst s) r) - off_desc off) (ring_bytes off n entry)) s"

definition unmap_saved :: "'w xsk_env \<Rightarrow> xsk_umem \<Rightarrow> 'w xst \<Rightarrow> (int \<times> 'w xst) option" where
  "unmap_saved env umem s = do {
     (ofs, s) \<leftarrow> xsk_get_mmap_offsets env (umem_fd umem) s;
     case (ofs, fill_save umem, comp_save umem) of
       (Inr off, Some fill, Some cmpl) \<Rightarrow> do {
         (_, s) \<leftarrow> unmap_ring env fill (off_fr off) (fill_size (umem_config umem)) 8 s;
         unmap_ring env cmpl (off_cr off) (comp_size (umem_config umem)) 8 s
       }
     | _ \<Rightarrow> Some (0, s)
   }"

definition xsk_umem__delete :: "'w xsk_env \<Rightarrow> nat option \<Rightarrow> 'w xst \<Rightarrow> (int \<times> 'w xst) option" where
  "xsk_umem__delete env uo s =
     (case uo of
        None \<Rightarrow> Some (0, s)
      | Some u \<Rightarrow> do {
          umem \<leftarrow> umems (fst s) u;
          if umem_refcount umem \<noteq> 0 then Some (- EBUSY, s)
          else do {
            (_, s) \<leftarrow> unmap_saved env umem s;
            (_, s) \<leftarrow> close' env (umem_fd umem) s;
            Some (0, ((fst s)\<lparr>umems := (umems (fst s))(u := None)\<rparr>, snd s))
          }
        })"

subsection \<open>Contexts\<close>

fun find_ctx :: "xmem \<Rightarrow> u64 \<Rightarrow> int \<Rightarrow> u32 \<Rightarrow> nat list \<Rightarrow> nat option option" where
  "find_ctx m cookie ifindex queue_id [] = Some None"
| "find_ctx m cookie ifindex queue_id (c # cs) = do {
     ctx \<leftarrow> ctxs m c;
     if ctx_netns_cookie ctx = cookie \<and> ctx_ifindex ctx = ifindex \<and> ctx_queue_id ctx = queue_id then Some (Some c)
     else find_ctx m cookie ifindex queue_id cs
   }"

definition xsk_get_ctx :: "nat \<Rightarrow> u64 \<Rightarrow> int \<Rightarrow> u32 \<Rightarrow> 'w xst \<Rightarrow> (nat option \<times> 'w xst) option" where
  "xsk_get_ctx u cookie ifindex queue_id s = do {
     umem \<leftarrow> umems (fst s) u;
     co \<leftarrow> find_ctx (fst s) cookie ifindex queue_id (ctx_list umem);
     case co of
       None \<Rightarrow> Some (None, s)
     | Some c \<Rightarrow> do { s \<leftarrow> upd_ctx c (\<lambda>x. x\<lparr>ctx_refcount := ctx_refcount x + 1\<rparr>) s; Some (Some c, s) }
   }"

text \<open>Taking a context off the list of its region and freeing it.\<close>

definition free_ctx :: "nat \<Rightarrow> nat \<Rightarrow> 'w xst \<Rightarrow> 'w xst option" where
  "free_ctx u c s = do {
     s \<leftarrow> upd_umem u (\<lambda>x. x\<lparr>ctx_list := remove1 c (ctx_list x)\<rparr>) s;
     Some ((fst s)\<lparr>ctxs := (ctxs (fst s))(c := None)\<rparr>, snd s)
   }"

text \<open>Unmapping the two rings of the region when its last socket on the queue goes.\<close>

definition unmap_ctx :: "'w xsk_env \<Rightarrow> xsk_ctx \<Rightarrow> xsk_umem \<Rightarrow> 'w xst \<Rightarrow> (int \<times> 'w xst) option" where
  "unmap_ctx env ctx umem s = do {
     (ofs, s) \<leftarrow> xsk_get_mmap_offsets env (umem_fd umem) s;
     case ofs of
       Inl _ \<Rightarrow> Some (0, s)
     | Inr off \<Rightarrow> do {
         fill \<leftarrow> ctx_fill ctx;
         cmpl \<leftarrow> ctx_comp ctx;
         (_, s) \<leftarrow> unmap_ring env fill (off_fr off) (fill_size (umem_config umem)) 8 s;
         unmap_ring env cmpl (off_cr off) (comp_size (umem_config umem)) 8 s
       }
   }"

definition xsk_put_ctx :: "'w xsk_env \<Rightarrow> nat \<Rightarrow> bool \<Rightarrow> 'w xst \<Rightarrow> (unit \<times> 'w xst) option" where
  "xsk_put_ctx env c unmap s = do {
     ctx \<leftarrow> ctxs (fst s) c;
     s \<leftarrow> upd_ctx c (\<lambda>x. x\<lparr>ctx_refcount := ctx_refcount x - 1\<rparr>) s;
     if ctx_refcount ctx - 1 \<noteq> 0 then Some ((), s)
     else do {
       u \<leftarrow> ctx_umem ctx;
       umem \<leftarrow> umems (fst s) u;
       (_, s) \<leftarrow> (if unmap then unmap_ctx env ctx umem s else Some (0, s));
       s \<leftarrow> free_ctx u c s;
       Some ((), s)
     }
   }"

text \<open>The rings of a new context: new ones, a copy of those saved in the region, or the saved ones themselves.\<close>

definition ctx_rings :: "'w xsk_env \<Rightarrow> xsk_umem \<Rightarrow> int \<Rightarrow> nat \<Rightarrow> nat \<Rightarrow> 'w xst \<Rightarrow> (int \<times> 'w xst) option" where
  "ctx_rings env umem xsk_fd fill cmpl s =
     (case (fill_save umem, comp_save umem) of
        (None, _) \<Rightarrow> xsk_create_umem_rings env umem xsk_fd fill cmpl s
      | (Some f, co) \<Rightarrow>
          if f \<noteq> fill \<or> co \<noteq> Some cmpl then do {
            c \<leftarrow> co;
            let s = set_ring fill (\<lambda>_. rings (fst s) f) s;
            Some (0, set_ring cmpl (\<lambda>_. rings (fst s) c) s)
          }
          else Some (0, s))"

definition link_ctx :: "nat \<Rightarrow> xsk_ctx \<Rightarrow> 'w xst \<Rightarrow> (nat option \<times> 'w xst) option" where
  "link_ctx u ctx s = do {
     let c = next_addr (fst s);
     let s = ((fst s)\<lparr>ctxs := (ctxs (fst s))(c \<mapsto> ctx), next_addr := c + 1\<rparr>, snd s);
     s \<leftarrow> upd_umem u (\<lambda>x. x\<lparr>ctx_list := c # ctx_list x\<rparr>) s;
     Some (Some c, s)
   }"

definition xsk_create_ctx ::
  "'w xsk_env \<Rightarrow> int \<Rightarrow> nat \<Rightarrow> u64 \<Rightarrow> int \<Rightarrow> string \<Rightarrow> u32 \<Rightarrow> nat \<Rightarrow> nat \<Rightarrow> 'w xst \<Rightarrow> (nat option \<times> 'w xst) option" where
  "xsk_create_ctx env xsk_fd u cookie ifindex ifname queue_id fill cmpl s = do {
     (ok, s) \<leftarrow> osys (alloc (x_lib env)) s;
     if \<not> ok then Some (None, s)
     else do {
       umem \<leftarrow> umems (fst s) u;
       (err, s) \<leftarrow> ctx_rings env umem xsk_fd fill cmpl s;
       if err \<noteq> 0 then Some (None, s)
       else link_ctx u
         \<lparr>ctx_fill = Some fill, ctx_comp = Some cmpl, ctx_umem = Some u, ctx_queue_id = queue_id, ctx_refcount = 1,
          ctx_ifindex = ifindex, ctx_netns_cookie = cookie, ctx_xsks_map_fd = 0, ctx_prog = None, ctx_refcnt_map_fd = 0,
          ctx_ifname = take 15 ifname\<rparr> s
     }
   }"

subsection \<open>Creating a socket\<close>

text \<open>The variables of \<open>xsk_socket__create_shared\<close> once the context is known: the region, the context, the arguments \<open>fill\<close>,
  \<open>rx\<close> and \<open>tx\<close>, and the new socket, which is not yet visible to any other function.\<close>

record create_frame =
  cf_umem :: nat
  cf_ctx :: nat
  cf_fill :: "nat option"
  cf_rx :: "nat option"
  cf_tx :: "nat option"
  cf_xsk :: xsk_socket

text \<open>The error exits.\<close>

definition create_out_socket :: "'w xsk_env \<Rightarrow> nat \<Rightarrow> int \<Rightarrow> int \<Rightarrow> 'w xst \<Rightarrow> ((int \<times> nat option) \<times> 'w xst) option" where
  "create_out_socket env u fd err s = do {
     umem \<leftarrow> umems (fst s) u;
     s \<leftarrow> upd_umem u (\<lambda>x. x\<lparr>umem_refcount := umem_refcount x - 1\<rparr>) s;
     (_, s) \<leftarrow> (if umem_refcount umem - 1 \<noteq> 0 then close' env fd s else Some ((), s));
     Some ((err, None), s)
   }"

definition create_out_put_ctx :: "'w xsk_env \<Rightarrow> create_frame \<Rightarrow> int \<Rightarrow> 'w xst \<Rightarrow> ((int \<times> nat option) \<times> 'w xst) option" where
  "create_out_put_ctx env f err s = do {
     umem \<leftarrow> umems (fst s) (cf_umem f);
     let unmap = (fill_save umem \<noteq> cf_fill f);
     (_, s) \<leftarrow> xsk_put_ctx env (cf_ctx f) unmap s;
     create_out_socket env (cf_umem f) (sk_fd (cf_xsk f)) err s
   }"

definition create_out_mmap_rx ::
  "'w xsk_env \<Rightarrow> create_frame \<Rightarrow> xdp_mmap_offsets \<Rightarrow> u64 \<Rightarrow> int \<Rightarrow> 'w xst \<Rightarrow> ((int \<times> nat option) \<times> 'w xst) option" where
  "create_out_mmap_rx env f off rx_map err s = do {
     (_, s) \<leftarrow> (if cf_rx f \<noteq> None then osys (x_munmap env rx_map (ring_bytes (off_rx off) (rx_size (sk_config (cf_xsk f))) 16)) s
               else Some (0, s));
     create_out_put_ctx env f err s
   }"

definition create_out_mmap_tx ::
  "'w xsk_env \<Rightarrow> create_frame \<Rightarrow> xdp_mmap_offsets \<Rightarrow> u64 \<Rightarrow> u64 \<Rightarrow> int \<Rightarrow> 'w xst \<Rightarrow> ((int \<times> nat option) \<times> 'w xst) option" where
  "create_out_mmap_tx env f off rx_map tx_map err s = do {
     (_, s) \<leftarrow> (if cf_tx f \<noteq> None then osys (x_munmap env tx_map (ring_bytes (off_tx off) (tx_size (sk_config (cf_xsk f))) 16)) s
               else Some (0, s));
     create_out_mmap_rx env f off rx_map err s
   }"

text \<open>The end of the function, setting up the program, and binding the socket.\<close>

definition frame_xsk :: "create_frame \<Rightarrow> xsk_socket" where
  "frame_xsk f = (cf_xsk f)\<lparr>sk_rx := cf_rx f, sk_tx := cf_tx f\<rparr>"

definition create_done :: "create_frame \<Rightarrow> 'w xst \<Rightarrow> ((int \<times> nat option) \<times> 'w xst) option" where
  "create_done f s = do {
     let k = next_addr (fst s);
     let s = ((fst s)\<lparr>xsks := (xsks (fst s))(k \<mapsto> frame_xsk f), next_addr := k + 1\<rparr>, snd s);
     s \<leftarrow> upd_umem (cf_umem f) (\<lambda>x. x\<lparr>fill_save := None, comp_save := None\<rparr>) s;
     Some ((0, Some k), s)
   }"

definition create_program ::
  "'w xsk_env \<Rightarrow> create_frame \<Rightarrow> xdp_mmap_offsets \<Rightarrow> u64 \<Rightarrow> u64 \<Rightarrow> 'w xst \<Rightarrow> ((int \<times> nat option) \<times> 'w xst) option" where
  "create_program env f off rx_map tx_map s =
     (if libbpf_flags (sk_config (cf_xsk f)) AND 1 \<noteq> 0 then create_done f s
      else do {
        ((err, _), s) \<leftarrow> xsk_setup_prog env (cf_ctx f) (frame_xsk f) s;
        if err \<noteq> 0 then create_out_mmap_tx env f off rx_map tx_map err s else create_done f s
      })"

definition bind_address :: "xsk_umem \<Rightarrow> xsk_ctx \<Rightarrow> xsk_socket_config \<Rightarrow> sockaddr_xdp" where
  "bind_address umem ctx cfg =
     (if umem_refcount umem > 1
      then \<lparr>sxdp_flags = XDP_SHARED_UMEM, sxdp_ifindex = ctx_ifindex ctx, sxdp_queue_id = ctx_queue_id ctx, sxdp_shared_umem_fd = umem_fd umem\<rparr>
      else \<lparr>sxdp_flags = bind_flags cfg, sxdp_ifindex = ctx_ifindex ctx, sxdp_queue_id = ctx_queue_id ctx, sxdp_shared_umem_fd = 0\<rparr>)"

definition create_bind ::
  "'w xsk_env \<Rightarrow> create_frame \<Rightarrow> xdp_mmap_offsets \<Rightarrow> u64 \<Rightarrow> u64 \<Rightarrow> 'w xst \<Rightarrow> ((int \<times> nat option) \<times> 'w xst) option" where
  "create_bind env f off rx_map tx_map s = do {
     umem \<leftarrow> umems (fst s) (cf_umem f);
     ctx \<leftarrow> ctxs (fst s) (cf_ctx f);
     (err, s) \<leftarrow> osys (x_bind env (sk_fd (cf_xsk f)) (bind_address umem ctx (sk_config (cf_xsk f)))) s;
     if err \<noteq> 0 then create_out_mmap_tx env f off rx_map tx_map err s else create_program env f off rx_map tx_map s
   }"

text \<open>Mapping the two rings of the socket.\<close>

definition map_tx :: "'w xsk_env \<Rightarrow> nat \<Rightarrow> u64 \<Rightarrow> xdp_ring_offset \<Rightarrow> u32 \<Rightarrow> bool \<Rightarrow> 'w xst \<Rightarrow> 'w xst option" where
  "map_tx env r mp off n is_tx s = do {
     let s = set_ring r (map_ring mp off n) s;
     (p, s) \<leftarrow> osys (x_load32 env (mp + off_producer off)) s;
     (c, s) \<leftarrow> osys (x_load32 env (mp + off_consumer off)) s;
     Some (set_ring r (\<lambda>x. x\<lparr>cached_prod := p, cached_cons := if is_tx then c + n else c\<rparr>) s)
   }"

definition create_map_tx ::
  "'w xsk_env \<Rightarrow> create_frame \<Rightarrow> xdp_mmap_offsets \<Rightarrow> u64 \<Rightarrow> 'w xst \<Rightarrow> ((int \<times> nat option) \<times> 'w xst) option" where
  "create_map_tx env f off rx_map s =
     (case cf_tx f of
        None \<Rightarrow> create_bind env f off rx_map 0 s
      | Some tx \<Rightarrow> do {
          let n = tx_size (sk_config (cf_xsk f));
          (m, s) \<leftarrow> osys (x_mmap env (ring_bytes (off_tx off) n 16) (sk_fd (cf_xsk f)) XDP_PGOFF_TX_RING) s;
          case m of
            Inl e \<Rightarrow> create_out_mmap_rx env f off rx_map e s
          | Inr mp \<Rightarrow> do { s \<leftarrow> map_tx env tx mp (off_tx off) n True s; create_bind env f off rx_map mp s }
        })"

definition create_map_rx ::
  "'w xsk_env \<Rightarrow> create_frame \<Rightarrow> xdp_mmap_offsets \<Rightarrow> 'w xst \<Rightarrow> ((int \<times> nat option) \<times> 'w xst) option" where
  "create_map_rx env f off s =
     (case cf_rx f of
        None \<Rightarrow> create_map_tx env f off 0 s
      | Some rx \<Rightarrow> do {
          let n = rx_size (sk_config (cf_xsk f));
          (m, s) \<leftarrow> osys (x_mmap env (ring_bytes (off_rx off) n 16) (sk_fd (cf_xsk f)) XDP_PGOFF_RX_RING) s;
          case m of
            Inl e \<Rightarrow> create_out_put_ctx env f e s
          | Inr mp \<Rightarrow> do { s \<leftarrow> map_tx env rx mp (off_rx off) n False s; create_map_tx env f off mp s }
        })"

text \<open>Declaring a ring to the kernel, and remembering it when the descriptor is that of the region.\<close>

definition declare_ring ::
  "'w xsk_env \<Rightarrow> create_frame \<Rightarrow> nat option \<Rightarrow> bool \<Rightarrow> xsk_option \<Rightarrow> (xsk_umem \<Rightarrow> xsk_umem) \<Rightarrow> 'w xst \<Rightarrow> (int \<times> 'w xst) option" where
  "declare_ring env f r setup_done opt mark s =
     (if r \<noteq> None \<and> \<not> setup_done then do {
        (err, s) \<leftarrow> osys (x_setsockopt env (sk_fd (cf_xsk f)) opt) s;
        if err \<noteq> 0 then Some (err, s)
        else do {
          umem \<leftarrow> umems (fst s) (cf_umem f);
          s \<leftarrow> (if sk_fd (cf_xsk f) = umem_fd umem then upd_umem (cf_umem f) mark s else Some s);
          Some (0, s)
        }
      }
      else Some (0, s))"

definition create_rings ::
  "'w xsk_env \<Rightarrow> create_frame \<Rightarrow> bool \<Rightarrow> bool \<Rightarrow> 'w xst \<Rightarrow> ((int \<times> nat option) \<times> 'w xst) option" where
  "create_rings env f rx_setup_done tx_setup_done s = do {
     let cfg = sk_config (cf_xsk f);
     (err, s) \<leftarrow> declare_ring env f (cf_rx f) rx_setup_done (XDP_RX_RING (rx_size cfg)) (\<lambda>x. x\<lparr>rx_ring_setup_done := True\<rparr>) s;
     if err \<noteq> 0 then create_out_put_ctx env f err s
     else do {
       (err, s) \<leftarrow> declare_ring env f (cf_tx f) tx_setup_done (XDP_TX_RING (tx_size cfg)) (\<lambda>x. x\<lparr>tx_ring_setup_done := True\<rparr>) s;
       if err \<noteq> 0 then create_out_put_ctx env f err s
       else do {
         (ofs, s) \<leftarrow> xsk_get_mmap_offsets env (sk_fd (cf_xsk f)) s;
         case ofs of
           Inl e \<Rightarrow> do { (err, s) \<leftarrow> offsets_errno env e s; create_out_put_ctx env f err s }
         | Inr off \<Rightarrow> create_map_rx env f off s
       }
     }
   }"

text \<open>The context: an existing one of the queue, or a new one.\<close>

definition create_context ::
  "'w xsk_env \<Rightarrow> string \<Rightarrow> int \<Rightarrow> u32 \<Rightarrow> nat \<Rightarrow> nat option \<Rightarrow> nat option \<Rightarrow> int \<Rightarrow> 'w xst \<Rightarrow> ((int + nat) \<times> 'w xst) option" where
  "create_context env ifname ifindex queue_id u fillo compo fd s = do {
     (ck, s) \<leftarrow> osys (x_netns_cookie env fd) s;
     let cookie = (case ck of Inr k \<Rightarrow> Inr k | Inl e \<Rightarrow> if e \<noteq> - ENOPROTOOPT then Inl e else Inr 1);
     case cookie of
       Inl e \<Rightarrow> Some (Inl e, s)
     | Inr cookie \<Rightarrow> do {
         (co, s) \<leftarrow> xsk_get_ctx u cookie ifindex queue_id s;
         case co of
           Some c \<Rightarrow> Some (Inr c, s)
         | None \<Rightarrow>
             (case (fillo, compo) of
                (Some fill, Some cmpl) \<Rightarrow> do {
                  (co, s) \<leftarrow> xsk_create_ctx env fd u cookie ifindex ifname queue_id fill cmpl s;
                  case co of None \<Rightarrow> Some (Inl (- ENOMEM), s) | Some c \<Rightarrow> Some (Inr c, s)
                }
              | _ \<Rightarrow> Some (Inl (- EFAULT), s))
       }
   }"

text \<open>From the reference to the region on.\<close>

definition create_on_umem ::
  "'w xsk_env \<Rightarrow> string \<Rightarrow> int \<Rightarrow> u32 \<Rightarrow> nat \<Rightarrow> nat option \<Rightarrow> nat option \<Rightarrow> nat option \<Rightarrow> nat option \<Rightarrow> xsk_socket_config
   \<Rightarrow> 'w xst \<Rightarrow> ((int \<times> nat option) \<times> 'w xst) option" where
  "create_on_umem env ifname ifindex queue_id u rx tx fill cmpl cfg s = do {
     umem \<leftarrow> umems (fst s) u;
     s \<leftarrow> upd_umem u (\<lambda>x. x\<lparr>umem_refcount := umem_refcount x + 1\<rparr>) s;
     (fd, s) \<leftarrow> (if umem_refcount umem > 0 then osys (x_socket env) s else Some (umem_fd umem, s));
     if umem_refcount umem > 0 \<and> fd < 0 then Some ((fd, None), s)
     else do {
       let rx_done = (umem_refcount umem \<le> 0 \<and> rx_ring_setup_done umem);
       let tx_done = (umem_refcount umem \<le> 0 \<and> tx_ring_setup_done umem);
       (c, s) \<leftarrow> create_context env ifname ifindex queue_id u fill cmpl fd s;
       case c of
         Inl e \<Rightarrow> create_out_socket env u fd e s
       | Inr c \<Rightarrow> create_rings env \<lparr>cf_umem = u, cf_ctx = c, cf_fill = fill, cf_rx = rx, cf_tx = tx,
           cf_xsk = \<lparr>sk_rx = None, sk_tx = None, sk_ctx = Some c, sk_config = cfg, sk_fd = fd\<rparr>\<rparr> rx_done tx_done s
     }
   }"

definition xsk_socket__create_shared ::
  "'w xsk_env \<Rightarrow> string \<Rightarrow> u32 \<Rightarrow> nat option \<Rightarrow> nat option \<Rightarrow> nat option \<Rightarrow> nat option \<Rightarrow> nat option \<Rightarrow> xsk_socket_config option
   \<Rightarrow> 'w xst \<Rightarrow> ((int \<times> nat option) \<times> 'w xst) option" where
  "xsk_socket__create_shared env ifname queue_id uo rx tx fill cmpl usr_config s =
     (case uo of
        None \<Rightarrow> Some ((- EFAULT, None), s)
      | Some u \<Rightarrow>
          if rx = None \<and> tx = None then Some ((- EFAULT, None), s)
          else do {
            (ok, s) \<leftarrow> osys (alloc (x_lib env)) s;
            if \<not> ok then Some ((- ENOMEM, None), s)
            else
              (case xsk_set_xdp_socket_config usr_config of
                 Inl e \<Rightarrow> Some ((e, None), s)
               | Inr cfg \<Rightarrow> do {
                   (i, s) \<leftarrow> osys (x_nametoindex env ifname) s;
                   case i of
                     Inl e \<Rightarrow> Some ((e, None), s)
                   | Inr ifindex \<Rightarrow> create_on_umem env ifname ifindex queue_id u rx tx fill cmpl cfg s
                 })
          })"

definition xsk_socket__create ::
  "'w xsk_env \<Rightarrow> string \<Rightarrow> u32 \<Rightarrow> nat option \<Rightarrow> nat option \<Rightarrow> nat option \<Rightarrow> xsk_socket_config option
   \<Rightarrow> 'w xst \<Rightarrow> ((int \<times> nat option) \<times> 'w xst) option" where
  "xsk_socket__create env ifname queue_id uo rx tx usr_config s =
     (case uo of
        None \<Rightarrow> Some ((- EFAULT, None), s)
      | Some u \<Rightarrow> do {
          umem \<leftarrow> umems (fst s) u;
          xsk_socket__create_shared env ifname queue_id uo rx tx (fill_save umem) (comp_save umem) usr_config s
        })"

subsection \<open>Deleting a socket\<close>

text \<open>Giving up the program, unmapping the rings of the socket, and dropping the reference to the region.\<close>

definition delete_program :: "'w xsk_env \<Rightarrow> nat \<Rightarrow> xsk_ctx \<Rightarrow> xsk_socket \<Rightarrow> 'w xst \<Rightarrow> (unit \<times> 'w xst) option" where
  "delete_program env c ctx xsk s =
     (if ctx_prog ctx \<noteq> None then do {
        (_, s) \<leftarrow> xsk_delete_map_entry env (ctx_xsks_map_fd ctx) (ctx_queue_id ctx) s;
        xsk_release_xdp_prog env c xsk s
      }
      else Some ((), s))"

definition delete_rings :: "'w xsk_env \<Rightarrow> xsk_socket \<Rightarrow> 'w xst \<Rightarrow> (int \<times> 'w xst) option" where
  "delete_rings env xsk s = do {
     (ofs, s) \<leftarrow> xsk_get_mmap_offsets env (sk_fd xsk) s;
     case ofs of
       Inl _ \<Rightarrow> Some (0, s)
     | Inr off \<Rightarrow> do {
         (_, s) \<leftarrow> (case sk_rx xsk of None \<Rightarrow> Some (0, s)
                   | Some r \<Rightarrow> unmap_ring env r (off_rx off) (rx_size (sk_config xsk)) 16 s);
         (case sk_tx xsk of None \<Rightarrow> Some (0, s)
          | Some r \<Rightarrow> unmap_ring env r (off_tx off) (tx_size (sk_config xsk)) 16 s)
       }
   }"

definition delete_umem_ref :: "'w xsk_env \<Rightarrow> nat \<Rightarrow> xsk_socket \<Rightarrow> 'w xst \<Rightarrow> (unit \<times> 'w xst) option" where
  "delete_umem_ref env u xsk s = do {
     s \<leftarrow> upd_umem u (\<lambda>x. x\<lparr>umem_refcount := umem_refcount x - 1\<rparr>) s;
     umem \<leftarrow> umems (fst s) u;
     if sk_fd xsk \<noteq> umem_fd umem then close' env (sk_fd xsk) s else Some ((), s)
   }"

definition xsk_socket__delete :: "'w xsk_env \<Rightarrow> nat option \<Rightarrow> 'w xst \<Rightarrow> (unit \<times> 'w xst) option" where
  "xsk_socket__delete env ko s =
     (case ko of
        None \<Rightarrow> Some ((), s)
      | Some k \<Rightarrow> do {
          xsk \<leftarrow> xsks (fst s) k;
          c \<leftarrow> sk_ctx xsk;
          ctx \<leftarrow> ctxs (fst s) c;
          u \<leftarrow> ctx_umem ctx;
          (_, s) \<leftarrow> delete_program env c ctx xsk s;
          (_, s) \<leftarrow> delete_rings env xsk s;
          (_, s) \<leftarrow> xsk_put_ctx env c True s;
          (_, s) \<leftarrow> delete_umem_ref env u xsk s;
          Some ((), ((fst s)\<lparr>xsks := (xsks (fst s))(k := None)\<rparr>, snd s))
        })"

subsection \<open>Setting up a program without a socket\<close>

definition xsk_socket__update_xskmap :: "'w xsk_env \<Rightarrow> nat \<Rightarrow> int \<Rightarrow> 'w xst \<Rightarrow> (int \<times> 'w xst) option" where
  "xsk_socket__update_xskmap env k fd s = do {
     xsk \<leftarrow> xsks (fst s) k;
     c \<leftarrow> sk_ctx xsk;
     ctx \<leftarrow> ctxs (fst s) c;
     s \<leftarrow> upd_ctx c (\<lambda>x. x\<lparr>ctx_xsks_map_fd := fd\<rparr>) s;
     osys (x_map_update env fd (ctx_queue_id ctx) (sk_fd xsk)) s
   }"

definition xsk_init_xsk_struct :: "'w xsk_env \<Rightarrow> int \<Rightarrow> 'w xst \<Rightarrow> ((int + nat) \<times> 'w xst) option" where
  "xsk_init_xsk_struct env ifindex s = do {
     (ok, s) \<leftarrow> osys (alloc (x_lib env)) s;
     if \<not> ok then Some (Inl (- ENOMEM), s)
     else do {
       (n, s) \<leftarrow> osys (x_indextoname env ifindex) s;
       case n of
         Inl e \<Rightarrow> Some (Inl e, s)
       | Inr ifname \<Rightarrow> do {
           let c = next_addr (fst s);
           let ctx = \<lparr>ctx_fill = None, ctx_comp = None, ctx_umem = None, ctx_queue_id = 0, ctx_refcount = 0, ctx_ifindex = ifindex,
                      ctx_netns_cookie = 0, ctx_xsks_map_fd = 0, ctx_prog = None, ctx_refcnt_map_fd = 0, ctx_ifname = take 15 ifname\<rparr>;
           Some (Inr c, ((fst s)\<lparr>ctxs := (ctxs (fst s))(c \<mapsto> ctx), next_addr := c + 1\<rparr>, snd s))
         }
     }
   }"

definition xsk_destroy_xsk_struct :: "'w xsk_env \<Rightarrow> nat \<Rightarrow> 'w xst \<Rightarrow> (unit \<times> 'w xst) option" where
  "xsk_destroy_xsk_struct env c s = do {
     ctx \<leftarrow> ctxs (fst s) c;
     (_, s) \<leftarrow> close_prog env (ctx_prog ctx) s;
     Some ((), ((fst s)\<lparr>ctxs := (ctxs (fst s))(c := None)\<rparr>, snd s))
   }"

definition xsk_setup_xdp_prog :: "'w xsk_env \<Rightarrow> int \<Rightarrow> 'w xst \<Rightarrow> ((int \<times> int option) \<times> 'w xst) option" where
  "xsk_setup_xdp_prog env ifindex s = do {
     (ok, s) \<leftarrow> osys (alloc (x_lib env)) s;
     if \<not> ok then Some ((- ENOMEM, None), s)
     else do {
       (ctx, s) \<leftarrow> xsk_init_xsk_struct env ifindex s;
       case ctx of
         Inl _ \<Rightarrow> Some ((- EINVAL, None), s)
       | Inr c \<Rightarrow> do {
         (res, s) \<leftarrow> xsk_setup_prog env c \<lparr>sk_rx = None, sk_tx = None, sk_ctx = Some c,
                      sk_config = \<lparr>rx_size = 0, tx_size = 0, libbpf_flags = 0, xdp_flags = 0, bind_flags = 0\<rparr>, sk_fd = 0\<rparr> s;
         (_, s) \<leftarrow> xsk_destroy_xsk_struct env c s;
         Some (res, s)
       }
     }
   }"

end
