(* ===== verification/Xsk_Refs.thy ===== *)
theory Xsk_Refs
  imports Xsk
begin

text \<open>
  The reference counts of AF\_XDP sockets: which sockets use a context, which contexts a memory region has.  Contexts count
  their sockets and regions count the sockets of their contexts.
\<close>

subsection \<open>Steps that leave the counts alone\<close>

definition umem_refs :: "xsk_umem option \<Rightarrow> (int \<times> nat list) option" where
  "umem_refs = map_option (\<lambda>x. (umem_refcount x, ctx_list x))"

definition has_rings :: "xsk_ctx \<Rightarrow> bool" where
  "has_rings x \<longleftrightarrow> ctx_fill x \<noteq> None \<and> ctx_comp x \<noteq> None"

lemma has_rings_upd [simp]:
  "has_rings (x\<lparr>ctx_refcount := n\<rparr>) = has_rings x" "has_rings (x\<lparr>ctx_prog := p\<rparr>) = has_rings x"
  "has_rings (x\<lparr>ctx_xsks_map_fd := d\<rparr>) = has_rings x" "has_rings (x\<lparr>ctx_refcnt_map_fd := e\<rparr>) = has_rings x"
  by (simp_all add: has_rings_def)

definition ctx_refs :: "xsk_ctx option \<Rightarrow> (int \<times> nat option \<times> bool) option" where
  "ctx_refs = map_option (\<lambda>x. (ctx_refcount x, ctx_umem x, has_rings x))"

definition same_refs :: "xmem \<Rightarrow> xmem \<Rightarrow> bool" where
  "same_refs m m' \<longleftrightarrow> (\<forall>u. umem_refs (umems m' u) = umem_refs (umems m u)) \<and> (\<forall>c. ctx_refs (ctxs m' c) = ctx_refs (ctxs m c))
     \<and> xsks m' = xsks m \<and> next_addr m' = next_addr m"

lemma same_refs_refl [simp]: "same_refs m m"
  by (simp add: same_refs_def)

lemma same_refs_trans: "same_refs a b \<Longrightarrow> same_refs b c \<Longrightarrow> same_refs a c"
  by (simp add: same_refs_def)

lemma osys_mem: "osys f s = Some (r, s') \<Longrightarrow> fst s' = fst s"
  by (auto simp: osys_def split: prod.splits)

lemma lib_mem: "lib f s = Some (r, s') \<Longrightarrow> fst s' = fst s"
  by (auto simp: lib_def split: prod.splits option.splits)

lemma close'_mem: "close' env fd s = Some (r, s') \<Longrightarrow> fst s' = fst s"
  by (auto simp: close'_def dest: osys_mem)

lemma upd_ctx_refs:
  "upd_ctx c f s = Some s' \<Longrightarrow> (\<And>x. ctx_refcount (f x) = ctx_refcount x \<and> ctx_umem (f x) = ctx_umem x \<and> has_rings (f x) = has_rings x) \<Longrightarrow> same_refs (fst s) (fst s')"
  by (auto simp: upd_ctx_def same_refs_def ctx_refs_def elim!: bind_SomeE)

lemma upd_umem_refs:
  "upd_umem u f s = Some s' \<Longrightarrow> (\<And>x. umem_refcount (f x) = umem_refcount x \<and> ctx_list (f x) = ctx_list x) \<Longrightarrow> same_refs (fst s) (fst s')"
  by (auto simp: upd_umem_def same_refs_def umem_refs_def elim!: bind_SomeE)

lemma set_ring_refs [simp]: "same_refs (fst s) (fst (set_ring r f s))"
  by (simp add: set_ring_def same_refs_def)

lemma close_prog_refs: "close_prog env p s = Some (r, s') \<Longrightarrow> same_refs (fst s) (fst s')"
  by (auto simp: close_prog_def same_refs_def elim!: bind_pair_SomeE dest!: lib_mem split: option.splits sum.splits if_splits)

text \<open>Operations that only talk to the kernel and to libxdp.\<close>

lemmas mem_steps = osys_mem lib_mem close'_mem

lemma get_queues_mem: "xsk_get_queues_from_sysfs env n s = Some (r, s') \<Longrightarrow> fst s' = fst s"
  by (auto simp: xsk_get_queues_from_sysfs_def Let_def elim!: bind_pair_SomeE dest!: mem_steps split: if_splits option.splits)

lemma get_max_queues_mem: "xsk_get_max_queues env n s = Some (r, s') \<Longrightarrow> fst s' = fst s"
  by (auto simp: xsk_get_max_queues_def Let_def elim!: bind_pair_SomeE dest!: mem_steps get_queues_mem split: if_splits sum.splits prod.splits)

lemma size_map_mem: "xsk_size_map env p n s = Some (r, s') \<Longrightarrow> fst s' = fst s"
  by (auto simp: xsk_size_map_def elim!: bind_pair_SomeE bind_SomeE dest!: mem_steps get_max_queues_mem split: if_splits option.splits)

lemma lookup_map_loop_mem: "lookup_map_loop env flt ids is s = Some (r, s') \<Longrightarrow> fst s' = fst s"
proof (induction "is" arbitrary: s)
  case (Cons i "is")
  show ?case using Cons.prems
    by (auto elim!: bind_pair_SomeE dest!: mem_steps Cons.IH split: if_splits sum.splits)
qed simp

lemma lookup_map_mem: "xsk_lookup_map_by_filter env fd flt s = Some (r, s') \<Longrightarrow> fst s' = fst s"
  by (auto simp: xsk_lookup_map_by_filter_def Let_def elim!: bind_pair_SomeE dest!: mem_steps lookup_map_loop_mem split: if_splits sum.splits prod.splits)

lemma check_redirect_mem: "xsk_check_redirect_flags env s = Some (r, s') \<Longrightarrow> fst s' = fst s"
  by (auto simp: xsk_check_redirect_flags_def Let_def elim!: bind_pair_SomeE dest!: mem_steps split: if_splits)

lemma lookup_program_mem: "xsk_lookup_program env i s = Some (r, s') \<Longrightarrow> fst s' = fst s"
  by (auto simp: xsk_lookup_program_def elim!: bind_pair_SomeE bind_SomeE dest!: mem_steps split: if_splits sum.splits option.splits)

lemma update_refcnt_mem: "xsk_update_prog_refcnt env fd d s = Some (r, s') \<Longrightarrow> fst s' = fst s"
  by (auto simp: xsk_update_prog_refcnt_def Let_def elim!: bind_pair_SomeE bind_SomeE dest!: mem_steps split: if_splits sum.splits)

lemmas prog_mem = mem_steps size_map_mem lookup_map_mem check_redirect_mem lookup_program_mem update_refcnt_mem

lemma err_prog_load_refs: "setup_err_prog_load env c e s = Some (r, s') \<Longrightarrow> same_refs (fst s) (fst s')"
  unfolding setup_err_prog_load_def
  by (auto elim!: bind_pair_SomeE bind_SomeE dest!: prog_mem upd_ctx_refs close_prog_refs split: if_splits simp: same_refs_def)

lemma err_lookup_refs: "setup_err_lookup env c fl a e s = Some (r, s') \<Longrightarrow> same_refs (fst s) (fst s')"
  unfolding setup_err_lookup_def
  by (auto elim!: bind_pair_SomeE bind_SomeE dest!: prog_mem err_prog_load_refs split: if_splits option.splits sum.splits)

lemma map_lookup_refs: "setup_map_lookup env c k a s = Some (r, s') \<Longrightarrow> same_refs (fst s) (fst s')"
  unfolding setup_map_lookup_def xsk_lookup_bpf_map_def
  by (auto elim!: bind_pair_SomeE bind_SomeE dest!: prog_mem err_lookup_refs upd_ctx_refs split: if_splits simp: same_refs_def)

lemma setup_load_refs: "setup_load env c k s = Some (r, s') \<Longrightarrow> same_refs (fst s) (fst s')"
  unfolding setup_load_def
  by (auto elim!: bind_pair_SomeE bind_SomeE dest!: prog_mem upd_ctx_refs split: if_splits sum.splits simp: same_refs_def)

lemma from_prog_refs: "setup_from_prog env c k s = Some (r, s') \<Longrightarrow> same_refs (fst s) (fst s')"
  unfolding setup_from_prog_def xsk_lookup_refcnt_map_def Let_def
  by (auto elim!: bind_pair_SomeE bind_SomeE dest!: prog_mem upd_ctx_refs setup_load_refs err_prog_load_refs map_lookup_refs
      split: if_splits option.splits prod.splits bool.splits simp: same_refs_def)

lemma setup_prog_refs: "xsk_setup_prog env c k s = Some (r, s') \<Longrightarrow> same_refs (fst s) (fst s')"
  unfolding xsk_setup_prog_def xsk_lookup_refcnt_map_def xsk_incr_prog_refcnt_def
  by (auto elim!: bind_pair_SomeE bind_SomeE dest!: prog_mem upd_ctx_refs close_prog_refs from_prog_refs err_prog_load_refs map_lookup_refs
      split: if_splits option.splits sum.splits simp: same_refs_def)

lemma release_prog_refs: "xsk_release_xdp_prog env c k s = Some (r, s') \<Longrightarrow> same_refs (fst s) (fst s')"
  unfolding xsk_release_xdp_prog_def xsk_decr_prog_refcnt_def
  by (auto elim!: bind_pair_SomeE bind_SomeE dest!: prog_mem close_prog_refs split: if_splits option.splits sum.splits)

subsection \<open>Exact counts\<close>

text \<open>While a socket is being created or deleted it holds one reference that no socket of the heap accounts for: to the region
  before it has a context, to the context afterwards.  \<open>K\<close> are the sockets that count.\<close>

datatype ref_token = No_ref | Umem_ref nat | Ctx_ref nat

definition users :: "xmem \<Rightarrow> nat set \<Rightarrow> nat \<Rightarrow> nat set" where
  "users m K c = {k \<in> K. \<exists>sk. xsks m k = Some sk \<and> sk_ctx sk = Some c}"

definition ctx_counted :: "ref_token \<Rightarrow> nat set \<Rightarrow> xmem \<Rightarrow> nat \<Rightarrow> xsk_ctx \<Rightarrow> bool" where
  "ctx_counted t K m c ct \<longleftrightarrow> (\<forall>u. ctx_umem ct = Some u \<longrightarrow>
     (\<exists>um. umems m u = Some um \<and> c \<in> set (ctx_list um))
     \<and> ctx_refcount ct = int (card (users m K c)) + of_bool (t = Ctx_ref c) \<and> 0 < ctx_refcount ct \<and> has_rings ct)"

definition umem_counted :: "ref_token \<Rightarrow> xmem \<Rightarrow> nat \<Rightarrow> xsk_umem \<Rightarrow> bool" where
  "umem_counted t m u um \<longleftrightarrow> distinct (ctx_list um) \<and> (\<forall>c \<in> set (ctx_list um). \<exists>ct. ctxs m c = Some ct \<and> ctx_umem ct = Some u)
     \<and> umem_refcount um = (\<Sum>c \<in> set (ctx_list um). ctx_refcount (the (ctxs m c))) + of_bool (t = Umem_ref u)"

definition socket_ok :: "xmem \<Rightarrow> nat \<Rightarrow> bool" where
  "socket_ok m k \<longleftrightarrow> (\<exists>sk c ct u. xsks m k = Some sk \<and> sk_ctx sk = Some c \<and> ctxs m c = Some ct \<and> ctx_umem ct = Some u)"

definition addrs_ok :: "xmem \<Rightarrow> bool" where
  "addrs_ok m \<longleftrightarrow> (\<forall>a. umems m a \<noteq> None \<or> ctxs m a \<noteq> None \<or> xsks m a \<noteq> None \<longrightarrow> a < next_addr m)"

definition refs_ok :: "ref_token \<Rightarrow> nat set \<Rightarrow> xmem \<Rightarrow> bool" where
  "refs_ok t K m \<longleftrightarrow> finite K \<and> (\<forall>k \<in> K. socket_ok m k) \<and> (\<forall>c ct. ctxs m c = Some ct \<longrightarrow> ctx_counted t K m c ct)
     \<and> (\<forall>u um. umems m u = Some um \<longrightarrow> umem_counted t m u um) \<and> addrs_ok m"

lemma same_refs_ctx: "same_refs m m' \<Longrightarrow> ctxs m c = Some ct \<Longrightarrow> \<exists>ct'. ctxs m' c = Some ct' \<and> ctx_refcount ct' = ctx_refcount ct \<and> ctx_umem ct' = ctx_umem ct \<and> has_rings ct' = has_rings ct"
proof -
  assume a: "same_refs m m'" "ctxs m c = Some ct"
  have "ctx_refs (ctxs m' c) = ctx_refs (ctxs m c)" using a(1) by (simp add: same_refs_def)
  then show ?thesis using a(2) by (cases "ctxs m' c") (auto simp: ctx_refs_def)
qed

lemma same_refs_umem: "same_refs m m' \<Longrightarrow> umems m u = Some um \<Longrightarrow> \<exists>um'. umems m' u = Some um' \<and> umem_refcount um' = umem_refcount um \<and> ctx_list um' = ctx_list um"
proof -
  assume a: "same_refs m m'" "umems m u = Some um"
  have "umem_refs (umems m' u) = umem_refs (umems m u)" using a(1) by (simp add: same_refs_def)
  then show ?thesis using a(2) by (cases "umems m' u") (auto simp: umem_refs_def)
qed

lemma same_refs_sym: "same_refs m m' \<Longrightarrow> same_refs m' m"
  by (simp add: same_refs_def)

lemma refs_ok_same:
  assumes "same_refs m m'" "refs_ok t K m"
  shows "refs_ok t K m'"
proof -
  note sym = same_refs_sym[OF assms(1)]
  have x: "xsks m' = xsks m" "next_addr m' = next_addr m" using assms(1) by (simp_all add: same_refs_def)
  have us: "users m' K c = users m K c" for c by (simp add: users_def x)
  have so: "socket_ok m k \<Longrightarrow> socket_ok m' k" for k
    using same_refs_ctx[OF assms(1)] unfolding socket_ok_def x by metis
  have cc: "ctx_counted t K m' c ct'" if c': "ctxs m' c = Some ct'" for c ct'
  proof -
    obtain ct where ct: "ctxs m c = Some ct" "ctx_refcount ct' = ctx_refcount ct" "ctx_umem ct' = ctx_umem ct" "has_rings ct' = has_rings ct"
      using same_refs_ctx[OF sym c'] by metis
    then have "ctx_counted t K m c ct" using assms(2) by (simp add: refs_ok_def)
    then show ?thesis using ct same_refs_umem[OF assms(1)] unfolding ctx_counted_def us by metis
  qed
  have uc: "umem_counted t m' u um'" if u': "umems m' u = Some um'" for u um'
  proof -
    obtain um where um: "umems m u = Some um" "umem_refcount um' = umem_refcount um" "ctx_list um' = ctx_list um"
      using same_refs_umem[OF sym u'] by metis
    then have ok: "umem_counted t m u um" using assms(2) by (simp add: refs_ok_def)
    have "ctx_refcount (the (ctxs m' c)) = ctx_refcount (the (ctxs m c))" if "c \<in> set (ctx_list um)" for c
      using ok that same_refs_ctx[OF assms(1), of c] unfolding umem_counted_def by fastforce
    then have "(\<Sum>c \<in> set (ctx_list um). ctx_refcount (the (ctxs m' c))) = (\<Sum>c \<in> set (ctx_list um). ctx_refcount (the (ctxs m c)))"
      by (rule sum.cong[OF refl])
    then show ?thesis using ok um same_refs_ctx[OF assms(1)] unfolding umem_counted_def by metis
  qed
  have "umems m a \<noteq> None" if "umems m' a \<noteq> None" for a using same_refs_umem[OF sym] that by fastforce
  moreover have "ctxs m a \<noteq> None" if "ctxs m' a \<noteq> None" for a using same_refs_ctx[OF sym] that by fastforce
  ultimately have "addrs_ok m'" using assms(2) unfolding refs_ok_def addrs_ok_def x by blast
  then show ?thesis using assms(2) so cc uc unfolding refs_ok_def by blast
qed

subsection \<open>How a reference moves\<close>

lemma users_upd [simp]: "users (m\<lparr>umems := x\<rparr>) = users m" "users (m\<lparr>ctxs := y\<rparr>) = users m" "users (m\<lparr>next_addr := n\<rparr>) = users m"
  by (simp_all add: users_def fun_eq_iff)

lemma move_umem:
  assumes ok: "refs_ok t K m" and u: "umems m u = Some um"
    and d: "t = No_ref \<and> t' = Umem_ref u \<and> d = 1 \<or> t = Umem_ref u \<and> t' = No_ref \<and> d = -1"
  shows "refs_ok t' K (m\<lparr>umems := (umems m)(u \<mapsto> um\<lparr>umem_refcount := umem_refcount um + d\<rparr>)\<rparr>)" (is "refs_ok t' K ?m")
proof -
  have "ctx_counted t' K ?m b bt" if b: "ctxs ?m b = Some bt" for b bt
  proof -
    have "ctx_counted t K m b bt" using ok b by (simp add: refs_ok_def)
    then show ?thesis using u d by (auto simp: ctx_counted_def split: if_splits)
  qed
  moreover have "umem_counted t' ?m v x" if v: "umems ?m v = Some x" for v x
  proof (cases "v = u")
    case True
    have "umem_counted t m u um" using ok u by (simp add: refs_ok_def)
    then show ?thesis using d v True by (auto simp: umem_counted_def)
  next
    case False
    then have "umem_counted t m v x" using ok v by (simp add: refs_ok_def)
    then show ?thesis using d False by (auto simp: umem_counted_def)
  qed
  moreover have "\<forall>k \<in> K. socket_ok ?m k" using ok by (simp add: refs_ok_def socket_ok_def)
  moreover have "addrs_ok ?m" using ok u by (auto simp: refs_ok_def addrs_ok_def)
  ultimately show ?thesis using ok unfolding refs_ok_def by blast
qed

lemma sum_upd_ctx:
  assumes "ctxs m c = Some ct" "finite S" "c \<in> S"
  shows "(\<Sum>x \<in> S. ctx_refcount (the (((ctxs m)(c \<mapsto> ct\<lparr>ctx_refcount := ctx_refcount ct + d\<rparr>)) x)))
    = (\<Sum>x \<in> S. ctx_refcount (the (ctxs m x))) + d"
  using assms(1) by (simp add: sum.remove[OF assms(2,3)])

lemma sum_upd_other: "c \<notin> S \<Longrightarrow> (\<Sum>x \<in> S. ctx_refcount (the (((ctxs m)(c := z)) x))) = (\<Sum>x \<in> S. ctx_refcount (the (ctxs m x)))"
  by (intro sum.cong) auto

lemma ctx_of_one_umem:
  "refs_ok t K m \<Longrightarrow> ctxs m c = Some ct \<Longrightarrow> ctx_umem ct = Some u \<Longrightarrow> umems m v = Some um \<Longrightarrow> c \<in> set (ctx_list um) \<longleftrightarrow> v = u"
  by (fastforce simp: refs_ok_def ctx_counted_def umem_counted_def)

lemma move_ctx:
  assumes ok: "refs_ok t K m" and c: "ctxs m c = Some ct" "ctx_umem ct = Some u"
    and d: "t = Umem_ref u \<and> t' = Ctx_ref c \<and> d = 1 \<or> t = Ctx_ref c \<and> t' = Umem_ref u \<and> d = -1 \<and> ctx_refcount ct \<noteq> 1"
  shows "refs_ok t' K (m\<lparr>ctxs := (ctxs m)(c \<mapsto> ct\<lparr>ctx_refcount := ctx_refcount ct + d\<rparr>)\<rparr>)" (is "refs_ok t' K ?m")
proof -
  have "ctx_counted t' K ?m b bt" if b: "ctxs ?m b = Some bt" for b bt
  proof (cases "b = c")
    case True
    have "ctx_counted t K m c ct" using ok c(1) by (simp add: refs_ok_def)
    then show ?thesis using d b True c(2) by (auto simp: ctx_counted_def)
  next
    case False
    then have "ctx_counted t K m b bt" using ok b by (simp add: refs_ok_def)
    then show ?thesis using d False by (auto simp: ctx_counted_def)
  qed
  moreover have "umem_counted t' ?m v um" if v: "umems ?m v = Some um" for v um
  proof -
    have um: "umem_counted t m v um" "umems m v = Some um" using ok v by (simp_all add: refs_ok_def)
    show ?thesis
    proof (cases "v = u")
      case True
      then have "c \<in> set (ctx_list um)" using ctx_of_one_umem[OF ok c um(2)] by simp
      then show ?thesis using um(1) d True c sum_upd_ctx[of m c ct "set (ctx_list um)" d] by (auto simp: umem_counted_def)
    next
      case False
      then have "c \<notin> set (ctx_list um)" using ctx_of_one_umem[OF ok c um(2)] by simp
      then show ?thesis using um(1) d False sum_upd_other[of c "set (ctx_list um)" m] by (auto simp: umem_counted_def)
    qed
  qed
  moreover have "\<forall>k \<in> K. socket_ok ?m k" using ok c by (fastforce simp: refs_ok_def socket_ok_def)
  moreover have "addrs_ok ?m" using ok c by (auto simp: refs_ok_def addrs_ok_def)
  ultimately show ?thesis using ok unfolding refs_ok_def by blast
qed

lemma last_ctx_unused:
  assumes "refs_ok (Ctx_ref c) K m" "ctxs m c = Some ct" "ctx_umem ct = Some u" "ctx_refcount ct = 1"
  shows "users m K c = {}"
proof -
  have "finite (users m K c)" using assms(1) by (simp add: refs_ok_def users_def)
  then show ?thesis using assms by (auto simp: refs_ok_def ctx_counted_def)
qed

lemma free_last_ctx:
  assumes ok: "refs_ok (Ctx_ref c) K m" and c: "ctxs m c = Some ct" "ctx_umem ct = Some u" "ctx_refcount ct = 1" and u: "umems m u = Some um"
  shows "refs_ok (Umem_ref u) K (m\<lparr>umems := (umems m)(u \<mapsto> um\<lparr>ctx_list := remove1 c (ctx_list um)\<rparr>), ctxs := (ctxs m)(c := None)\<rparr>)"
    (is "refs_ok _ K ?m")
proof -
  note no = last_ctx_unused[OF ok c]
  have um: "umem_counted (Ctx_ref c) m u um" using ok u by (simp add: refs_ok_def)
  have "ctx_counted (Umem_ref u) K ?m b bt" if b: "ctxs ?m b = Some bt" for b bt
  proof -
    have bt: "b \<noteq> c" "ctxs m b = Some bt" using b by (auto split: if_splits)
    have "ctx_counted (Ctx_ref c) K m b bt" using ok bt(2) by (simp add: refs_ok_def)
    then show ?thesis using u bt(1) in_set_remove1[of b c] by (auto simp: ctx_counted_def)
  qed
  moreover have "umem_counted (Umem_ref u) ?m v x" if v: "umems ?m v = Some x" for v x
  proof (cases "v = u")
    case True
    then have x: "x = um\<lparr>ctx_list := remove1 c (ctx_list um)\<rparr>" using v by simp
    have cl: "c \<in> set (ctx_list um)" using ctx_of_one_umem[OF ok c(1,2) u] by simp
    have d: "distinct (ctx_list um)" using um by (simp add: umem_counted_def)
    have "(\<Sum>b \<in> set (ctx_list um). ctx_refcount (the (ctxs m b))) = 1 + (\<Sum>b \<in> set (ctx_list um) - {c}. ctx_refcount (the (ctxs m b)))"
      using c by (simp add: sum.remove[OF _ cl])
    moreover have "(\<Sum>b \<in> set (ctx_list um) - {c}. ctx_refcount (the (((ctxs m)(c := None)) b)))
        = (\<Sum>b \<in> set (ctx_list um) - {c}. ctx_refcount (the (ctxs m b)))" by (rule sum_upd_other) simp
    ultimately show ?thesis using um True d by (auto simp: umem_counted_def x set_remove1_eq[OF d] distinct_remove1)
  next
    case False
    then have x: "umem_counted (Ctx_ref c) m v x" "umems m v = Some x" using ok v by (simp_all add: refs_ok_def)
    have "c \<notin> set (ctx_list x)" using ctx_of_one_umem[OF ok c(1,2) x(2)] False by simp
    then show ?thesis using x(1) False sum_upd_other[of c "set (ctx_list x)" m None] by (auto simp: umem_counted_def)
  qed
  moreover have "socket_ok ?m k" if kK: "k \<in> K" for k
  proof -
    obtain sk b bt v where b: "xsks m k = Some sk" "sk_ctx sk = Some b" "ctxs m b = Some bt" "ctx_umem bt = Some v"
      using ok kK by (auto simp: refs_ok_def socket_ok_def)
    have "b \<noteq> c" using no kK b(1,2) by (auto simp: users_def)
    then show ?thesis unfolding socket_ok_def using b by (intro exI[of _ sk] exI[of _ b] exI[of _ bt] exI[of _ v]) simp
  qed
  moreover have "addrs_ok ?m" using ok u by (auto simp: refs_ok_def addrs_ok_def)
  ultimately show ?thesis using ok unfolding refs_ok_def by blast
qed

lemma fresh_unused:
  assumes "refs_ok t K m"
  shows "users m K (next_addr m) = {}" "ctxs m (next_addr m) = None" "umems m u = Some um \<Longrightarrow> next_addr m \<notin> set (ctx_list um)" "next_addr m \<notin> K"
proof -
  show n: "ctxs m (next_addr m) = None" using assms by (auto simp: refs_ok_def addrs_ok_def)
  have so: "socket_ok m k" if "k \<in> K" for k using assms that by (simp add: refs_ok_def)
  then show "users m K (next_addr m) = {}" using n by (force simp: users_def socket_ok_def)
  show "umems m u = Some um \<Longrightarrow> next_addr m \<notin> set (ctx_list um)" using assms n by (fastforce simp: refs_ok_def umem_counted_def)
  have "xsks m (next_addr m) = None" using assms by (auto simp: refs_ok_def addrs_ok_def)
  then show "next_addr m \<notin> K" using so[of "next_addr m"] by (auto simp: socket_ok_def)
qed

lemma new_ctx:
  assumes ok: "refs_ok (Umem_ref u) K m" and u: "umems m u = Some um" and ct: "ctx_umem ct = Some u" "ctx_refcount ct = 1" "has_rings ct"
    and c: "c = next_addr m"
  shows "refs_ok (Ctx_ref c) K (m\<lparr>ctxs := (ctxs m)(c \<mapsto> ct), next_addr := c + 1, umems := (umems m)(u \<mapsto> um\<lparr>ctx_list := c # ctx_list um\<rparr>)\<rparr>)"
    (is "refs_ok _ K ?m")
proof -
  note fresh = fresh_unused[OF ok, folded c]
  have "ctx_counted (Ctx_ref c) K ?m b bt" if b: "ctxs ?m b = Some bt" for b bt
  proof (cases "b = c")
    case True
    then show ?thesis using b ct fresh(1) by (auto simp: ctx_counted_def)
  next
    case False
    then have "ctx_counted (Umem_ref u) K m b bt" using ok b by (simp add: refs_ok_def)
    then show ?thesis using u False by (auto simp: ctx_counted_def)
  qed
  moreover have "umem_counted (Ctx_ref c) ?m v x" if v: "umems ?m v = Some x" for v x
  proof (cases "v = u")
    case True
    have um: "umem_counted (Umem_ref u) m u um" using ok u by (simp add: refs_ok_def)
    have n: "c \<notin> set (ctx_list um)" using fresh(3)[OF u] .
    have "(\<Sum>b \<in> set (ctx_list um). ctx_refcount (the (((ctxs m)(c \<mapsto> ct)) b))) = (\<Sum>b \<in> set (ctx_list um). ctx_refcount (the (ctxs m b)))"
      using n by (rule sum_upd_other)
    then show ?thesis using um v True n ct by (auto simp: umem_counted_def)
  next
    case False
    then have x: "umem_counted (Umem_ref u) m v x" "umems m v = Some x" using ok v by (simp_all add: refs_ok_def)
    then show ?thesis using False fresh(3)[OF x(2)] sum_upd_other[of c "set (ctx_list x)" m "Some ct"] by (auto simp: umem_counted_def)
  qed
  moreover have "socket_ok ?m k" if kK: "k \<in> K" for k
  proof -
    obtain sk b bt v where b: "xsks m k = Some sk" "sk_ctx sk = Some b" "ctxs m b = Some bt" "ctx_umem bt = Some v"
      using ok kK by (auto simp: refs_ok_def socket_ok_def)
    have "b \<noteq> c" using fresh(2) b(3) by auto
    then show ?thesis unfolding socket_ok_def using b by (intro exI[of _ sk] exI[of _ b] exI[of _ bt] exI[of _ v]) simp
  qed
  moreover have "addrs_ok ?m" using ok u c by (auto simp: refs_ok_def addrs_ok_def less_Suc_eq)
  ultimately show ?thesis using ok unfolding refs_ok_def by blast
qed

lemma add_socket:
  assumes ok: "refs_ok (Ctx_ref c) K m" and c: "ctxs m c = Some ct" "ctx_umem ct = Some u" and sk: "sk_ctx sk = Some c"
    and k: "k = next_addr m"
  shows "refs_ok No_ref (insert k K) (m\<lparr>xsks := (xsks m)(k \<mapsto> sk), next_addr := k + 1\<rparr>)" (is "refs_ok _ _ ?m")
proof -
  have kK: "k \<notin> K" using fresh_unused(4)[OF ok] k by simp
  have us: "users (m\<lparr>xsks := (xsks m)(k \<mapsto> sk)\<rparr>) (insert k K) b = (if b = c then insert k (users m K b) else users m K b)" for b
    using kK sk by (auto simp: users_def)
  have fin: "finite (users m K b)" for b using ok by (simp add: refs_ok_def users_def)
  have kn: "k \<notin> users m K b" for b using kK by (simp add: users_def)
  have "ctx_counted No_ref (insert k K) ?m b bt" if b: "ctxs ?m b = Some bt" for b bt
  proof -
    have "ctx_counted (Ctx_ref c) K m b bt" using ok b by (simp add: refs_ok_def)
    then show ?thesis using fin kn by (auto simp: ctx_counted_def us)
  qed
  moreover have "umem_counted No_ref ?m v x" if "umems ?m v = Some x" for v x
    using ok that by (auto simp: refs_ok_def umem_counted_def)
  moreover have "\<forall>b \<in> insert k K. socket_ok ?m b" using ok c sk kK by (auto simp: refs_ok_def socket_ok_def)
  moreover have "addrs_ok ?m" using ok k by (auto simp: refs_ok_def addrs_ok_def less_Suc_eq)
  ultimately show ?thesis using ok unfolding refs_ok_def by blast
qed

lemma forget_socket:
  assumes ok: "refs_ok No_ref K m" and k: "k \<in> K" "xsks m k = Some sk" "sk_ctx sk = Some c"
  shows "refs_ok (Ctx_ref c) (K - {k}) m"
proof -
  have us: "users m (K - {k}) b = users m K b - {k}" for b by (auto simp: users_def)
  have fin: "finite (users m K b)" for b using ok by (simp add: refs_ok_def users_def)
  have kin: "k \<in> users m K b \<longleftrightarrow> b = c" for b using k by (auto simp: users_def)
  have card: "int (card (users m (K - {k}) b)) = int (card (users m K b)) - of_bool (b = c)" for b
    using kin[of b] card.remove[OF fin[of b], of k] unfolding us by (cases "b = c") auto
  have "ctx_counted No_ref K m b bt \<Longrightarrow> ctx_counted (Ctx_ref c) (K - {k}) m b bt" for b bt
    unfolding ctx_counted_def card by auto
  moreover have "umem_counted No_ref m u um \<Longrightarrow> umem_counted (Ctx_ref c) m u um" for u um by (simp add: umem_counted_def)
  ultimately show ?thesis using ok unfolding refs_ok_def by blast
qed

lemma free_socket: "refs_ok t K m \<Longrightarrow> k \<notin> K \<Longrightarrow> refs_ok t K (m\<lparr>xsks := (xsks m)(k := None)\<rparr>)"
proof -
  assume ok: "refs_ok t K m" and k: "k \<notin> K"
  have us: "users (m\<lparr>xsks := (xsks m)(k := None)\<rparr>) K = users m K" using k by (auto simp: users_def fun_eq_iff)
  have "\<forall>x \<in> K. socket_ok (m\<lparr>xsks := (xsks m)(k := None)\<rparr>) x" using ok k by (auto simp: refs_ok_def socket_ok_def)
  moreover have "addrs_ok (m\<lparr>xsks := (xsks m)(k := None)\<rparr>)" using ok by (auto simp: refs_ok_def addrs_ok_def)
  moreover have "ctx_counted t K (m\<lparr>xsks := (xsks m)(k := None)\<rparr>) = ctx_counted t K m"
    "umem_counted t (m\<lparr>xsks := (xsks m)(k := None)\<rparr>) = umem_counted t m"
    by (simp_all add: ctx_counted_def umem_counted_def us fun_eq_iff)
  ultimately show ?thesis using ok unfolding refs_ok_def by simp
qed

subsection \<open>The operations\<close>

text \<open>The counts are right up to one reference, and the sockets of the heap are \<open>X\<close>.\<close>

definition counted :: "ref_token \<Rightarrow> nat set \<Rightarrow> (nat \<Rightarrow> xsk_socket option) \<Rightarrow> xmem \<Rightarrow> bool" where
  "counted t K X m \<longleftrightarrow> refs_ok t K m \<and> xsks m = X"

definition holding :: "nat \<Rightarrow> nat \<Rightarrow> nat set \<Rightarrow> (nat \<Rightarrow> xsk_socket option) \<Rightarrow> xmem \<Rightarrow> bool" where
  "holding c u K X m \<longleftrightarrow> counted (Ctx_ref c) K X m \<and> (\<exists>ct. ctxs m c = Some ct \<and> ctx_umem ct = Some u)"

lemma counted_same: "same_refs m m' \<Longrightarrow> counted t K X m \<Longrightarrow> counted t K X m'"
  using refs_ok_same by (auto simp: counted_def same_refs_def)

lemma holding_same: "same_refs m m' \<Longrightarrow> holding c u K X m \<Longrightarrow> holding c u K X m'"
  unfolding holding_def using counted_same same_refs_ctx by metis

lemma get_offsets_mem: "xsk_get_mmap_offsets env fd s = Some (r, s') \<Longrightarrow> fst s' = fst s"
  by (auto simp: xsk_get_mmap_offsets_def elim!: bind_pair_SomeE dest!: mem_steps)

lemma offsets_errno_mem: "offsets_errno env e s = Some (r, s') \<Longrightarrow> fst s' = fst s"
  by (auto simp: offsets_errno_def elim!: bind_pair_SomeE dest!: mem_steps split: prod.splits if_splits)

lemma unmap_ring_mem: "unmap_ring env r off n b s = Some (x, s') \<Longrightarrow> fst s' = fst s"
  by (auto simp: unmap_ring_def dest!: mem_steps)

lemmas sock_mem = mem_steps get_offsets_mem offsets_errno_mem unmap_ring_mem

lemma create_umem_rings_refs: "xsk_create_umem_rings env um fd f c s = Some (r, s') \<Longrightarrow> same_refs (fst s) (fst s')"
  by (auto simp: xsk_create_umem_rings_def Let_def set_ring_def same_refs_def elim!: bind_pair_SomeE dest!: sock_mem split: if_splits sum.splits)

lemma map_tx_refs: "map_tx env r mp off n b s = Some s' \<Longrightarrow> same_refs (fst s) (fst s')"
  by (auto simp: map_tx_def Let_def set_ring_def same_refs_def elim!: bind_pair_SomeE dest!: sock_mem)

lemma declare_ring_refs:
  assumes "declare_ring env f r b opt mark s = Some (x, s')"
    and "\<And>x. umem_refcount (mark x) = umem_refcount x \<and> ctx_list (mark x) = ctx_list x"
  shows "same_refs (fst s) (fst s')"
  using assms(1) unfolding declare_ring_def
  by (auto elim!: bind_pair_SomeE bind_SomeE dest!: sock_mem upd_umem_refs[OF _ assms(2)] split: if_splits)

lemma unmap_ctx_mem: "unmap_ctx env ct um s = Some (r, s') \<Longrightarrow> fst s' = fst s"
  by (auto simp: unmap_ctx_def elim!: bind_pair_SomeE bind_SomeE dest!: sock_mem split: sum.splits)

lemma put_ctx_counted:
  assumes "xsk_put_ctx env c un s = Some (r, s')" "holding c u K X (fst s)"
  shows "counted (Umem_ref u) K X (fst s')"
proof -
  obtain ct where ct: "ctxs (fst s) c = Some ct" "ctx_umem ct = Some u" and ok: "refs_ok (Ctx_ref c) K (fst s)" "xsks (fst s) = X"
    using assms(2) by (auto simp: holding_def counted_def)
  show ?thesis
  proof (cases "ctx_refcount ct = 1")
    case False
    then show ?thesis
      using assms(1) ct ok(2) move_ctx[OF ok(1) ct, of "Umem_ref u" "-1"] by (auto simp: xsk_put_ctx_def upd_ctx_def counted_def)
  next
    case True
    have "ctx_counted (Ctx_ref c) K (fst s) c ct" using ok(1) ct(1) by (simp add: refs_ok_def)
    then obtain um where um: "umems (fst s) u = Some um" using ct(2) by (auto simp: ctx_counted_def)
    let ?m = "(fst s)\<lparr>ctxs := (ctxs (fst s))(c \<mapsto> ct\<lparr>ctx_refcount := 0\<rparr>)\<rparr>"
    let ?step = "if un then unmap_ctx env ct um (?m, snd s) else Some (0, (?m, snd s))"
    have "do { (_, s) \<leftarrow> ?step; s \<leftarrow> free_ctx u c s; Some ((), s) } = Some (r, s')"
      using assms(1) True ct um by (simp add: xsk_put_ctx_def upd_ctx_def)
    then obtain x s1 where "?step = Some (x, s1)" and f: "free_ctx u c s1 = Some s'"
      by (auto elim!: bind_pair_SomeE bind_SomeE simp del: split_paired_All split_paired_all)
    then have "fst s1 = ?m" by (auto dest!: unmap_ctx_mem split: if_splits)
    with f have "fst s' = (fst s)\<lparr>umems := (umems (fst s))(u \<mapsto> um\<lparr>ctx_list := remove1 c (ctx_list um)\<rparr>), ctxs := (ctxs (fst s))(c := None)\<rparr>"
      using um by (auto simp: free_ctx_def upd_umem_def)
    then show ?thesis using free_last_ctx[OF ok(1) ct True um] ok(2) by (simp add: counted_def)
  qed
qed

lemma out_socket_counted:
  assumes "create_out_socket env u fd e s = Some ((r, ko), s')" "counted (Umem_ref u) K X (fst s)"
  shows "ko = None \<and> counted No_ref K X (fst s')"
proof -
  obtain um where um: "umems (fst s) u = Some um" using assms(1) by (auto simp: create_out_socket_def elim!: bind_SomeE)
  show ?thesis
    using assms um move_umem[of "Umem_ref u" K "fst s" u um No_ref "-1"]
    by (auto simp: create_out_socket_def upd_umem_def counted_def elim!: bind_pair_SomeE dest!: sock_mem split: if_splits)
qed

lemma out_put_ctx_counted:
  assumes "create_out_put_ctx env f e s = Some ((r, ko), s')" "holding (cf_ctx f) (cf_umem f) K X (fst s)"
  shows "ko = None \<and> counted No_ref K X (fst s')"
  using assms unfolding create_out_put_ctx_def Let_def
  by (auto elim!: bind_pair_SomeE bind_SomeE dest!: put_ctx_counted out_socket_counted)

lemma out_mmap_rx_counted:
  assumes "create_out_mmap_rx env f off a e s = Some ((r, ko), s')" "holding (cf_ctx f) (cf_umem f) K X (fst s)"
  shows "ko = None \<and> counted No_ref K X (fst s')"
  using assms out_put_ctx_counted unfolding create_out_mmap_rx_def
  by (fastforce elim!: bind_pair_SomeE dest!: sock_mem split: if_splits)

lemma out_mmap_tx_counted:
  assumes "create_out_mmap_tx env f off a b e s = Some ((r, ko), s')" "holding (cf_ctx f) (cf_umem f) K X (fst s)"
  shows "ko = None \<and> counted No_ref K X (fst s')"
  using assms out_mmap_rx_counted unfolding create_out_mmap_tx_def
  by (fastforce elim!: bind_pair_SomeE dest!: sock_mem split: if_splits)

text \<open>The outcome of creating a socket: an error and no change, or one more socket.\<close>

definition created :: "nat option \<Rightarrow> nat set \<Rightarrow> (nat \<Rightarrow> xsk_socket option) \<Rightarrow> xmem \<Rightarrow> bool" where
  "created ko K X m \<longleftrightarrow> (case ko of None \<Rightarrow> counted No_ref K X m | Some k \<Rightarrow> \<exists>sk. counted No_ref (insert k K) (X(k \<mapsto> sk)) m)"

lemma created_None: "ko = None \<and> counted No_ref K X m \<Longrightarrow> created ko K X m"
  by (simp add: created_def)

lemma create_done_counted:
  assumes "create_done f s = Some ((r, ko), s')" "holding (cf_ctx f) (cf_umem f) K X (fst s)" "sk_ctx (cf_xsk f) = Some (cf_ctx f)"
  shows "created ko K X (fst s')"
proof -
  let ?k = "next_addr (fst s)"
  let ?m = "(fst s)\<lparr>xsks := (xsks (fst s))(?k \<mapsto> frame_xsk f), next_addr := ?k + 1\<rparr>"
  obtain ct where "ctxs (fst s) (cf_ctx f) = Some ct" "ctx_umem ct = Some (cf_umem f)" "refs_ok (Ctx_ref (cf_ctx f)) K (fst s)" "xsks (fst s) = X"
    using assms(2) by (auto simp: holding_def counted_def)
  then have "counted No_ref (insert ?k K) (X(?k \<mapsto> frame_xsk f)) ?m"
    using add_socket[of "cf_ctx f" K "fst s" ct "cf_umem f" "frame_xsk f" ?k] assms(3) by (simp add: counted_def frame_xsk_def)
  moreover have d: "ko = Some ?k" "upd_umem (cf_umem f) (\<lambda>x. x\<lparr>fill_save := None, comp_save := None\<rparr>) (?m, snd s) = Some s'"
    using assms(1) by (auto simp: create_done_def Let_def elim!: bind_SomeE)
  moreover from upd_umem_refs[OF d(2)] have "same_refs ?m (fst s')" by simp
  ultimately show ?thesis unfolding created_def d(1) option.case by (blast intro: counted_same)
qed

lemma create_program_counted:
  assumes "create_program env f off a b s = Some ((r, ko), s')" "holding (cf_ctx f) (cf_umem f) K X (fst s)" "sk_ctx (cf_xsk f) = Some (cf_ctx f)"
  shows "created ko K X (fst s')"
proof (cases "libbpf_flags (sk_config (cf_xsk f)) AND 1 = 0")
  case True
  then obtain err x s1 where s1: "xsk_setup_prog env (cf_ctx f) (frame_xsk f) s = Some ((err, x), s1)"
      "(if err \<noteq> 0 then create_out_mmap_tx env f off a b err s1 else create_done f s1) = Some ((r, ko), s')"
    using assms(1) unfolding create_program_def by (auto elim!: bind_pair_SomeE)
  note h = holding_same[OF setup_prog_refs[OF s1(1)] assms(2)]
  show ?thesis
    using s1(2) create_done_counted[OF _ h assms(3)] created_None[OF out_mmap_tx_counted[OF _ h]] by (cases "err = 0") auto
qed (use assms(1) create_done_counted[OF _ assms(2,3)] in \<open>auto simp: create_program_def\<close>)

lemma create_bind_counted:
  assumes "create_bind env f off a b s = Some ((r, ko), s')" "holding (cf_ctx f) (cf_umem f) K X (fst s)" "sk_ctx (cf_xsk f) = Some (cf_ctx f)"
  shows "created ko K X (fst s')"
proof -
  obtain adr e s1 where s1: "osys (x_bind env (sk_fd (cf_xsk f)) adr) s = Some (e, s1)"
      "(if e \<noteq> 0 then create_out_mmap_tx env f off a b e s1 else create_program env f off a b s1) = Some ((r, ko), s')"
    using assms(1) unfolding create_bind_def by (auto elim!: bind_pair_SomeE bind_SomeE)
  have h: "holding (cf_ctx f) (cf_umem f) K X (fst s1)" using assms(2) osys_mem[OF s1(1)] by simp
  show ?thesis
    using s1(2) create_program_counted[OF _ h assms(3)] created_None[OF out_mmap_tx_counted[OF _ h]] by (cases "e = 0") auto
qed

lemma create_map_tx_counted:
  assumes "create_map_tx env f off a s = Some ((r, ko), s')" "holding (cf_ctx f) (cf_umem f) K X (fst s)" "sk_ctx (cf_xsk f) = Some (cf_ctx f)"
  shows "created ko K X (fst s')"
proof (cases "cf_tx f")
  case None
  then show ?thesis using assms(1) create_bind_counted[OF _ assms(2,3)] by (simp add: create_map_tx_def)
next
  case (Some tx)
  let ?n = "tx_size (sk_config (cf_xsk f))"
  obtain mp s1 where s1: "osys (x_mmap env (ring_bytes (off_tx off) ?n 16) (sk_fd (cf_xsk f)) XDP_PGOFF_TX_RING) s = Some (mp, s1)"
      "(case mp of Inl e \<Rightarrow> create_out_mmap_rx env f off a e s1
        | Inr mp \<Rightarrow> do { s \<leftarrow> map_tx env tx mp (off_tx off) ?n True s1; create_bind env f off a mp s }) = Some ((r, ko), s')"
    using assms(1) Some unfolding create_map_tx_def Let_def by (auto elim!: bind_pair_SomeE)
  have h: "holding (cf_ctx f) (cf_umem f) K X (fst s1)" using assms(2) osys_mem[OF s1(1)] by simp
  show ?thesis
  proof (cases mp)
    case (Inl e)
    then show ?thesis using s1(2) created_None[OF out_mmap_rx_counted[OF _ h]] by simp
  next
    case (Inr b)
    then obtain s2 where s2: "map_tx env tx b (off_tx off) ?n True s1 = Some s2" "create_bind env f off a b s2 = Some ((r, ko), s')"
      using s1(2) by (auto elim!: bind_SomeE)
    show ?thesis using create_bind_counted[OF s2(2) holding_same[OF map_tx_refs[OF s2(1)] h] assms(3)] .
  qed
qed

lemma create_map_rx_counted:
  assumes "create_map_rx env f off s = Some ((r, ko), s')" "holding (cf_ctx f) (cf_umem f) K X (fst s)" "sk_ctx (cf_xsk f) = Some (cf_ctx f)"
  shows "created ko K X (fst s')"
proof (cases "cf_rx f")
  case None
  then show ?thesis using assms(1) create_map_tx_counted[OF _ assms(2,3)] by (simp add: create_map_rx_def)
next
  case (Some rx)
  let ?n = "rx_size (sk_config (cf_xsk f))"
  obtain mp s1 where s1: "osys (x_mmap env (ring_bytes (off_rx off) ?n 16) (sk_fd (cf_xsk f)) XDP_PGOFF_RX_RING) s = Some (mp, s1)"
      "(case mp of Inl e \<Rightarrow> create_out_put_ctx env f e s1
        | Inr mp \<Rightarrow> do { s \<leftarrow> map_tx env rx mp (off_rx off) ?n False s1; create_map_tx env f off mp s }) = Some ((r, ko), s')"
    using assms(1) Some unfolding create_map_rx_def Let_def by (auto elim!: bind_pair_SomeE)
  have h: "holding (cf_ctx f) (cf_umem f) K X (fst s1)" using assms(2) osys_mem[OF s1(1)] by simp
  show ?thesis
  proof (cases mp)
    case (Inl e)
    then show ?thesis using s1(2) created_None[OF out_put_ctx_counted[OF _ h]] by simp
  next
    case (Inr b)
    then obtain s2 where s2: "map_tx env rx b (off_rx off) ?n False s1 = Some s2" "create_map_tx env f off b s2 = Some ((r, ko), s')"
      using s1(2) by (auto elim!: bind_SomeE)
    show ?thesis using create_map_tx_counted[OF s2(2) holding_same[OF map_tx_refs[OF s2(1)] h] assms(3)] .
  qed
qed

lemma create_rings_counted:
  assumes "create_rings env f d1 d2 s = Some ((r, ko), s')" "holding (cf_ctx f) (cf_umem f) K X (fst s)" "sk_ctx (cf_xsk f) = Some (cf_ctx f)"
  shows "created ko K X (fst s')"
proof -
  let ?rx = "declare_ring env f (cf_rx f) d1 (XDP_RX_RING (rx_size (sk_config (cf_xsk f)))) (\<lambda>x. x\<lparr>rx_ring_setup_done := True\<rparr>)"
  let ?tx = "declare_ring env f (cf_tx f) d2 (XDP_TX_RING (tx_size (sk_config (cf_xsk f)))) (\<lambda>x. x\<lparr>tx_ring_setup_done := True\<rparr>)"
  let ?map = "\<lambda>s. do {
         (ofs, s) \<leftarrow> xsk_get_mmap_offsets env (sk_fd (cf_xsk f)) s;
         case ofs of
           Inl e \<Rightarrow> do { (err, s) \<leftarrow> offsets_errno env e s; create_out_put_ctx env f err s }
         | Inr off \<Rightarrow> create_map_rx env f off s
       }"
  obtain e1 s1 where s1: "?rx s = Some (e1, s1)"
      "(if e1 \<noteq> 0 then create_out_put_ctx env f e1 s1
        else do { (err, s) \<leftarrow> ?tx s1; if err \<noteq> 0 then create_out_put_ctx env f err s else ?map s }) = Some ((r, ko), s')"
    using assms(1) unfolding create_rings_def Let_def by (elim bind_pair_SomeE) blast
  note h1 = holding_same[OF declare_ring_refs[OF s1(1), simplified] assms(2)]
  show ?thesis
  proof (cases "e1 = 0")
    case True
    then obtain e2 s2 where s2: "?tx s1 = Some (e2, s2)" "(if e2 \<noteq> 0 then create_out_put_ctx env f e2 s2 else ?map s2) = Some ((r, ko), s')"
      using s1(2) by (auto elim!: bind_pair_SomeE)
    note h2 = holding_same[OF declare_ring_refs[OF s2(1), simplified] h1]
    show ?thesis
    proof (cases "e2 = 0")
      case True
      then obtain ofs s3 where s3: "xsk_get_mmap_offsets env (sk_fd (cf_xsk f)) s2 = Some (ofs, s3)"
          "(case ofs of Inl e \<Rightarrow> do { (err, s) \<leftarrow> offsets_errno env e s3; create_out_put_ctx env f err s }
            | Inr off \<Rightarrow> create_map_rx env f off s3) = Some ((r, ko), s')"
        using s2(2) by (auto elim!: bind_pair_SomeE)
      have h3: "holding (cf_ctx f) (cf_umem f) K X (fst s3)" using h2 get_offsets_mem[OF s3(1)] by simp
      show ?thesis
      proof (cases ofs)
        case (Inl e)
        then obtain e4 s4 where s4: "offsets_errno env e s3 = Some (e4, s4)" "create_out_put_ctx env f e4 s4 = Some ((r, ko), s')"
          using s3(2) by (auto elim!: bind_pair_SomeE)
        show ?thesis using created_None[OF out_put_ctx_counted[OF s4(2)]] h3 offsets_errno_mem[OF s4(1)] by simp
      qed (use s3(2) create_map_rx_counted[OF _ h3 assms(3)] in simp)
    qed (use s2(2) created_None[OF out_put_ctx_counted[OF _ h2]] in simp)
  qed (use s1(2) created_None[OF out_put_ctx_counted[OF _ h1]] in simp)
qed

lemma find_ctx_in: "find_ctx m ck i q cs = Some (Some c) \<Longrightarrow> c \<in> set cs"
  by (induction cs) (auto elim!: bind_SomeE split: if_splits)

lemma get_ctx_counted:
  assumes "xsk_get_ctx u ck i q s = Some (co, s')" "counted (Umem_ref u) K X (fst s)"
  shows "case co of None \<Rightarrow> s' = s | Some c \<Rightarrow> holding c u K X (fst s')"
proof -
  obtain um d where um: "umems (fst s) u = Some um" "find_ctx (fst s) ck i q (ctx_list um) = Some d"
      "(case d of None \<Rightarrow> Some (None, s) | Some c \<Rightarrow> do { s \<leftarrow> upd_ctx c (\<lambda>x. x\<lparr>ctx_refcount := ctx_refcount x + 1\<rparr>) s; Some (Some c, s) })
         = Some (co, s')"
    using assms(1) unfolding xsk_get_ctx_def by (elim bind_SomeE) blast
  show ?thesis
  proof (cases d)
    case (Some c)
    have ok: "refs_ok (Umem_ref u) K (fst s)" "xsks (fst s) = X" using assms(2) by (simp_all add: counted_def)
    have "umem_counted (Umem_ref u) (fst s) u um" using ok(1) um(1) by (simp add: refs_ok_def)
    then obtain ct where ct: "ctxs (fst s) c = Some ct" "ctx_umem ct = Some u"
      using find_ctx_in um(2) Some by (fastforce simp: umem_counted_def)
    show ?thesis using um(3) Some ct ok(2) move_ctx[OF ok(1) ct, of "Ctx_ref c" 1] by (auto simp: upd_ctx_def holding_def counted_def)
  qed (use um(3) in simp)
qed

lemma ctx_rings_refs: "ctx_rings env um fd fi cm s = Some (e, s') \<Longrightarrow> same_refs (fst s) (fst s')"
  by (auto simp: ctx_rings_def Let_def set_ring_def same_refs_def elim!: bind_SomeE split: option.splits if_splits
      dest!: create_umem_rings_refs)

lemma link_ctx_counted:
  assumes "link_ctx u ct s = Some (co, s')" "counted (Umem_ref u) K X (fst s)" "ctx_umem ct = Some u" "ctx_refcount ct = 1" "has_rings ct"
  shows "\<exists>c. co = Some c \<and> holding c u K X (fst s')"
proof -
  obtain um where um: "umems (fst s) u = Some um" using assms(1) by (auto simp: link_ctx_def upd_umem_def Let_def elim!: bind_SomeE)
  have ok: "refs_ok (Umem_ref u) K (fst s)" using assms(2) by (simp add: counted_def)
  show ?thesis using assms(1-3) um new_ctx[OF ok um assms(3-5) refl]
    by (auto simp: link_ctx_def upd_umem_def Let_def counted_def holding_def)
qed

lemma create_ctx_counted:
  assumes "xsk_create_ctx env fd u ck i n q fi cm s = Some (co, s')" "counted (Umem_ref u) K X (fst s)"
  shows "case co of None \<Rightarrow> counted (Umem_ref u) K X (fst s') | Some c \<Rightarrow> holding c u K X (fst s')"
proof -
  obtain ok s1 where s1: "osys (alloc (x_lib env)) s = Some (ok, s1)" using assms(1) unfolding xsk_create_ctx_def by (elim bind_pair_SomeE) blast
  have c1: "counted (Umem_ref u) K X (fst s1)" using assms(2) osys_mem[OF s1] by simp
  show ?thesis
  proof (cases ok)
    case True
    let ?ct = "\<lparr>ctx_fill = Some fi, ctx_comp = Some cm, ctx_umem = Some u, ctx_queue_id = q, ctx_refcount = 1, ctx_ifindex = i,
      ctx_netns_cookie = ck, ctx_xsks_map_fd = 0, ctx_prog = None, ctx_refcnt_map_fd = 0, ctx_ifname = take 15 n\<rparr>"
    obtain um err s2 where s2: "ctx_rings env um fd fi cm s1 = Some (err, s2)" "(if err \<noteq> 0 then Some (None, s2) else link_ctx u ?ct s2) = Some (co, s')"
      using assms(1) s1 True unfolding xsk_create_ctx_def by (auto elim!: bind_pair_SomeE bind_SomeE)
    note c2 = counted_same[OF ctx_rings_refs[OF s2(1)] c1]
    show ?thesis using s2(2) c2 link_ctx_counted[OF _ c2, of ?ct] by (cases "err = 0") (auto simp: has_rings_def)
  qed (use assms(1) s1 c1 in \<open>auto simp: xsk_create_ctx_def\<close>)
qed

lemma create_context_counted:
  assumes "create_context env n i q u fi cm fd s = Some (r, s')" "counted (Umem_ref u) K X (fst s)"
  shows "case r of Inl e \<Rightarrow> counted (Umem_ref u) K X (fst s') | Inr c \<Rightarrow> holding c u K X (fst s')"
proof -
  obtain ck s1 where s1: "osys (x_netns_cookie env fd) s = Some (ck, s1)" using assms(1) unfolding create_context_def by (elim bind_pair_SomeE) blast
  have c1: "counted (Umem_ref u) K X (fst s1)" using assms(2) osys_mem[OF s1] by simp
  let ?ck = "case ck of Inr k \<Rightarrow> Inr k | Inl e \<Rightarrow> if e \<noteq> - ENOPROTOOPT then Inl e else Inr 1"
  show ?thesis
  proof (cases ?ck)
    case (Inr k)
    let ?new = "\<lambda>s. case (fi, cm) of
                (Some fill, Some cmpl) \<Rightarrow> do {
                  (co, s) \<leftarrow> xsk_create_ctx env fd u k i n q fill cmpl s;
                  case co of None \<Rightarrow> Some (Inl (- ENOMEM), s) | Some c \<Rightarrow> Some (Inr c, s)
                }
              | _ \<Rightarrow> Some (Inl (- EFAULT), s)"
    have "do { (co, s) \<leftarrow> xsk_get_ctx u k i q s1; case co of Some c \<Rightarrow> Some (Inr c, s) | None \<Rightarrow> ?new s } = Some (r, s')"
      using assms(1) s1 Inr unfolding create_context_def by simp
    then obtain co s2 where s2: "xsk_get_ctx u k i q s1 = Some (co, s2)" "(case co of Some c \<Rightarrow> Some (Inr c, s2) | None \<Rightarrow> ?new s2) = Some (r, s')"
      by (elim bind_pair_SomeE) blast
    note g = get_ctx_counted[OF s2(1) c1]
    show ?thesis
    proof (cases co)
      case None
      then have e: "s2 = s1" using g by simp
      have n: "?new s1 = Some (r, s')" using s2(2)[unfolded e] None by simp
      show ?thesis
      proof (cases "fi = None \<or> cm = None")
        case False
        then obtain fill cmpl co' s3 where s3: "xsk_create_ctx env fd u k i n q fill cmpl s1 = Some (co', s3)"
            "(case co' of None \<Rightarrow> Some (Inl (- ENOMEM), s3) | Some c \<Rightarrow> Some (Inr c, s3)) = Some (r, s')"
          using n by (auto elim!: bind_pair_SomeE)
        show ?thesis using create_ctx_counted[OF s3(1) c1] s3(2) by (cases co') auto
      qed (use n c1 in \<open>auto split: option.splits\<close>)
    qed (use s2(2) g in auto)
  qed (use assms(1) s1 c1 in \<open>auto simp: create_context_def\<close>)
qed

text \<open>A descriptor for a region that has a socket already is a new one: the count is kept exact as long as \<open>socket()\<close> does not fail.\<close>

definition no_socket_error :: "'w xsk_env \<Rightarrow> bool" where
  "no_socket_error env \<longleftrightarrow> (\<forall>w. 0 \<le> fst (x_socket env w))"

lemma create_on_umem_counted:
  assumes "create_on_umem env n i q u rx tx fi cm cfg s = Some ((r, ko), s')" "counted No_ref K X (fst s)" "no_socket_error env"
  shows "created ko K X (fst s')"
proof -
  let ?fd = "\<lambda>um s. if umem_refcount um > 0 then osys (x_socket env) s else Some (umem_fd um, s)"
  obtain um s1 fd s2 where um: "umems (fst s) u = Some um" "upd_umem u (\<lambda>x. x\<lparr>umem_refcount := umem_refcount x + 1\<rparr>) s = Some s1"
      "?fd um s1 = Some (fd, s2)"
    using assms(1) unfolding create_on_umem_def by (elim bind_pair_SomeE bind_SomeE) blast
  have "counted (Umem_ref u) K X (fst s1)"
    using assms(2) um(1,2) move_umem[of No_ref K "fst s" u um "Umem_ref u" 1] by (auto simp: upd_umem_def counted_def)
  then have c2: "counted (Umem_ref u) K X (fst s2)" using um(3) by (auto dest!: osys_mem split: if_splits)
  have fd: "\<not> (umem_refcount um > 0 \<and> fd < 0)"
    using um(3) assms(3)[unfolded no_socket_error_def, rule_format, of "snd (snd s1)"] by (auto simp: osys_def split: if_splits prod.splits)
  let ?f = "\<lambda>c. \<lparr>cf_umem = u, cf_ctx = c, cf_fill = fi, cf_rx = rx, cf_tx = tx,
           cf_xsk = \<lparr>sk_rx = None, sk_tx = None, sk_ctx = Some c, sk_config = cfg, sk_fd = fd\<rparr>\<rparr>"
  have "do { (c, s) \<leftarrow> create_context env n i q u fi cm fd s2;
      case c of Inl e \<Rightarrow> create_out_socket env u fd e s
      | Inr c \<Rightarrow> create_rings env (?f c) (umem_refcount um \<le> 0 \<and> rx_ring_setup_done um) (umem_refcount um \<le> 0 \<and> tx_ring_setup_done um) s }
      = Some ((r, ko), s')"
    using assms(1) um fd unfolding create_on_umem_def by simp
  then obtain c s3 where c: "create_context env n i q u fi cm fd s2 = Some (c, s3)"
      "(case c of Inl e \<Rightarrow> create_out_socket env u fd e s3
        | Inr c \<Rightarrow> create_rings env (?f c) (umem_refcount um \<le> 0 \<and> rx_ring_setup_done um) (umem_refcount um \<le> 0 \<and> tx_ring_setup_done um) s3)
       = Some ((r, ko), s')"
    by (elim bind_pair_SomeE) blast
  note c3 = create_context_counted[OF c(1) c2]
  show ?thesis
  proof (cases c)
    case (Inl e)
    then show ?thesis using c(2) c3 created_None[OF out_socket_counted[of env u fd e s3 r ko s']] by simp
  next
    case (Inr a)
    then show ?thesis using c(2) c3 create_rings_counted[of env "?f a" _ _ s3 r ko s'] by simp
  qed
qed

lemma create_shared_counted:
  assumes "xsk_socket__create_shared env n q uo rx tx fi cm cfg s = Some ((r, ko), s')" "counted No_ref K X (fst s)" "no_socket_error env"
  shows "created ko K X (fst s')"
proof (cases "ko = None \<and> fst s' = fst s")
  case False
  then obtain i u c s1 where s1: "fst s1 = fst s" "create_on_umem env n i q u rx tx fi cm c s1 = Some ((r, ko), s')"
    using assms(1) unfolding xsk_socket__create_shared_def
    by (auto elim!: bind_pair_SomeE dest!: osys_mem split: option.splits if_splits sum.splits)
  then show ?thesis using create_on_umem_counted[OF s1(2) _ assms(3)] assms(2) by simp
qed (use assms(2) in \<open>simp add: created_def\<close>)

lemma create_counted:
  assumes "xsk_socket__create env n q uo rx tx cfg s = Some ((r, ko), s')" "counted No_ref K X (fst s)" "no_socket_error env"
  shows "created ko K X (fst s')"
proof (cases uo)
  case None
  then show ?thesis using assms(1,2) by (simp add: xsk_socket__create_def created_def)
next
  case (Some u)
  then obtain um :: xsk_umem where um: "xsk_socket__create_shared env n q (Some u) rx tx (fill_save um) (comp_save um) cfg s = Some ((r, ko), s')"
    using assms(1) by (simp add: xsk_socket__create_def) (elim bind_SomeE, blast)
  show ?thesis using create_shared_counted[OF um assms(2,3)] .
qed

lemma delete_map_entry_mem: "xsk_delete_map_entry env fd q s = Some (r, s') \<Longrightarrow> fst s' = fst s"
  by (auto simp: xsk_delete_map_entry_def elim!: bind_pair_SomeE dest!: sock_mem)

lemma delete_program_refs: "delete_program env c ct sk s = Some (r, s') \<Longrightarrow> same_refs (fst s) (fst s')"
  by (auto simp: delete_program_def elim!: bind_pair_SomeE dest!: delete_map_entry_mem release_prog_refs split: if_splits)

lemma delete_rings_mem: "delete_rings env sk s = Some (r, s') \<Longrightarrow> fst s' = fst s"
  by (auto simp: delete_rings_def elim!: bind_pair_SomeE dest!: sock_mem split: sum.splits option.splits)

lemma delete_umem_ref_counted:
  assumes "delete_umem_ref env u sk s = Some (r, s')" "counted (Umem_ref u) K X (fst s)"
  shows "counted No_ref K X (fst s')"
proof -
  obtain um where um: "umems (fst s) u = Some um" using assms(1) by (auto simp: delete_umem_ref_def upd_umem_def elim!: bind_SomeE)
  then show ?thesis
    using assms move_umem[of "Umem_ref u" K "fst s" u um No_ref "-1"]
    by (auto simp: counted_def delete_umem_ref_def upd_umem_def dest!: sock_mem split: if_splits)
qed

lemma delete_counted:
  assumes "xsk_socket__delete env (Some k) s = Some (r, s')" "counted No_ref K X (fst s)" "k \<in> K"
  shows "counted No_ref (K - {k}) (X(k := None)) (fst s')"
proof -
  obtain sk c ct u where sk: "xsks (fst s) k = Some sk" "sk_ctx sk = Some c" "ctxs (fst s) c = Some ct" "ctx_umem ct = Some u"
    using assms(2,3) by (fastforce simp: counted_def refs_ok_def socket_ok_def)
  have h: "holding c u (K - {k}) X (fst s)"
    using assms(2,3) forget_socket[of K "fst s" k sk c] sk by (auto simp: holding_def counted_def)
  obtain x1 s1 x2 s2 x3 s3 x4 s4 where
    s1: "delete_program env c ct sk s = Some (x1, s1)" and s2: "delete_rings env sk s1 = Some (x2, s2)"
    and s3: "xsk_put_ctx env c True s2 = Some (x3, s3)" and s4: "delete_umem_ref env u sk s3 = Some (x4, s4)"
    and s': "Some ((), ((fst s4)\<lparr>xsks := (xsks (fst s4))(k := None)\<rparr>, snd s4)) = Some (r, s')"
    using assms(1) sk unfolding xsk_socket__delete_def by (simp only: option.case bind.simps) (elim bind_pair_SomeE, blast)
  have "holding c u (K - {k}) X (fst s2)" using holding_same[OF delete_program_refs[OF s1] h] delete_rings_mem[OF s2] by simp
  note c4 = delete_umem_ref_counted[OF s4 put_ctx_counted[OF s3 this]]
  then show ?thesis using free_socket[of No_ref "K - {k}" "fst s4" k] s' by (auto simp: counted_def)
qed

lemma add_umem:
  assumes ok: "refs_ok No_ref K m" and um: "ctx_list um = []" "umem_refcount um = 0" and u: "u = next_addr m"
  shows "refs_ok No_ref K (m\<lparr>umems := (umems m)(u \<mapsto> um), next_addr := u + 1\<rparr>)" (is "refs_ok _ _ ?m")
proof -
  have n: "umems m u = None" using ok u by (auto simp: refs_ok_def addrs_ok_def)
  have "ctx_counted No_ref K ?m c ct" if "ctxs ?m c = Some ct" for c ct
  proof -
    have "ctx_counted No_ref K m c ct" using ok that by (simp add: refs_ok_def)
    then show ?thesis using n by (auto simp: ctx_counted_def)
  qed
  moreover have "umem_counted No_ref ?m v x" if "umems ?m v = Some x" for v x
    using ok that um by (auto simp: refs_ok_def umem_counted_def split: if_splits)
  moreover have "\<forall>k \<in> K. socket_ok ?m k" using ok by (simp add: refs_ok_def socket_ok_def)
  moreover have "addrs_ok ?m" using ok u by (auto simp: refs_ok_def addrs_ok_def less_Suc_eq)
  ultimately show ?thesis using ok unfolding refs_ok_def by blast
qed

lemma unused_umem:
  assumes ok: "refs_ok No_ref K m" and u: "umems m u = Some um" "umem_refcount um = 0"
  shows "ctx_list um = []"
proof (rule ccontr)
  assume n: "ctx_list um \<noteq> []"
  have um: "umem_counted No_ref m u um" using ok u(1) by (simp add: refs_ok_def)
  have "0 < ctx_refcount (the (ctxs m c))" if "c \<in> set (ctx_list um)" for c
    using um ok that by (fastforce simp: umem_counted_def refs_ok_def ctx_counted_def)
  then have "0 < (\<Sum>c \<in> set (ctx_list um). ctx_refcount (the (ctxs m c)))" using n by (intro sum_pos) auto
  then show False using um u(2) by (simp add: umem_counted_def)
qed

lemma remove_umem:
  assumes ok: "refs_ok No_ref K m" and u: "umems m u = Some um" "umem_refcount um = 0"
  shows "refs_ok No_ref K (m\<lparr>umems := (umems m)(u := None)\<rparr>)" (is "refs_ok _ _ ?m")
proof -
  have "ctx_counted No_ref K ?m c ct" if "ctxs ?m c = Some ct" for c ct
  proof -
    have "ctx_counted No_ref K m c ct" using ok that by (simp add: refs_ok_def)
    then show ?thesis using u unused_umem[OF ok u] by (fastforce simp: ctx_counted_def)
  qed
  moreover have "umem_counted No_ref ?m v x" if "umems ?m v = Some x" for v x
    using ok that by (auto simp: refs_ok_def umem_counted_def split: if_splits)
  moreover have "\<forall>k \<in> K. socket_ok ?m k" using ok by (simp add: refs_ok_def socket_ok_def)
  moreover have "addrs_ok ?m" using ok by (auto simp: refs_ok_def addrs_ok_def)
  ultimately show ?thesis using ok unfolding refs_ok_def by blast
qed

lemma unmap_saved_mem: "unmap_saved env um s = Some (r, s') \<Longrightarrow> fst s' = fst s"
  by (auto simp: unmap_saved_def elim!: bind_pair_SomeE dest!: sock_mem split: sum.splits option.splits)

lemma umem_delete_counted:
  assumes "xsk_umem__delete env uo s = Some (r, s')" "counted No_ref K X (fst s)"
  shows "counted No_ref K X (fst s')"
proof (cases "\<exists>u um. uo = Some u \<and> umems (fst s) u = Some um \<and> umem_refcount um = 0")
  case True
  then obtain u um where u: "uo = Some u" "umems (fst s) u = Some um" "umem_refcount um = 0" by blast
  then obtain x s1 y s2 where s1: "unmap_saved env um s = Some (x, s1)" "close' env (umem_fd um) s1 = Some (y, s2)"
      "Some (0, ((fst s2)\<lparr>umems := (umems (fst s2))(u := None)\<rparr>, snd s2)) = Some (r, s')"
    using assms(1) unfolding xsk_umem__delete_def by simp (elim bind_pair_SomeE, force)
  then show ?thesis using assms(2) remove_umem[of K "fst s" u um] u unmap_saved_mem[OF s1(1)] close'_mem[OF s1(2)] by (auto simp: counted_def)
qed (use assms in \<open>auto simp: xsk_umem__delete_def elim!: bind_SomeE split: option.splits if_splits\<close>)

lemma umem_setup_refs: "umem_setup env um sz fi cm s = Some (e, s') \<Longrightarrow> same_refs (fst s) (fst s')"
  by (auto simp: umem_setup_def Let_def elim!: bind_pair_SomeE dest!: sock_mem create_umem_rings_refs split: if_splits)

lemma link_umem_counted:
  assumes "link_umem um s = Some (r, s')" "counted No_ref K X (fst s)" "ctx_list um = []" "umem_refcount um = 0"
  shows "counted No_ref K X (fst s')"
  using assms add_umem[of K "fst s" um] by (auto simp: link_umem_def Let_def counted_def)

lemma umem_create_on_counted:
  assumes "umem_create_on env um sz fi cm s = Some (r, s')" "counted No_ref K X (fst s)" "ctx_list um = []" "umem_refcount um = 0"
  shows "counted No_ref K X (fst s')"
proof -
  let ?um = "um\<lparr>fill_save := Some fi, comp_save := Some cm\<rparr>"
  obtain e s1 where s1: "umem_setup env um sz fi cm s = Some (e, s1)"
      "(if e \<noteq> 0 then do { (_, s) \<leftarrow> close' env (umem_fd um) s1; Some ((e, None), s) } else link_umem ?um s1) = Some (r, s')"
    using assms(1) unfolding umem_create_on_def by (elim bind_pair_SomeE) blast
  note c1 = counted_same[OF umem_setup_refs[OF s1(1)] assms(2)]
  show ?thesis using s1(2) c1 link_umem_counted[of ?um s1 r s' K X] assms(3,4)
    by (auto elim!: bind_pair_SomeE dest!: sock_mem split: if_splits)
qed

lemma umem_create_counted:
  assumes "xsk_umem__create_with_fd env fd a sz fi cm cfg s = Some (r, s')" "counted No_ref K X (fst s)"
  shows "counted No_ref K X (fst s')"
proof (cases "fst s' = fst s")
  case False
  then obtain ufd f c s1 where s1: "fst s1 = fst s"
      "umem_create_on env ((new_umem ufd)\<lparr>umem_area := a, umem_config := xsk_set_umem_config cfg\<rparr>) sz f c s1 = Some (r, s')"
    using assms(1) unfolding xsk_umem__create_with_fd_def
    by (auto elim!: bind_pair_SomeE dest!: sock_mem split: option.splits if_splits)
  show ?thesis by (rule umem_create_on_counted[OF s1(2)]) (use s1(1) assms(2) in \<open>simp_all add: new_umem_def\<close>)
qed (use assms(2) in simp)

text \<open>A context without a region, and no longer one.\<close>

lemma plain_ctx:
  assumes ok: "refs_ok No_ref K m" and c: "ctxs m c = None \<and> c = next_addr m \<or> (\<exists>ct. ctxs m c = Some ct \<and> ctx_umem ct = None)"
    and z: "z = None \<or> (\<exists>ct. z = Some ct \<and> ctx_umem ct = None)" and n: "next_addr m \<le> n" "c < n"
  shows "refs_ok No_ref K (m\<lparr>ctxs := (ctxs m)(c := z), next_addr := n\<rparr>)" (is "refs_ok _ _ ?m")
proof -
  have "ctx_counted No_ref K ?m b bt" if b: "ctxs ?m b = Some bt" for b bt
  proof (cases "b = c")
    case True
    then show ?thesis using b z by (auto simp: ctx_counted_def)
  next
    case False
    then have "ctx_counted No_ref K m b bt" using ok b by (simp add: refs_ok_def)
    then show ?thesis by (auto simp: ctx_counted_def)
  qed
  moreover have "umem_counted No_ref ?m v x" if v: "umems ?m v = Some x" for v x
  proof -
    have x: "umem_counted No_ref m v x" using ok v by (simp add: refs_ok_def)
    then have "c \<notin> set (ctx_list x)" using c by (fastforce simp: umem_counted_def)
    then show ?thesis using x sum_upd_other[of c "set (ctx_list x)" m z] by (auto simp: umem_counted_def)
  qed
  moreover have "socket_ok ?m k" if kK: "k \<in> K" for k
  proof -
    obtain sk b bt v where b: "xsks m k = Some sk" "sk_ctx sk = Some b" "ctxs m b = Some bt" "ctx_umem bt = Some v"
      using ok kK by (auto simp: refs_ok_def socket_ok_def)
    have "b \<noteq> c" using c b(3,4) by auto
    then show ?thesis unfolding socket_ok_def using b by (intro exI[of _ sk] exI[of _ b] exI[of _ bt] exI[of _ v]) simp
  qed
  moreover have "addrs_ok ?m" using ok n by (fastforce simp: refs_ok_def addrs_ok_def)
  ultimately show ?thesis using ok unfolding refs_ok_def by blast
qed

lemma init_struct_counted:
  assumes "xsk_init_xsk_struct env i s = Some (r, s')" "counted No_ref K X (fst s)"
  shows "counted No_ref K X (fst s') \<and> (\<forall>c. r = Inr c \<longrightarrow> (\<exists>ct. ctxs (fst s') c = Some ct \<and> ctx_umem ct = None))"
proof (cases r)
  case (Inr c)
  let ?ct = "\<lambda>nm. \<lparr>ctx_fill = None, ctx_comp = None, ctx_umem = None, ctx_queue_id = 0, ctx_refcount = 0, ctx_ifindex = i,
    ctx_netns_cookie = 0, ctx_xsks_map_fd = 0, ctx_prog = None, ctx_refcnt_map_fd = 0, ctx_ifname = nm\<rparr>"
  obtain nm where s': "c = next_addr (fst s)" "fst s' = (fst s)\<lparr>ctxs := (ctxs (fst s))(c \<mapsto> ?ct nm), next_addr := c + 1\<rparr>"
    using assms(1) Inr by (auto simp: xsk_init_xsk_struct_def Let_def elim!: bind_pair_SomeE dest!: sock_mem split: if_splits sum.splits)
  have ok: "refs_ok No_ref K (fst s)" using assms(2) by (simp add: counted_def)
  show ?thesis using s' Inr assms(2) plain_ctx[OF ok, of c "Some (?ct nm)" "c + 1"] fresh_unused(2)[OF ok] by (auto simp: counted_def)
next
  case (Inl e)
  then have "fst s' = fst s"
    using assms(1) by (auto simp: xsk_init_xsk_struct_def Let_def elim!: bind_pair_SomeE dest!: sock_mem split: if_splits sum.splits)
  then show ?thesis using Inl assms(2) by simp
qed

lemma destroy_struct_counted:
  assumes "xsk_destroy_xsk_struct env c s = Some (r, s')" "counted No_ref K X (fst s)" "ctxs (fst s) c = Some ct" "ctx_umem ct = None"
  shows "counted No_ref K X (fst s')"
proof -
  obtain x s1 where s1: "close_prog env (ctx_prog ct) s = Some (x, s1)" "s' = ((fst s1)\<lparr>ctxs := (ctxs (fst s1))(c := None)\<rparr>, snd s1)"
    using assms(1,3) by (auto simp: xsk_destroy_xsk_struct_def elim!: bind_pair_SomeE)
  note r = close_prog_refs[OF s1(1)]
  obtain ct1 where ct1: "ctxs (fst s1) c = Some ct1" "ctx_umem ct1 = None" using same_refs_ctx[OF r assms(3)] assms(4) by auto
  have ok: "refs_ok No_ref K (fst s1)" "xsks (fst s1) = X" using counted_same[OF r assms(2)] by (simp_all add: counted_def)
  have "c < next_addr (fst s1)" using ok(1) ct1(1) by (auto simp: refs_ok_def addrs_ok_def)
  then show ?thesis using plain_ctx[OF ok(1), of c None "next_addr (fst s1)"] ct1 ok(2) s1(2) by (simp add: counted_def)
qed

lemma setup_xdp_prog_counted:
  assumes "xsk_setup_xdp_prog env i s = Some (r, s')" "counted No_ref K X (fst s)"
  shows "counted No_ref K X (fst s')"
proof -
  let ?sk = "\<lambda>c. \<lparr>sk_rx = None, sk_tx = None, sk_ctx = Some c,
    sk_config = \<lparr>rx_size = 0, tx_size = 0, libbpf_flags = 0, xdp_flags = 0, bind_flags = 0\<rparr>, sk_fd = 0\<rparr>"
  obtain ok s1 where s1: "osys (alloc (x_lib env)) s = Some (ok, s1)" using assms(1) unfolding xsk_setup_xdp_prog_def by (elim bind_pair_SomeE) blast
  have c1: "counted No_ref K X (fst s1)" using assms(2) osys_mem[OF s1] by simp
  show ?thesis
  proof (cases ok)
    case True
    then have "do {
       (ctx, s) \<leftarrow> xsk_init_xsk_struct env i s1;
       case ctx of
         Inl _ \<Rightarrow> Some ((- EINVAL, None), s)
       | Inr c \<Rightarrow> do { (res, s) \<leftarrow> xsk_setup_prog env c (?sk c) s; (_, s) \<leftarrow> xsk_destroy_xsk_struct env c s; Some (res, s) }
     } = Some (r, s')" using assms(1) s1 unfolding xsk_setup_xdp_prog_def by simp
    then obtain x s2 where s2: "xsk_init_xsk_struct env i s1 = Some (x, s2)"
      "(case x of Inl _ \<Rightarrow> Some ((- EINVAL, None), s2)
        | Inr c \<Rightarrow> do { (res, s) \<leftarrow> xsk_setup_prog env c (?sk c) s2; (_, s) \<leftarrow> xsk_destroy_xsk_struct env c s; Some (res, s) }) = Some (r, s')"
      by (elim bind_pair_SomeE) blast
    note c2 = init_struct_counted[OF s2(1) c1]
    show ?thesis
    proof (cases x)
      case (Inr c)
      then obtain y s3 z s4 where s3: "xsk_setup_prog env c (?sk c) s2 = Some (y, s3)" "xsk_destroy_xsk_struct env c s3 = Some (z, s4)" "s' = s4"
        using s2(2) by simp (elim bind_pair_SomeE, force)
      note r = setup_prog_refs[OF s3(1)]
      obtain ct where ct: "ctxs (fst s3) c = Some ct" "ctx_umem ct = None" using c2 Inr same_refs_ctx[OF r] by fastforce
      show ?thesis using destroy_struct_counted[OF s3(2) counted_same[OF r] ct] c2 s3(3) by simp
    qed (use s2(2) c2 in simp)
  qed (use assms(1) s1 c1 in \<open>auto simp: xsk_setup_xdp_prog_def\<close>)
qed

lemma update_xskmap_counted:
  assumes "xsk_socket__update_xskmap env k fd s = Some (r, s')" "counted t K X (fst s)"
  shows "counted t K X (fst s')"
proof -
  obtain c s1 where s1: "upd_ctx c (\<lambda>x. x\<lparr>ctx_xsks_map_fd := fd\<rparr>) s = Some s1" "fst s' = fst s1"
    using assms(1) by (auto simp: xsk_socket__update_xskmap_def elim!: bind_SomeE dest!: osys_mem)
  have "same_refs (fst s) (fst s1)" using s1(1) by (rule upd_ctx_refs) simp
  then show ?thesis using counted_same assms(2) s1(2) by metis
qed

end
