(* ===== verification/Xsk_Api.thy ===== *)
theory Xsk_Api
  imports Xsk_Refs
begin

text \<open>
  The calls of an application on AF\_XDP sockets as steps, and what holds in every state that they reach: the reference counts are
  exact, a live socket has a live context and region, a region is refused to be deleted just while it has sockets, and deleting a
  socket uses no freed structure.
\<close>

subsection \<open>Steps\<close>

text \<open>A failing call is a step like any other.  Between two calls the application and the kernel may change the ring structures
  and everything outside the heap of sockets.\<close>

inductive xsk_step :: "'w xsk_env \<Rightarrow> 'w xst \<Rightarrow> 'w xst \<Rightarrow> bool" for env :: "'w xsk_env" where
  step_umem_create: "xsk_umem__create_with_fd env fd area sz fill cmpl cfg s = Some (r, s') \<Longrightarrow> xsk_step env s s'"
| step_umem_delete: "xsk_umem__delete env u s = Some (r, s') \<Longrightarrow> xsk_step env s s'"
| step_create_shared: "xsk_socket__create_shared env ifname q u rx tx fill cmpl cfg s = Some (r, s') \<Longrightarrow> xsk_step env s s'"
| step_create: "xsk_socket__create env ifname q u rx tx cfg s = Some (r, s') \<Longrightarrow> xsk_step env s s'"
| step_delete: "xsk_socket__delete env k s = Some (r, s') \<Longrightarrow> xsk_step env s s'"
| step_update_xskmap: "xsk_socket__update_xskmap env k fd s = Some (r, s') \<Longrightarrow> xsk_step env s s'"
| step_setup_prog: "xsk_setup_xdp_prog env ifindex s = Some (r, s') \<Longrightarrow> xsk_step env s s'"
| step_outside: "xsk_step env s ((fst s)\<lparr>rings := rs\<rparr>, t)"

inductive xsk_reachable :: "'w xsk_env \<Rightarrow> 'w xst \<Rightarrow> bool" for env :: "'w xsk_env" where
  start: "umems m = Map.empty \<Longrightarrow> ctxs m = Map.empty \<Longrightarrow> xsks m = Map.empty \<Longrightarrow> xsk_reachable env (m, t)"
| call: "xsk_reachable env s \<Longrightarrow> xsk_step env s s' \<Longrightarrow> xsk_reachable env s'"

definition xsk_heap_ok :: "xmem \<Rightarrow> bool" where
  "xsk_heap_ok m \<longleftrightarrow> refs_ok No_ref (dom (xsks m)) m"

lemma heap_ok_counted: "xsk_heap_ok m \<longleftrightarrow> counted No_ref (dom (xsks m)) (xsks m) m"
  by (simp add: xsk_heap_ok_def counted_def)

lemma counted_heap_ok: "counted No_ref (dom X) X m \<Longrightarrow> xsk_heap_ok m"
  by (auto simp: xsk_heap_ok_def counted_def)

lemma created_heap_ok: "created ko (dom X) X m \<Longrightarrow> xsk_heap_ok m"
  by (auto simp: created_def xsk_heap_ok_def counted_def split: option.splits)

lemma delete_heap_ok:
  assumes "xsk_socket__delete env ko s = Some (r, s')" "xsk_heap_ok (fst s)"
  shows "xsk_heap_ok (fst s')"
proof (cases ko)
  case (Some k)
  then have "k \<in> dom (xsks (fst s))" using assms(1) by (auto simp: xsk_socket__delete_def elim!: bind_SomeE)
  from delete_counted[OF assms(1)[unfolded Some] assms(2)[unfolded heap_ok_counted] this]
  show ?thesis by (intro counted_heap_ok[of "(xsks (fst s))(k := None)"]) simp
qed (use assms in \<open>simp add: xsk_socket__delete_def\<close>)

lemma step_heap_ok:
  assumes "xsk_step env s s'" "xsk_heap_ok (fst s)" "no_socket_error env"
  shows "xsk_heap_ok (fst s')"
  using assms(1)
proof (cases rule: xsk_step.cases)
  case (step_create_shared ifname q u rx tx fill cmpl cfg r)
  then show ?thesis
    using created_heap_ok[OF create_shared_counted[of env ifname q u rx tx fill cmpl cfg s "fst r" "snd r"]] assms(2,3)
    by (simp add: heap_ok_counted)
next
  case (step_create ifname q u rx tx cfg r)
  then show ?thesis
    using created_heap_ok[OF create_counted[of env ifname q u rx tx cfg s "fst r" "snd r"]] assms(2,3) by (simp add: heap_ok_counted)
next
  case (step_outside rs t)
  have r: "same_refs (fst s) (fst s')" using step_outside by (simp add: same_refs_def)
  show ?thesis using counted_heap_ok[OF counted_same[OF r]] assms(2) by (simp add: heap_ok_counted)
next
  case (step_umem_create fd area sz fill cmpl cfg r)
  then show ?thesis using counted_heap_ok[OF umem_create_counted] assms(2) by (simp add: heap_ok_counted)
next
  case (step_umem_delete u r)
  then show ?thesis using counted_heap_ok[OF umem_delete_counted] assms(2) by (simp add: heap_ok_counted)
next
  case (step_update_xskmap k fd r)
  then show ?thesis using counted_heap_ok[OF update_xskmap_counted] assms(2) by (simp add: heap_ok_counted)
next
  case (step_setup_prog i r)
  then show ?thesis using counted_heap_ok[OF setup_xdp_prog_counted] assms(2) by (simp add: heap_ok_counted)
qed (use assms(2) delete_heap_ok in simp)

lemma reach_heap_ok: "xsk_reachable env s \<Longrightarrow> no_socket_error env \<Longrightarrow> xsk_heap_ok (fst s)"
proof (induction rule: xsk_reachable.induct)
  case (start m t)
  then show ?case by (simp add: xsk_heap_ok_def refs_ok_def addrs_ok_def)
qed (rule step_heap_ok)

subsection \<open>The sockets of a region\<close>

definition sockets_of :: "xmem \<Rightarrow> nat \<Rightarrow> nat set" where
  "sockets_of m u = {k. \<exists>sk c ct. xsks m k = Some sk \<and> sk_ctx sk = Some c \<and> ctxs m c = Some ct \<and> ctx_umem ct = Some u}"

lemma sockets_of_users:
  assumes ok: "xsk_heap_ok m" and u: "umems m u = Some um"
  shows "sockets_of m u = (\<Union>c \<in> set (ctx_list um). users m (dom (xsks m)) c)"
proof -
  have um: "umem_counted No_ref m u um" using ok u by (simp add: xsk_heap_ok_def refs_ok_def)
  have "c \<in> set (ctx_list um) \<longleftrightarrow> (\<exists>ct. ctxs m c = Some ct \<and> ctx_umem ct = Some u)" for c
    using ctx_of_one_umem[OF ok[unfolded xsk_heap_ok_def] _ _ u] um by (fastforce simp: umem_counted_def)
  then show ?thesis by (auto simp: sockets_of_def users_def)
qed

lemma refcount_sockets:
  assumes ok: "xsk_heap_ok m" and u: "umems m u = Some um"
  shows "umem_refcount um = int (card (sockets_of m u))" "finite (sockets_of m u)"
proof -
  let ?U = "users m (dom (xsks m))"
  have um: "umem_counted No_ref m u um" using ok u by (simp add: xsk_heap_ok_def refs_ok_def)
  have fin: "finite (?U c)" for c using ok by (simp add: xsk_heap_ok_def refs_ok_def users_def)
  have "ctx_refcount (the (ctxs m c)) = int (card (?U c))" if c: "c \<in> set (ctx_list um)" for c
  proof -
    obtain ct where ct: "ctxs m c = Some ct" "ctx_umem ct = Some u" using um c by (auto simp: umem_counted_def)
    then have "ctx_counted No_ref (dom (xsks m)) m c ct" using ok by (simp add: xsk_heap_ok_def refs_ok_def)
    then show ?thesis using ct by (simp add: ctx_counted_def)
  qed
  then have "umem_refcount um = (\<Sum>c \<in> set (ctx_list um). int (card (?U c)))" using um by (simp add: umem_counted_def)
  also have "\<dots> = int (card (\<Union>c \<in> set (ctx_list um). ?U c))"
    using fin by (subst card_UN_disjoint) (auto simp: users_def)
  finally show "umem_refcount um = int (card (sockets_of m u))" by (simp add: sockets_of_users[OF ok u])
  show "finite (sockets_of m u)" using fin by (simp add: sockets_of_users[OF ok u])
qed

subsection \<open>Calls that return\<close>

text \<open>System calls return, and so does what only makes system calls.\<close>

declare split_paired_Ex [simp del] split_paired_All [simp del]

lemma osys_returns: "\<exists>r s'. osys f s = Some (r, s')"
  by (simp add: osys_def split: prod.splits)

lemma offsets_returns: "\<exists>r s'. xsk_get_mmap_offsets env fd s = Some (r, s')"
  using osys_returns[of "x_offsets env fd" s] by (auto simp: xsk_get_mmap_offsets_def)

lemma unmap_ring_returns: "\<exists>r s'. unmap_ring env r0 off n b s = Some (r, s')"
  unfolding unmap_ring_def by (rule osys_returns)

lemma close'_returns: "\<exists>s'. close' env fd s = Some ((), s')"
  unfolding close'_def using osys_returns[of "close_fd (x_lib env) fd" s] by auto

lemma bind_returns: "\<exists>r s'. f = Some (r, s') \<Longrightarrow> (\<And>r s'. f = Some (r, s') \<Longrightarrow> \<exists>x t. g r s' = Some (x, t)) \<Longrightarrow> \<exists>x t. (do { (r, s) \<leftarrow> f; g r s }) = Some (x, t)"
  by fastforce

lemma unmap_ctx_returns: "has_rings ct \<Longrightarrow> \<exists>r s'. unmap_ctx env ct um s = Some (r, s')"
  unfolding unmap_ctx_def
  by (rule bind_returns[OF offsets_returns]) (auto simp: has_rings_def intro!: bind_returns unmap_ring_returns split: sum.splits)

lemma delete_rings_returns: "\<exists>r s'. delete_rings env sk s = Some (r, s')"
  unfolding delete_rings_def
  by (rule bind_returns[OF offsets_returns]) (auto intro!: bind_returns unmap_ring_returns split: sum.splits option.splits)

lemma free_ctx_returns: "umems (fst s) u = Some um \<Longrightarrow> \<exists>s'. free_ctx u c s = Some s' \<and> umems (fst s') u \<noteq> None"
  by (simp add: free_ctx_def upd_umem_def)

lemma put_ctx_returns:
  assumes "ctxs (fst s) c = Some ct" "ctx_umem ct = Some u" "umems (fst s) u = Some um" "has_rings ct"
  shows "\<exists>s'. xsk_put_ctx env c True s = Some ((), s') \<and> umems (fst s') u \<noteq> None"
proof -
  let ?s = "((fst s)\<lparr>ctxs := (ctxs (fst s))(c \<mapsto> ct\<lparr>ctx_refcount := ctx_refcount ct - 1\<rparr>)\<rparr>, snd s)"
  obtain r s1 where s1: "unmap_ctx env ct um ?s = Some (r, s1)" using unmap_ctx_returns[OF assms(4)] by blast
  have "umems (fst s1) u = Some um" using unmap_ctx_mem[OF s1] assms(3) by simp
  then obtain s2 where "free_ctx u c s1 = Some s2" "umems (fst s2) u \<noteq> None" using free_ctx_returns by blast
  then show ?thesis using assms s1 by (auto simp: xsk_put_ctx_def upd_ctx_def)
qed

lemma delete_umem_ref_returns: "umems (fst s) u \<noteq> None \<Longrightarrow> \<exists>s'. delete_umem_ref env u sk s = Some ((), s')"
  by (auto simp: delete_umem_ref_def upd_umem_def intro!: close'_returns)

lemma heap_ok_socket:
  assumes "xsk_heap_ok m" "xsks m k = Some sk"
  obtains c ct u um where "sk_ctx sk = Some c" "ctxs m c = Some ct" "ctx_umem ct = Some u" "umems m u = Some um" "has_rings ct"
proof -
  have "socket_ok m k" using assms by (auto simp: xsk_heap_ok_def refs_ok_def)
  then obtain c ct u where c: "sk_ctx sk = Some c" "ctxs m c = Some ct" "ctx_umem ct = Some u" using assms(2) by (auto simp: socket_ok_def)
  then have "ctx_counted No_ref (dom (xsks m)) m c ct" using assms(1) by (simp add: xsk_heap_ok_def refs_ok_def)
  then show thesis using that c by (auto simp: ctx_counted_def)
qed

lemma delete_returns:
  assumes ok: "xsk_heap_ok (fst s)" and k: "xsks (fst s) k = Some sk" "sk_ctx sk = Some c" "ctxs (fst s) c = Some ct" "ctx_prog ct = None"
  shows "\<exists>s'. xsk_socket__delete env (Some k) s = Some ((), s') \<and> xsks (fst s') k = None"
proof -
  obtain u um where u: "ctx_umem ct = Some u" "umems (fst s) u = Some um" "has_rings ct"
    using heap_ok_socket[OF ok k(1)] k by (metis option.inject)
  obtain r s1 where s1: "delete_rings env sk s = Some (r, s1)" using delete_rings_returns by blast
  have m1: "fst s1 = fst s" by (rule delete_rings_mem[OF s1])
  obtain s2 where s2: "xsk_put_ctx env c True s1 = Some ((), s2)" "umems (fst s2) u \<noteq> None"
    using put_ctx_returns[of s1 c ct u um env] k u m1 by auto
  obtain s3 where s3: "delete_umem_ref env u sk s2 = Some ((), s3)" using delete_umem_ref_returns[OF s2(2)] by blast
  show ?thesis using k u s1 s2(1) s3 by (simp add: xsk_socket__delete_def delete_program_def)
qed

lemma umem_delete_returns:
  assumes "umems (fst s) u = Some um" "umem_refcount um = 0"
  shows "\<exists>s'. xsk_umem__delete env (Some u) s = Some (0, s') \<and> umems (fst s') u = None"
proof -
  have "\<exists>r s1. unmap_saved env um s = Some (r, s1)"
    unfolding unmap_saved_def
    by (rule bind_returns[OF offsets_returns]) (auto intro!: bind_returns unmap_ring_returns split: sum.splits option.splits)
  then obtain r s1 where s1: "unmap_saved env um s = Some (r, s1)" by blast
  obtain s2 where s2: "close' env (umem_fd um) s1 = Some ((), s2)" using close'_returns by blast
  show ?thesis using assms s1 s2 by (simp add: xsk_umem__delete_def)
qed

subsection \<open>A concrete kernel\<close>

text \<open>Descriptors are those of the kernel of \<open>Libxdp_Proofs\<close>; rings are mapped at a fixed address.\<close>

definition x_env :: "kworld xsk_env" where
  "x_env = \<lparr>x_lib = k_env, x_object_path = ''/lib'', x_qsort = isort_by, x_pagesize = 4096, x_errno = \<lambda>w. (0, w),
     x_socket = open_new, x_local_socket = open_new, x_setsockopt = \<lambda>_ _ w. (0, w),
     x_offsets = \<lambda>_ w. (Inr [0, 64, 128, 192, 0, 64, 128, 192, 0, 64, 128, 192, 0, 64, 128, 192], w),
     x_netns_cookie = \<lambda>_ w. (Inr 1, w), x_bind = \<lambda>_ _ w. (0, w), x_mmap = \<lambda>_ _ _ w. (Inr 65536, w), x_munmap = \<lambda>_ _ w. (0, w),
     x_load32 = \<lambda>_ w. (0, w), x_nametoindex = \<lambda>_ w. (Inr 3, w), x_indextoname = \<lambda>_ w. (Inr ''eth0'', w),
     x_channels = \<lambda>_ _ w. (Inr (4, 4, 4), w), x_readdir = \<lambda>_ w. (None, w), x_find_map = \<lambda>_ _ w. (None, w),
     x_set_max_entries = \<lambda>_ _ w. (0, w), x_map_ids = \<lambda>_ _ w. (Inr (0, []), w), x_map_info = \<lambda>_ w. (Inl (- ENOENT), w),
     x_map_update = \<lambda>_ _ _ w. (0, w), x_map_update0 = \<lambda>_ _ w. (0, w), x_map_delete = \<lambda>_ _ w. (0, w), x_map_create = open_new,
     x_load_test_prog = \<lambda>_. open_new, x_test_run = \<lambda>_ w. (Inr 2, w)\<rparr>"

text \<open>A state with given regions, contexts and sockets, the next address, the rings, and the open descriptors.\<close>

definition x_state ::
  "(nat \<Rightarrow> xsk_umem option) \<Rightarrow> (nat \<Rightarrow> xsk_ctx option) \<Rightarrow> (nat \<Rightarrow> xsk_socket option) \<Rightarrow> nat \<Rightarrow> int list \<Rightarrow> (nat \<Rightarrow> mapped_ring) \<Rightarrow> kworld xst" where
  "x_state U C K n fds rs =
     (\<lparr>umems = U, ctxs = C, xsks = K, rings = rs, next_addr = n, freed_progs = []\<rparr>, ([], \<lparr>w_fds = fds, w_files = []\<rparr>))"

definition x_config :: xsk_socket_config where
  "x_config = \<lparr>rx_size = 2048, tx_size = 2048, libbpf_flags = 1, xdp_flags = 0, bind_flags = 0\<rparr>"

lemmas x_eval = x_env_def k_env_def osys_def close'_def Let_def upd_umem_def upd_ctx_def set_ring_def map_ring_def ring_bytes_def
  xsk_get_mmap_offsets_def ring_offset_def offsets_errno_def open_new_def fresh_fd_def unmap_ring_def

lemmas x_umem_eval = xsk_umem__create_def xsk_umem__create_with_fd_def umem_create_on_def umem_setup_def link_umem_def new_umem_def
  xsk_set_umem_config_def xsk_create_umem_rings_def xsk_page_aligned_def

lemmas x_create_eval = xsk_socket__create_def xsk_socket__create_shared_def create_on_umem_def xsk_set_xdp_socket_config_def create_context_def
  xsk_get_ctx_def xsk_create_ctx_def ctx_rings_def link_ctx_def create_rings_def declare_ring_def create_map_rx_def create_map_tx_def map_tx_def
  create_bind_def bind_address_def create_program_def create_done_def frame_xsk_def

definition x_umem :: "int \<Rightarrow> nat option \<times> nat option \<Rightarrow> nat list \<Rightarrow> bool \<Rightarrow> xsk_umem" where
  "x_umem n saved cs d = \<lparr>fill_save = fst saved, comp_save = snd saved, umem_area = 4096, umem_config = xsk_set_umem_config None, umem_fd = 3,
     umem_refcount = n, ctx_list = cs, rx_ring_setup_done = d, tx_ring_setup_done = d\<rparr>"

definition x_ctx :: "int \<Rightarrow> xsk_ctx" where
  "x_ctx n = \<lparr>ctx_fill = Some 0, ctx_comp = Some 1, ctx_umem = Some 0, ctx_queue_id = 0, ctx_refcount = n, ctx_ifindex = 3,
     ctx_netns_cookie = 1, ctx_xsks_map_fd = 0, ctx_prog = None, ctx_refcnt_map_fd = 0, ctx_ifname = ''eth0''\<rparr>"

definition x_sock :: "nat \<Rightarrow> int \<Rightarrow> xsk_socket" where
  "x_sock r fd = \<lparr>sk_rx = Some r, sk_tx = Some (r + 1), sk_ctx = Some 1, sk_config = x_config, sk_fd = fd\<rparr>"

text \<open>A region, a socket on it, and a second one on the same queue.\<close>

definition x_start :: "(nat \<Rightarrow> mapped_ring) \<Rightarrow> kworld xst" where
  "x_start = x_state Map.empty Map.empty Map.empty 0 [0, 1, 2]"

definition x_one :: "(nat \<Rightarrow> mapped_ring) \<Rightarrow> kworld xst" where
  "x_one = x_state [0 \<mapsto> x_umem 1 (None, None) [1] True] [1 \<mapsto> x_ctx 1] [2 \<mapsto> x_sock 2 3] 3 [3, 0, 1, 2]"

definition x_two :: "(nat \<Rightarrow> mapped_ring) \<Rightarrow> kworld xst" where
  "x_two = x_state [0 \<mapsto> x_umem 2 (None, None) [1] True] [1 \<mapsto> x_ctx 2] [2 \<mapsto> x_sock 2 3, 3 \<mapsto> x_sock 4 4] 4 [4, 3, 0, 1, 2]"

lemmas x_states = x_state_def x_umem_def x_ctx_def x_sock_def x_config_def xsk_set_umem_config_def

lemma x_run_umem: "\<exists>rs'. xsk_umem__create x_env 4096 8192 (Some 0) (Some 1) None (x_start rs)
    = Some ((0, Some 0), x_state [0 \<mapsto> x_umem 0 (Some 0, Some 1) [] False] Map.empty Map.empty 1 [3, 0, 1, 2] rs')"
  by (simp add: x_eval x_umem_eval x_states x_start_def)

lemma x_run_one: "\<exists>rs'. xsk_socket__create x_env ''eth0'' 0 (Some 0) (Some 2) (Some 3) (Some x_config)
      (x_state [0 \<mapsto> x_umem 0 (Some 0, Some 1) [] False] Map.empty Map.empty 1 [3, 0, 1, 2] rs)
    = Some ((0, Some 2), x_one rs')"
  by (simp add: x_eval x_create_eval x_states x_one_def numeral_2_eq_2 numeral_3_eq_3)

lemma x_run_two: "\<exists>rs'. xsk_socket__create x_env ''eth0'' 0 (Some 0) (Some 4) (Some 5) (Some x_config) (x_one rs) = Some ((0, Some 3), x_two rs')"
  by (simp add: x_eval x_create_eval x_states x_one_def x_two_def)

declare split_paired_Ex [simp] split_paired_All [simp]

lemma x_no_error: "no_socket_error x_env"
  using fresh_fd by (simp add: no_socket_error_def x_env_def open_new_def)

lemma x_reachable_one: "\<exists>rs. xsk_reachable x_env (x_one rs)"
proof -
  have "xsk_reachable x_env (x_start rs)" for rs unfolding x_start_def x_state_def by (rule start) simp_all
  then obtain rs where "xsk_reachable x_env (x_state [0 \<mapsto> x_umem 0 (Some 0, Some 1) [] False] Map.empty Map.empty 1 [3, 0, 1, 2] rs)"
    using x_run_umem[unfolded xsk_umem__create_def] call step_umem_create by metis
  then show ?thesis using x_run_one call step_create by metis
qed

lemma x_reachable: "\<exists>rs. xsk_reachable x_env (x_two rs)"
  using x_reachable_one x_run_two call step_create by metis

subsection \<open>Properties\<close>



text \<open>C20: the reference count of a region is the number of live sockets on it, over all queues; so \<open>xsk_umem__delete\<close> refuses, and
  changes nothing, exactly while a socket uses the region, and otherwise deletes it.\<close>

theorem umem_delete_busy:
  assumes "no_socket_error env" "xsk_reachable env s" "umems (fst s) u = Some um"
  shows "umem_refcount um = int (card (sockets_of (fst s) u))
    \<and> (if sockets_of (fst s) u \<noteq> {} then xsk_umem__delete env (Some u) s = Some (- EBUSY, s)
       else \<exists>s'. xsk_umem__delete env (Some u) s = Some (0, s') \<and> umems (fst s') u = None)"
proof -
  note ok = reach_heap_ok[OF assms(2,1)]
  note rc = refcount_sockets[OF ok assms(3)]
  show ?thesis
  proof (cases "sockets_of (fst s) u = {}")
    case True
    then show ?thesis using rc umem_delete_returns[of s u um env] assms(3) by simp
  next
    case False
    then have "umem_refcount um \<noteq> 0" using rc by simp
    then show ?thesis using rc(1) assms(3) False by (simp add: xsk_umem__delete_def)
  qed
qed

lemma x_two_sockets: "sockets_of (fst (x_two rs)) 0 = {2, 3}"
  by (auto simp: sockets_of_def x_two_def x_states split: if_splits)

theorem umem_delete_busy_witness:
  "\<exists>rs. xsk_reachable x_env (x_two rs) \<and> xsk_umem__delete x_env (Some 0) (x_two rs) = Some (- EBUSY, x_two rs)"
proof -
  obtain rs where rs: "xsk_reachable x_env (x_two rs)" using x_reachable by blast
  have "umems (fst (x_two rs)) 0 = Some (x_umem 2 (None, None) [1] True)" by (simp add: x_two_def x_state_def)
  from umem_delete_busy[OF x_no_error rs this] rs show ?thesis by (auto simp: x_two_sockets)
qed

text \<open>deleting a live socket that has no program uses no freed structure, whatever the calls before it: it returns, and the
  socket is gone.\<close>

theorem socket_delete_safe:
  assumes "no_socket_error env" "xsk_reachable env s" "xsks (fst s) k = Some sk" "sk_ctx sk = Some c"
    and "\<forall>ct. ctxs (fst s) c = Some ct \<longrightarrow> ctx_prog ct = None"
  shows "\<exists>s'. xsk_socket__delete env (Some k) s = Some ((), s') \<and> xsks (fst s') k = None"
proof -
  note ok = reach_heap_ok[OF assms(2,1)]
  obtain ct where "ctxs (fst s) c = Some ct" using heap_ok_socket[OF ok assms(3)] assms(4) by (metis option.inject)
  then show ?thesis using delete_returns[OF ok assms(3,4)] assms(5) by blast
qed

theorem socket_delete_safe_witness:
  "\<exists>rs s'. xsk_socket__delete x_env (Some 3) (x_two rs) = Some ((), s') \<and> xsks (fst s') 3 = None"
proof -
  obtain rs where rs: "xsk_reachable x_env (x_two rs)" using x_reachable by blast
  have "xsks (fst (x_two rs)) 3 = Some (x_sock 4 4)" "sk_ctx (x_sock 4 4) = Some 1" "\<forall>ct. ctxs (fst (x_two rs)) 1 = Some ct \<longrightarrow> ctx_prog ct = None"
    by (simp_all add: x_two_def x_states)
  from socket_delete_safe[OF x_no_error rs this] show ?thesis by blast
qed

end
