(* ===== verification/Xsk_Faults.thy ===== *)
theory Xsk_Faults
  imports Xsk_Api
begin

text \<open>
  Where the error paths of AF\_XDP sockets go wrong: a reference to a region that is kept when no descriptor can be opened, the
  mapping of the fill ring that is kept when the completion ring cannot be mapped, an error pointer that is closed as a program,
  and a program that two sockets of one queue close both.
\<close>

subsection \<open>A region that cannot be deleted any more\<close>

text \<open>C22: when \<open>socket()\<close> fails for a further socket of a region, \<open>xsk_socket__create_shared\<close> returns the error and keeps the
  reference it has taken: in a well-formed heap the region then counts one socket too many.\<close>

theorem create_shared_leaks_reference:
  assumes "xsk_heap_ok (fst s)" "umems (fst s) u = Some um" "sockets_of (fst s) u \<noteq> {}" "rx \<noteq> None \<or> tx \<noteq> None"
    and "\<forall>w. fst (alloc (x_lib env) w)" "xsk_set_xdp_socket_config cfg = Inr c" "\<forall>w. \<exists>i w'. x_nametoindex env ifname w = (Inr i, w')"
    and "\<forall>w. fst (x_socket env w) < 0"
  shows "\<exists>e s' um'. xsk_socket__create_shared env ifname q (Some u) rx tx fill cmpl cfg s = Some ((e, None), s') \<and> e < 0
    \<and> sockets_of (fst s') u = sockets_of (fst s) u
    \<and> umems (fst s') u = Some um' \<and> umem_refcount um' = int (card (sockets_of (fst s') u)) + 1"
proof -
  note rc = refcount_sockets[OF assms(1,2)]
  have pos: "0 < umem_refcount um" using rc assms(3) by (simp add: card_gt_0_iff)
  let ?m = "(fst s)\<lparr>umems := (umems (fst s))(u \<mapsto> um\<lparr>umem_refcount := umem_refcount um + 1\<rparr>)\<rparr>"
  obtain ok w1 where w1: "alloc (x_lib env) (snd (snd s)) = (ok, w1)" by fastforce
  obtain i w2 where w2: "x_nametoindex env ifname w1 = (Inr i, w2)" using assms(7) by blast
  obtain fd w3 where w3: "x_socket env w2 = (fd, w3)" by fastforce
  have f: "ok" "fd < 0" using assms(5)[rule_format, of "snd (snd s)"] assms(8)[rule_format, of w2] w1 w3 by auto
  have "xsk_socket__create_shared env ifname q (Some u) rx tx fill cmpl cfg s = Some ((fd, None), (?m, (fst (snd s), w3)))"
    using assms(2,4,6) w1 w2 w3 f pos by (auto simp: xsk_socket__create_shared_def create_on_umem_def osys_def upd_umem_def)
  moreover have "sockets_of ?m u = sockets_of (fst s) u" by (simp add: sockets_of_def)
  ultimately show ?thesis using f(2) rc(1) by simp
qed

definition full_env :: "kworld xsk_env" where
  "full_env = x_env\<lparr>x_socket := \<lambda>w. (- 24, w)\<rparr>"

lemma x_one_sockets: "sockets_of (fst (x_one rs)) 0 = {2}"
  by (auto simp: sockets_of_def x_one_def x_states split: if_splits)

theorem create_shared_leaks_reference_witness:
  "\<exists>rs e s' um'. xsk_socket__create_shared full_env ''eth0'' 1 (Some 0) (Some 4) None (Some 6) (Some 7) None (x_one rs) = Some ((e, None), s')
     \<and> sockets_of (fst s') 0 = {2} \<and> umems (fst s') 0 = Some um' \<and> umem_refcount um' = 2"
proof -
  obtain rs where "xsk_reachable x_env (x_one rs)" using x_reachable_one by blast
  then have ok: "xsk_heap_ok (fst (x_one rs))" using reach_heap_ok x_no_error by blast
  have "umems (fst (x_one rs)) 0 = Some (x_umem 1 (None, None) [1] True)" by (simp add: x_one_def x_state_def)
  moreover have "\<forall>w. fst (alloc (x_lib full_env) w)" "\<forall>w. \<exists>i w'. x_nametoindex full_env ''eth0'' w = (Inr i, w')" "\<forall>w. fst (x_socket full_env w) < 0"
    by (simp_all add: full_env_def x_env_def k_env_def)
  moreover have "xsk_set_xdp_socket_config None = Inr \<lparr>rx_size = 2048, tx_size = 2048, libbpf_flags = 0, xdp_flags = 0, bind_flags = 0\<rparr>"
    by (simp add: xsk_set_xdp_socket_config_def)
  ultimately obtain e s' um' where
    "xsk_socket__create_shared full_env ''eth0'' 1 (Some 0) (Some 4) None (Some 6) (Some 7) None (x_one rs) = Some ((e, None), s')"
    "sockets_of (fst s') 0 = {2}" "umems (fst s') 0 = Some um'" "umem_refcount um' = 2"
    using create_shared_leaks_reference[OF ok, of 0 _ "Some 4" None full_env None _ "''eth0''" 1 "Some 6" "Some 7"]
    by (fastforce simp: x_one_sockets)
  then show ?thesis by blast
qed

subsection \<open>A program closed twice\<close>

lemma release_closes:
  assumes "xsk_release_xdp_prog env c sk s = Some (r, s')" "ctxs (fst s) c = Some ct" "ctx_prog ct = Some (Inr q)"
  shows "q \<notin> set (freed_progs (fst s)) \<and> fst s' = (fst s)\<lparr>freed_progs := q # freed_progs (fst s)\<rparr>"
  using assms unfolding xsk_release_xdp_prog_def xsk_decr_prog_refcnt_def
  by (auto simp: close_prog_def simp del: Option.bind_assoc elim!: bind_pair_SomeE dest!: lib_mem update_refcnt_mem split: if_splits)

lemma delete_program_closes:
  assumes "delete_program env c ct sk s = Some (r, s')" "ctxs (fst s) c = Some ct" "ctx_prog ct = Some (Inr q)"
  shows "q \<notin> set (freed_progs (fst s)) \<and> fst s' = (fst s)\<lparr>freed_progs := q # freed_progs (fst s)\<rparr>"
proof -
  obtain x s1 where s1: "xsk_delete_map_entry env (ctx_xsks_map_fd ct) (ctx_queue_id ct) s = Some (x, s1)" "xsk_release_xdp_prog env c sk s1 = Some (r, s')"
    using assms(1,3) unfolding delete_program_def by (auto elim!: bind_pair_SomeE)
  show ?thesis using release_closes[OF s1(2)] assms(2,3) delete_map_entry_mem[OF s1(1)] by simp
qed

lemma delete_closes:
  assumes "xsk_socket__delete env (Some k) s = Some (r, s')" "xsks (fst s) k = Some sk" "sk_ctx sk = Some c"
    and "ctxs (fst s) c = Some ct" "ctx_prog ct = Some (Inr q)" "ctx_refcount ct \<noteq> 1"
  shows "q \<notin> set (freed_progs (fst s)) \<and> q \<in> set (freed_progs (fst s')) \<and> xsks (fst s') = (xsks (fst s))(k := None)
    \<and> ctxs (fst s') c = Some (ct\<lparr>ctx_refcount := ctx_refcount ct - 1\<rparr>)"
proof -
  obtain u x1 s1 x2 s2 x3 s3 x4 s4 where
    s1: "delete_program env c ct sk s = Some (x1, s1)" and s2: "delete_rings env sk s1 = Some (x2, s2)"
    and s3: "xsk_put_ctx env c True s2 = Some (x3, s3)" and s4: "delete_umem_ref env u sk s3 = Some (x4, s4)"
    and s': "Some ((), ((fst s4)\<lparr>xsks := (xsks (fst s4))(k := None)\<rparr>, snd s4)) = Some (r, s')"
    using assms(1-4) unfolding xsk_socket__delete_def by (simp only: option.case bind.simps) (elim bind_SomeE bind_pair_SomeE, blast)
  note m1 = delete_program_closes[OF s1 assms(4,5)]
  have m2: "fst s2 = fst s1" by (rule delete_rings_mem[OF s2])
  have m3: "fst s3 = (fst s2)\<lparr>ctxs := (ctxs (fst s2))(c \<mapsto> ct\<lparr>ctx_refcount := ctx_refcount ct - 1\<rparr>)\<rparr>"
    using s3 assms(4,6) m1 m2 by (auto simp: xsk_put_ctx_def upd_ctx_def)
  obtain U where m4: "fst s4 = (fst s3)\<lparr>umems := U\<rparr>"
    using s4 by (auto simp: delete_umem_ref_def upd_umem_def elim!: bind_SomeE dest!: sock_mem split: if_splits)
  show ?thesis using s' m1 m2 m3 m4 by auto
qed

text \<open>C23: two sockets on one queue of an interface share a context and its program.  Deleting the first of them closes the program
  but leaves the pointer in the context, so deleting the second uses a freed program.\<close>

theorem delete_second_socket_faults:
  assumes "xsks (fst s) k = Some sk" "sk_ctx sk = Some c" "xsks (fst s) k' = Some sk'" "sk_ctx sk' = Some c" "k' \<noteq> k"
    and "ctxs (fst s) c = Some ct" "ctx_prog ct = Some (Inr q)" "ctx_refcount ct = 2"
    and "xsk_socket__delete env (Some k) s = Some ((), s')"
  shows "xsk_socket__delete env (Some k') s' = None"
proof -
  note d = delete_closes[OF assms(9,1,2,6,7)]
  have "delete_program env c (ct\<lparr>ctx_refcount := ctx_refcount ct - 1\<rparr>) sk' s' = None"
    using delete_program_closes[of env c "ct\<lparr>ctx_refcount := ctx_refcount ct - 1\<rparr>" sk' s' "()"] d assms(7,8)
    by (cases "delete_program env c (ct\<lparr>ctx_refcount := ctx_refcount ct - 1\<rparr>) sk' s'") auto
  then show ?thesis using d assms(3-5,8) by (simp add: xsk_socket__delete_def Option.bind_eq_None_conv split: option.split)
qed

definition x_shared :: "kworld xst" where
  "x_shared = (\<lparr>umems = [0 \<mapsto> x_umem 2 (None, None) [1] True], ctxs = [1 \<mapsto> (x_ctx 2)\<lparr>ctx_prog := Some (Inr 0), ctx_refcnt_map_fd := - 2\<rparr>],
     xsks = [2 \<mapsto> x_sock 2 3, 3 \<mapsto> x_sock 4 4], rings = \<lambda>_. \<lparr>cached_prod = 0, cached_cons = 0, r_mask = 0, r_size = 0,
     ring_producer = 0, ring_consumer = 0, ring_descs = 0, ring_flags = 0\<rparr>, next_addr = 4, freed_progs = []\<rparr>, k_start)"

theorem delete_second_socket_faults_witness:
  "\<exists>s'. xsk_socket__delete x_env (Some 2) x_shared = Some ((), s') \<and> xsk_socket__delete x_env (Some 3) s' = None"
proof -
  have "\<exists>s'. xsk_socket__delete x_env (Some 2) x_shared = Some ((), s')"
    by (simp add: xsk_socket__delete_def delete_program_def delete_rings_def delete_umem_ref_def xsk_put_ctx_def xsk_delete_map_entry_def
        xsk_release_xdp_prog_def close_prog_def xdp_program__close_def close_if_def sys_def prog_at_def lib_def xdp_program__new_def
        x_shared_def k_start_def x_eval x_states)
  then obtain s' where "xsk_socket__delete x_env (Some 2) x_shared = Some ((), s')" by blast
  with delete_second_socket_faults[of x_shared 2 "x_sock 2 3" 1 3 "x_sock 4 4" "(x_ctx 2)\<lparr>ctx_prog := Some (Inr 0), ctx_refcnt_map_fd := - 2\<rparr>" 0]
  show ?thesis by (simp add: x_shared_def x_sock_def x_ctx_def del: split_paired_Ex)
qed

subsection \<open>An error pointer closed as a program\<close>

definition no_default_file :: "'w xsk_env \<Rightarrow> bool" where
  "no_default_file env \<longleftrightarrow> (\<forall>f s. \<exists>e s'. xdp_program__find_file (x_lib env) (x_object_path env) f None None s = Some (Inl e, s'))"

definition no_socket_prog :: "'w xsk_env \<Rightarrow> int \<Rightarrow> bool" where
  "no_socket_prog env ifindex \<longleftrightarrow> (\<forall>s. \<exists>s'. xsk_lookup_program env ifindex s = Some (None, s'))"

definition error_left :: "nat \<Rightarrow> xmem \<Rightarrow> bool" where
  "error_left c m \<longleftrightarrow> (\<exists>ct e. ctxs m c = Some ct \<and> ctx_prog ct = Some (Inl e))"

lemma setup_load_error_left:
  assumes "setup_load env c sk s = Some (r, s')" "no_default_file env"
  shows "(\<exists>e. r = Some (True, e)) \<and> error_left c (fst s')"
proof -
  obtain fl s1 where s1: "xsk_check_redirect_flags env s = Some (fl, s1)"
    using assms(1) unfolding setup_load_def by (elim bind_SomeE bind_pair_SomeE) blast
  obtain e t where t: "xdp_program__find_file (x_lib env) (x_object_path env)
      (if fl then ''xsk_def_xdp_prog.o'' else ''xsk_def_xdp_prog_5.3.o'') None None (snd s1) = Some (Inl e, t)"
    using assms(2) unfolding no_default_file_def by blast
  show ?thesis using assms(1) s1 t by (auto simp: setup_load_def lib_def upd_ctx_def error_left_def elim!: bind_SomeE)
qed

lemma setup_from_prog_error_left:
  assumes "setup_from_prog env c sk s = Some (r, s')" "no_default_file env" "ctxs (fst s) c = Some ct" "ctx_prog ct = None"
  shows "error_left c (fst s')"
proof -
  obtain x s1 where s1: "setup_load env c sk s = Some (x, s1)"
    using assms(1,3,4) unfolding setup_from_prog_def Let_def by (auto elim!: bind_pair_SomeE)
  show ?thesis using setup_load_error_left[OF s1 assms(2)] assms(1,3,4) s1 by (auto simp: setup_from_prog_def)
qed

lemma setup_prog_error_left:
  assumes "xsk_setup_prog env c sk s = Some (r, s')" "no_default_file env" "ctxs (fst s) c = Some ct" "no_socket_prog env (ctx_ifindex ct)"
  shows "error_left c (fst s')"
proof -
  obtain s1 where s1: "xsk_lookup_program env (ctx_ifindex ct) s = Some (None, s1)" using assms(4) unfolding no_socket_prog_def by blast
  have m1: "fst s1 = fst s" by (rule lookup_program_mem[OF s1])
  let ?s = "((fst s)\<lparr>ctxs := (ctxs (fst s))(c \<mapsto> ct\<lparr>ctx_prog := None, ctx_refcnt_map_fd := - ENOENT\<rparr>)\<rparr>, snd s1)"
  have "setup_from_prog env c sk ?s = Some (r, s')" using assms(1,3) s1 m1 by (simp add: xsk_setup_prog_def upd_ctx_def)
  from setup_from_prog_error_left[OF this assms(2)] show ?thesis by simp
qed

lemma init_struct_ctx: "xsk_init_xsk_struct env i s = Some (Inr c, s') \<Longrightarrow> \<exists>ct. ctxs (fst s') c = Some ct \<and> ctx_ifindex ct = i"
  by (auto simp: xsk_init_xsk_struct_def Let_def elim!: bind_pair_SomeE split: if_splits sum.splits)

text \<open>\<open>xsk_setup_xdp_prog\<close> faults when the interface has no program for sockets and the file of the default one cannot be opened:
  the error pointer stays in the context and is closed as a program.\<close>

theorem setup_xdp_prog_faults:
  assumes "no_socket_prog env ifindex" "no_default_file env"
    and "\<forall>w. fst (alloc (x_lib env) w)" "\<forall>w. \<exists>n w'. x_indextoname env ifindex w = (Inr n, w')"
  shows "xsk_setup_xdp_prog env ifindex s = None"
proof -
  let ?sk = "\<lambda>c. \<lparr>sk_rx = None, sk_tx = None, sk_ctx = Some c,
    sk_config = \<lparr>rx_size = 0, tx_size = 0, libbpf_flags = 0, xdp_flags = 0, bind_flags = 0\<rparr>, sk_fd = 0\<rparr>"
  have ok: "\<exists>t'. osys (alloc (x_lib env)) t = Some (True, t')" for t
    using assms(3)[rule_format, of "snd (snd t)"] by (auto simp: osys_def split: prod.splits)
  obtain s1 s2 where s1: "osys (alloc (x_lib env)) s = Some (True, s1)" "osys (alloc (x_lib env)) s1 = Some (True, s2)" using ok by blast
  obtain n w' where w': "x_indextoname env ifindex (snd (snd s2)) = (Inr n, w')" using assms(4) by blast
  obtain c s3 where s3: "xsk_init_xsk_struct env ifindex s1 = Some (Inr c, s3)"
    using s1(2) w' by (simp add: xsk_init_xsk_struct_def osys_def Let_def split: prod.splits)
  obtain ct where ct: "ctxs (fst s3) c = Some ct" "ctx_ifindex ct = ifindex" using init_struct_ctx[OF s3] by blast
  show ?thesis
  proof (cases "xsk_setup_prog env c (?sk c) s3")
    case (Some x)
    obtain r s4 where x: "x = (r, s4)" by (cases x)
    have "error_left c (fst s4)" using setup_prog_error_left[OF Some[unfolded x] assms(2) ct(1)] ct(2) assms(1) by simp
    then show ?thesis using s1(1) s3 Some x by (auto simp: xsk_setup_xdp_prog_def xsk_destroy_xsk_struct_def error_left_def close_prog_def)
  qed (use s1(1) s3 in \<open>simp add: xsk_setup_xdp_prog_def\<close>)
qed

definition missing_env :: "kworld xsk_env" where
  "missing_env = x_env\<lparr>x_lib := k_env\<lparr>stat_path := \<lambda>_ w. (- ENOENT, w)\<rparr>\<rparr>"

theorem setup_xdp_prog_faults_witness: "xsk_setup_xdp_prog missing_env 3 x_shared = None"
proof -
  have "no_socket_prog missing_env 3"
    by (simp add: no_socket_prog_def missing_env_def x_env_def k_env_def xsk_lookup_program_def lib_def xdp_multiprog__get_from_ifindex_def
        xdp_get_ifindex_prog_id_def sys_def)
  moreover have "no_default_file missing_env"
    by (simp add: no_default_file_def missing_env_def x_env_def k_env_def xdp_program__find_file_def find_bpf_file_def try_bpf_file_def Let_def sys_def)
  ultimately show ?thesis by (rule setup_xdp_prog_faults) (simp_all add: missing_env_def x_env_def k_env_def)
qed

end
