(* ===== verification/Hashmap.thy ===== *)
theory Hashmap
  imports C_Strings "HOL-Library.Multiset"
begin

text \<open>
  The hash map of libbpf, \<open>hashmap.c\<close> and \<open>hashmap.h\<close>: an array of chains that doubles when it is three
  quarters full.  A chain is the list of its entries in link order; \<open>buckets == NULL\<close> is \<^const>\<open>None\<close>.
  A key is what \<open>hash_fn\<close> and \<open>equal_fn\<close> see of it.  The two allocations an insertion may make are
  arguments, \<open>True\<close> when they succeed.

  The contract of the two user functions is the locale \<open>hash_equiv\<close>.  Under it the map refines a finite
  function from keys up to \<open>equal_fn\<close>; the contents is first abstracted to the multiset of entries,
  which a rehash does not change.
\<close>

subsection \<open>Data and operations\<close>

definition hash_bits :: "u64 \<Rightarrow> nat \<Rightarrow> nat" where
  "hash_bits h bits =
     (if bits = 0 then 0 else unat (drop_bit (64 - bits) (h * 11400714819323198485)))"

text \<open>\<open>*s\<close> is a signed character.\<close>

definition str_hash :: "string \<Rightarrow> u64" where
  "str_hash s = foldl (\<lambda>h c. h * 31 + word_of_int (if of_char c < (128::int) then of_char c else of_char c - 256)) 0 s"

text \<open>The pairs of functions libbpf makes its maps with, in \<open>btf_dump.c\<close> and \<open>btf.c\<close>.\<close>

definition str_hash_fn :: "string \<Rightarrow> u64" where
  "str_hash_fn key = str_hash key"

definition str_equal_fn :: "string \<Rightarrow> string \<Rightarrow> bool" where
  "str_equal_fn a b \<longleftrightarrow> strcmp a b = 0"

definition btf_dedup_identity_hash_fn :: "u64 \<Rightarrow> u64" where
  "btf_dedup_identity_hash_fn key = key"

definition btf_dedup_collision_hash_fn :: "u64 \<Rightarrow> u64" where
  "btf_dedup_collision_hash_fn key = 0"

definition btf_dedup_equal_fn :: "u64 \<Rightarrow> u64 \<Rightarrow> bool" where
  "btf_dedup_equal_fn k1 k2 \<longleftrightarrow> k1 = k2"

record ('k, 'v) hashmap =
  hash_fn :: "'k \<Rightarrow> u64"
  equal_fn :: "'k \<Rightarrow> 'k \<Rightarrow> bool"
  buckets :: "('k \<times> 'v) list list option"
  cap :: nat
  cap_bits :: nat
  sz :: nat

datatype hashmap_insert_strategy = HASHMAP_ADD | HASHMAP_SET | HASHMAP_UPDATE | HASHMAP_APPEND

abbreviation (input) HASHMAP_MIN_CAP_BITS :: nat where "HASHMAP_MIN_CAP_BITS \<equiv> 2"

definition hashmap__init :: "('k \<Rightarrow> u64) \<Rightarrow> ('k \<Rightarrow> 'k \<Rightarrow> bool) \<Rightarrow> ('k, 'v) hashmap" where
  "hashmap__init h e = \<lparr>hash_fn = h, equal_fn = e, buckets = None, cap = 0, cap_bits = 0, sz = 0\<rparr>"

definition hashmap__new :: "bool \<Rightarrow> ('k \<Rightarrow> u64) \<Rightarrow> ('k \<Rightarrow> 'k \<Rightarrow> bool) \<Rightarrow> int + ('k, 'v) hashmap" where
  "hashmap__new ok h e = (if \<not> ok then Inl (- ENOMEM) else Inr (hashmap__init h e))"

definition hashmap__clear :: "('k, 'v) hashmap \<Rightarrow> ('k, 'v) hashmap" where
  "hashmap__clear m = m\<lparr>buckets := None, cap := 0, cap_bits := 0, sz := 0\<rparr>"

definition hashmap__size :: "('k, 'v) hashmap \<Rightarrow> nat" where
  "hashmap__size m = sz m"

definition hashmap__capacity :: "('k, 'v) hashmap \<Rightarrow> nat" where
  "hashmap__capacity m = cap m"

definition hashmap_needs_to_grow :: "('k, 'v) hashmap \<Rightarrow> bool" where
  "hashmap_needs_to_grow m \<longleftrightarrow> cap m = 0 \<or> (sz m + 1) * 4 div 3 > cap m"

text \<open>The chain of a bucket, and \<open>hashmap_add_entry\<close> on it.  A bucket number outside the array does not occur,
  which the invariant shows.\<close>

definition chain :: "('k \<times> 'v) list list \<Rightarrow> nat \<Rightarrow> ('k \<times> 'v) list" where
  "chain bs h = (if h < length bs then bs ! h else [])"

definition hashmap_add_entry :: "('k \<times> 'v) list list \<Rightarrow> nat \<Rightarrow> 'k \<times> 'v \<Rightarrow> ('k \<times> 'v) list list" where
  "hashmap_add_entry bs h entry = bs[h := entry # chain bs h]"

definition hashmap_del_entry :: "('k \<times> 'v) list list \<Rightarrow> nat \<Rightarrow> nat \<Rightarrow> ('k \<times> 'v) list list" where
  "hashmap_del_entry bs h i = bs[h := take i (chain bs h) @ drop (Suc i) (chain bs h)]"

text \<open>\<open>hashmap__for_each_entry\<close> visits the buckets in order and each chain from its head.\<close>

definition entries :: "('k, 'v) hashmap \<Rightarrow> ('k \<times> 'v) list" where
  "entries m = (case buckets m of None \<Rightarrow> [] | Some bs \<Rightarrow> concat bs)"

text \<open>\<open>calloc\<close> fails in any case when the size in bytes, eight per bucket, is not a \<open>size_t\<close>: from $2^{61}$ buckets on.\<close>

definition hashmap_grow :: "bool \<Rightarrow> ('k, 'v) hashmap \<Rightarrow> int \<times> ('k, 'v) hashmap" where
  "hashmap_grow ok m =
     (let new_cap_bits = cap_bits m + 1;
          new_cap_bits = (if new_cap_bits < HASHMAP_MIN_CAP_BITS then HASHMAP_MIN_CAP_BITS else new_cap_bits);
          new_cap = 2 ^ new_cap_bits
      in if \<not> ok \<or> new_cap_bits > 60 then (- ENOMEM, m)
         else (0, m\<lparr>cap := new_cap, cap_bits := new_cap_bits,
                    buckets := Some (foldl (\<lambda>bs cur. hashmap_add_entry bs (hash_bits (hash_fn m (fst cur)) new_cap_bits) cur)
                                       (replicate new_cap []) (entries m))\<rparr>))"

fun find_pos :: "('k \<Rightarrow> 'k \<Rightarrow> bool) \<Rightarrow> 'k \<Rightarrow> ('k \<times> 'v) list \<Rightarrow> nat option" where
  "find_pos eq key [] = None"
| "find_pos eq key (cur # rest) = (if eq (fst cur) key then Some 0 else map_option Suc (find_pos eq key rest))"

text \<open>The position of the entry in its chain stands for \<open>*pprev\<close> and \<open>*entry\<close>.\<close>

definition hashmap_find_entry :: "('k, 'v) hashmap \<Rightarrow> 'k \<Rightarrow> nat \<Rightarrow> nat option" where
  "hashmap_find_entry m key h =
     (case buckets m of None \<Rightarrow> None | Some bs \<Rightarrow> find_pos (equal_fn m) key (chain bs h))"

definition key_bucket :: "('k, 'v) hashmap \<Rightarrow> 'k \<Rightarrow> nat" where
  "key_bucket m key = hash_bits (hash_fn m key) (cap_bits m)"

definition entry_at :: "('k, 'v) hashmap \<Rightarrow> nat \<Rightarrow> nat \<Rightarrow> 'k \<times> 'v" where
  "entry_at m h i = chain (the (buckets m)) h ! i"

text \<open>The second result is what is written to \<open>*old_key\<close> and \<open>*old_value\<close> (\<^const>\<open>None\<close>: two zeros).\<close>

definition hashmap_insert ::
  "bool \<Rightarrow> bool \<Rightarrow> hashmap_insert_strategy \<Rightarrow> 'k \<Rightarrow> 'v \<Rightarrow> ('k, 'v) hashmap
   \<Rightarrow> (int \<times> ('k \<times> 'v) option) \<times> ('k, 'v) hashmap" where
  "hashmap_insert grow_ok entry_ok strategy key val m =
     (let h = key_bucket m key;
          found = (if strategy \<noteq> HASHMAP_APPEND then hashmap_find_entry m key h else None);
          old = map_option (entry_at m h) found
      in if found \<noteq> None \<and> (strategy = HASHMAP_SET \<or> strategy = HASHMAP_UPDATE)
         then ((0, old), m\<lparr>buckets := map_option
                 (\<lambda>bs. bs[h := (chain bs h)[the found := (key, val)]]) (buckets m)\<rparr>)
         else if found \<noteq> None \<and> strategy = HASHMAP_ADD then ((- EEXIST, old), m)
         else if strategy = HASHMAP_UPDATE then ((- ENOENT, old), m)
         else
           case (if hashmap_needs_to_grow m then hashmap_grow grow_ok m else (0, m)) of (err, m) \<Rightarrow>
             if err \<noteq> 0 then ((err, old), m)
             else if \<not> entry_ok then ((- ENOMEM, old), m)
             else ((0, old), m\<lparr>buckets := map_option (\<lambda>bs. hashmap_add_entry bs (key_bucket m key) (key, val)) (buckets m),
                               sz := sz m + 1\<rparr>))"

definition hashmap_find :: "('k, 'v) hashmap \<Rightarrow> 'k \<Rightarrow> 'v option" where
  "hashmap_find m key =
     map_option (\<lambda>i. snd (entry_at m (key_bucket m key) i)) (hashmap_find_entry m key (key_bucket m key))"

definition hashmap_delete :: "'k \<Rightarrow> ('k, 'v) hashmap \<Rightarrow> (bool \<times> ('k \<times> 'v) option) \<times> ('k, 'v) hashmap" where
  "hashmap_delete key m =
     (let h = key_bucket m key
      in case hashmap_find_entry m key h of
           None \<Rightarrow> ((False, None), m)
         | Some i \<Rightarrow> ((True, Some (entry_at m h i)),
                      m\<lparr>buckets := map_option (\<lambda>bs. hashmap_del_entry bs h i) (buckets m), sz := sz m - 1\<rparr>))"

subsection \<open>Invariant\<close>

text \<open>Every entry is in the bucket of its key's hash, the counters are right, and the load is bounded.  An array has
  at most $2^{60}$ buckets, so that the counters and \<open>(sz + 1) * 4\<close> do not leave \<open>size_t\<close>.\<close>

definition hm_inv :: "('k, 'v) hashmap \<Rightarrow> bool" where
  "hm_inv m \<longleftrightarrow> sz m * 4 div 3 \<le> cap m \<and> sz m = length (entries m) \<and>
     (case buckets m of
        None \<Rightarrow> cap m = 0 \<and> cap_bits m = 0
      | Some bs \<Rightarrow> length bs = cap m \<and> cap m = 2 ^ cap_bits m \<and> 2 \<le> cap_bits m \<and> cap_bits m \<le> 60 \<and>
          (\<forall>h<length bs. \<forall>e\<in>set (bs ! h). key_bucket m (fst e) = h))"

text \<open>At most one entry per key: the maps that are filled without \<open>HASHMAP_APPEND\<close>.\<close>

definition hm_uniq :: "('k, 'v) hashmap \<Rightarrow> bool" where
  "hm_uniq m \<longleftrightarrow> (\<forall>k. size (filter_mset (\<lambda>e. equal_fn m (fst e) k) (mset (entries m))) \<le> 1)"

lemma hash_bits_less: "bits < 64 \<Longrightarrow> hash_bits h bits < 2 ^ bits"
proof -
  assume "bits < 64"
  then have "unat w div 2 ^ (64 - bits) < 2 ^ bits" for w :: u64
    using unat_bound[of w] by (simp add: div_less_iff_less_mult power_add[symmetric])
  then show ?thesis by (simp add: hash_bits_def unat_drop_bit_div)
qed

lemma mset_concat_upd:
  "h < length bs \<Longrightarrow> mset (concat (bs[h := c])) + mset (bs ! h) = mset (concat bs) + mset c"
proof (induction bs arbitrary: h)
  case (Cons b bs)
  then show ?case by (cases h) (simp_all add: ac_simps)
qed simp

lemma mset_upd: "i < length xs \<Longrightarrow> mset (xs[i := x]) + {#xs ! i#} = mset xs + {#x#}"
  by (simp add: mset_update)

lemma mset_take_drop: "i < length xs \<Longrightarrow> mset (take i xs @ drop (Suc i) xs) + {#xs ! i#} = mset xs"
  by (metis id_take_nth_drop mset.simps(2) mset_append union_mset_add_mset_right add_mset_add_single)

lemma mset_exchange:
  fixes X :: "'a multiset"
  assumes "X + C = Y + C'" "C' + D = C + A" shows "X + D = Y + A"
proof -
  have "(X + D) + (C + C') = (Y + A) + (C + C')"
    using arg_cong2[of _ _ _ _ "(+)", OF assms] by (simp add: ac_simps)
  then show ?thesis by (simp only: add_right_cancel)
qed

lemma find_pos_None_iff: "find_pos eq k c = None \<longleftrightarrow> (\<forall>e\<in>set c. \<not> eq (fst e) k)"
  by (induction c) auto

lemma find_pos_SomeD: "find_pos eq k c = Some i \<Longrightarrow> i < length c \<and> eq (fst (c ! i)) k"
  by (induction c arbitrary: i) (auto split: if_splits)

subsection \<open>Rehashing\<close>

abbreviation (input) contents :: "('k, 'v) hashmap \<Rightarrow> ('k \<times> 'v) multiset" where
  "contents m \<equiv> mset (entries m)"

definition placed :: "('k \<Rightarrow> u64) \<Rightarrow> nat \<Rightarrow> ('k \<times> 'v) list list \<Rightarrow> bool" where
  "placed h bits bs \<longleftrightarrow> length bs = 2 ^ bits \<and> (\<forall>i<length bs. \<forall>e\<in>set (bs ! i). hash_bits (h (fst e)) bits = i)"

lemma placed_length: "placed h bits bs \<Longrightarrow> length bs = 2 ^ bits"
  by (simp add: placed_def)

lemma placedD: "placed h bits bs \<Longrightarrow> i < length bs \<Longrightarrow> e \<in> set (bs ! i) \<Longrightarrow> i = hash_bits (h (fst e)) bits"
  by (auto simp: placed_def)

lemma placed_empty: "placed h bits (replicate (2 ^ bits) [])"
  by (simp add: placed_def)

lemma placed_update:
  "placed h bits bs \<Longrightarrow> \<forall>e\<in>set c. e \<in> set (bs ! i) \<or> hash_bits (h (fst e)) bits = i \<Longrightarrow> i < length bs
   \<Longrightarrow> placed h bits (bs[i := c])"
  unfolding placed_def by (metis length_list_update nth_list_update)

lemma add_entry_placed:
  assumes "placed h bits bs" "bits < 64"
  shows "placed h bits (hashmap_add_entry bs (hash_bits (h (fst e)) bits) e)"
    and "mset (concat (hashmap_add_entry bs (hash_bits (h (fst e)) bits) e)) = add_mset e (mset (concat bs))"
proof -
  let ?i = "hash_bits (h (fst e)) bits"
  have i: "?i < length bs" using assms hash_bits_less by (simp add: placed_def)
  show "placed h bits (hashmap_add_entry bs ?i e)"
    using assms(1) i by (auto simp: placed_def hashmap_add_entry_def chain_def nth_list_update)
  show "mset (concat (hashmap_add_entry bs ?i e)) = add_mset e (mset (concat bs))"
    using mset_concat_upd[OF i, of "e # bs ! ?i"] i by (simp add: hashmap_add_entry_def chain_def)
qed

lemma rehash_placed:
  assumes "placed h bits bs" "bits < 64"
  shows "placed h bits (foldl (\<lambda>bs e. hashmap_add_entry bs (hash_bits (h (fst e)) bits) e) bs es)
    \<and> mset (concat (foldl (\<lambda>bs e. hashmap_add_entry bs (hash_bits (h (fst e)) bits) e) bs es))
      = mset (concat bs) + mset es"
  using assms(1)
proof (induction es arbitrary: bs)
  case (Cons e es)
  show ?case
    using Cons.IH[OF add_entry_placed(1)[OF Cons.prems assms(2)]] add_entry_placed(2)[OF Cons.prems assms(2)]
    by simp
qed simp

lemma hm_inv_Some:
  "buckets m = Some bs \<Longrightarrow> hm_inv m \<longleftrightarrow> sz m * 4 div 3 \<le> cap m \<and> sz m = size (mset (concat bs)) \<and> cap m = 2 ^ cap_bits m
     \<and> 2 \<le> cap_bits m \<and> cap_bits m \<le> 60 \<and> placed (hash_fn m) (cap_bits m) bs"
  by (auto simp: hm_inv_def entries_def key_bucket_def placed_def)

lemma grow_cases:
  assumes "hm_inv m" "hashmap_grow ok m = (err, m')"
  shows "err = - ENOMEM \<and> m' = m \<and> (\<not> ok \<or> cap m \<ge> 2 ^ 60) \<or>
    err = 0 \<and> hm_inv m' \<and> contents m' = contents m \<and> sz m' = sz m \<and> (sz m' + 1) * 4 div 3 \<le> cap m' \<and> cap m' > 0
    \<and> hash_fn m' = hash_fn m \<and> equal_fn m' = equal_fn m"
proof -
  let ?bits = "max 2 (cap_bits m + 1)"
  let ?bs = "foldl (\<lambda>bs e. hashmap_add_entry bs (hash_bits (hash_fn m (fst e)) ?bits) e) (replicate (2 ^ ?bits) []) (entries m)"
  have bits: "(if cap_bits m + 1 < 2 then 2 else cap_bits m + 1) = ?bits" by simp
  show ?thesis
  proof (cases "ok \<and> ?bits \<le> 60")
    case True
    then have b: "?bits \<le> 60" ..
    have r: "placed (hash_fn m) ?bits ?bs" "mset (concat ?bs) = contents m"
      using rehash_placed[OF placed_empty, of ?bits "hash_fn m" "entries m"] b
      by (simp_all add: concat_replicate_trivial)
    have m': "err = 0" "m' = m\<lparr>cap := 2 ^ ?bits, cap_bits := ?bits, buckets := Some ?bs\<rparr>"
      using assms(2) True b unfolding hashmap_grow_def Let_def bits by (simp_all only: not_less[symmetric] simp_thms if_False) auto
    have ld: "(sz m + 1) * 4 div 3 \<le> 2 ^ ?bits"
    proof (cases "buckets m")
      case None
      then show ?thesis using assms(1) by (simp add: hm_inv_def entries_def)
    next
      case (Some bs)
      then have "cap m = 2 ^ cap_bits m" "sz m * 4 div 3 \<le> cap m" "2 \<le> cap_bits m" using assms(1) by (auto simp: hm_inv_Some)
      moreover from this have "(2::nat) ^ 2 \<le> cap m" by (simp only: power_increasing_iff)
      ultimately show ?thesis by (simp add: max_def)
    qed
    have "sz m = size (contents m)" using assms(1) by (simp add: hm_inv_def)
    then have "hm_inv m'" using r ld b unfolding m' by (subst hm_inv_Some[of _ ?bs]) auto
    then show ?thesis using m' r ld by (simp add: entries_def)
  next
    case False
    have "cap m \<ge> 2 ^ 60" if ok
    proof -
      have b: "60 \<le> cap_bits m" using False that by simp
      then have "cap m = 2 ^ cap_bits m" using assms(1) by (cases "buckets m") (auto simp: hm_inv_def)
      then show ?thesis using power_increasing[OF b, of "2::nat"] by (simp only:)
    qed
    then show ?thesis using assms(2) False unfolding hashmap_grow_def Let_def bits by auto
  qed
qed

subsection \<open>The contract of the key functions\<close>

text \<open>\<open>with_key eq k M\<close> are the entries of the key \<open>k\<close>.\<close>

definition with_key :: "('k \<Rightarrow> 'k \<Rightarrow> bool) \<Rightarrow> 'k \<Rightarrow> ('k \<times> 'v) multiset \<Rightarrow> ('k \<times> 'v) multiset" where
  "with_key eq k M = filter_mset (\<lambda>e. eq (fst e) k) M"

lemma hm_uniq_iff: "hm_uniq m \<longleftrightarrow> (\<forall>k. size (with_key (equal_fn m) k (contents m)) \<le> 1)"
  by (simp add: hm_uniq_def with_key_def)

lemma bucket_in_range:
  assumes "hm_inv m" "buckets m = Some bs" shows "key_bucket m k < length bs"
proof -
  have "placed (hash_fn m) (cap_bits m) bs" "cap_bits m \<le> 60" using assms by (auto simp: hm_inv_Some)
  then show ?thesis by (simp add: placed_length key_bucket_def hash_bits_less)
qed

lemma in_contents_iff:
  assumes "hm_inv m"
  shows "e \<in># contents m \<longleftrightarrow> (\<exists>bs. buckets m = Some bs \<and> e \<in> set (chain bs (key_bucket m (fst e))))"
proof (cases "buckets m")
  case (Some bs)
  then have p: "placed (hash_fn m) (cap_bits m) bs" using assms by (auto simp: hm_inv_Some)
  have "e \<in> set (concat bs) \<longleftrightarrow> (\<exists>i<length bs. e \<in> set (bs ! i))" by (metis UN_iff in_set_conv_nth set_concat)
  also have "\<dots> \<longleftrightarrow> e \<in> set (bs ! key_bucket m (fst e))"
    using placedD[OF p, of _ e] bucket_in_range[OF assms Some] unfolding key_bucket_def by metis
  finally show ?thesis using Some bucket_in_range[OF assms Some] by (simp add: entries_def chain_def)
qed (simp add: entries_def)

text \<open>A new chain of the same length in one bucket.\<close>

lemma chain_update:
  assumes "hm_inv m" "buckets m = Some bs" "i < length bs"
    and "\<forall>e\<in>set c. e \<in> set (bs ! i) \<or> key_bucket m (fst e) = i"
    and "length c \<le> length (bs ! i)" "n = sz m - (length (bs ! i) - length c)"
  defines "m' \<equiv> m\<lparr>buckets := Some (bs[i := c]), sz := n\<rparr>"
  shows "hm_inv m' \<and> contents m' + mset (bs ! i) = contents m + mset c"
proof -
  have p: "placed (hash_fn m) (cap_bits m) (bs[i := c])"
    using assms by (intro placed_update) (auto simp: hm_inv_Some key_bucket_def)
  have c: "mset (concat (bs[i := c])) + mset (bs ! i) = mset (concat bs) + mset c"
    by (rule mset_concat_upd) (rule assms(3))
  have "size (mset (concat (bs[i := c]))) + length (bs ! i) = size (mset (concat bs)) + length c"
    using arg_cong[OF c, of size] by (simp only: size_union size_mset)
  then have "sz m' = size (mset (concat (bs[i := c])))" "sz m' \<le> sz m"
    using assms by (auto simp: hm_inv_Some)
  then have "hm_inv m'"
    using assms(1,2) p unfolding m'_def
    by (subst hm_inv_Some[of _ "bs[i := c]"]) (auto simp: hm_inv_Some intro: order.trans[OF div_le_mono])
  then show ?thesis using c assms(2) by (simp add: m'_def entries_def)
qed

lemma add_step:
  fixes key :: 'k and val :: 'v
  assumes "hm_inv m" "(sz m + 1) * 4 div 3 \<le> cap m" "cap m > 0"
  defines "m' \<equiv> m\<lparr>buckets := map_option (\<lambda>bs. hashmap_add_entry bs (key_bucket m key) (key, val)) (buckets m),
                   sz := sz m + 1\<rparr>"
  shows "hm_inv m' \<and> contents m' = add_mset (key, val) (contents m)"
proof -
  obtain bs where bs: "buckets m = Some bs" using assms(1,3) by (cases "buckets m") (auto simp: hm_inv_def)
  then have p: "placed (hash_fn m) (cap_bits m) bs" "cap_bits m < 64" using assms(1) by (auto simp: hm_inv_Some)
  let ?bs = "hashmap_add_entry bs (key_bucket m key) (key, val)"
  have q: "placed (hash_fn m) (cap_bits m) ?bs" "mset (concat ?bs) = add_mset (key, val) (mset (concat bs))"
    using add_entry_placed[OF p, of "(key, val)"] by (simp_all add: key_bucket_def)
  have "size (mset (concat ?bs)) = sz m + 1" using q(2) assms(1) bs by (simp add: hm_inv_Some del: mset_concat)
  then have "hm_inv m'" using assms(1,2) q(1) bs unfolding m'_def by (subst hm_inv_Some[of _ ?bs]) (auto simp: hm_inv_Some)
  then show ?thesis using q(2) bs by (simp add: m'_def entries_def)
qed

lemma insert_new:
  assumes inv: "hm_inv m" and new: "strategy = HASHMAP_APPEND \<or> hashmap_find_entry m key (key_bucket m key) = None"
    and "strategy \<noteq> HASHMAP_UPDATE"
    and i: "hashmap_insert grow_ok entry_ok strategy key val m = ((err, old), m')"
  shows "hm_inv m' \<and> hash_fn m' = hash_fn m \<and> equal_fn m' = equal_fn m \<and> old = None \<and>
    (err = - ENOMEM \<and> (\<not> grow_ok \<or> \<not> entry_ok \<or> cap m \<ge> 2 ^ 60) \<and> contents m' = contents m \<or>
     err = 0 \<and> contents m' = add_mset (key, val) (contents m))"
proof -
  obtain err1 m1 where g: "(if hashmap_needs_to_grow m then hashmap_grow grow_ok m else (0, m)) = (err1, m1)"
    by (cases "if hashmap_needs_to_grow m then hashmap_grow grow_ok m else (0, m)")
  have r: "old = None" "(if err1 \<noteq> 0 then (err1, m1) else if \<not> entry_ok then (- ENOMEM, m1)
      else (0, m1\<lparr>buckets := map_option (\<lambda>bs. hashmap_add_entry bs (key_bucket m1 key) (key, val)) (buckets m1),
                   sz := sz m1 + 1\<rparr>)) = (err, m')"
    using new assms(3) i unfolding hashmap_insert_def Let_def g by (auto split: if_splits)
  have g': "err1 = - ENOMEM \<and> m1 = m \<and> (\<not> grow_ok \<or> cap m \<ge> 2 ^ 60) \<or>
    err1 = 0 \<and> hm_inv m1 \<and> contents m1 = contents m \<and> (sz m1 + 1) * 4 div 3 \<le> cap m1 \<and> cap m1 > 0
    \<and> hash_fn m1 = hash_fn m \<and> equal_fn m1 = equal_fn m"
    using g grow_cases[OF inv, of grow_ok err1 m1] inv by (auto simp: hashmap_needs_to_grow_def split: if_splits)
  then show ?thesis using r inv add_step[of m1 key val] by (auto split: if_splits)
qed

locale hash_equiv =
  fixes hash :: "'k \<Rightarrow> u64" and eq :: "'k \<Rightarrow> 'k \<Rightarrow> bool"
  assumes equal_refl: "eq k k"
    and equal_sym: "eq a b \<Longrightarrow> eq b a"
    and equal_trans: "eq a b \<Longrightarrow> eq b c \<Longrightarrow> eq a c"
    and equal_hash: "eq a b \<Longrightarrow> hash a = hash b"
begin

definition map_of_keys :: "('k, 'v) hashmap \<Rightarrow> bool" where
  "map_of_keys m \<longleftrightarrow> hash_fn m = hash \<and> equal_fn m = eq \<and> hm_inv m"

lemma equal_cong: "eq a b \<Longrightarrow> eq a c \<longleftrightarrow> eq b c"
  using equal_sym equal_trans by blast

lemma equal_bucket: "map_of_keys m \<Longrightarrow> eq a b \<Longrightarrow> key_bucket m a = key_bucket m b"
  using equal_hash[of a b] by (simp add: map_of_keys_def key_bucket_def)

lemma find_entry_cases:
  assumes m: "map_of_keys m"
  shows "case hashmap_find_entry m k (key_bucket m k) of
           None \<Rightarrow> with_key eq k (contents m) = {#}
         | Some i \<Rightarrow> \<exists>bs. buckets m = Some bs \<and> key_bucket m k < length bs \<and> i < length (bs ! key_bucket m k)
             \<and> entry_at m (key_bucket m k) i = bs ! key_bucket m k ! i
             \<and> entry_at m (key_bucket m k) i \<in># with_key eq k (contents m)"
proof (cases "hashmap_find_entry m k (key_bucket m k)")
  case None
  have inv: "hm_inv m" and eq: "equal_fn m = eq" using m by (auto simp: map_of_keys_def)
  have "\<not> eq (fst e) k" if "e \<in># contents m" for e
  proof
    assume "eq (fst e) k"
    with that in_contents_iff[OF inv] equal_bucket[OF m] obtain bs where
      "buckets m = Some bs" "e \<in> set (chain bs (key_bucket m k))" by metis
    then show False using None \<open>eq (fst e) k\<close> by (auto simp: hashmap_find_entry_def find_pos_None_iff eq)
  qed
  then show ?thesis using None by (simp add: with_key_def filter_mset_eq_mempty_iff)
next
  case (Some i)
  have inv: "hm_inv m" and eq: "equal_fn m = eq" using m by (auto simp: map_of_keys_def)
  from Some obtain bs where bs: "buckets m = Some bs" and p: "find_pos eq k (chain bs (key_bucket m k)) = Some i"
    by (auto simp: hashmap_find_entry_def eq split: option.splits)
  have b: "key_bucket m k < length bs" using bucket_in_range[OF inv bs] .
  then have i: "i < length (bs ! key_bucket m k)" "eq (fst (bs ! key_bucket m k ! i)) k"
    using find_pos_SomeD[OF p] by (auto simp: chain_def)
  then have "bs ! key_bucket m k ! i \<in># contents m"
    using in_contents_iff[OF inv] equal_bucket[OF m i(2)] b bs by (auto simp: chain_def)
  then show ?thesis using Some bs b i by (simp add: with_key_def entry_at_def chain_def)
qed

lemma find_None: "map_of_keys m \<Longrightarrow> with_key eq k (contents m) = {#} \<Longrightarrow> hashmap_find m k = None"
  using find_entry_cases[of m k] by (auto simp: hashmap_find_def split: option.splits)

lemma find_Some: "map_of_keys m \<Longrightarrow> with_key eq k (contents m) = {#e#} \<Longrightarrow> hashmap_find m k = Some (snd e)"
  using find_entry_cases[of m k] by (auto simp: hashmap_find_def split: option.splits)

text \<open>One step of the map on its contents: the entries of the key are replaced by at most one entry.\<close>

lemma with_key_step:
  assumes "M' + with_key eq key M = M + A" "\<forall>e\<in>#A. eq (fst e) key"
  shows "with_key eq k M' = (if eq key k then A else with_key eq k M)"
proof -
  let ?D = "with_key eq key M"
  have keyed: "with_key eq k X = (if eq key k then X else {#})" if "\<forall>e\<in>#X. eq (fst e) key" for X :: "('k \<times> 'v) multiset"
    using that by (auto simp: with_key_def filter_mset_eq_mempty_iff filter_mset_eq_conv dest: equal_cong)
  have D: "with_key eq k ?D = (if eq key k then ?D else {#})" by (rule keyed) (simp add: with_key_def)
  have "with_key eq k M' + with_key eq k ?D = with_key eq k M + with_key eq k A"
    using arg_cong[OF assms(1), of "with_key eq k"] by (simp add: with_key_def)
  moreover have "eq key k \<Longrightarrow> with_key eq k M = ?D"
    unfolding with_key_def using equal_sym equal_trans by (intro filter_mset_cong) blast+
  ultimately show ?thesis using keyed[OF assms(2)] D by (auto split: if_splits)
qed

lemma map_step:
  assumes m: "map_of_keys m" "hm_uniq m" and m': "map_of_keys m'"
    and "contents m' + with_key eq key (contents m) = contents m + A" "\<forall>e\<in>#A. eq (fst e) key" "size A \<le> 1"
  shows "hm_uniq m'"
    and "hashmap_find m' k = (if eq key k then (if A = {#} then None else Some (snd (the_elem (set_mset A))))
                              else hashmap_find m k)"
proof -
  note step = with_key_step[OF assms(4,5)]
  have e: "equal_fn m = eq" "equal_fn m' = eq" using m m' by (auto simp: map_of_keys_def)
  show "hm_uniq m'" using m(2) assms(6) by (auto simp: hm_uniq_iff e step)
  have find: "hashmap_find x k = (if with_key eq k (contents x) = {#} then None
      else Some (snd (the_elem (set_mset (with_key eq k (contents x))))))" if "map_of_keys x" "hm_uniq x" for x :: "('k, 'v) hashmap" and k
  proof (cases "with_key eq k (contents x) = {#}")
    case False
    moreover have "size (with_key eq k (contents x)) \<le> 1" using that by (simp add: hm_uniq_iff map_of_keys_def)
    ultimately have "size (with_key eq k (contents x)) = 1" by (simp add: le_Suc_eq)
    then obtain e where "with_key eq k (contents x) = {#e#}" using size_1_singleton_mset by blast
    then show ?thesis using find_Some[OF that(1)] by simp
  qed (simp add: find_None[OF that(1)])
  show "hashmap_find m' k = (if eq key k then (if A = {#} then None else Some (snd (the_elem (set_mset A))))
                             else hashmap_find m k)"
    using find[OF m(1,2)] find[OF m' \<open>hm_uniq m'\<close>] step by auto
qed

lemma with_key_single:
  assumes "map_of_keys m" "hm_uniq m" "e \<in># with_key eq k (contents m)"
  shows "with_key eq k (contents m) = {#e#}"
proof -
  have "size (with_key eq k (contents m)) \<le> 1" using assms(1,2) by (simp add: hm_uniq_iff map_of_keys_def)
  then have "with_key eq k (contents m) - {#e#} = {#}" using assms(3) by (simp add: size_Diff_singleton flip: size_eq_0_iff_empty)
  then show ?thesis using insert_DiffM[OF assms(3)] by simp
qed

lemma found_chain:
  assumes m: "map_of_keys m" "hm_uniq m" and f: "hashmap_find_entry m key (key_bucket m key) = Some i"
  obtains bs c where "buckets m = Some bs" "key_bucket m key < length bs" "c = bs ! key_bucket m key" "i < length c"
    "entry_at m (key_bucket m key) i = c ! i" "with_key eq key (contents m) = {#c ! i#}"
    "hashmap_find m key = Some (snd (c ! i))"
proof -
  from find_entry_cases[OF m(1), of key] f obtain bs where "buckets m = Some bs" "key_bucket m key < length bs"
    "i < length (bs ! key_bucket m key)" "entry_at m (key_bucket m key) i = bs ! key_bucket m key ! i"
    "entry_at m (key_bucket m key) i \<in># with_key eq key (contents m)" by auto
  then show ?thesis using that[of bs "bs ! key_bucket m key"] with_key_single[OF m] f
    by (simp add: hashmap_find_def)
qed

lemma delete_step:
  assumes m: "map_of_keys m" "hm_uniq m" and d: "hashmap_delete key m = ((found, old), m')"
  shows "hm_inv m' \<and> hm_uniq m' \<and> map_option snd old = hashmap_find m key \<and> (found \<longleftrightarrow> old \<noteq> None)
    \<and> hashmap_find m' k = (if eq key k then None else hashmap_find m k)
    \<and> hashmap__size m = hashmap__size m' + (if found then 1 else 0)"
proof (cases "hashmap_find_entry m key (key_bucket m key)")
  case None
  then have e: "found = False" "old = None" "m' = m" using d by (auto simp: hashmap_delete_def)
  have "with_key eq key (contents m) = {#}" using find_entry_cases[OF m(1), of key] None by simp
  then have "contents m + with_key eq key (contents m) = contents m + {#}" by simp
  then have w: "hashmap_find m k = None" if "eq key k" using map_step(2)[OF m m(1), of key "{#}" k] that by simp
  have "hashmap_find m key = None" using None by (simp add: hashmap_find_def)
  then show ?thesis using e m w by (simp add: map_of_keys_def)
next
  case (Some i)
  from found_chain[OF m Some] obtain bs c where bs: "buckets m = Some bs" and h: "key_bucket m key < length bs"
    and c: "c = bs ! key_bucket m key" "i < length c" "entry_at m (key_bucket m key) i = c ! i"
    and k: "with_key eq key (contents m) = {#c ! i#}" and f: "hashmap_find m key = Some (snd (c ! i))" by metis
  let ?c = "take i c @ drop (Suc i) c"
  have e: "found = True" "old = Some (c ! i)"
    "m' = m\<lparr>buckets := Some (bs[key_bucket m key := ?c]), sz := sz m - 1\<rparr>"
    using d Some h bs c by (auto simp: hashmap_delete_def hashmap_del_entry_def chain_def Let_def)
  have "hm_inv m" using m by (simp add: map_of_keys_def)
  from chain_update[OF this bs h, of ?c "sz m - 1"] c
  have r: "hm_inv m'" "contents m' + mset c = contents m + mset ?c"
    unfolding e by (auto dest: in_set_takeD in_set_dropD)
  have "contents m' + with_key eq key (contents m) = contents m + {#}"
    by (rule mset_exchange[OF r(2)]) (simp only: k mset_take_drop[OF c(2)] add_0_right)
  from map_step[OF m _ this] have "hm_uniq m' \<and> hashmap_find m' k = (if eq key k then None else hashmap_find m k)"
    using r(1) m by (simp add: map_of_keys_def e(3))
  moreover have "contents m \<noteq> {#}" using k by (auto simp: with_key_def)
  then have "sz m > 0" using \<open>hm_inv m\<close> by (auto simp: hm_inv_def)
  ultimately show ?thesis using r(1) e f by (simp add: hashmap__size_def)
qed

text \<open>The two ways an insertion succeeds.\<close>

lemma replace_step:
  fixes m :: "('k, 'v) hashmap" and val :: 'v
  assumes m: "map_of_keys m" "hm_uniq m" and Some: "hashmap_find_entry m key (key_bucket m key) = Some i"
  defines "m' \<equiv> m\<lparr>buckets := map_option (\<lambda>bs. bs[key_bucket m key := (chain bs (key_bucket m key))[i := (key, val)]]) (buckets m)\<rparr>"
  shows "hm_inv m' \<and> hm_uniq m' \<and> hashmap_find m' k = (if eq key k then Some val else hashmap_find m k)"
proof -
  from found_chain[OF m Some] obtain bs c where bs: "buckets m = Some bs" and h: "key_bucket m key < length bs"
    and c: "c = bs ! key_bucket m key" "i < length c"
    and k: "with_key eq key (contents m) = {#c ! i#}" by metis
  let ?c = "c[i := (key, val)]"
  have e: "m' = m\<lparr>buckets := Some (bs[key_bucket m key := ?c]), sz := sz m\<rparr>"
    using bs h c by (simp add: m'_def chain_def)
  have inv: "hm_inv m" using m by (simp add: map_of_keys_def)
  have "\<forall>e\<in>set ?c. e \<in> set (bs ! key_bucket m key) \<or> key_bucket m (fst e) = key_bucket m key"
    using set_update_subset_insert[of c i "(key, val)"] c(1) by auto
  from chain_update[OF inv bs h this, of "sz m"] have r: "hm_inv m'" "contents m' + mset c = contents m + mset ?c"
    using c unfolding e by auto
  have "contents m' + with_key eq key (contents m) = contents m + {#(key, val)#}"
    by (rule mset_exchange[OF r(2)]) (simp only: k mset_upd[OF c(2)])
  from map_step[OF m _ this] show ?thesis using r(1) m equal_refl by (simp add: map_of_keys_def e)
qed

lemma new_key_step:
  assumes m: "map_of_keys m" "hm_uniq m" and None: "hashmap_find_entry m key (key_bucket m key) = None"
    and m': "map_of_keys m'" and c: "contents m' = add_mset (key, val) (contents m)"
  shows "hm_uniq m' \<and> hashmap_find m' k = (if eq key k then Some val else hashmap_find m k)"
proof -
  have "with_key eq key (contents m) = {#}" using find_entry_cases[OF m(1), of key] None by simp
  then have "contents m' + with_key eq key (contents m) = contents m + {#(key, val)#}" using c by simp
  from map_step[OF m m' this] show ?thesis using equal_refl by simp
qed

lemma same_contents_step:
  assumes m: "map_of_keys m" "hm_uniq m" and m': "map_of_keys m'" and c: "contents m' = contents m"
  shows "hm_uniq m' \<and> hashmap_find m' k = hashmap_find m k"
proof -
  have u: "hm_uniq m'" using m m' c by (simp add: hm_uniq_iff map_of_keys_def)
  show ?thesis
  proof (cases "with_key eq k (contents m) = {#}")
    case True
    then show ?thesis using u find_None[OF m(1)] find_None[OF m'] c by simp
  next
    case False
    then obtain e where "e \<in># with_key eq k (contents m)" by blast
    from with_key_single[OF m this] show ?thesis using u find_Some[OF m(1)] find_Some[OF m'] c by simp
  qed
qed

lemma insert_step:
  assumes m: "map_of_keys m" "hm_uniq m" and "strategy \<noteq> HASHMAP_APPEND"
    and i: "hashmap_insert grow_ok entry_ok strategy key val m = ((err, old), m')"
  shows "hm_inv m' \<and> hm_uniq m' \<and> map_option snd old = hashmap_find m key
    \<and> hashmap_find m' k = (if err = 0 \<and> eq key k then Some val else hashmap_find m k)
    \<and> hashmap__size m' = hashmap__size m + (if err = 0 \<and> old = None then 1 else 0)
    \<and> err = (if old \<noteq> None then (if strategy = HASHMAP_ADD then - EEXIST else 0)
             else if strategy = HASHMAP_UPDATE then - ENOENT else err)
    \<and> (err \<in> {0, - EEXIST, - ENOENT} \<or> err = - ENOMEM \<and> (\<not> grow_ok \<or> \<not> entry_ok \<or> cap m \<ge> 2 ^ 60))"
proof (cases "hashmap_find_entry m key (key_bucket m key)")
  case None
  note n = None
  have f: "hashmap_find m key = None" using None by (simp add: hashmap_find_def)
  have inv: "hm_inv m" using m by (simp add: map_of_keys_def)
  show ?thesis
  proof (cases "strategy = HASHMAP_UPDATE")
    case True
    then have "err = - ENOENT" "old = None" "m' = m" using i None by (auto simp: hashmap_insert_def Let_def)
    then show ?thesis using m f True inv by simp
  next
    case False
    note r = insert_new[OF inv _ False i]
    then have m': "map_of_keys m'" "old = None" using n m by (auto simp: map_of_keys_def)
    have sz: "hashmap__size x = size (contents x)" if "hm_inv x" for x :: "('k, 'v) hashmap"
      using that by (simp add: hm_inv_def hashmap__size_def)
    from r n consider "err = - ENOMEM" "\<not> grow_ok \<or> \<not> entry_ok \<or> cap m \<ge> 2 ^ 60" "contents m' = contents m"
      | "err = 0" "contents m' = add_mset (key, val) (contents m)" by blast
    then show ?thesis
    proof cases
      case 1
      then show ?thesis using same_contents_step[OF m m'(1) 1(3)] m' f inv False sz[OF inv] sz[of m']
        by (simp add: map_of_keys_def)
    next
      case 2
      then show ?thesis using new_key_step[OF m n m'(1) 2(2)] m' f inv False sz[OF inv] sz[of m']
        by (simp add: map_of_keys_def)
    qed
  qed
next
  case (Some j)
  from found_chain[OF m Some] obtain c where o: "entry_at m (key_bucket m key) j = c ! j"
    and f: "hashmap_find m key = Some (snd (c ! j))" by metis
  have inv: "hm_inv m" using m by (simp add: map_of_keys_def)
  show ?thesis
  proof (cases "strategy = HASHMAP_ADD")
    case True
    then have "err = - EEXIST" "old = Some (c ! j)" "m' = m" using i Some o by (auto simp: hashmap_insert_def Let_def)
    then show ?thesis using m f True inv by simp
  next
    case False
    then have "strategy = HASHMAP_SET \<or> strategy = HASHMAP_UPDATE" using assms(3) by (cases strategy) auto
    then have "err = 0" "old = Some (c ! j)" "m' = m\<lparr>buckets := map_option
        (\<lambda>bs. bs[key_bucket m key := (chain bs (key_bucket m key))[j := (key, val)]]) (buckets m)\<rparr>"
      using i Some o assms(3) by (auto simp: hashmap_insert_def Let_def)
    then show ?thesis using replace_step[OF m Some, of val k] f False by (simp add: hashmap__size_def)
  qed
qed

end

interpretation str_keys: hash_equiv str_hash_fn str_equal_fn
  by unfold_locales (auto simp: str_equal_fn_def)

interpretation id_keys: hash_equiv btf_dedup_identity_hash_fn btf_dedup_equal_fn
  by unfold_locales (auto simp: btf_dedup_equal_fn_def)

interpretation coll_keys: hash_equiv btf_dedup_collision_hash_fn btf_dedup_equal_fn
  by unfold_locales (auto simp: btf_dedup_equal_fn_def)

subsection \<open>Properties\<close>

lemma init_map: "hm_inv (hashmap__init h e) \<and> hm_uniq (hashmap__init h e) \<and> hashmap_find (hashmap__init h e) k = None"
  by (simp add: hashmap__init_def hm_inv_def hm_uniq_def entries_def hashmap_find_def hashmap_find_entry_def)

text \<open>C30: insertion into a hash map refines the update of a finite function.  Let the hash and the equality function
  agree, and let the map be well formed with one entry per key.  For each strategy but
  \<open>HASHMAP_APPEND\<close> the map stays so, the old value is what a lookup returned before, and afterwards a
  lookup of any key equal to the inserted one returns the new value, of any other key what it returned
  before; this although the table may be rehashed into twice the buckets.  \<open>-EEXIST\<close> and \<open>-ENOENT\<close>
  are returned exactly as the strategy says, \<open>-ENOMEM\<close> only when an allocation fails, and no error
  changes what the map holds.\<close>

theorem hashmap_insert_refines:
  assumes "hash_equiv (hash_fn m) (equal_fn m)" "hm_inv m" "hm_uniq m" "strategy \<noteq> HASHMAP_APPEND"
    and "hashmap_insert grow_ok entry_ok strategy key val m = ((err, old), m')"
  shows "hm_inv m' \<and> hm_uniq m' \<and> map_option snd old = hashmap_find m key
    \<and> hashmap_find m' k = (if err = 0 \<and> equal_fn m key k then Some val else hashmap_find m k)
    \<and> hashmap__size m' = hashmap__size m + (if err = 0 \<and> old = None then 1 else 0)
    \<and> err = (if old \<noteq> None then (if strategy = HASHMAP_ADD then - EEXIST else 0)
             else if strategy = HASHMAP_UPDATE then - ENOENT else err)
    \<and> (err \<in> {0, - EEXIST, - ENOENT} \<or> err = - ENOMEM \<and> (\<not> grow_ok \<or> \<not> entry_ok \<or> cap m \<ge> 2 ^ 60))"
  using assms by (intro hash_equiv.insert_step[of "hash_fn m" "equal_fn m"]) (simp_all add: hash_equiv.map_of_keys_def)

definition ex_map :: "(string, nat) hashmap" where
  "ex_map = snd (hashmap_insert True True HASHMAP_ADD ''a'' 1 (hashmap__init str_hash_fn str_equal_fn))"

lemma ex_map_ok: "hash_equiv (hash_fn ex_map) (equal_fn ex_map)" "hm_inv ex_map" "hm_uniq ex_map"
proof -
  let ?m = "hashmap__init str_hash_fn str_equal_fn :: (string, nat) hashmap"
  have h: "hash_fn ?m = str_hash_fn" "equal_fn ?m = str_equal_fn" by (simp_all add: hashmap__init_def)
  obtain err old where i: "hashmap_insert True True HASHMAP_ADD ''a'' 1 ?m = ((err, old), ex_map)"
    by (metis ex_map_def prod.collapse)
  have n: "hashmap_find_entry ?m ''a'' (key_bucket ?m ''a'') = None" by (simp add: hashmap_find_entry_def hashmap__init_def)
  have m: "str_keys.map_of_keys ?m" "hm_uniq ?m" using init_map[of str_hash_fn str_equal_fn] h by (auto simp: str_keys.map_of_keys_def)
  show "hm_inv ex_map" "hm_uniq ex_map" using str_keys.insert_step[OF m _ i] by auto
  have "hash_fn ex_map = str_hash_fn" "equal_fn ex_map = str_equal_fn"
    using insert_new[OF _ _ _ i] init_map[of str_hash_fn str_equal_fn] n h by auto
  then show "hash_equiv (hash_fn ex_map) (equal_fn ex_map)" using str_keys.hash_equiv_axioms by simp
qed

theorem hashmap_insert_refines_witness:
  "case hashmap_insert True True HASHMAP_SET ''b'' 2 ex_map of ((err, old), m') \<Rightarrow>
     err = 0 \<and> hashmap_find m' ''b'' = Some 2 \<and> hashmap_find m' ''a'' = Some 1 \<and> hashmap__size m' = 2"
proof -
  let ?i = "hashmap_insert True True HASHMAP_SET ''b'' 2 ex_map"
  obtain err old m' where i: "?i = ((err, old), m')" by (metis prod.collapse)
  note r = hashmap_insert_refines[OF ex_map_ok _ i]
  have "fst ?i = (0, None)" "hashmap_find ex_map ''a'' = Some 1" "hashmap__size ex_map = 1"
    "equal_fn ex_map ''b'' ''a'' = False" "equal_fn ex_map ''b'' ''b'' = True" by code_simp+
  then show ?thesis using r[of "''a''"] r[of "''b''"] i by simp
qed

text \<open>deletion from a hash map refines the restriction of a finite function, and reports what it removed.\<close>

theorem hashmap_delete_refines:
  assumes "hash_equiv (hash_fn m) (equal_fn m)" "hm_inv m" "hm_uniq m"
    and "hashmap_delete key m = ((found, old), m')"
  shows "hm_inv m' \<and> hm_uniq m' \<and> map_option snd old = hashmap_find m key \<and> (found \<longleftrightarrow> old \<noteq> None)
    \<and> hashmap_find m' k = (if equal_fn m key k then None else hashmap_find m k)
    \<and> hashmap__size m = hashmap__size m' + (if found then 1 else 0)"
  using assms by (intro hash_equiv.delete_step[of "hash_fn m" "equal_fn m"]) (simp_all add: hash_equiv.map_of_keys_def)

theorem hashmap_delete_refines_witness:
  "case hashmap_delete ''a'' ex_map of ((found, old), m') \<Rightarrow>
     found \<and> old = Some (''a'', 1) \<and> hashmap_find m' ''a'' = None \<and> hashmap__size m' = 0"
proof -
  obtain found old m' where d: "hashmap_delete ''a'' ex_map = ((found, old), m')" by (metis prod.collapse)
  have "fst (hashmap_delete ''a'' ex_map) = (True, Some (''a'', 1))" "equal_fn ex_map ''a'' ''a'' = True" "hashmap__size ex_map = 1"
    by code_simp+
  then show ?thesis using hashmap_delete_refines[OF ex_map_ok d, of "''a''"] d by simp
qed

text \<open>the order of the entries of one key.  The map is used as a multimap: three values are appended for one key,
  so that the table is full, and another key is added.  The rehash of the last insertion walks each
  chain from its head and prepends, which reverses it, and a lookup of the first key returns the value
  that was appended first; before the rehash it returned the one appended last, as the header says.\<close>

theorem append_order_lost:
  "let app = (\<lambda>k v m. snd (hashmap_insert True True HASHMAP_APPEND k v m));
       m3 = app ''x'' (3::nat) (app ''x'' 2 (app ''x'' 1 (hashmap__init str_hash_fn str_equal_fn)));
       m4 = app ''y'' 4 m3
   in hashmap_find m3 ''x'' = Some 3 \<and> hashmap_find m4 ''x'' = Some 1"
  by code_simp

end
