(* ===== verification/Netlink.thy ===== *)
theory Netlink
  imports Nlattr
begin

text \<open>
  The netlink conversations of \<open>libbpf/src/netlink.c\<close> by which libxdp attaches programs to an interface and asks what is attached:
  opening a socket, sending a request, reading the answer, \<open>bpf_xdp_attach\<close>, \<open>bpf_xdp_query\<close> and \<open>bpf_xdp_query_id\<close>.  The system
  calls are the fields of \<open>nl_env\<close>, functions on a state of the world; a failure yields the negated error number.  An access outside the
  received bytes, or outside the request, is \<^const>\<open>None\<close>; so is a receive loop that does not end.
\<close>

abbreviation (input) EINTR :: int where "EINTR \<equiv> 4"
abbreviation (input) LIBBPF_ERRNO__INTERNAL :: int where "LIBBPF_ERRNO__INTERNAL \<equiv> 4004"
abbreviation (input) LIBBPF_ERRNO__WRNGPID :: int where "LIBBPF_ERRNO__WRNGPID \<equiv> 4011"
abbreviation (input) LIBBPF_ERRNO__INVSEQ :: int where "LIBBPF_ERRNO__INVSEQ \<equiv> 4012"
abbreviation (input) LIBBPF_ERRNO__NLPARSE :: int where "LIBBPF_ERRNO__NLPARSE \<equiv> 4013"
abbreviation (input) NL_CONT :: int where "NL_CONT \<equiv> 0"
abbreviation (input) NL_NEXT :: int where "NL_NEXT \<equiv> 1"
abbreviation (input) NL_DONE :: int where "NL_DONE \<equiv> 2"
abbreviation (input) NLMSG_ERROR :: u16 where "NLMSG_ERROR \<equiv> 2"
abbreviation (input) NLMSG_DONE :: u16 where "NLMSG_DONE \<equiv> 3"
abbreviation (input) NLM_F_MULTI :: u16 where "NLM_F_MULTI \<equiv> 2"

subsection \<open>System calls\<close>

text \<open>\<open>nl_recv sock peek\<close> is \<open>recvmsg\<close>: when peeking, the length of the next datagram; otherwise the datagram.  \<open>nl_realloc\<close> tells
  whether memory is available.\<close>

record 'w nl_env =
  nl_socket :: "int \<Rightarrow> 'w \<Rightarrow> int \<times> 'w"
  nl_setsockopt :: "int \<Rightarrow> 'w \<Rightarrow> int \<times> 'w"
  nl_bind :: "int \<Rightarrow> 'w \<Rightarrow> int \<times> 'w"
  nl_getsockname :: "int \<Rightarrow> 'w \<Rightarrow> (int + u32 \<times> nat) \<times> 'w"
  nl_close :: "int \<Rightarrow> 'w \<Rightarrow> 'w"
  nl_peek :: "int \<Rightarrow> 'w \<Rightarrow> int \<times> 'w"
  nl_recv :: "int \<Rightarrow> 'w \<Rightarrow> (int + u8 list) \<times> 'w"
  nl_realloc :: "'w \<Rightarrow> bool \<times> 'w"
  nl_time :: "'w \<Rightarrow> u32 \<times> 'w"
  nl_send :: "int \<Rightarrow> u8 list \<Rightarrow> 'w \<Rightarrow> int \<times> 'w"

text \<open>The result is the socket and the port id, or an error; the structure \<open>sockaddr_nl\<close> has 12 bytes.\<close>

definition libbpf_netlink_open :: "'w nl_env \<Rightarrow> int \<Rightarrow> 'w \<Rightarrow> (int + int \<times> u32) \<times> 'w" where
  "libbpf_netlink_open env protocol w =
     (case nl_socket env protocol w of (sock, w) \<Rightarrow>
        if sock < 0 then (Inl sock, w)
        else case nl_setsockopt env sock w of (_, w) \<Rightarrow>
             case nl_bind env sock w of (r, w) \<Rightarrow>
               if r < 0 then (Inl r, nl_close env sock w)
               else case nl_getsockname env sock w of
                      (Inl e, w) \<Rightarrow> (Inl e, nl_close env sock w)
                    | (Inr (pid, addrlen), w) \<Rightarrow>
                        if addrlen \<noteq> 12 then (Inl (- LIBBPF_ERRNO__INTERNAL), nl_close env sock w)
                        else (Inr (sock, pid), w))"

subsection \<open>Receiving\<close>

partial_function (option) netlink_peekmsg :: "'w nl_env \<Rightarrow> int \<Rightarrow> 'w \<Rightarrow> (int \<times> 'w) option" where
  "netlink_peekmsg env sock w =
     (case nl_peek env sock w of (len, w) \<Rightarrow>
        if len = - EINTR \<or> len = - EAGAIN then netlink_peekmsg env sock w else Some (len, w))"

partial_function (option) netlink_recvmsg :: "'w nl_env \<Rightarrow> int \<Rightarrow> 'w \<Rightarrow> ((int + u8 list) \<times> 'w) option" where
  "netlink_recvmsg env sock w =
     (case nl_recv env sock w of
        (Inl e, w) \<Rightarrow> if e = - EINTR \<or> e = - EAGAIN then netlink_recvmsg env sock w else Some (Inl e, w)
      | (Inr buf, w) \<Rightarrow> Some (Inr buf, w))"

text \<open>\<open>libbpf_nla_dump_errormsg\<close>: the message it prints, if any.\<close>

definition extack_policy :: "libbpf_nla_policy list" where
  "extack_policy = [\<lparr>pol_type = 0, pol_minlen = 0, pol_maxlen = 0\<rparr>,
     \<lparr>pol_type = LIBBPF_NLA_STRING, pol_minlen = 0, pol_maxlen = 0\<rparr>,
     \<lparr>pol_type = LIBBPF_NLA_U32, pol_minlen = 0, pol_maxlen = 0\<rparr>] @ [\<lparr>pol_type = 0, pol_minlen = 0, pol_maxlen = 0\<rparr>]"

definition libbpf_nla_dump_errormsg :: "u8 list \<Rightarrow> nat \<Rightarrow> nat option option" where
  "libbpf_nla_dump_errormsg buf nlh = do {
     flags \<leftarrow> load16 buf (nlh + 6);
     if flags AND 0x200 = 0 then Some None
     else do {
       inner \<leftarrow> (if flags AND 0x100 = 0 then do { l \<leftarrow> load32 buf (nlh + 16 + 4); Some (sint (l - 16)) } else Some 0);
       nlmsg_len \<leftarrow> load32 buf nlh;
       let attr = int nlh + 16 + 20 + inner;
       let alen = int nlh + int (unat nlmsg_len) - attr;
       if attr < 0 then None
       else do {
         (err, tb) \<leftarrow> libbpf_nla_parse buf 3 (nat attr) alen (Some extack_policy);
         if err \<noteq> 0 then Some None
         else (case tb ! 1 of None \<Rightarrow> Some None | Some nla \<Rightarrow> Some (Some (libbpf_nla_data nla)))
       }
     }
   }"

text \<open>The loop over the messages of a datagram.  A callback gets the offset of a message and the cookie; \<open>None\<close> stands for no callback.
  The outcome is a jump to \<open>done\<close> with a result, a jump to \<open>start\<close>, or the end of the datagram with the value of \<open>multipart\<close>.\<close>

datatype recv_outcome = Done int | Restart | Next bool

type_synonym 'c dump_fn = "u8 list \<Rightarrow> nat \<Rightarrow> 'c \<Rightarrow> (int \<times> 'c) option"

definition nlmsg_ok :: "u8 list \<Rightarrow> nat \<Rightarrow> int \<Rightarrow> bool option" where
  "nlmsg_ok buf nh len =
     (if len \<ge> 16 then do { l \<leftarrow> load32 buf nh; Some (unat l \<ge> 16 \<and> int (unat l) \<le> len) } else Some False)"

definition nlmsg_next :: "u8 list \<Rightarrow> nat \<Rightarrow> int \<Rightarrow> (nat \<times> int) option" where
  "nlmsg_next buf nh len = do { l \<leftarrow> load32 buf nh; Some (nh + align4 (unat l), len - int (align4 (unat l))) }"

lemma nlmsg_ok_next: "nlmsg_ok buf nh len = Some True \<Longrightarrow> nlmsg_next buf nh len = Some (nh', len') \<Longrightarrow> 16 \<le> len \<and> len' < len"
  by (auto simp: nlmsg_ok_def nlmsg_next_def align4_def bind_eq_Some_conv split: if_splits)

text \<open>One message: \<open>Inl\<close> an outcome that leaves the loop, \<open>Inr\<close> the new values of \<open>multipart\<close> and the cookie.\<close>

definition recv_msg ::
  "'c dump_fn option \<Rightarrow> u32 \<Rightarrow> u32 \<Rightarrow> u8 list \<Rightarrow> nat \<Rightarrow> bool \<Rightarrow> 'c \<Rightarrow> ((recv_outcome \<times> 'c) + (bool \<times> 'c)) option" where
  "recv_msg fn nl_pid seq buf nh multipart cookie = do {
     pid \<leftarrow> load32 buf (nh + 12);
     if pid \<noteq> nl_pid then Some (Inl (Done (- LIBBPF_ERRNO__WRNGPID), cookie))
     else do {
       nlmsg_seq \<leftarrow> load32 buf (nh + 8);
       if nlmsg_seq \<noteq> seq then Some (Inl (Done (- LIBBPF_ERRNO__INVSEQ), cookie))
       else do {
         flags \<leftarrow> load16 buf (nh + 6);
         let multipart = (flags AND NLM_F_MULTI \<noteq> 0 \<or> multipart);
         type \<leftarrow> load16 buf (nh + 4);
         if type = NLMSG_ERROR then do {
           e \<leftarrow> load32 buf (nh + 16);
           if e = 0 then Some (Inr (multipart, cookie))
           else do { _ \<leftarrow> libbpf_nla_dump_errormsg buf nh; Some (Inl (Done (sint e), cookie)) }
         }
         else if type = NLMSG_DONE then Some (Inl (Done 0, cookie))
         else (case fn of
                 None \<Rightarrow> Some (Inr (multipart, cookie))
               | Some f \<Rightarrow> do {
                   (ret, cookie) \<leftarrow> f buf nh cookie;
                   Some (if ret = NL_CONT then Inr (multipart, cookie)
                         else if ret = NL_NEXT then Inl (Restart, cookie)
                         else if ret = NL_DONE then Inl (Done 0, cookie)
                         else Inl (Done ret, cookie))
                 })
       }
     }
   }"

function recv_msgs ::
  "'c dump_fn option \<Rightarrow> u32 \<Rightarrow> u32 \<Rightarrow> u8 list \<Rightarrow> nat \<Rightarrow> int \<Rightarrow> bool \<Rightarrow> 'c \<Rightarrow> (recv_outcome \<times> 'c) option" where
  "recv_msgs fn nl_pid seq buf nh len multipart cookie =
     (if nlmsg_ok buf nh len = Some True then
        (case recv_msg fn nl_pid seq buf nh multipart cookie of
           None \<Rightarrow> None
         | Some (Inl r) \<Rightarrow> Some r
         | Some (Inr (multipart, cookie)) \<Rightarrow>
             (case nlmsg_next buf nh len of
                None \<Rightarrow> None
              | Some (nh', len') \<Rightarrow> recv_msgs fn nl_pid seq buf nh' len' multipart cookie))
      else if nlmsg_ok buf nh len = None then None else Some (Next multipart, cookie))"
  by pat_completeness auto

termination
  by (relation "measure (\<lambda>(_, _, _, _, _, len, _). nat len)") (auto dest!: nlmsg_ok_next)

declare recv_msgs.simps [simp del]

text \<open>The loop over the datagrams; \<open>cap\<close> is the size of the receive buffer.\<close>

partial_function (option) recv_loop ::
  "'w nl_env \<Rightarrow> int \<Rightarrow> u32 \<Rightarrow> u32 \<Rightarrow> 'c dump_fn option \<Rightarrow> nat \<Rightarrow> 'c \<Rightarrow> 'w \<Rightarrow> ((int \<times> 'c) \<times> 'w) option" where
  "recv_loop env sock nl_pid seq fn cap cookie w = do {
     (len, w) \<leftarrow> netlink_peekmsg env sock w;
     if len < 0 then Some ((len, cookie), w)
     else
       let grow = len > int cap; (ok, w) = (if grow then nl_realloc env w else (True, w)); cap = (if grow then nat len else cap)
       in if \<not> ok then Some ((- ENOMEM, cookie), w)
          else do {
            (r, w) \<leftarrow> netlink_recvmsg env sock w;
            case r of
              Inl e \<Rightarrow> Some ((e, cookie), w)
            | Inr buf \<Rightarrow>
                if buf = [] then Some ((0, cookie), w)
                else do {
                  (out, cookie) \<leftarrow> recv_msgs fn nl_pid seq buf 0 (int (length buf)) False cookie;
                  case out of
                    Done ret \<Rightarrow> Some ((ret, cookie), w)
                  | Restart \<Rightarrow> recv_loop env sock nl_pid seq fn cap cookie w
                  | Next multipart \<Rightarrow>
                      if multipart then recv_loop env sock nl_pid seq fn cap cookie w else Some ((0, cookie), w)
                }
          }
   }"

definition libbpf_netlink_recv ::
  "'w nl_env \<Rightarrow> int \<Rightarrow> u32 \<Rightarrow> u32 \<Rightarrow> 'c dump_fn option \<Rightarrow> 'c \<Rightarrow> 'w \<Rightarrow> ((int \<times> 'c) \<times> 'w) option" where
  "libbpf_netlink_recv env sock nl_pid seq fn cookie w =
     (case nl_realloc env w of (ok, w) \<Rightarrow>
        if \<not> ok then Some ((- ENOMEM, cookie), w) else recv_loop env sock nl_pid seq fn 4096 cookie w)"

definition libbpf_netlink_send_recv ::
  "'w nl_env \<Rightarrow> u8 list \<Rightarrow> int \<Rightarrow> 'c dump_fn option \<Rightarrow> 'c \<Rightarrow> 'w \<Rightarrow> ((int \<times> 'c) \<times> 'w) option" where
  "libbpf_netlink_send_recv env req protocol fn cookie w =
     (case libbpf_netlink_open env protocol w of
        (Inl e, w) \<Rightarrow> Some ((e, cookie), w)
      | (Inr (sock, nl_pid), w) \<Rightarrow> do {
          req \<leftarrow> store32 req 12 0;
          let (t, w) = nl_time env w;
          req \<leftarrow> store32 req 8 t;
          nlmsg_len \<leftarrow> load32 req 0;
          msg \<leftarrow> load_bytes req 0 (unat nlmsg_len);
          case nl_send env sock msg w of (r, w) \<Rightarrow>
            if r < 0 then Some ((r, cookie), nl_close env sock w)
            else do {
              (res, w) \<leftarrow> libbpf_netlink_recv env sock nl_pid t fn cookie w;
              Some (res, nl_close env sock w)
            }
        })"

subsection \<open>Attaching\<close>

abbreviation (input) AF_PACKET :: u8 where "AF_PACKET \<equiv> 17"
abbreviation (input) RTM_GETLINK :: u16 where "RTM_GETLINK \<equiv> 18"
abbreviation (input) RTM_SETLINK :: u16 where "RTM_SETLINK \<equiv> 19"
abbreviation (input) NETLINK_ROUTE :: int where "NETLINK_ROUTE \<equiv> 0"
abbreviation (input) NETLINK_GENERIC :: int where "NETLINK_GENERIC \<equiv> 16"
abbreviation (input) IFLA_XDP :: nat where "IFLA_XDP \<equiv> 43"
abbreviation (input) IFLA_MAX :: nat where "IFLA_MAX \<equiv> 61"
abbreviation (input) IFLA_XDP_FD :: nat where "IFLA_XDP_FD \<equiv> 1"
abbreviation (input) IFLA_XDP_ATTACHED :: nat where "IFLA_XDP_ATTACHED \<equiv> 2"
abbreviation (input) IFLA_XDP_FLAGS :: nat where "IFLA_XDP_FLAGS \<equiv> 3"
abbreviation (input) IFLA_XDP_PROG_ID :: nat where "IFLA_XDP_PROG_ID \<equiv> 4"
abbreviation (input) IFLA_XDP_DRV_PROG_ID :: nat where "IFLA_XDP_DRV_PROG_ID \<equiv> 5"
abbreviation (input) IFLA_XDP_SKB_PROG_ID :: nat where "IFLA_XDP_SKB_PROG_ID \<equiv> 6"
abbreviation (input) IFLA_XDP_HW_PROG_ID :: nat where "IFLA_XDP_HW_PROG_ID \<equiv> 7"
abbreviation (input) IFLA_XDP_EXPECTED_FD :: nat where "IFLA_XDP_EXPECTED_FD \<equiv> 8"
abbreviation (input) IFLA_XDP_MAX :: nat where "IFLA_XDP_MAX \<equiv> 8"
abbreviation (input) XDP_FLAGS_REPLACE :: u32 where "XDP_FLAGS_REPLACE \<equiv> 16"

text \<open>An initialised request: zero bytes, then the fields that the initialiser names.  The last argument is the start of
  the union that follows the header.\<close>

definition new_req :: "u32 \<Rightarrow> u16 \<Rightarrow> u16 \<Rightarrow> u8 list \<Rightarrow> u8 list option" where
  "new_req nlmsg_len nlmsg_type nlmsg_flags body = do {
     req \<leftarrow> store32 (replicate REQ_SIZE 0) 0 nlmsg_len;
     req \<leftarrow> store16 req 4 nlmsg_type;
     req \<leftarrow> store16 req 6 nlmsg_flags;
     store_bytes req 16 body
   }"

definition ifinfo :: "u8 \<Rightarrow> u32 \<Rightarrow> u8 list" where
  "ifinfo family ifindex = [family, 0, 0, 0] @ le32 ifindex"

text \<open>The request that \<open>__bpf_set_link_xdp_fd_replace\<close> builds, or the error it returns.\<close>

definition set_link_request :: "int \<Rightarrow> int \<Rightarrow> int \<Rightarrow> u32 \<Rightarrow> (int + u8 list) option" where
  "set_link_request ifindex fd old_fd flags = do {
     req \<leftarrow> new_req (16 + 16) RTM_SETLINK (1 OR 4) (ifinfo 0 (word_of_int ifindex));
     (nla, req) \<leftarrow> nlattr_begin_nested req (of_nat IFLA_XDP);
     case nla of
       None \<Rightarrow> Some (Inl (- EMSGSIZE))
     | Some nla \<Rightarrow> do {
         (ret, req) \<leftarrow> nlattr_add req (of_nat IFLA_XDP_FD) (Some (le32 (word_of_int fd))) 4;
         if ret < 0 then Some (Inl ret)
         else do {
           (ret, req) \<leftarrow> (if flags \<noteq> 0 then nlattr_add req (of_nat IFLA_XDP_FLAGS) (Some (le32 flags)) 4 else Some (ret, req));
           if ret < 0 then Some (Inl ret)
           else do {
             (ret, req) \<leftarrow> (if flags AND XDP_FLAGS_REPLACE \<noteq> 0
                           then nlattr_add req (of_nat IFLA_XDP_EXPECTED_FD) (Some (le32 (word_of_int old_fd))) 4
                           else Some (ret, req));
             if ret < 0 then Some (Inl ret)
             else do { req \<leftarrow> nlattr_end_nested req nla; Some (Inr req) }
           }
         }
       }
   }"

definition bpf_set_link_xdp_fd_replace ::
  "'w nl_env \<Rightarrow> int \<Rightarrow> int \<Rightarrow> int \<Rightarrow> u32 \<Rightarrow> 'w \<Rightarrow> (int \<times> 'w) option" where
  "bpf_set_link_xdp_fd_replace env ifindex fd old_fd flags w = do {
     r \<leftarrow> set_link_request ifindex fd old_fd flags;
     case r of
       Inl e \<Rightarrow> Some (e, w)
     | Inr req \<Rightarrow> do { ((ret, _), w) \<leftarrow> libbpf_netlink_send_recv env req NETLINK_ROUTE None () w; Some (ret, w) }
   }"

text \<open>\<open>valid\<close> is the check of the options structure, \<open>opts\<close> its field \<open>old_prog_fd\<close> (0 when there is none).\<close>

definition bpf_xdp_attach :: "'w nl_env \<Rightarrow> bool \<Rightarrow> int \<Rightarrow> int \<Rightarrow> u32 \<Rightarrow> int \<Rightarrow> 'w \<Rightarrow> (int \<times> 'w) option" where
  "bpf_xdp_attach env valid ifindex prog_fd flags opts w =
     (if \<not> valid then Some (- EINVAL, w)
      else
        let old_prog_fd = opts;
            flags = (if old_prog_fd \<noteq> 0 then flags OR XDP_FLAGS_REPLACE else flags);
            old_prog_fd = (if old_prog_fd \<noteq> 0 then old_prog_fd else -1)
        in bpf_set_link_xdp_fd_replace env ifindex prog_fd old_prog_fd flags w)"

definition bpf_xdp_detach :: "'w nl_env \<Rightarrow> bool \<Rightarrow> int \<Rightarrow> u32 \<Rightarrow> int \<Rightarrow> 'w \<Rightarrow> (int \<times> 'w) option" where
  "bpf_xdp_detach env valid ifindex flags opts w = bpf_xdp_attach env valid ifindex (-1) flags opts w"

subsection \<open>Queries\<close>

record xdp_link_info =
  xl_prog_id :: u32
  xl_drv_prog_id :: u32
  xl_hw_prog_id :: u32
  xl_skb_prog_id :: u32
  xl_attach_mode :: u8

record xdp_id_md =
  md_ifindex :: int
  md_flags :: u32
  md_info :: xdp_link_info

definition get_id :: "u8 list \<Rightarrow> nat option \<Rightarrow> u32 \<Rightarrow> u32 option" where
  "get_id buf nla old = (case nla of None \<Rightarrow> Some old | Some nla \<Rightarrow> libbpf_nla_getattr_u32 buf nla)"

text \<open>\<open>ifi\<close> is the offset of the \<open>ifinfomsg\<close>; its interface index is four bytes in.\<close>

definition get_xdp_info :: "u8 list \<Rightarrow> nat \<Rightarrow> nat option list \<Rightarrow> xdp_id_md \<Rightarrow> (int \<times> xdp_id_md) option" where
  "get_xdp_info buf ifi tb xdp_id = do {
     index \<leftarrow> (if md_ifindex xdp_id \<noteq> 0 then do { i \<leftarrow> load32 buf (ifi + 4); Some (sint i) } else Some 0);
     if md_ifindex xdp_id \<noteq> 0 \<and> md_ifindex xdp_id \<noteq> index then Some (0, xdp_id)
     else (case tb ! IFLA_XDP of
             None \<Rightarrow> Some (0, xdp_id)
           | Some nla \<Rightarrow> do {
               (ret, xdp_tb) \<leftarrow> libbpf_nla_parse_nested buf IFLA_XDP_MAX nla None;
               if ret \<noteq> 0 then Some (ret, xdp_id)
               else (case xdp_tb ! IFLA_XDP_ATTACHED of
                       None \<Rightarrow> Some (0, xdp_id)
                     | Some att \<Rightarrow> do {
                         mode \<leftarrow> libbpf_nla_getattr_u8 buf att;
                         let info = (md_info xdp_id)\<lparr>xl_attach_mode := mode\<rparr>;
                         if mode = 0 then Some (0, xdp_id\<lparr>md_info := info\<rparr>)
                         else do {
                           prog \<leftarrow> get_id buf (xdp_tb ! IFLA_XDP_PROG_ID) (xl_prog_id info);
                           skb \<leftarrow> get_id buf (xdp_tb ! IFLA_XDP_SKB_PROG_ID) (xl_skb_prog_id info);
                           drv \<leftarrow> get_id buf (xdp_tb ! IFLA_XDP_DRV_PROG_ID) (xl_drv_prog_id info);
                           hw \<leftarrow> get_id buf (xdp_tb ! IFLA_XDP_HW_PROG_ID) (xl_hw_prog_id info);
                           Some (0, xdp_id\<lparr>md_info := info\<lparr>xl_prog_id := prog, xl_skb_prog_id := skb,
                                                          xl_drv_prog_id := drv, xl_hw_prog_id := hw\<rparr>\<rparr>)
                         }
                       })
             })
   }"

definition dump_link_nlmsg :: "xdp_id_md dump_fn" where
  "dump_link_nlmsg buf nlh cookie = do {
     l \<leftarrow> load32 buf nlh;
     (err, tb) \<leftarrow> libbpf_nla_parse buf IFLA_MAX (nlh + 16 + 16) (sint (l - 32)) None;
     if err \<noteq> 0 then Some (- LIBBPF_ERRNO__NLPARSE, cookie) else get_xdp_info buf (nlh + 16) tb cookie
   }"

definition parse_genl_family_id :: "u16 dump_fn" where
  "parse_genl_family_id buf nh cookie = do {
     l \<leftarrow> load32 buf nh;
     (_, tb) \<leftarrow> libbpf_nla_parse buf 1 (nh + 16 + 4) (sint (l - 20)) None;
     case tb ! 1 of
       None \<Rightarrow> Some (NL_CONT, cookie)
     | Some nla \<Rightarrow> do { i \<leftarrow> libbpf_nla_getattr_u16 buf nla; Some (NL_DONE, i) }
   }"

text \<open>\<open>id\<close> is an uninitialised variable of the caller; its value is the argument \<open>id0\<close>.\<close>

definition libbpf_netlink_resolve_genl_family_id ::
  "'w nl_env \<Rightarrow> u8 list \<Rightarrow> nat \<Rightarrow> u16 \<Rightarrow> 'w \<Rightarrow> ((int \<times> u16) \<times> 'w) option" where
  "libbpf_netlink_resolve_genl_family_id env name len id0 w = do {
     req \<leftarrow> new_req (16 + 4) 16 1 [3, 2, 0, 0];
     (err, req) \<leftarrow> nlattr_add req 2 (Some name) len;
     if err < 0 then Some ((err, id0), w)
     else libbpf_netlink_send_recv env req NETLINK_GENERIC (Some parse_genl_family_id) id0 w
   }"

record xdp_features_md =
  fm_ifindex :: int
  fm_flags :: u64

definition parse_xdp_features :: "xdp_features_md dump_fn" where
  "parse_xdp_features buf nh md = do {
     l \<leftarrow> load32 buf nh;
     (_, tb) \<leftarrow> libbpf_nla_parse buf 4 (nh + 16 + 4) (sint (l - 20)) None;
     case (tb ! 1, tb ! 3) of
       (Some a, Some f) \<Rightarrow> do {
         ifindex \<leftarrow> libbpf_nla_getattr_u32 buf a;
         if ifindex \<noteq> word_of_int (fm_ifindex md) then Some (NL_CONT, md)
         else do { fl \<leftarrow> libbpf_nla_getattr_u64 buf f; Some (NL_DONE, md\<lparr>fm_flags := fl\<rparr>) }
       }
     | _ \<Rightarrow> Some (NL_CONT, md)
   }"

record bpf_xdp_query_opts =
  qo_info :: xdp_link_info
  qo_has_feature_flags :: bool
  qo_feature_flags :: u64

definition no_link_info :: xdp_link_info where
  "no_link_info = \<lparr>xl_prog_id = 0, xl_drv_prog_id = 0, xl_hw_prog_id = 0, xl_skb_prog_id = 0, xl_attach_mode = 0\<rparr>"

definition query_flags_ok :: "u32 \<Rightarrow> bool" where
  "query_flags_ok xdp_flags \<longleftrightarrow> xdp_flags AND NOT 0x1F = 0
     \<and> (let f = xdp_flags AND 0xE in f AND (f - 1) = 0)"

text \<open>The part of \<open>bpf_xdp_query\<close> that asks for the features of the device.\<close>

definition query_features ::
  "'w nl_env \<Rightarrow> int \<Rightarrow> u16 \<Rightarrow> bpf_xdp_query_opts \<Rightarrow> 'w \<Rightarrow> ((int \<times> bpf_xdp_query_opts) \<times> 'w) option" where
  "query_features env ifindex id0 opts w = do {
     ((err, i), w) \<leftarrow> libbpf_netlink_resolve_genl_family_id env (map (of_nat \<circ> of_char) ''netdev'' @ [0]) 7 id0 w;
     if err < 0 then
       if err = - ENOENT then Some ((0, opts\<lparr>qo_feature_flags := 0\<rparr>), w) else Some ((err, opts), w)
     else do {
       req \<leftarrow> new_req (16 + 4) i 1 [1, 2, 0, 0];
       (err, req) \<leftarrow> nlattr_add req 1 (Some (le32 (word_of_int ifindex))) 4;
       if err < 0 then Some ((err, opts), w)
       else do {
         ((err, md), w) \<leftarrow> libbpf_netlink_send_recv env req NETLINK_GENERIC (Some parse_xdp_features)
                            \<lparr>fm_ifindex = ifindex, fm_flags = 0\<rparr> w;
         if err \<noteq> 0 then Some ((err, opts), w) else Some ((0, opts\<lparr>qo_feature_flags := fm_flags md\<rparr>), w)
       }
     }
   }"

definition bpf_xdp_query ::
  "'w nl_env \<Rightarrow> bool \<Rightarrow> int \<Rightarrow> u32 \<Rightarrow> u16 \<Rightarrow> bpf_xdp_query_opts \<Rightarrow> 'w \<Rightarrow> ((int \<times> bpf_xdp_query_opts) \<times> 'w) option" where
  "bpf_xdp_query env valid ifindex xdp_flags id0 opts w =
     (if \<not> valid \<or> \<not> query_flags_ok xdp_flags then Some ((- EINVAL, opts), w)
      else do {
        req \<leftarrow> new_req (16 + 16) RTM_GETLINK (0x300 OR 1) (ifinfo AF_PACKET 0);
        ((err, md), w) \<leftarrow> libbpf_netlink_send_recv env req NETLINK_ROUTE (Some dump_link_nlmsg)
          \<lparr>md_ifindex = ifindex, md_flags = xdp_flags AND 0xE, md_info = no_link_info\<rparr> w;
        if err \<noteq> 0 then Some ((err, opts), w)
        else
          let opts = opts\<lparr>qo_info := md_info md\<rparr>
          in if \<not> qo_has_feature_flags opts then Some ((0, opts), w) else query_features env ifindex id0 opts w
      })"

definition pick_prog_id :: "u32 \<Rightarrow> xdp_link_info \<Rightarrow> u32" where
  "pick_prog_id flags info =
     (if xl_attach_mode info \<noteq> 4 \<and> flags = 0 then xl_prog_id info
      else if flags AND 4 \<noteq> 0 then xl_drv_prog_id info
      else if flags AND 8 \<noteq> 0 then xl_hw_prog_id info
      else if flags AND 2 \<noteq> 0 then xl_skb_prog_id info
      else 0)"

definition bpf_xdp_query_id ::
  "'w nl_env \<Rightarrow> int \<Rightarrow> u32 \<Rightarrow> u16 \<Rightarrow> 'w \<Rightarrow> ((int \<times> u32 option) \<times> 'w) option" where
  "bpf_xdp_query_id env ifindex flags id0 w = do {
     ((ret, opts), w) \<leftarrow> bpf_xdp_query env True ifindex flags id0
        \<lparr>qo_info = no_link_info, qo_has_feature_flags = True, qo_feature_flags = 0\<rparr> w;
     if ret \<noteq> 0 then Some ((ret, None), w)
     else Some ((0, Some (pick_prog_id (flags AND 0xE) (qo_info opts))), w)
   }"

subsection \<open>The attach request\<close>

lemma new_req_is:
  assumes "4 dvd n" "length b \<le> n" "16 + n \<le> REQ_SIZE"
  shows "\<exists>req. new_req (of_nat (16 + n)) type flags b = Some req
    \<and> req_is (le16 type @ le16 flags @ replicate 8 0) (b @ replicate (n - length b) 0) req"
proof -
  let ?z = "\<lambda>k. replicate k (0 :: u8)" and ?r = "148 - length b"
  have z: "?z REQ_SIZE = ?z 4 @ ?z 2 @ ?z 2 @ ?z 8 @ ?z (length b) @ ?z ?r"
  proof -
    have "REQ_SIZE = 4 + (2 + (2 + (8 + (length b + ?r))))" using assms by simp
    then show ?thesis by (simp only: replicate_add)
  qed
  let ?l = "le32 (of_nat (16 + n))"
  have 1: "store32 (?z REQ_SIZE) 0 (of_nat (16 + n)) = Some (?l @ ?z 2 @ ?z 2 @ ?z 8 @ ?z (length b) @ ?z ?r)"
    unfolding z store32_def using store_at[of "[]" 0 "?z 4" ?l] by (simp del: of_nat_add replicate.simps)
  have 2: "store16 (?l @ ?z 2 @ x) 4 type = Some (?l @ le16 type @ x)" for x
    unfolding store16_def le16_def[symmetric] using store_at[of ?l 4 "?z 2" "le16 type"] by (simp del: replicate.simps)
  have 3: "store16 (?l @ le16 type @ ?z 2 @ x) 6 flags = Some (?l @ le16 type @ le16 flags @ x)" for x
    unfolding store16_def le16_def[symmetric] using store_at[of "?l @ le16 type" 6 "?z 2" "le16 flags"] by (simp del: replicate.simps)
  have 4: "store_bytes (?l @ le16 type @ le16 flags @ ?z 8 @ ?z (length b) @ x) 16 b = Some (?l @ le16 type @ le16 flags @ ?z 8 @ b @ x)" for x
    using store_at[of "?l @ le16 type @ le16 flags @ ?z 8" 16 "?z (length b)" b] by (simp del: replicate.simps)
  have "?z ?r = ?z (n - length b) @ ?z (REQ_SIZE - (16 + n))" using assms by (simp flip: replicate_add)
  then have "req_is (le16 type @ le16 flags @ ?z 8) (b @ ?z (n - length b)) (?l @ le16 type @ le16 flags @ ?z 8 @ b @ ?z ?r)"
    using assms by (simp add: req_is_def)
  moreover have "new_req (of_nat (16 + n)) type flags b = Some (?l @ le16 type @ le16 flags @ ?z 8 @ b @ ?z ?r)"
    unfolding new_req_def 1 Option.bind.bind_lunit 2 3 4 ..
  ultimately show ?thesis by blast
qed

text \<open>The attributes of the request.\<close>

definition attach_attrs :: "int \<Rightarrow> int \<Rightarrow> u32 \<Rightarrow> (u16 \<times> u8 list) list" where
  "attach_attrs fd old_fd flags = [(1, le32 (word_of_int fd))]
     @ (if flags \<noteq> 0 then [(3, le32 flags)] else [])
     @ (if flags AND XDP_FLAGS_REPLACE \<noteq> 0 then [(8, le32 (word_of_int old_fd))] else [])"

lemma add_u32:
  assumes "req_is hdr (body @ stream as) req" "16 + length body + length (stream as) + 8 \<le> REQ_SIZE"
  shows "\<exists>req'. nlattr_add req t (Some (le32 v)) 4 = Some (0, req') \<and> req_is hdr (body @ stream (as @ [(t, le32 v)])) req'"
proof -
  have "le32 v \<noteq> []" by (simp add: le32_def)
  then show ?thesis
    using nlattr_add_fits[OF assms(1), of "le32 v" _ t] assms(2) by (simp add: align4_def stream_append)
qed

lemma length_stream_u32: "length (stream [(t, le32 v)]) = 8" "length (stream [(t, le32 v), (t', le32 v')]) = 16"
  by (simp_all add: length_attr_bytes align4_def)

lemma set_link_request_is:
  "\<exists>req. set_link_request ifindex fd old_fd flags = Some (Inr req)
    \<and> req_is (le16 RTM_SETLINK @ le16 5 @ replicate 8 0)
        (ifinfo 0 (word_of_int ifindex) @ replicate 8 0 @ attr_bytes 0x802B (stream (attach_attrs fd old_fd flags))) req"
proof -
  let ?hdr = "le16 RTM_SETLINK @ le16 5 @ replicate 8 (0 :: u8)"
  let ?i = "ifinfo 0 (word_of_int ifindex)"
  let ?b = "?i @ replicate 8 (0 :: u8)" and ?n = "attr_bytes 0x802B []"
  have li: "length ?b = 16" by (simp add: ifinfo_def)
  obtain r0 where r0: "new_req (16 + 16) RTM_SETLINK (1 OR 4) ?i = Some r0" "req_is ?hdr ?b r0"
    using new_req_is[of 16 ?i RTM_SETLINK 5] by (auto simp: ifinfo_def)
  obtain r1 where r1: "nlattr_begin_nested r0 (of_nat IFLA_XDP) = Some (Some 32, r1)" "req_is ?hdr (?b @ ?n) r1"
    using begin_nested_fits[OF r0(2), of "of_nat IFLA_XDP"] li by (auto simp: numeral_eq_Suc)
  let ?as = "[(1, le32 (word_of_int fd))] :: (u16 \<times> u8 list) list"
  have ln: "length (?b @ ?n) = 20" using li by (simp add: length_attr_bytes align4_def)
  obtain r2 where r2: "nlattr_add r1 (of_nat IFLA_XDP_FD) (Some (le32 (word_of_int fd))) 4 = Some (0, r2)"
      "req_is ?hdr ((?b @ ?n) @ stream ?as) r2"
    using add_u32[of ?hdr "?b @ ?n" "[]" r1 "of_nat IFLA_XDP_FD" "word_of_int fd"] r1(2) ln by auto
  let ?as3 = "?as @ (if flags \<noteq> 0 then [(3, le32 flags)] else [])"
  have l3: "length (stream ?as) = 8" "length (stream ?as3) \<le> 16" using length_stream_u32 by auto
  obtain r3 where r3: "(if flags \<noteq> 0 then nlattr_add r2 (of_nat IFLA_XDP_FLAGS) (Some (le32 flags)) 4 else Some (0, r2)) = Some (0, r3)"
      "req_is ?hdr ((?b @ ?n) @ stream ?as3) r3"
    using add_u32[of ?hdr "?b @ ?n" ?as r2 "of_nat IFLA_XDP_FLAGS" flags] r2(2) ln l3(1) by (cases "flags = 0") auto
  obtain r4 where r4: "(if flags AND XDP_FLAGS_REPLACE \<noteq> 0
        then nlattr_add r3 (of_nat IFLA_XDP_EXPECTED_FD) (Some (le32 (word_of_int old_fd))) 4 else Some (0, r3)) = Some (0, r4)"
      "req_is ?hdr ((?b @ ?n) @ stream (attach_attrs fd old_fd flags)) r4"
    using add_u32[of ?hdr "?b @ ?n" ?as3 r3 "of_nat IFLA_XDP_EXPECTED_FD" "word_of_int old_fd"] r3(2) ln l3(2)
    unfolding attach_attrs_def by (cases "flags AND XDP_FLAGS_REPLACE = 0") (auto simp del: stream_simps)
  obtain r5 where r5: "nlattr_end_nested r4 32 = Some r5"
      "req_is ?hdr (?b @ attr_bytes 0x802B (stream (attach_attrs fd old_fd flags))) r5"
    using end_nested_closes[of ?hdr ?b "0x802B" "stream (attach_attrs fd old_fd flags)" r4] r4(2) stream_dvd li by auto
  have "set_link_request ifindex fd old_fd flags = Some (Inr r5)"
    unfolding set_link_request_def
    by (simp only: r0(1) r1(1) r2(1) r3(1) r4(1) r5(1) Option.bind.bind_lunit prod.case option.case less_irrefl if_False)
  then show ?thesis using r5(2) by auto
qed

lemma attach_attrs_small: "\<forall>(t, p) \<in> set (attach_attrs fd old_fd flags). length p + 4 < 2 ^ 16"
  by (auto simp: attach_attrs_def)

definition attach_values :: "int \<Rightarrow> int \<Rightarrow> u32 \<Rightarrow> nat \<Rightarrow> u32 option" where
  "attach_values fd old_fd flags k =
     (if k = IFLA_XDP_FD then Some (word_of_int fd)
      else if k = IFLA_XDP_FLAGS \<and> flags \<noteq> 0 then Some flags
      else if k = IFLA_XDP_EXPECTED_FD \<and> flags AND XDP_FLAGS_REPLACE \<noteq> 0 then Some (word_of_int old_fd)
      else None)"

lemma last_attach_attr: "last_attr (attach_attrs fd old_fd flags) k = map_option le32 (attach_values fd old_fd flags k)"
  by (simp add: attach_attrs_def attach_values_def last_attr_def type_nr_def)

text \<open>the request that attaches a program means what was asked for: building it never fails, it asks to set the link with the
  given index, its only attribute is \<open>IFLA_XDP\<close>, and reading that gives the descriptor, the flags when there are any, and the descriptor to
  be replaced exactly when the flags ask for a replacement.\<close>

theorem attach_request_roundtrip:
  "\<exists>req msg tb nla xtb. set_link_request ifindex fd old_fd flags = Some (Inr req)
     \<and> load32 req 0 = Some (of_nat (length msg)) \<and> msg = take (length msg) req \<and> length msg \<le> REQ_SIZE
     \<and> load16 msg 4 = Some RTM_SETLINK \<and> load16 msg 6 = Some 5 \<and> load32 msg (16 + 4) = Some (word_of_int ifindex)
     \<and> libbpf_nla_parse msg IFLA_MAX 32 (int (length msg) - 32) None = Some (0, tb)
     \<and> tb ! IFLA_XDP = Some nla \<and> (\<forall>k \<le> IFLA_MAX. k \<noteq> IFLA_XDP \<longrightarrow> tb ! k = None)
     \<and> libbpf_nla_parse_nested msg IFLA_XDP_MAX nla None = Some (0, xtb)
     \<and> (\<forall>k \<le> IFLA_XDP_MAX. (case xtb ! k of None \<Rightarrow> None | Some a \<Rightarrow> libbpf_nla_getattr_u32 msg a) = attach_values fd old_fd flags k)"
proof -
  let ?S = "stream (attach_attrs fd old_fd flags)" and ?hdr = "le16 RTM_SETLINK @ le16 5 @ replicate 8 (0 :: u8)"
  let ?i = "ifinfo 0 (word_of_int ifindex)"
  let ?body = "?i @ replicate 8 0 @ attr_bytes 0x802B ?S"
  define n where "n = 16 + length ?body"
  define msg where "msg = le32 (of_nat n) @ ?hdr @ ?body"
  obtain req where req: "set_link_request ifindex fd old_fd flags = Some (Inr req)" "req_is ?hdr ?body req"
    using set_link_request_is by blast
  have len: "length msg = n" by (simp add: msg_def n_def)
  have eq: "req = msg @ replicate (REQ_SIZE - n) 0" and le: "n \<le> REQ_SIZE"
    using req(2) unfolding req_is_def n_def[symmetric] by (simp_all add: msg_def)
  have S: "length ?S + 4 < 2 ^ 16" using le by (simp add: n_def length_attr_bytes align4_id[OF stream_dvd])
  let ?pre = "le32 (of_nat n) @ ?hdr @ ?i @ replicate 8 0"
  have pre: "length ?pre = 32" "msg = ?pre @ stream [(0x802B, ?S)] @ []" by (simp_all add: ifinfo_def msg_def)
  have "int (length (stream [(0x802B, ?S)])) = int (length msg) - 32" using pre by simp
  moreover have "last_attr [(0x802B, ?S)] k = (if k = IFLA_XDP then Some ?S else None)" for k
    by (simp add: last_attr_def type_nr_def)
  ultimately obtain tb where tb: "libbpf_nla_parse msg IFLA_MAX 32 (int (length msg) - 32) None = Some (0, tb)"
      "\<forall>k \<le> IFLA_MAX. case (if k = IFLA_XDP then Some ?S else None) of None \<Rightarrow> tb ! k = None
         | Some p \<Rightarrow> \<exists>nla. tb ! k = Some nla \<and> attr_here msg nla p"
    using parse_whole[of "[(0x802B, ?S)]" msg ?pre "[]" IFLA_MAX] pre S by auto
  obtain nla where nla: "tb ! IFLA_XDP = Some nla" "attr_here msg nla ?S" using tb(2)[rule_format, of IFLA_XDP] by auto
  obtain xtb where xtb: "libbpf_nla_parse_nested msg IFLA_XDP_MAX nla None = Some (0, xtb)"
      "\<forall>k \<le> IFLA_XDP_MAX. case map_option le32 (attach_values fd old_fd flags k) of None \<Rightarrow> xtb ! k = None
         | Some p \<Rightarrow> \<exists>nla. xtb ! k = Some nla \<and> attr_here msg nla p"
    using parse_nested_here[OF nla(2) attach_attrs_small] unfolding last_attach_attr by blast
  have vals: "(case xtb ! k of None \<Rightarrow> None | Some a \<Rightarrow> libbpf_nla_getattr_u32 msg a) = attach_values fd old_fd flags k"
    if "k \<le> IFLA_XDP_MAX" for k
    using xtb(2) that getattr_here(1) by (cases "attach_values fd old_fd flags k") fastforce+
  have "load32 req 0 = Some (of_nat n)" using req_tail_is(1)[OF req(2)] unfolding n_def .
  moreover have "load16 msg 4 = Some RTM_SETLINK" "load16 msg 6 = Some 5" "load32 msg (16 + 4) = Some (word_of_int ifindex)"
    using load16_at[of "le32 (of_nat n)" 4] load16_at[of "le32 (of_nat n) @ le16 RTM_SETLINK" 6]
      load32_at[of "le32 (of_nat n) @ ?hdr @ [0, 0, 0, 0]" 20]
    by (simp_all add: msg_def ifinfo_def)
  moreover have "\<forall>k \<le> IFLA_MAX. k \<noteq> IFLA_XDP \<longrightarrow> tb ! k = None" using tb(2) by auto
  ultimately show ?thesis using req(1) eq le len tb(1) nla(1) xtb(1) vals by (intro exI conjI) auto
qed

theorem attach_request_roundtrip_witness:
  "\<exists>req msg nla xtb. set_link_request 3 7 5 16 = Some (Inr req) \<and> msg = take (length msg) req
     \<and> libbpf_nla_parse_nested msg IFLA_XDP_MAX nla None = Some (0, xtb)
     \<and> (case xtb ! IFLA_XDP_EXPECTED_FD of None \<Rightarrow> None | Some a \<Rightarrow> libbpf_nla_getattr_u32 msg a) = Some 5"
proof -
  have v: "attach_values 7 5 16 IFLA_XDP_EXPECTED_FD = Some 5" by (simp add: attach_values_def)
  obtain req msg tb nla xtb where "set_link_request 3 7 5 16 = Some (Inr req)" "msg = take (length msg) req"
      "libbpf_nla_parse_nested msg IFLA_XDP_MAX nla None = Some (0, xtb)"
    and vals: "\<forall>k \<le> IFLA_XDP_MAX. (case xtb ! k of None \<Rightarrow> None | Some a \<Rightarrow> libbpf_nla_getattr_u32 msg a) = attach_values 7 5 16 k"
    using attach_request_roundtrip[of 3 7 5 16] by blast
  moreover have "(case xtb ! IFLA_XDP_EXPECTED_FD of None \<Rightarrow> None | Some a \<Rightarrow> libbpf_nla_getattr_u32 msg a) = Some 5"
    using vals v by simp
  ultimately show ?thesis by blast
qed

end
