(* ===== verification/Netlink_Query.thy ===== *)
theory Netlink_Query
  imports Netlink
begin

text \<open>
  What a query reports.  The messages of the kernel are encoded by \<open>nlmsg\<close>; \<open>run_datagrams\<close> is the effect of the receive loop on a
  list of datagrams.  The locale \<open>netlink_sockets\<close> says what the system calls do to the open sockets, its extension
  \<open>netlink_talk\<close> how a kernel that answers requests delivers its datagrams; both are interpreted on a small kernel.
\<close>

subsection \<open>Messages\<close>

definition nlmsg :: "u16 \<Rightarrow> u16 \<Rightarrow> u32 \<Rightarrow> u32 \<Rightarrow> u8 list \<Rightarrow> u8 list" where
  "nlmsg type flags seq pid body = le32 (of_nat (16 + length body)) @ le16 type @ le16 flags @ le32 seq @ le32 pid @ body"

definition body_ok :: "u8 list \<Rightarrow> bool" where
  "body_ok body \<longleftrightarrow> 4 dvd length body \<and> 16 + length body < 2 ^ 31"

lemma length_nlmsg: "length (nlmsg t f s p b) = 16 + length b"
  by (simp add: nlmsg_def)

lemma nlmsg_at:
  assumes "buf = pre @ nlmsg t f s p b @ post" "length pre = nh"
  shows "load32 buf nh = Some (of_nat (16 + length b))" "load16 buf (nh + 4) = Some t" "load16 buf (nh + 6) = Some f"
    "load32 buf (nh + 8) = Some s" "load32 buf (nh + 12) = Some p"
    "\<exists>pre'. buf = pre' @ b @ post \<and> length pre' = nh + 16"
proof -
  let ?l = "le32 (of_nat (16 + length b))"
  show "load32 buf nh = Some (of_nat (16 + length b))"
    unfolding assms(1) nlmsg_def append_assoc using assms(2) by (rule load32_at)
  show "load16 buf (nh + 4) = Some t" "load16 buf (nh + 6) = Some f" "load32 buf (nh + 8) = Some s" "load32 buf (nh + 12) = Some p"
    using load16_at[of "pre @ ?l" "nh + 4"] load16_at[of "pre @ ?l @ le16 t" "nh + 6"]
      load32_at[of "pre @ ?l @ le16 t @ le16 f" "nh + 8"] load32_at[of "pre @ ?l @ le16 t @ le16 f @ le32 s" "nh + 12"] assms(2)
    unfolding assms(1) nlmsg_def by (simp_all del: of_nat_add)
  show "\<exists>pre'. buf = pre' @ b @ post \<and> length pre' = nh + 16"
    using assms by (intro exI[of _ "pre @ ?l @ le16 t @ le16 f @ le32 s @ le32 p"]) (simp add: nlmsg_def del: of_nat_add)
qed

lemma body_ok_unat: "body_ok b \<Longrightarrow> unat (of_nat (16 + length b) :: u32) = 16 + length b"
  by (simp add: body_ok_def unat_of_nat take_bit_nat_eq_self del: of_nat_add)

lemma body_ok_payload:
  assumes "body_ok b" "k \<le> 16 + length b"
  shows "sint (of_nat (16 + length b) - of_nat k :: u32) = int (16 + length b) - int k"
proof -
  have e: "(of_nat (16 + length b) - of_nat k :: u32) = of_nat (16 + length b - k)" using assms(2) by (simp add: of_nat_diff)
  have "16 + length b - k < 2 ^ 31" using assms(1) unfolding body_ok_def by linarith
  then have "sint (of_nat (16 + length b - k) :: u32) = int (16 + length b - k)"
    by (simp add: signed_of_nat signed_take_bit_int_eq_self del: of_nat_add of_nat_diff)
  then show ?thesis unfolding e using assms(2) by simp
qed

text \<open>A message at the front of what is left of a datagram.\<close>

lemma recv_msgs_here:
  assumes "buf = pre @ nlmsg t f s p b @ post" "body_ok b"
  shows "recv_msgs fn nl_pid seq buf (length pre) (int (16 + length b + length post)) m c =
    (case recv_msg fn nl_pid seq buf (length pre) m c of
       None \<Rightarrow> None | Some (Inl r) \<Rightarrow> Some r
     | Some (Inr (m, c)) \<Rightarrow> recv_msgs fn nl_pid seq buf (length (pre @ nlmsg t f s p b)) (int (length post)) m c)"
proof -
  note at = nlmsg_at(1)[OF assms(1) refl] body_ok_unat[OF assms(2)]
  have al: "align4 (16 + length b) = 16 + length b" using assms(2) by (intro align4_id) (simp add: body_ok_def)
  have "nlmsg_ok buf (length pre) (int (16 + length b + length post)) = Some True"
    using at by (simp add: nlmsg_ok_def del: of_nat_add of_nat_unat)
  moreover have "nlmsg_next buf (length pre) (int (16 + length b + length post))
      = Some (length (pre @ nlmsg t f s p b), int (length post))"
    using at al by (simp add: nlmsg_next_def length_nlmsg del: of_nat_add of_nat_unat)
  ultimately show ?thesis by (subst recv_msgs.simps) (simp split: option.split sum.split prod.split)
qed

lemma recv_msgs_end: "recv_msgs fn nl_pid seq buf nh 0 m c = Some (Next m, c)"
  by (subst recv_msgs.simps) (simp add: nlmsg_ok_def)

subsection \<open>Links\<close>

text \<open>What the kernel tells about a link: its index, whatever other attributes, and the XDP attribute with the attach mode and the
  ids of the programs.\<close>

record link_xdp =
  lx_mode :: u8
  lx_prog :: "u32 option"
  lx_drv :: "u32 option"
  lx_skb :: "u32 option"
  lx_hw :: "u32 option"

record link =
  lk_index :: u32
  lk_attrs :: "(u16 \<times> u8 list) list"
  lk_xdp :: "link_xdp option"

definition id_attr :: "u16 \<Rightarrow> u32 option \<Rightarrow> (u16 \<times> u8 list) list" where
  "id_attr t v = (case v of None \<Rightarrow> [] | Some v \<Rightarrow> [(t, le32 v)])"

definition xdp_attrs :: "link_xdp \<Rightarrow> (u16 \<times> u8 list) list" where
  "xdp_attrs x = (2, [lx_mode x]) # id_attr 4 (lx_prog x) @ id_attr 5 (lx_drv x) @ id_attr 6 (lx_skb x) @ id_attr 7 (lx_hw x)"

definition link_attrs :: "link \<Rightarrow> (u16 \<times> u8 list) list" where
  "link_attrs l = lk_attrs l @ (case lk_xdp l of None \<Rightarrow> [] | Some x \<Rightarrow> [(0x802B, stream (xdp_attrs x))])"

definition link_body :: "link \<Rightarrow> u8 list" where
  "link_body l = ifinfo 0 (lk_index l) @ replicate 8 0 @ stream (link_attrs l)"

definition link_ok :: "link \<Rightarrow> bool" where
  "link_ok l \<longleftrightarrow> (\<forall>(t, p) \<in> set (lk_attrs l). length p + 4 < 2 ^ 16 \<and> type_nr t \<noteq> IFLA_XDP) \<and> body_ok (link_body l)"

text \<open>What a query keeps of it.\<close>

definition seen :: "u32 option \<Rightarrow> u32 \<Rightarrow> u32" where
  "seen v old = (case v of None \<Rightarrow> old | Some v \<Rightarrow> v)"

definition note_xdp :: "link_xdp \<Rightarrow> xdp_link_info \<Rightarrow> xdp_link_info" where
  "note_xdp x i =
     (if lx_mode x = 0 then i\<lparr>xl_attach_mode := 0\<rparr>
      else i\<lparr>xl_attach_mode := lx_mode x, xl_prog_id := seen (lx_prog x) (xl_prog_id i), xl_skb_prog_id := seen (lx_skb x) (xl_skb_prog_id i),
             xl_drv_prog_id := seen (lx_drv x) (xl_drv_prog_id i), xl_hw_prog_id := seen (lx_hw x) (xl_hw_prog_id i)\<rparr>)"

definition note_link :: "link \<Rightarrow> xdp_id_md \<Rightarrow> xdp_id_md" where
  "note_link l md =
     (if md_ifindex md \<noteq> 0 \<and> md_ifindex md \<noteq> sint (lk_index l) then md
      else case lk_xdp l of None \<Rightarrow> md | Some x \<Rightarrow> md\<lparr>md_info := note_xdp x (md_info md)\<rparr>)"

lemma xdp_attrs_small: "\<forall>(t, p) \<in> set (xdp_attrs x). length p + 4 < 2 ^ 16"
  by (auto simp: xdp_attrs_def id_attr_def split: option.splits)

lemma last_xdp_attr:
  "last_attr (xdp_attrs x) 2 = Some [lx_mode x]" "last_attr (xdp_attrs x) 4 = map_option le32 (lx_prog x)"
  "last_attr (xdp_attrs x) 5 = map_option le32 (lx_drv x)" "last_attr (xdp_attrs x) 6 = map_option le32 (lx_skb x)"
  "last_attr (xdp_attrs x) 7 = map_option le32 (lx_hw x)"
  by (simp_all add: xdp_attrs_def id_attr_def last_attr_def type_nr_def split: option.split)

lemma length_xdp_stream: "length (stream (xdp_attrs x)) + 4 < 2 ^ 16"
  by (simp add: xdp_attrs_def id_attr_def stream_append length_attr_bytes align4_def split: option.split)

lemma get_id_here:
  assumes "case map_option le32 v of None \<Rightarrow> e = None | Some p \<Rightarrow> \<exists>nla. e = Some nla \<and> attr_here buf nla p"
  shows "get_id buf e old = Some (seen v old)"
  using assms getattr_here(1) by (auto simp: get_id_def seen_def split: option.splits)

lemma get_xdp_info_here:
  assumes "load32 buf (ifi + 4) = Some i"
    and "case lk_xdp l of None \<Rightarrow> tb ! IFLA_XDP = None | Some x \<Rightarrow> \<exists>nla. tb ! IFLA_XDP = Some nla \<and> attr_here buf nla (stream (xdp_attrs x))"
    and "lk_index l = i"
  shows "get_xdp_info buf ifi tb md = Some (0, note_link l md)"
proof (cases "lk_xdp l")
  case None
  then show ?thesis using assms by (simp add: get_xdp_info_def note_link_def)
next
  case (Some x)
  then obtain nla where nla: "tb ! IFLA_XDP = Some nla" "attr_here buf nla (stream (xdp_attrs x))" using assms(2) by auto
  obtain xtb where xtb: "libbpf_nla_parse_nested buf IFLA_XDP_MAX nla None = Some (0, xtb)"
      and at: "\<And>k. k \<le> IFLA_XDP_MAX \<Longrightarrow> case last_attr (xdp_attrs x) k of None \<Rightarrow> xtb ! k = None
         | Some p \<Rightarrow> \<exists>nla. xtb ! k = Some nla \<and> attr_here buf nla p"
    using parse_nested_here[OF nla(2) xdp_attrs_small, of IFLA_XDP_MAX] by blast
  obtain att where att: "xtb ! 2 = Some att" "libbpf_nla_getattr_u8 buf att = Some (lx_mode x)"
    using at[of 2] getattr_here(2) by (auto simp: last_xdp_attr)
  have ids: "get_id buf (xtb ! 4) old = Some (seen (lx_prog x) old)" "get_id buf (xtb ! 5) old = Some (seen (lx_drv x) old)"
    "get_id buf (xtb ! 6) old = Some (seen (lx_skb x) old)" "get_id buf (xtb ! 7) old = Some (seen (lx_hw x) old)" for old
    using at[of 4] at[of 5] at[of 6] at[of 7] by (auto intro!: get_id_here simp: last_xdp_attr)
  show ?thesis using assms(1,3) nla(1) xtb att ids Some by (simp add: get_xdp_info_def note_link_def note_xdp_def Let_def)
qed

lemma dump_link_here:
  assumes "buf = pre @ nlmsg t f s p (link_body l) @ post" "link_ok l"
  shows "dump_link_nlmsg buf (length pre) md = Some (0, note_link l md)"
proof -
  have ok: "body_ok (link_body l)" using assms(2) by (simp add: link_ok_def)
  let ?as = "link_attrs l" and ?i = "ifinfo 0 (lk_index l)"
  obtain pre' where pre': "buf = pre' @ link_body l @ post" "length pre' = length pre + 16"
    using nlmsg_at(6)[OF assms(1) refl] by blast
  have li: "length ?i = 8" by (simp add: ifinfo_def)
  have len: "length (link_body l) = 16 + length (stream ?as)" using li by (simp add: link_body_def)
  have "load32 ((pre' @ [0, 0, 0, 0]) @ le32 (lk_index l) @ replicate 8 0 @ stream ?as @ post) (length pre + 16 + 4) = Some (lk_index l)"
    by (rule load32_at) (simp add: pre'(2))
  then have idx: "load32 buf (length pre + 16 + 4) = Some (lk_index l)" by (simp add: pre'(1) link_body_def ifinfo_def)
  have small: "\<forall>(t, p) \<in> set ?as. length p + 4 < 2 ^ 16"
    using assms(2) length_xdp_stream by (auto simp: link_ok_def link_attrs_def split: option.splits)
  have b: "buf = (pre' @ ?i @ replicate 8 0) @ stream ?as @ post" by (simp add: pre'(1) link_body_def)
  have pay: "sint (of_nat (16 + length (link_body l)) - 32 :: u32) = int (length (stream ?as))"
    using body_ok_payload[OF ok, of 32] len by simp
  have "last_attr ?as IFLA_XDP = map_option (\<lambda>x. stream (xdp_attrs x)) (lk_xdp l)"
  proof -
    have "last_attr (lk_attrs l) IFLA_XDP = None"
      using assms(2) unfolding link_ok_def last_attr_def by (auto simp: map_of_eq_None_iff)
    then show ?thesis unfolding link_attrs_def last_attr_def by (cases "lk_xdp l") (simp_all add: type_nr_def)
  qed
  moreover obtain tb where tb: "libbpf_nla_parse buf IFLA_MAX (length pre + 16 + 16) (int (length (stream ?as))) None = Some (0, tb)"
      "case last_attr ?as IFLA_XDP of None \<Rightarrow> tb ! IFLA_XDP = None
         | Some p \<Rightarrow> \<exists>nla. tb ! IFLA_XDP = Some nla \<and> attr_here buf nla p"
    using parse_whole[OF small b, of IFLA_MAX] pre'(2) li by auto
  ultimately have "get_xdp_info buf (length pre + 16) tb md = Some (0, note_link l md)"
    by (intro get_xdp_info_here[OF idx]) (auto split: option.splits)
  then show ?thesis
    using nlmsg_at(1)[OF assms(1) refl] pay tb(1) by (simp add: dump_link_nlmsg_def del: of_nat_add)
qed

subsection \<open>The effect of the receive loop on a list of datagrams\<close>

fun run_datagrams :: "'c dump_fn option \<Rightarrow> u32 \<Rightarrow> u32 \<Rightarrow> u8 list list \<Rightarrow> 'c \<Rightarrow> (int \<times> 'c) option" where
  "run_datagrams fn pid seq [] c = None"
| "run_datagrams fn pid seq (d # ds) c =
     (if d = [] then Some (0, c)
      else case recv_msgs fn pid seq d 0 (int (length d)) False c of
        None \<Rightarrow> None
      | Some (Done r, c) \<Rightarrow> Some (r, c)
      | Some (Restart, c) \<Rightarrow> run_datagrams fn pid seq ds c
      | Some (Next m, c) \<Rightarrow> if m then run_datagrams fn pid seq ds c else Some (0, c))"

text \<open>The answer to a request for all links: messages spread over datagrams, and a last message that says so.\<close>

definition link_msg :: "u32 \<Rightarrow> u32 \<Rightarrow> link \<Rightarrow> u8 list" where
  "link_msg seq pid l = nlmsg 16 NLM_F_MULTI seq pid (link_body l)"

definition done_msg :: "u32 \<Rightarrow> u32 \<Rightarrow> u8 list" where
  "done_msg seq pid = nlmsg NLMSG_DONE NLM_F_MULTI seq pid (replicate 4 0)"

definition links_dgram :: "u32 \<Rightarrow> u32 \<Rightarrow> link list \<Rightarrow> u8 list" where
  "links_dgram seq pid ls = concat (map (link_msg seq pid) ls)"

definition dump_answer :: "u32 \<Rightarrow> u32 \<Rightarrow> link list list \<Rightarrow> link list \<Rightarrow> u8 list list" where
  "dump_answer seq pid parts rest = map (links_dgram seq pid) parts @ [links_dgram seq pid rest @ done_msg seq pid]"

lemma recv_link:
  assumes "buf = pre @ link_msg seq pid l @ post" "link_ok l"
  shows "recv_msgs (Some dump_link_nlmsg) pid seq buf (length pre) (int (length (link_msg seq pid l) + length post)) m md
    = recv_msgs (Some dump_link_nlmsg) pid seq buf (length (pre @ link_msg seq pid l)) (int (length post)) True (note_link l md)"
proof -
  have b: "buf = pre @ nlmsg 16 NLM_F_MULTI seq pid (link_body l) @ post" "body_ok (link_body l)"
    using assms by (simp_all add: link_msg_def link_ok_def)
  have "recv_msg (Some dump_link_nlmsg) pid seq buf (length pre) m md = Some (Inr (True, note_link l md))"
    using nlmsg_at(2-5)[OF b(1) refl] dump_link_here[OF b(1) assms(2)] by (simp add: recv_msg_def)
  then show ?thesis using recv_msgs_here[OF b, of "Some dump_link_nlmsg" pid seq m md]
    by (simp add: link_msg_def length_nlmsg)
qed

lemma recv_links:
  assumes "buf = pre @ links_dgram seq pid ls @ post" "\<forall>l \<in> set ls. link_ok l"
  shows "recv_msgs (Some dump_link_nlmsg) pid seq buf (length pre) (int (length (links_dgram seq pid ls) + length post)) m md
    = recv_msgs (Some dump_link_nlmsg) pid seq buf (length (pre @ links_dgram seq pid ls)) (int (length post)) (m \<or> ls \<noteq> []) (fold note_link ls md)"
  using assms
proof (induction ls arbitrary: pre m md)
  case Nil
  then show ?case by (simp add: links_dgram_def)
next
  case (Cons l ls)
  have b: "buf = pre @ link_msg seq pid l @ (links_dgram seq pid ls @ post)" using Cons.prems(1) by (simp add: links_dgram_def)
  have b': "buf = (pre @ link_msg seq pid l) @ links_dgram seq pid ls @ post" using b by simp
  show ?case
    using recv_link[OF b, of m md] Cons.IH[OF b', of True "note_link l md"] Cons.prems(2)
    by (simp add: links_dgram_def add.assoc)
qed

lemma recv_done:
  assumes "buf = pre @ done_msg seq pid"
  shows "recv_msgs fn pid seq buf (length pre) (int (length (done_msg seq pid))) m c = Some (Done 0, c)"
proof -
  have b: "buf = pre @ nlmsg NLMSG_DONE NLM_F_MULTI seq pid (replicate 4 0) @ []" "body_ok (replicate 4 0)"
    using assms by (simp_all add: done_msg_def body_ok_def)
  have "recv_msg fn pid seq buf (length pre) m c = Some (Inl (Done 0, c))"
    using nlmsg_at(2-5)[OF b(1) refl] by (simp add: recv_msg_def)
  then show ?thesis using recv_msgs_here[OF b, of fn pid seq m c] by (simp add: done_msg_def length_nlmsg)
qed

lemma run_links:
  assumes "\<forall>ls \<in> set parts. ls \<noteq> []" "\<forall>l \<in> set (concat parts @ rest). link_ok l"
  shows "run_datagrams (Some dump_link_nlmsg) pid seq (dump_answer seq pid parts rest) md = Some (0, fold note_link (concat parts @ rest) md)"
  using assms
proof (induction parts arbitrary: md)
  case Nil
  let ?d = "links_dgram seq pid rest @ done_msg seq pid"
  have "recv_msgs (Some dump_link_nlmsg) pid seq ?d 0 (int (length ?d)) False md = Some (Done 0, fold note_link rest md)"
    using recv_links[of ?d "[]" seq pid rest "done_msg seq pid" False md] recv_done[of ?d "links_dgram seq pid rest" seq pid] Nil
    by simp
  moreover have "?d \<noteq> []" by (simp add: done_msg_def nlmsg_def)
  ultimately show ?case by (simp add: dump_answer_def del: append_is_Nil_conv)
next
  case (Cons ls parts)
  let ?d = "links_dgram seq pid ls"
  have "recv_msgs (Some dump_link_nlmsg) pid seq ?d 0 (int (length ?d)) False md = Some (Next True, fold note_link ls md)"
    using recv_links[of ?d "[]" seq pid ls "[]" False md] Cons.prems by (simp add: recv_msgs_end)
  moreover have "?d \<noteq> []" using Cons.prems(1) by (cases ls) (simp_all add: links_dgram_def link_msg_def nlmsg_def le16_def)
  moreover have "dump_answer seq pid (ls # parts) rest = ?d # dump_answer seq pid parts rest" by (simp add: dump_answer_def)
  ultimately show ?case using Cons by simp
qed

subsection \<open>The family and the features of devices\<close>

definition le64 :: "u64 \<Rightarrow> u8 list" where
  "le64 w = le32 (ucast w) @ le32 (ucast (drop_bit 32 w))"

text \<open>The generic netlink family for devices, when the kernel has it: its id, the features of each interface, and the attributes in
  which it tells them.\<close>

record netdev =
  nd_family :: u16
  nd_family_attrs :: "(u16 \<times> u8 list) list"
  nd_features :: "u32 \<Rightarrow> u64"
  nd_dev_attrs :: "u32 \<Rightarrow> (u16 \<times> u8 list) list"

definition genl_body :: "(u16 \<times> u8 list) list \<Rightarrow> u8 list" where
  "genl_body as = replicate 4 0 @ stream as"

definition netdev_ok :: "netdev \<Rightarrow> bool" where
  "netdev_ok n \<longleftrightarrow> (\<forall>(t, p) \<in> set (nd_family_attrs n). length p + 4 < 2 ^ 16) \<and> body_ok (genl_body (nd_family_attrs n))
     \<and> last_attr (nd_family_attrs n) 1 = Some (le16 (nd_family n))
     \<and> (\<forall>i. (\<forall>(t, p) \<in> set (nd_dev_attrs n i). length p + 4 < 2 ^ 16) \<and> body_ok (genl_body (nd_dev_attrs n i))
          \<and> last_attr (nd_dev_attrs n i) 1 = Some (le32 i) \<and> last_attr (nd_dev_attrs n i) 3 = Some (le64 (nd_features n i)))"

lemma load64_at: "length a = i \<Longrightarrow> load64 (a @ le64 w @ c) i = Some w"
proof -
  assume a: "length a = i"
  have "load32 (a @ le64 w @ c) i = Some (ucast w)" using load32_at[OF a] by (simp add: le64_def)
  moreover have "load32 (a @ le64 w @ c) (i + 4) = Some (ucast (drop_bit 32 w))"
    using load32_at[of "a @ le32 (ucast w)" "i + 4"] a by (simp add: le64_def)
  ultimately show ?thesis
    by (auto simp: load64_def intro!: bit_word_eqI simp: bit_simps)
qed

lemma getattr_wide_here:
  "attr_here buf nla (le16 v) \<Longrightarrow> libbpf_nla_getattr_u16 buf nla = Some v"
  "attr_here buf nla (le64 w) \<Longrightarrow> libbpf_nla_getattr_u64 buf nla = Some w"
  by (erule attr_here_split; simp add: libbpf_nla_getattr_u16_def libbpf_nla_getattr_u64_def libbpf_nla_data_def load16_at load64_at)+

lemma parse_genl:
  assumes "buf = pre @ nlmsg t f s p (genl_body as) @ post" "\<forall>(t, p) \<in> set as. length p + 4 < 2 ^ 16" "body_ok (genl_body as)"
  shows "\<exists>tb. libbpf_nla_parse buf maxtype (length pre + 16 + 4) (sint (of_nat (16 + length (genl_body as)) - 20 :: u32)) None = Some (0, tb)
    \<and> (\<forall>k \<le> maxtype. case last_attr as k of None \<Rightarrow> tb ! k = None | Some p \<Rightarrow> \<exists>nla. tb ! k = Some nla \<and> attr_here buf nla p)"
proof -
  obtain pre' where pre': "buf = pre' @ genl_body as @ post" "length pre' = length pre + 16"
    using nlmsg_at(6)[OF assms(1) refl] by blast
  have b: "buf = (pre' @ replicate 4 0) @ stream as @ post" using pre'(1) by (simp add: genl_body_def)
  have "sint (of_nat (16 + length (genl_body as)) - 20 :: u32) = int (length (stream as))"
    using body_ok_payload[OF assms(3), of 20] by (simp add: genl_body_def)
  then show ?thesis using parse_whole[OF assms(2) b, of maxtype] pre'(2) by (auto simp: add.assoc)
qed

lemma run_one:
  assumes "d = nlmsg t f s p b" "body_ok b" "recv_msg fn p s d 0 False c = Some (Inl (Done r, c'))"
  shows "run_datagrams fn p s [d] c = Some (r, c')"
proof -
  have "recv_msgs fn p s d 0 (int (length d)) False c = Some (Done r, c')"
    using recv_msgs_here[of d "[]" t f s p b "[]" fn p s False c] assms by (simp add: length_nlmsg)
  moreover have "d \<noteq> []" by (simp add: assms(1) nlmsg_def le16_def)
  ultimately show ?thesis by simp
qed

lemma run_family:
  assumes "netdev_ok n"
  shows "run_datagrams (Some parse_genl_family_id) pid seq [nlmsg 16 0 seq pid (genl_body (nd_family_attrs n))] c = Some (0, nd_family n)"
proof (rule run_one[OF refl])
  let ?as = "nd_family_attrs n"
  let ?d = "nlmsg 16 0 seq pid (genl_body ?as)"
  have as: "\<forall>(t, p) \<in> set ?as. length p + 4 < 2 ^ 16" "last_attr ?as 1 = Some (le16 (nd_family n))"
    and bo: "body_ok (genl_body ?as)" using assms by (auto simp: netdev_ok_def)
  show "body_ok (genl_body ?as)" by (rule bo)
  note at = nlmsg_at(1-5)[of ?d "[]" 16 0 seq pid "genl_body ?as" "[]" 0]
  obtain tb where tb: "libbpf_nla_parse ?d 1 (16 + 4) (sint (of_nat (16 + length (genl_body ?as)) - 20 :: u32)) None = Some (0, tb)"
      "\<forall>k \<le> 1. case last_attr ?as k of None \<Rightarrow> tb ! k = None | Some p \<Rightarrow> \<exists>nla. tb ! k = Some nla \<and> attr_here ?d nla p"
    using parse_genl[of ?d "[]" 16 0 seq pid ?as "[]" 1] as(1) bo by (auto simp del: of_nat_add)
  moreover obtain nla where "tb ! 1 = Some nla" "attr_here ?d nla (le16 (nd_family n))"
    using tb(2)[rule_format, of 1] as(2) by auto
  ultimately have "parse_genl_family_id ?d 0 c = Some (NL_DONE, nd_family n)"
    using at getattr_wide_here(1) by (simp add: parse_genl_family_id_def del: of_nat_add)
  then show "recv_msg (Some parse_genl_family_id) pid seq ?d 0 False c = Some (Inl (Done 0, nd_family n))"
    using at by (simp add: recv_msg_def)
qed

lemma run_features:
  assumes "netdev_ok n" "nd_family n > 3" "word_of_int (fm_ifindex md) = i"
  shows "run_datagrams (Some parse_xdp_features) pid seq [nlmsg (nd_family n) 0 seq pid (genl_body (nd_dev_attrs n i))] md
    = Some (0, md\<lparr>fm_flags := nd_features n i\<rparr>)"
proof (rule run_one[OF refl])
  let ?as = "nd_dev_attrs n i"
  let ?d = "nlmsg (nd_family n) 0 seq pid (genl_body ?as)"
  have as: "\<forall>(t, p) \<in> set ?as. length p + 4 < 2 ^ 16" "last_attr ?as 1 = Some (le32 i)" "last_attr ?as 3 = Some (le64 (nd_features n i))"
    and bo: "body_ok (genl_body ?as)" using assms by (auto simp: netdev_ok_def)
  show "body_ok (genl_body ?as)" by (rule bo)
  note at = nlmsg_at(1-5)[of ?d "[]" "nd_family n" 0 seq pid "genl_body ?as" "[]" 0]
  obtain tb where tb: "libbpf_nla_parse ?d 4 (16 + 4) (sint (of_nat (16 + length (genl_body ?as)) - 20 :: u32)) None = Some (0, tb)"
      "\<forall>k \<le> 4. case last_attr ?as k of None \<Rightarrow> tb ! k = None | Some p \<Rightarrow> \<exists>nla. tb ! k = Some nla \<and> attr_here ?d nla p"
    using parse_genl[of ?d "[]" "nd_family n" 0 seq pid ?as "[]" 4] as(1) bo by (auto simp del: of_nat_add)
  moreover obtain a f where "tb ! 1 = Some a" "attr_here ?d a (le32 i)" "tb ! 3 = Some f" "attr_here ?d f (le64 (nd_features n i))"
    using tb(2)[rule_format, of 1] tb(2)[rule_format, of 3] as(2,3) by auto
  ultimately have "parse_xdp_features ?d 0 md = Some (NL_DONE, md\<lparr>fm_flags := nd_features n i\<rparr>)"
    using at getattr_wide_here(2) getattr_here(1) by (simp add: parse_xdp_features_def assms(3) del: of_nat_add)
  moreover have "nd_family n \<noteq> NLMSG_ERROR" "nd_family n \<noteq> NLMSG_DONE" using assms(2) by auto
  ultimately show "recv_msg (Some parse_xdp_features) pid seq ?d 0 False md = Some (Inl (Done 0, md\<lparr>fm_flags := nd_features n i\<rparr>))"
    using at by (simp add: recv_msg_def)
qed

text \<open>The message by which the kernel refuses a request.\<close>

definition error_msg :: "u32 \<Rightarrow> u32 \<Rightarrow> u32 \<Rightarrow> u8 list \<Rightarrow> u8 list" where
  "error_msg e seq pid hdr = nlmsg NLMSG_ERROR 0x100 seq pid (le32 e @ hdr)"

lemma run_error:
  assumes "e \<noteq> 0" "length hdr = 16"
  shows "run_datagrams fn pid seq [error_msg e seq pid hdr] c = Some (sint e, c)"
proof (rule run_one[of _ NLMSG_ERROR "0x100" seq pid "le32 e @ hdr"])
  let ?d = "error_msg e seq pid hdr"
  show d: "?d = nlmsg NLMSG_ERROR 0x100 seq pid (le32 e @ hdr)" by (simp add: error_msg_def)
  show "body_ok (le32 e @ hdr)" using assms(2) by (simp add: body_ok_def)
  obtain pre' where "?d = pre' @ le32 e @ hdr" "length pre' = 16"
    using nlmsg_at(6)[of ?d "[]" NLMSG_ERROR "0x100" seq pid "le32 e @ hdr" "[]" 0] d by auto
  then have "load32 ?d 16 = Some e" using load32_at[of pre' 16 e hdr] by simp
  then show "recv_msg fn pid seq ?d 0 False c = Some (Inl (Done (sint e), c))"
    using nlmsg_at(1-5)[of ?d "[]" NLMSG_ERROR "0x100" seq pid "le32 e @ hdr" "[]" 0] d assms(1)
    by (simp add: recv_msg_def libbpf_nla_dump_errormsg_def)
qed

subsection \<open>Sockets\<close>

text \<open>The open sockets: creating and closing one says so, every other call leaves them alone.\<close>

locale netlink_sockets =
  fixes env :: "'w nl_env" and socks :: "'w \<Rightarrow> int set"
  assumes socket: "nl_socket env p w = (s, w') \<Longrightarrow> if s < 0 then socks w' = socks w else s \<notin> socks w \<and> socks w' = insert s (socks w)"
    and close: "socks (nl_close env s w) = socks w - {s}"
    and quiet: "nl_setsockopt env s w = (r, w') \<Longrightarrow> socks w' = socks w" "nl_bind env s w = (r, w') \<Longrightarrow> socks w' = socks w"
      "nl_getsockname env s w = (name, w') \<Longrightarrow> socks w' = socks w" "nl_peek env s w = (r, w') \<Longrightarrow> socks w' = socks w"
      "nl_recv env s w = (d, w') \<Longrightarrow> socks w' = socks w" "nl_realloc env w = (ok, w') \<Longrightarrow> socks w' = socks w"
      "nl_time env w = (t, w') \<Longrightarrow> socks w' = socks w" "nl_send env s m w = (r, w') \<Longrightarrow> socks w' = socks w"
begin

lemma open_socks:
  assumes "libbpf_netlink_open env p w = (r, w')"
  shows "case r of Inl _ \<Rightarrow> socks w' = socks w | Inr (s, _) \<Rightarrow> s \<notin> socks w \<and> socks w' = insert s (socks w)"
  using assms unfolding libbpf_netlink_open_def
  by (auto dest!: socket quiet simp: close split: prod.splits if_splits sum.splits)

lemma peekmsg_socks: "netlink_peekmsg env s w = Some y \<Longrightarrow> socks (snd y) = socks w"
proof -
  assume a: "netlink_peekmsg env s w = Some y"
  have "env = env \<longrightarrow> socks (snd y) = socks w"
    by (rule netlink_peekmsg.raw_induct[where P = "\<lambda>e s w y. e = env \<longrightarrow> socks (snd y) = socks w", OF _ a])
      (force dest: quiet split: prod.splits if_splits)
  then show ?thesis by simp
qed

lemma recvmsg_socks: "netlink_recvmsg env s w = Some y \<Longrightarrow> socks (snd y) = socks w"
proof -
  assume a: "netlink_recvmsg env s w = Some y"
  have "env = env \<longrightarrow> socks (snd y) = socks w"
    by (rule netlink_recvmsg.raw_induct[where P = "\<lambda>e s w y. e = env \<longrightarrow> socks (snd y) = socks w", OF _ a])
      (force dest: quiet split: prod.splits if_splits sum.splits)
  then show ?thesis by simp
qed

lemma grow_socks: "(if g then nl_realloc env w else (True, w)) = (ok, w') \<Longrightarrow> socks w' = socks w"
  by (auto dest: quiet split: if_splits)

lemma recv_loop_socks: "recv_loop env s pid seq fn cap c w = Some y \<Longrightarrow> socks (snd y) = socks w"
proof -
  assume a: "recv_loop env s pid seq fn cap c w = Some y"
  have "env = env \<longrightarrow> socks (snd y) = socks w"
  proof (rule recv_loop.raw_induct[where P = "\<lambda>e s pid seq fn cap c w y. e = env \<longrightarrow> socks (snd y) = socks w", OF _ a],
      intro impI, goal_cases)
    case (1 rl e s pid seq fn cap c w y)
    have IH: "socks (snd y') = socks w'" if "rl env s pid seq fn cap' c' w' = Some y'" for cap' c' w' y'
      using "1"(1)[OF that] by simp
    note body = "1"(2)[unfolded "1"(3)]
    obtain len w1 where w1: "netlink_peekmsg env s w = Some (len, w1)" "socks w1 = socks w"
      using body peekmsg_socks by (auto elim!: bind_SomeE)
    let ?g = "len > int cap"
    obtain ok w2 where w2: "(if ?g then nl_realloc env w1 else (True, w1)) = (ok, w2)" "socks w2 = socks w"
      using grow_socks w1(2) by (metis surj_pair)
    note b2 = body[unfolded w1(1) Option.bind.bind_lunit prod.case Let_def w2(1)]
    show ?case
    proof (cases "len < 0 \<or> \<not> ok")
      case True
      then show ?thesis using b2 w1(2) w2(2) by (auto split: if_splits)
    next
      case False
      then obtain r w3 where w3: "netlink_recvmsg env s w2 = Some (r, w3)" "socks w3 = socks w"
        using b2 w2(2) recvmsg_socks by (auto elim!: bind_SomeE)
      show ?thesis
      proof (cases r)
        case (Inl x)
        have "Some ((x, c), w3) = Some y" using b2[unfolded w3(1) Inl Option.bind.bind_lunit prod.case sum.case] False by simp
        then show ?thesis using w3(2) by (metis option.inject snd_conv)
      next
        case (Inr buf)
        note b3 = b2[unfolded w3(1) Inr Option.bind.bind_lunit prod.case sum.case]
        show ?thesis
        proof (cases "recv_msgs fn pid seq buf 0 (int (length buf)) False c")
          case None
          then have "Some ((0, c), w3) = Some y" using b3 False by (simp split: if_split_asm)
          then show ?thesis using w3(2) by (metis option.inject snd_conv)
        next
          case (Some oc)
          obtain out c' where oc: "oc = (out, c')" by force
          let ?cap = "if ?g then nat len else cap"
          have "snd y = w3 \<or> rl env s pid seq fn ?cap c' w3 = Some y"
            using b3[unfolded Some oc Option.bind.bind_lunit prod.case] False
            by (cases out) (simp_all split: if_split_asm, auto)
          then show ?thesis using w3(2) IH by metis
        qed
      qed
    qed
  qed
  then show ?thesis by simp
qed

lemma recv_socks: "libbpf_netlink_recv env s pid seq fn c w = Some y \<Longrightarrow> socks (snd y) = socks w"
  unfolding libbpf_netlink_recv_def by (fastforce dest: quiet recv_loop_socks split: prod.splits if_splits)

lemma send_recv_socks:
  assumes "libbpf_netlink_send_recv env req p fn c w = Some (r, w')"
  shows "socks w' = socks w"
proof (cases "libbpf_netlink_open env p w")
  case (Pair o1 w1)
  note os = open_socks[OF Pair]
  show ?thesis
  proof (cases o1)
    case (Inl e)
    then show ?thesis using assms os Pair by (auto simp: libbpf_netlink_send_recv_def)
  next
    case (Inr sp)
    obtain s pid t w2 where sp: "sp = (s, pid)" "nl_time env w1 = (t, w2)" by (metis surj_pair)
    obtain msg where m: "(case nl_send env s msg w2 of (r, w) \<Rightarrow>
        if r < 0 then Some ((r, c), nl_close env s w)
        else do { (res, w) \<leftarrow> libbpf_netlink_recv env s pid t fn c w; Some (res, nl_close env s w) }) = Some (r, w')"
      using assms Pair Inr sp by (auto simp: libbpf_netlink_send_recv_def bind_eq_Some_conv)
    show ?thesis
      using m os Inr sp by (auto simp: close bind_eq_Some_conv dest!: quiet recv_socks split: prod.splits if_splits)
  qed
qed

end

subsection \<open>A kernel that answers\<close>

lemma sent_msg:
  assumes "req_is (le16 type @ le16 flags @ replicate 8 0) body req"
  shows "\<exists>r1 r2. store32 req 12 0 = Some r1 \<and> store32 r1 8 t = Some r2 \<and> load32 r2 0 = Some (of_nat (16 + length body))
    \<and> load_bytes r2 0 (unat (of_nat (16 + length body) :: u32)) = Some (nlmsg type flags t 0 body)"
proof -
  let ?l = "le32 (of_nat (16 + length body))" and ?z = "replicate (REQ_SIZE - (16 + length body)) (0 :: u8)"
  have le: "16 + length body \<le> REQ_SIZE" using assms by (simp add: req_is_def)
  have "replicate 8 (0 :: u8) = replicate 4 0 @ replicate 4 0" by (simp add: numeral_eq_Suc)
  then have req: "req = ?l @ le16 type @ le16 flags @ replicate 4 0 @ replicate 4 0 @ body @ ?z" using assms by (simp add: req_is_def)
  let ?r1 = "?l @ le16 type @ le16 flags @ replicate 4 0 @ le32 0 @ body @ ?z"
  have 1: "store32 req 12 0 = Some ?r1"
    unfolding req store32_def using store_at[of "?l @ le16 type @ le16 flags @ replicate 4 0" 12 "replicate 4 0" "le32 0"]
    by (simp del: of_nat_add replicate.simps)
  have 2: "store32 ?r1 8 t = Some (nlmsg type flags t 0 body @ ?z)"
    unfolding store32_def nlmsg_def using store_at[of "?l @ le16 type @ le16 flags" 8 "replicate 4 0" "le32 t"]
    by (simp del: of_nat_add replicate.simps)
  have 3: "load32 (nlmsg type flags t 0 body @ ?z) 0 = Some (of_nat (16 + length body))"
    using nlmsg_at(1)[of "nlmsg type flags t 0 body @ ?z" "[]"] by simp
  have u: "unat (of_nat (16 + length body) :: u32) = 16 + length body"
    using le by (simp add: unat_of_nat take_bit_nat_eq_self del: of_nat_add)
  have 4: "load_bytes (nlmsg type flags t 0 body @ ?z) 0 (unat (of_nat (16 + length body) :: u32)) = Some (nlmsg type flags t 0 body)"
    unfolding u using length_nlmsg[of type flags t 0 body] by (simp add: load_bytes_def)
  show ?thesis using 1 2 3 4 by blast
qed

text \<open>A kernel that grants sockets and memory and answers every request: \<open>answer\<close> gives the datagrams for a port and a request.
  System calls may be interrupted; \<open>patience\<close> bounds how often that still happens.\<close>

locale netlink_talk = netlink_sockets +
  fixes inbox :: "'w \<Rightarrow> int \<Rightarrow> u8 list list" and patience :: "'w \<Rightarrow> nat" and port :: "int \<Rightarrow> u32"
    and answer :: "u32 \<Rightarrow> u8 list \<Rightarrow> u8 list list"
  assumes granted: "nl_socket env p w = (s, w') \<Longrightarrow> 0 \<le> s" "nl_bind env s w = (r, w') \<Longrightarrow> 0 \<le> r"
      "nl_getsockname env s w = (name, w') \<Longrightarrow> name = Inr (port s, 12)"
    and memory: "nl_realloc env w = (ok, w') \<Longrightarrow> ok \<and> inbox w' = inbox w"
    and send: "nl_send env s msg w = (r, w') \<Longrightarrow> 0 \<le> r \<and> inbox w' s = answer (port s) msg"
    and peek: "inbox w s = d # ds \<Longrightarrow> nl_peek env s w = (r, w') \<Longrightarrow> inbox w' s = d # ds
      \<and> (r = int (length d) \<or> r \<in> {- EINTR, - EAGAIN} \<and> patience w' < patience w)"
    and recv: "inbox w s = d # ds \<Longrightarrow> nl_recv env s w = (b, w') \<Longrightarrow> b = Inr d \<and> inbox w' s = ds
      \<or> b \<in> {Inl (- EINTR), Inl (- EAGAIN)} \<and> inbox w' s = d # ds \<and> patience w' < patience w"
begin

lemma peekmsg_returns:
  "inbox w s = d # ds \<Longrightarrow> \<exists>w'. netlink_peekmsg env s w = Some (int (length d), w') \<and> inbox w' s = d # ds"
proof (induction "patience w" arbitrary: w rule: less_induct)
  case less
  obtain r w' where p: "nl_peek env s w = (r, w')" by force
  show ?case using peek[OF less.prems p] less.hyps[of w'] p by (subst netlink_peekmsg.simps) auto
qed

lemma recvmsg_returns:
  "inbox w s = d # ds \<Longrightarrow> \<exists>w'. netlink_recvmsg env s w = Some (Inr d, w') \<and> inbox w' s = ds"
proof (induction "patience w" arbitrary: w rule: less_induct)
  case less
  obtain r w' where p: "nl_recv env s w = (r, w')" by force
  show ?case using recv[OF less.prems p] less.hyps[of w'] p by (subst netlink_recvmsg.simps) auto
qed

lemma recv_loop_runs:
  "run_datagrams fn pid seq (inbox w s) c = Some r \<Longrightarrow> \<exists>w'. recv_loop env s pid seq fn cap c w = Some (r, w')"
proof (induction fn pid seq "inbox w s" c arbitrary: w cap rule: run_datagrams.induct)
  case (2 fn pid seq d ds c)
  obtain w1 where w1: "netlink_peekmsg env s w = Some (int (length d), w1)" "inbox w1 s = d # ds"
    using peekmsg_returns "2.hyps"(3)[symmetric] by blast
  define w2 where "w2 = snd (if int (length d) > int cap then nl_realloc env w1 else (True, w1))"
  have w2: "(if int (length d) > int cap then nl_realloc env w1 else (True, w1)) = (True, w2)" "inbox w2 s = d # ds"
    using memory[of w1] w1(2) by (auto simp: w2_def prod_eq_iff)
  obtain w3 where w3: "netlink_recvmsg env s w2 = Some (Inr d, w3)" "ds = inbox w3 s" using recvmsg_returns w2(2) by blast
  show ?case
    using "2.prems" "2.hyps"(1,2)[OF _ _ _ _ w3(2)] w1 w2 w3 "2.hyps"(3)[symmetric]
    by (subst recv_loop.simps) (auto simp: Let_def split: option.splits prod.splits recv_outcome.splits if_splits)
qed simp

lemma talk_open: "\<exists>s w'. libbpf_netlink_open env p w = (Inr (s, port s), w')"
proof -
  obtain s w1 where 1: "nl_socket env p w = (s, w1)" by force
  obtain r w2 where 2: "nl_setsockopt env s w1 = (r, w2)" by force
  obtain r' w3 where 3: "nl_bind env s w2 = (r', w3)" by force
  obtain n w4 where 4: "nl_getsockname env s w3 = (n, w4)" by force
  show ?thesis using granted(1)[OF 1] granted(2)[OF 3] granted(3)[OF 4] 1 2 3 4 by (auto simp: libbpf_netlink_open_def)
qed

lemma send_recv_runs:
  assumes req: "req_is (le16 type @ le16 flags @ replicate 8 0) body req"
    and run: "\<And>pid seq. run_datagrams fn pid seq (answer pid (nlmsg type flags seq 0 body)) c = Some r"
  shows "\<exists>w'. libbpf_netlink_send_recv env req p fn c w = Some (r, w') \<and> socks w' = socks w"
proof -
  obtain s w1 where o: "libbpf_netlink_open env p w = (Inr (s, port s), w1)" using talk_open by blast
  obtain t w2 where t: "nl_time env w1 = (t, w2)" by force
  let ?msg = "nlmsg type flags t 0 body"
  obtain n w3 where n: "nl_send env s ?msg w2 = (n, w3)" by force
  obtain ok w4 where m: "nl_realloc env w3 = (ok, w4)" by force
  have "run_datagrams fn (port s) t (inbox w4 s) c = Some r" using send[OF n] memory[OF m] run by simp
  from recv_loop_runs[OF this, of 4096] obtain w5 where w5: "recv_loop env s (port s) t fn 4096 c w4 = Some (r, w5)" by blast
  have "libbpf_netlink_recv env s (port s) t fn c w3 = Some (r, w5)" using m memory[OF m] w5 by (simp add: libbpf_netlink_recv_def)
  then have "libbpf_netlink_send_recv env req p fn c w = Some (r, nl_close env s w5)"
    using o t n send[OF n] sent_msg[OF req, of t] by (auto simp: libbpf_netlink_send_recv_def)
  from send_recv_socks[OF this] this show ?thesis by blast
qed

end

subsection \<open>What a query reports\<close>

text \<open>A kernel that answers the three requests of a query: all links, the family \<open>netdev\<close>, and the features of an interface.\<close>

definition netdev_name :: "u8 list" where
  "netdev_name = map (of_nat \<circ> of_char) ''netdev'' @ [0]"

definition link_kernel :: "(u32 \<Rightarrow> u8 list \<Rightarrow> u8 list list) \<Rightarrow> link list list \<Rightarrow> link list \<Rightarrow> netdev option \<Rightarrow> bool" where
  "link_kernel answer parts rest nd \<longleftrightarrow>
     (\<forall>p seq. answer p (nlmsg RTM_GETLINK 0x301 seq 0 (ifinfo AF_PACKET 0 @ replicate 8 0)) = dump_answer seq p parts rest)
     \<and> (\<forall>p seq. answer p (nlmsg 16 1 seq 0 ([3, 2, 0, 0] @ attr_bytes 2 netdev_name)) =
          [case nd of None \<Rightarrow> error_msg (- 2) seq p (take 16 (nlmsg 16 1 seq 0 ([3, 2, 0, 0] @ attr_bytes 2 netdev_name)))
           | Some n \<Rightarrow> nlmsg 16 0 seq p (genl_body (nd_family_attrs n))])
     \<and> (\<forall>n. nd = Some n \<longrightarrow> netdev_ok n \<and> nd_family n > 3
          \<and> (\<forall>p seq i. answer p (nlmsg (nd_family n) 1 seq 0 ([1, 2, 0, 0] @ attr_bytes 1 (le32 i))) =
               [nlmsg (nd_family n) 0 seq p (genl_body (nd_dev_attrs n i))]))
     \<and> (\<forall>ls \<in> set parts. ls \<noteq> []) \<and> (\<forall>l \<in> set (concat parts @ rest). link_ok l)
     \<and> distinct (map lk_index (concat parts @ rest))"

text \<open>What is attached to an interface according to the links.\<close>

definition attached_info :: "u32 \<Rightarrow> link list \<Rightarrow> xdp_link_info" where
  "attached_info i ls =
     (case find (\<lambda>l. lk_index l = i) ls of
        None \<Rightarrow> no_link_info
      | Some l \<Rightarrow> (case lk_xdp l of None \<Rightarrow> no_link_info | Some x \<Rightarrow> note_xdp x no_link_info))"

lemma fold_other_links:
  "\<forall>l \<in> set ls. lk_index l \<noteq> i \<Longrightarrow> md_ifindex md = sint i \<Longrightarrow> i \<noteq> 0 \<Longrightarrow> fold note_link ls md = md"
  by (induction ls) (auto simp: note_link_def signed_eq_0_iff dest: signed_word_eqI)

lemma fold_note_link:
  assumes "distinct (map lk_index ls)" "md_ifindex md = sint i" "i \<noteq> 0" "md_info md = no_link_info"
  shows "md_info (fold note_link ls md) = attached_info i ls"
  using assms
proof (induction ls)
  case (Cons l ls)
  show ?case
  proof (cases "lk_index l = i")
    case True
    then have "\<forall>l \<in> set ls. lk_index l \<noteq> i" using Cons.prems(1) by (auto simp: image_iff)
    moreover have "md_ifindex (note_link l md) = sint i" "md_info (note_link l md) = attached_info i (l # ls)"
      using True Cons.prems by (auto simp: attached_info_def note_link_def split: option.split)
    ultimately show ?thesis using fold_other_links[of ls i "note_link l md"] Cons.prems(3) by simp
  next
    case False
    then have "note_link l md = md" using Cons.prems by (auto simp: note_link_def signed_eq_0_iff dest: signed_word_eqI)
    then show ?thesis using False Cons by (simp add: attached_info_def)
  qed
qed (simp add: attached_info_def)

definition reported_features :: "netdev option \<Rightarrow> u32 \<Rightarrow> u64" where
  "reported_features nd i = (case nd of None \<Rightarrow> 0 | Some n \<Rightarrow> nd_features n i)"

context netlink_talk
begin

lemma features_run:
  assumes "link_kernel answer parts rest nd"
  shows "\<exists>w'. query_features env (sint i) id0 opts w = Some ((0, opts\<lparr>qo_feature_flags := reported_features nd i\<rparr>), w') \<and> socks w' = socks w"
proof -
  let ?b = "[3, 2, 0, 0] :: u8 list" and ?hdr = "\<lambda>t. le16 t @ le16 1 @ replicate 8 (0 :: u8)"
  have ln: "length netdev_name = 7" "netdev_name \<noteq> []" by (simp_all add: netdev_name_def)
  obtain r0 where r0: "new_req (16 + 4) 16 1 ?b = Some r0" "req_is (?hdr 16) ?b r0"
    using new_req_is[of 4 ?b 16 1] by auto
  obtain r1 where r1: "nlattr_add r0 2 (Some netdev_name) 7 = Some (0, r1)" "req_is (?hdr 16) (?b @ attr_bytes 2 netdev_name) r1"
    using nlattr_add_fits[OF r0(2), of netdev_name _ 2] ln by (auto simp: align4_def)
  note res = libbpf_netlink_resolve_genl_family_id_def
  show ?thesis
  proof (cases nd)
    case None
    have "run_datagrams (Some parse_genl_family_id) pid seq (answer pid (nlmsg 16 1 seq 0 (?b @ attr_bytes 2 netdev_name))) id0 = Some (- 2, id0)"
      for pid seq
      using assms None run_error[of "- 2" "take 16 (nlmsg 16 1 seq 0 (?b @ attr_bytes 2 netdev_name))" _ pid seq id0]
      by (simp add: link_kernel_def length_nlmsg)
    from send_recv_runs[OF r1(2) this, of NETLINK_GENERIC w] obtain w' where
      "libbpf_netlink_send_recv env r1 NETLINK_GENERIC (Some parse_genl_family_id) id0 w = Some ((- 2, id0), w')" "socks w' = socks w" by blast
    then show ?thesis using r0(1) r1(1) None by (simp add: query_features_def res netdev_name_def reported_features_def)
  next
    case (Some n)
    have n: "netdev_ok n" "nd_family n > 3" using assms Some by (auto simp: link_kernel_def)
    have "run_datagrams (Some parse_genl_family_id) pid seq (answer pid (nlmsg 16 1 seq 0 (?b @ attr_bytes 2 netdev_name))) id0
        = Some (0, nd_family n)" for pid seq
      using assms Some run_family[OF n(1)] by (simp add: link_kernel_def)
    from send_recv_runs[OF r1(2) this, of NETLINK_GENERIC w] obtain w1 where w1:
      "libbpf_netlink_send_recv env r1 NETLINK_GENERIC (Some parse_genl_family_id) id0 w = Some ((0, nd_family n), w1)" "socks w1 = socks w" by blast
    let ?c = "[1, 2, 0, 0] :: u8 list" and ?md = "\<lparr>fm_ifindex = sint i, fm_flags = 0\<rparr>"
    obtain q0 where q0: "new_req (16 + 4) (nd_family n) 1 ?c = Some q0" "req_is (?hdr (nd_family n)) ?c q0"
      using new_req_is[of 4 ?c "nd_family n" 1] by auto
    have "le32 i \<noteq> []" by (simp add: le32_def)
    then obtain q1 where q1: "nlattr_add q0 1 (Some (le32 i)) 4 = Some (0, q1)" "req_is (?hdr (nd_family n)) (?c @ attr_bytes 1 (le32 i)) q1"
      using nlattr_add_fits[OF q0(2), of "le32 i" _ 1] by (auto simp: align4_def)
    have "run_datagrams (Some parse_xdp_features) pid seq (answer pid (nlmsg (nd_family n) 1 seq 0 (?c @ attr_bytes 1 (le32 i)))) ?md
        = Some (0, ?md\<lparr>fm_flags := nd_features n i\<rparr>)" for pid seq
      using assms Some run_features[OF n, of ?md i] by (simp add: link_kernel_def)
    from send_recv_runs[OF q1(2) this, of NETLINK_GENERIC w1] obtain w2 where
      "libbpf_netlink_send_recv env q1 NETLINK_GENERIC (Some parse_xdp_features) ?md w1 = Some ((0, ?md\<lparr>fm_flags := nd_features n i\<rparr>), w2)"
      "socks w2 = socks w1" by blast
    then show ?thesis
      using r0(1) r1(1) q0(1) q1(1) w1 Some by (simp add: query_features_def res netdev_name_def reported_features_def)
  qed
qed

lemma query_runs:
  assumes "link_kernel answer parts rest nd" "i \<noteq> 0" "query_flags_ok xdp_flags"
  shows "\<exists>w' opts'. bpf_xdp_query env True (sint i) xdp_flags id0 opts w = Some ((0, opts'), w') \<and> socks w' = socks w
    \<and> opts' = opts\<lparr>qo_info := attached_info i (concat parts @ rest),
        qo_feature_flags := if qo_has_feature_flags opts then reported_features nd i else qo_feature_flags opts\<rparr>"
proof -
  let ?b = "ifinfo AF_PACKET 0" and ?ls = "concat parts @ rest"
  let ?md = "\<lparr>md_ifindex = sint i, md_flags = xdp_flags AND 0xE, md_info = no_link_info\<rparr>"
  obtain r0 where r0: "new_req (16 + 16) RTM_GETLINK (0x300 OR 1) ?b = Some r0"
      "req_is (le16 RTM_GETLINK @ le16 0x301 @ replicate 8 0) (?b @ replicate 8 0) r0"
    using new_req_is[of 16 ?b RTM_GETLINK "0x301"] by (auto simp: ifinfo_def)
  have "run_datagrams (Some dump_link_nlmsg) pid seq (answer pid (nlmsg RTM_GETLINK 0x301 seq 0 (?b @ replicate 8 0))) ?md
      = Some (0, fold note_link ?ls ?md)" for pid seq
    using assms(1) run_links[of parts rest pid seq ?md] by (simp add: link_kernel_def)
  from send_recv_runs[OF r0(2) this, of NETLINK_ROUTE w] obtain w1 where w1:
    "libbpf_netlink_send_recv env r0 NETLINK_ROUTE (Some dump_link_nlmsg) ?md w = Some ((0, fold note_link ?ls ?md), w1)" "socks w1 = socks w"
    by blast
  have info: "md_info (fold note_link ?ls ?md) = attached_info i ?ls"
    using assms(1,2) by (intro fold_note_link) (simp_all add: link_kernel_def)
  show ?thesis
  proof (cases "qo_has_feature_flags opts")
    case True
    obtain w2 where "query_features env (sint i) id0 (opts\<lparr>qo_info := attached_info i ?ls\<rparr>) w1
        = Some ((0, opts\<lparr>qo_info := attached_info i ?ls, qo_feature_flags := reported_features nd i\<rparr>), w2)" "socks w2 = socks w1"
      using features_run[OF assms(1), of i id0 "opts\<lparr>qo_info := attached_info i ?ls\<rparr>" w1] by auto
    then show ?thesis using True assms(3) r0(1) w1 info by (simp add: bpf_xdp_query_def Let_def)
  next
    case False
    then show ?thesis using assms(3) r0(1) w1 info by (simp add: bpf_xdp_query_def Let_def)
  qed
qed

end

subsection \<open>A small kernel\<close>

text \<open>Sockets are numbered upwards; the world holds the open sockets, what is to be read from each, and how many system calls will
  still be interrupted.\<close>

record nworld =
  nw_socks :: "int list"
  nw_inbox :: "int \<Rightarrow> u8 list list"
  nw_interrupts :: nat

definition n_port :: "int \<Rightarrow> u32" where
  "n_port s = 1000 + word_of_int s"

definition n_socket :: "int \<Rightarrow> nworld \<Rightarrow> int \<times> nworld" where
  "n_socket p w = (let s = fold max (nw_socks w) 2 + 1 in (s, w\<lparr>nw_socks := s # nw_socks w\<rparr>))"

definition n_interrupt :: "nworld \<Rightarrow> nworld" where
  "n_interrupt w = w\<lparr>nw_interrupts := nw_interrupts w - 1\<rparr>"

definition n_peek :: "int \<Rightarrow> nworld \<Rightarrow> int \<times> nworld" where
  "n_peek s w = (if nw_interrupts w > 0 then (- EINTR, n_interrupt w)
     else case nw_inbox w s of [] \<Rightarrow> (- 104, w) | d # _ \<Rightarrow> (int (length d), w))"

definition n_recv :: "int \<Rightarrow> nworld \<Rightarrow> (int + u8 list) \<times> nworld" where
  "n_recv s w = (if nw_interrupts w > 0 then (Inl (- EAGAIN), n_interrupt w)
     else case nw_inbox w s of [] \<Rightarrow> (Inl (- 104), w) | d # ds \<Rightarrow> (Inr d, w\<lparr>nw_inbox := (nw_inbox w)(s := ds)\<rparr>))"

definition n_env :: "(u32 \<Rightarrow> u8 list \<Rightarrow> u8 list list) \<Rightarrow> nworld nl_env" where
  "n_env answer = \<lparr>nl_socket = n_socket, nl_setsockopt = (\<lambda>s w. (0, w)), nl_bind = (\<lambda>s w. (0, w)),
     nl_getsockname = (\<lambda>s w. (Inr (n_port s, 12), w)), nl_close = (\<lambda>s w. w\<lparr>nw_socks := removeAll s (nw_socks w)\<rparr>),
     nl_peek = n_peek, nl_recv = n_recv, nl_realloc = (\<lambda>w. (True, w)), nl_time = (\<lambda>w. (7, w)),
     nl_send = (\<lambda>s m w. (int (length m), w\<lparr>nw_inbox := (nw_inbox w)(s := answer (n_port s) m)\<rparr>))\<rparr>"

lemma fold_max_ge: "(a :: int) \<le> fold max xs a \<and> (\<forall>x \<in> set xs. x \<le> fold max xs a)"
proof (induction xs arbitrary: a)
  case (Cons x xs)
  show ?case using Cons.IH[of "max x a"] by auto
qed simp

interpretation nk: netlink_talk "n_env answer" "\<lambda>w. set (nw_socks w)" nw_inbox nw_interrupts n_port answer for answer
proof (unfold_locales, goal_cases)
  case (1 p w s w')
  then show ?case using fold_max_ge[of 2 "nw_socks w"] by (force simp: n_env_def n_socket_def Let_def)
next
  case (11 p w s w')
  then show ?case using fold_max_ge[of 2 "nw_socks w"] by (force simp: n_env_def n_socket_def Let_def)
qed (auto simp: n_env_def n_peek_def n_recv_def n_interrupt_def split: if_splits list.splits)


definition w_links :: "link list" where
  "w_links = [\<lparr>lk_index = 1, lk_attrs = [(3, [108, 111, 0])], lk_xdp = None\<rparr>,
     \<lparr>lk_index = 3, lk_attrs = [(3, [101, 0])], lk_xdp = Some \<lparr>lx_mode = 1, lx_prog = Some 42, lx_drv = Some 42, lx_skb = None, lx_hw = None\<rparr>\<rparr>]"

definition w_answer :: "u32 \<Rightarrow> u8 list \<Rightarrow> u8 list list" where
  "w_answer p m = (case (load16 m 4, load32 m 8) of
     (Some t, Some seq) \<Rightarrow> if t = RTM_GETLINK then dump_answer seq p [take 1 w_links] (drop 1 w_links)
       else [error_msg (- 2) seq p (take 16 m)]
   | _ \<Rightarrow> [])"

lemma w_link_kernel: "link_kernel w_answer [take 1 w_links] (drop 1 w_links) None"
proof -
  have at: "load16 (nlmsg t f s 0 b) 4 = Some t" "load32 (nlmsg t f s 0 b) 8 = Some s" for t f s b
    using nlmsg_at(2,4)[of "nlmsg t f s 0 b" "[]" t f s 0 b "[]" 0] by auto
  have "\<forall>l \<in> set w_links. link_ok l"
    by (simp add: w_links_def link_ok_def body_ok_def link_body_def link_attrs_def xdp_attrs_def id_attr_def ifinfo_def
        length_attr_bytes align4_def stream_append type_nr_def)
  moreover have "distinct (map lk_index w_links)" by (simp add: w_links_def)
  moreover have "set (concat [take 1 w_links] @ drop 1 w_links) = set w_links" "concat [take 1 w_links] @ drop 1 w_links = w_links" "take 1 w_links \<noteq> []"
    by (simp_all add: w_links_def)
  ultimately show ?thesis by (simp only: link_kernel_def w_answer_def at) simp
qed


end
