(* ===== verification/Netlink_Tc.thy ===== *)
theory Netlink_Tc
  imports Netlink_Query C_Strings
begin

text \<open>
  The traffic control functions of \<open>libbpf/src/netlink.c\<close>: creating and destroying the hook of an interface, and attaching,
  detaching and querying a program there.  The pointers \<open>hook\<close> and \<open>opts\<close> are options; their first field says whether
  \<open>OPTS_VALID\<close> accepts the structure.  The system call \<open>bpf_prog_get_info_by_fd\<close> is the argument \<open>prog_info\<close>: it gives the name and
  the id of a program, or an error.
\<close>

abbreviation (input) BPF_TC_INGRESS :: int where "BPF_TC_INGRESS \<equiv> 1"
abbreviation (input) BPF_TC_EGRESS :: int where "BPF_TC_EGRESS \<equiv> 2"
abbreviation (input) BPF_TC_CUSTOM :: int where "BPF_TC_CUSTOM \<equiv> 4"
abbreviation (input) BPF_TC_F_REPLACE :: u32 where "BPF_TC_F_REPLACE \<equiv> 1"
abbreviation (input) NLM_F_REQUEST :: u16 where "NLM_F_REQUEST \<equiv> 1"
abbreviation (input) NLM_F_ACK :: u16 where "NLM_F_ACK \<equiv> 4"
abbreviation (input) NLM_F_ECHO :: u16 where "NLM_F_ECHO \<equiv> 8"
abbreviation (input) NLM_F_REPLACE :: u16 where "NLM_F_REPLACE \<equiv> 0x100"
abbreviation (input) NLM_F_EXCL :: u16 where "NLM_F_EXCL \<equiv> 0x200"
abbreviation (input) NLM_F_CREATE :: u16 where "NLM_F_CREATE \<equiv> 0x400"
abbreviation (input) RTM_NEWQDISC :: u16 where "RTM_NEWQDISC \<equiv> 36"
abbreviation (input) RTM_DELQDISC :: u16 where "RTM_DELQDISC \<equiv> 37"
abbreviation (input) RTM_NEWTFILTER :: u16 where "RTM_NEWTFILTER \<equiv> 44"
abbreviation (input) RTM_DELTFILTER :: u16 where "RTM_DELTFILTER \<equiv> 45"
abbreviation (input) RTM_GETTFILTER :: u16 where "RTM_GETTFILTER \<equiv> 46"
abbreviation (input) TCA_KIND :: nat where "TCA_KIND \<equiv> 1"
abbreviation (input) TCA_OPTIONS :: nat where "TCA_OPTIONS \<equiv> 2"
abbreviation (input) TCA_MAX :: nat where "TCA_MAX \<equiv> 16"
abbreviation (input) TCA_BPF_FD :: nat where "TCA_BPF_FD \<equiv> 6"
abbreviation (input) TCA_BPF_NAME :: nat where "TCA_BPF_NAME \<equiv> 7"
abbreviation (input) TCA_BPF_FLAGS :: nat where "TCA_BPF_FLAGS \<equiv> 8"
abbreviation (input) TCA_BPF_ID :: nat where "TCA_BPF_ID \<equiv> 11"
abbreviation (input) TCA_BPF_MAX :: nat where "TCA_BPF_MAX \<equiv> 11"
abbreviation (input) TC_H_CLSACT :: u32 where "TC_H_CLSACT \<equiv> 0xFFFFFFF1"
abbreviation (input) TC_H_MIN_INGRESS :: u32 where "TC_H_MIN_INGRESS \<equiv> 0xFFF2"
abbreviation (input) TC_H_MIN_EGRESS :: u32 where "TC_H_MIN_EGRESS \<equiv> 0xFFF3"

record bpf_tc_hook =
  hook_valid :: bool
  hook_ifindex :: int
  hook_attach_point :: int
  hook_parent :: u32

record bpf_tc_opts =
  opts_valid :: bool
  opts_prog_fd :: int
  opts_flags :: u32
  opts_prog_id :: u32
  opts_handle :: u32
  opts_priority :: u32

definition tc_h_maj :: "u32 \<Rightarrow> u32" where
  "tc_h_maj h = h AND 0xFFFF0000"

definition tc_h_make :: "u32 \<Rightarrow> u32 \<Rightarrow> u32" where
  "tc_h_make major minor = (major AND 0xFFFF0000) OR (minor AND 0xFFFF)"

text \<open>A zero-terminated string as bytes, and the structure \<open>tcmsg\<close>.\<close>

definition c_bytes :: "string \<Rightarrow> u8 list" where
  "c_bytes s = map (of_nat \<circ> of_char) s @ [0]"

definition tcmsg :: "u8 \<Rightarrow> u32 \<Rightarrow> u32 \<Rightarrow> u32 \<Rightarrow> u32 \<Rightarrow> u8 list" where
  "tcmsg family ifindex handle parent info = [family, 0, 0, 0] @ le32 ifindex @ le32 handle @ le32 parent @ le32 info"

subsection \<open>The hook\<close>

definition clsact_config :: "u8 list \<Rightarrow> (int \<times> u8 list) option" where
  "clsact_config req = do {
     req \<leftarrow> store32 req 28 TC_H_CLSACT;
     req \<leftarrow> store32 req 24 (tc_h_make TC_H_CLSACT 0);
     nlattr_add req (of_nat TCA_KIND) (Some (c_bytes ''clsact'')) 7
   }"

text \<open>The only configuration there is to choose is \<^const>\<open>clsact_config\<close>.\<close>

definition attach_point_to_config :: "bpf_tc_hook \<Rightarrow> int" where
  "attach_point_to_config hook =
     (if hook_attach_point hook \<in> {BPF_TC_INGRESS, BPF_TC_EGRESS, 3}
      then if hook_parent hook \<noteq> 0 then - EINVAL else 0
      else if hook_attach_point hook = BPF_TC_CUSTOM then - EOPNOTSUPP
      else - EINVAL)"

definition tc_get_tcm_parent :: "int \<Rightarrow> u32 \<Rightarrow> int \<times> u32" where
  "tc_get_tcm_parent attach_point parent =
     (if attach_point \<in> {BPF_TC_INGRESS, BPF_TC_EGRESS}
      then if parent \<noteq> 0 then (- EINVAL, parent)
           else (0, tc_h_make TC_H_CLSACT (if attach_point = BPF_TC_INGRESS then TC_H_MIN_INGRESS else TC_H_MIN_EGRESS))
      else if attach_point = BPF_TC_CUSTOM
      then if parent = 0 then (- EINVAL, parent) else (0, parent)
      else (- EINVAL, parent))"

definition tc_qdisc_modify :: "'w nl_env \<Rightarrow> bpf_tc_hook \<Rightarrow> u16 \<Rightarrow> u16 \<Rightarrow> 'w \<Rightarrow> (int \<times> 'w) option" where
  "tc_qdisc_modify env hook cmd flags w =
     (let ret = attach_point_to_config hook
      in if ret < 0 then Some (ret, w)
         else do {
           req \<leftarrow> new_req (16 + 20) cmd (NLM_F_REQUEST OR NLM_F_ACK OR flags) (tcmsg 0 (word_of_int (hook_ifindex hook)) 0 0 0);
           (ret, req) \<leftarrow> clsact_config req;
           if ret < 0 then Some (ret, w)
           else do { ((ret, _), w) \<leftarrow> libbpf_netlink_send_recv env req NETLINK_ROUTE None () w; Some (ret, w) }
         })"

definition tc_qdisc_create_excl :: "'w nl_env \<Rightarrow> bpf_tc_hook \<Rightarrow> 'w \<Rightarrow> (int \<times> 'w) option" where
  "tc_qdisc_create_excl env hook w = tc_qdisc_modify env hook RTM_NEWQDISC (NLM_F_CREATE OR NLM_F_EXCL) w"

definition tc_qdisc_delete :: "'w nl_env \<Rightarrow> bpf_tc_hook \<Rightarrow> 'w \<Rightarrow> (int \<times> 'w) option" where
  "tc_qdisc_delete env hook w = tc_qdisc_modify env hook RTM_DELQDISC 0 w"

definition bpf_tc_hook_create :: "'w nl_env \<Rightarrow> bpf_tc_hook option \<Rightarrow> 'w \<Rightarrow> (int \<times> 'w) option" where
  "bpf_tc_hook_create env hook w =
     (case hook of
        None \<Rightarrow> Some (- EINVAL, w)
      | Some hook \<Rightarrow>
          if \<not> hook_valid hook \<or> hook_ifindex hook \<le> 0 then Some (- EINVAL, w) else tc_qdisc_create_excl env hook w)"

subsection \<open>Answers\<close>

record bpf_cb_ctx =
  cb_opts :: "bpf_tc_opts option"
  cb_processed :: bool

text \<open>\<open>__get_tc_info\<close>; \<open>tc\<close> is the offset of the \<open>tcmsg\<close>, \<open>tb\<close> the attributes of the message.\<close>

definition tc_info_of :: "u8 list \<Rightarrow> nat \<Rightarrow> nat option list \<Rightarrow> bool \<Rightarrow> bpf_cb_ctx \<Rightarrow> (int \<times> bpf_cb_ctx) option" where
  "tc_info_of buf tc tb unicast info =
     (case cb_opts info of
        None \<Rightarrow> Some (- EINVAL, info)
      | Some opts \<Rightarrow>
          if unicast \<and> cb_processed info then Some (- EINVAL, info)
          else (case tb ! TCA_OPTIONS of
                  None \<Rightarrow> Some (NL_CONT, info)
                | Some nla \<Rightarrow> do {
                    (_, tbb) \<leftarrow> libbpf_nla_parse_nested buf TCA_BPF_MAX nla None;
                    case tbb ! TCA_BPF_ID of
                      None \<Rightarrow> Some (- EINVAL, info)
                    | Some a \<Rightarrow> do {
                        prog_id \<leftarrow> libbpf_nla_getattr_u32 buf a;
                        handle \<leftarrow> load32 buf (tc + 8);
                        tcm_info \<leftarrow> load32 buf (tc + 16);
                        Some (if unicast then NL_NEXT else NL_DONE,
                          \<lparr>cb_opts = Some (opts\<lparr>opts_prog_id := prog_id, opts_handle := handle, opts_priority := drop_bit 16 (tc_h_maj tcm_info)\<rparr>),
                           cb_processed = True\<rparr>)
                      }
                  }))"

definition get_tc_info :: "bpf_cb_ctx dump_fn" where
  "get_tc_info buf nh cookie = do {
     l \<leftarrow> load32 buf nh;
     (_, tb) \<leftarrow> libbpf_nla_parse buf TCA_MAX (nh + 16 + 20) (sint (l - 36)) None;
     case tb ! TCA_KIND of
       None \<Rightarrow> Some (NL_CONT, cookie)
     | Some _ \<Rightarrow> do { flags \<leftarrow> load16 buf (nh + 6); tc_info_of buf (nh + 16) tb (flags AND NLM_F_ECHO \<noteq> 0) cookie }
   }"

subsection \<open>Attaching\<close>

type_synonym 'w prog_info = "int \<Rightarrow> 'w \<Rightarrow> (int + string \<times> u32) \<times> 'w"

definition filter_name :: "string \<Rightarrow> u32 \<Rightarrow> string" where
  "filter_name name prog_id = name @ '':['' @ dec_digits (unat prog_id) @ '']''"

definition tc_add_fd_and_name :: "'w prog_info \<Rightarrow> u8 list \<Rightarrow> int \<Rightarrow> 'w \<Rightarrow> ((int \<times> u8 list) \<times> 'w) option" where
  "tc_add_fd_and_name prog_info req fd w =
     (case prog_info fd w of
        (Inl e, w) \<Rightarrow> Some ((e, req), w)
      | (Inr (name, i), w) \<Rightarrow> do {
          (ret, req) \<leftarrow> nlattr_add req (of_nat TCA_BPF_FD) (Some (le32 (word_of_int fd))) 4;
          if ret < 0 then Some ((ret, req), w)
          else
            let s = filter_name name i
            in if length s \<ge> 256 then Some ((- ENAMETOOLONG, req), w)
               else do { r \<leftarrow> nlattr_add req (of_nat TCA_BPF_NAME) (Some (c_bytes s)) (length s + 1); Some (r, w) }
        })"

text \<open>The request of \<open>bpf_tc_attach\<close> from the point where its arguments are checked: the error, or the bytes to send.\<close>

definition tc_filter_info :: "u32 \<Rightarrow> u32" where
  "tc_filter_info priority = tc_h_make (push_bit 16 priority) (ucast (bpf_htons 3))"

definition tc_attach_request ::
  "'w prog_info \<Rightarrow> int \<Rightarrow> u32 \<Rightarrow> u32 \<Rightarrow> u32 \<Rightarrow> u16 \<Rightarrow> int \<Rightarrow> 'w \<Rightarrow> ((int + u8 list) \<times> 'w) option" where
  "tc_attach_request prog_info ifindex handle priority parent flags prog_fd w = do {
     req \<leftarrow> new_req (16 + 20) RTM_NEWTFILTER (NLM_F_REQUEST OR NLM_F_ACK OR NLM_F_CREATE OR NLM_F_ECHO OR flags)
             (tcmsg 0 (word_of_int ifindex) handle parent (tc_filter_info priority));
     (ret, req) \<leftarrow> nlattr_add req (of_nat TCA_KIND) (Some (c_bytes ''bpf'')) 4;
     if ret < 0 then Some (Inl ret, w)
     else do {
       (nla, req) \<leftarrow> nlattr_begin_nested req (of_nat TCA_OPTIONS);
       case nla of
         None \<Rightarrow> Some (Inl (- EMSGSIZE), w)
       | Some nla \<Rightarrow> do {
           ((ret, req), w) \<leftarrow> tc_add_fd_and_name prog_info req prog_fd w;
           if ret < 0 then Some (Inl ret, w)
           else do {
             (ret, req) \<leftarrow> nlattr_add req (of_nat TCA_BPF_FLAGS) (Some (le32 1)) 4;
             if ret < 0 then Some (Inl ret, w)
             else do { req \<leftarrow> nlattr_end_nested req nla; Some (Inr req, w) }
           }
         }
     }
   }"

text \<open>The end of \<open>bpf_tc_attach\<close> and \<open>bpf_tc_query\<close>: the conversation, and what it says about the program.\<close>

definition tc_converse :: "'w nl_env \<Rightarrow> u8 list \<Rightarrow> bpf_tc_opts \<Rightarrow> 'w \<Rightarrow> ((int \<times> bpf_tc_opts option) \<times> 'w) option" where
  "tc_converse env req opts w = do {
     ((ret, info), w) \<leftarrow> libbpf_netlink_send_recv env req NETLINK_ROUTE (Some get_tc_info) \<lparr>cb_opts = Some opts, cb_processed = False\<rparr> w;
     Some ((if ret < 0 then ret else if \<not> cb_processed info then - ENOENT else ret, cb_opts info), w)
   }"

definition bpf_tc_attach ::
  "'w nl_env \<Rightarrow> 'w prog_info \<Rightarrow> bpf_tc_hook option \<Rightarrow> bpf_tc_opts option \<Rightarrow> 'w \<Rightarrow> ((int \<times> bpf_tc_opts option) \<times> 'w) option" where
  "bpf_tc_attach env prog_info hook_p opts_p w =
     (case (hook_p, opts_p) of
        (Some hook, Some opts) \<Rightarrow>
          if \<not> hook_valid hook \<or> \<not> opts_valid opts then Some ((- EINVAL, opts_p), w)
          else if hook_ifindex hook \<le> 0 \<or> opts_prog_fd opts = 0 \<or> opts_prog_id opts \<noteq> 0 then Some ((- EINVAL, opts_p), w)
          else if opts_priority opts > 0xFFFF then Some ((- EINVAL, opts_p), w)
          else if opts_flags opts AND NOT BPF_TC_F_REPLACE \<noteq> 0 then Some ((- EINVAL, opts_p), w)
          else
            let flags = (if opts_flags opts AND BPF_TC_F_REPLACE \<noteq> 0 then NLM_F_REPLACE else NLM_F_EXCL);
                (ret, parent) = tc_get_tcm_parent (hook_attach_point hook) (hook_parent hook)
            in if ret < 0 then Some ((ret, opts_p), w)
               else do {
                 (r, w) \<leftarrow> tc_attach_request prog_info (hook_ifindex hook) (opts_handle opts) (opts_priority opts) parent flags (opts_prog_fd opts) w;
                 case r of Inl e \<Rightarrow> Some ((e, opts_p), w) | Inr req \<Rightarrow> tc_converse env req opts w
               }
      | _ \<Rightarrow> Some ((- EINVAL, opts_p), w))"

subsection \<open>Detaching\<close>

definition no_tc_opts :: bpf_tc_opts where
  "no_tc_opts = \<lparr>opts_valid = True, opts_prog_fd = 0, opts_flags = 0, opts_prog_id = 0, opts_handle = 0, opts_priority = 0\<rparr>"

text \<open>\<open>__bpf_tc_detach\<close>; without options every field reads as 0, and \<open>OPTS_VALID\<close> holds.\<close>

definition tc_detach :: "'w nl_env \<Rightarrow> bpf_tc_hook option \<Rightarrow> bpf_tc_opts option \<Rightarrow> bool \<Rightarrow> 'w \<Rightarrow> (int \<times> 'w) option" where
  "tc_detach env hook_p opts_p flush w =
     (case hook_p of
        None \<Rightarrow> Some (- EINVAL, w)
      | Some hook \<Rightarrow>
          let opts = (case opts_p of None \<Rightarrow> no_tc_opts | Some opts \<Rightarrow> opts); handle = opts_handle opts; priority = opts_priority opts
          in if \<not> hook_valid hook \<or> \<not> opts_valid opts then Some (- EINVAL, w)
             else if hook_ifindex hook \<le> 0 \<or> opts_flags opts \<noteq> 0 \<or> opts_prog_fd opts \<noteq> 0 \<or> opts_prog_id opts \<noteq> 0 then Some (- EINVAL, w)
             else if priority > 0xFFFF then Some (- EINVAL, w)
             else if \<not> flush \<and> (handle = 0 \<or> priority = 0) then Some (- EINVAL, w)
             else if flush \<and> (handle \<noteq> 0 \<or> priority \<noteq> 0) then Some (- EINVAL, w)
             else
               let (ret, parent) = tc_get_tcm_parent (hook_attach_point hook) (hook_parent hook)
               in if ret < 0 then Some (ret, w)
                  else do {
                    req \<leftarrow> new_req (16 + 20) RTM_DELTFILTER (NLM_F_REQUEST OR NLM_F_ACK)
                            (tcmsg 0 (word_of_int (hook_ifindex hook)) (if flush then 0 else handle) parent
                              (if flush then 0 else tc_filter_info priority));
                    (ret, req) \<leftarrow> (if flush then Some (ret, req) else nlattr_add req (of_nat TCA_KIND) (Some (c_bytes ''bpf'')) 4);
                    if ret < 0 then Some (ret, w)
                    else do { ((ret, _), w) \<leftarrow> libbpf_netlink_send_recv env req NETLINK_ROUTE None () w; Some (ret, w) }
                  })"

definition bpf_tc_detach :: "'w nl_env \<Rightarrow> bpf_tc_hook option \<Rightarrow> bpf_tc_opts option \<Rightarrow> 'w \<Rightarrow> (int \<times> 'w) option" where
  "bpf_tc_detach env hook opts w = (if opts = None then Some (- EINVAL, w) else tc_detach env hook opts False w)"

definition bpf_tc_hook_destroy :: "'w nl_env \<Rightarrow> bpf_tc_hook option \<Rightarrow> 'w \<Rightarrow> (int \<times> 'w) option" where
  "bpf_tc_hook_destroy env hook_p w =
     (case hook_p of
        None \<Rightarrow> Some (- EINVAL, w)
      | Some hook \<Rightarrow>
          if \<not> hook_valid hook \<or> hook_ifindex hook \<le> 0 then Some (- EINVAL, w)
          else if hook_attach_point hook \<in> {BPF_TC_INGRESS, BPF_TC_EGRESS} then tc_detach env hook_p None True w
          else if hook_attach_point hook = 3 then tc_qdisc_delete env hook w
          else if hook_attach_point hook = BPF_TC_CUSTOM then Some (- EOPNOTSUPP, w)
          else Some (- EINVAL, w))"

subsection \<open>Querying\<close>

definition bpf_tc_query :: "'w nl_env \<Rightarrow> bpf_tc_hook option \<Rightarrow> bpf_tc_opts option \<Rightarrow> 'w \<Rightarrow> ((int \<times> bpf_tc_opts option) \<times> 'w) option" where
  "bpf_tc_query env hook_p opts_p w =
     (case (hook_p, opts_p) of
        (Some hook, Some opts) \<Rightarrow>
          if \<not> hook_valid hook \<or> \<not> opts_valid opts then Some ((- EINVAL, opts_p), w)
          else if hook_ifindex hook \<le> 0 \<or> opts_flags opts \<noteq> 0 \<or> opts_prog_fd opts \<noteq> 0 \<or> opts_prog_id opts \<noteq> 0
              \<or> opts_handle opts = 0 \<or> opts_priority opts = 0 then Some ((- EINVAL, opts_p), w)
          else if opts_priority opts > 0xFFFF then Some ((- EINVAL, opts_p), w)
          else
            let (ret, parent) = tc_get_tcm_parent (hook_attach_point hook) (hook_parent hook)
            in if ret < 0 then Some ((ret, opts_p), w)
               else do {
                 req \<leftarrow> new_req (16 + 20) RTM_GETTFILTER NLM_F_REQUEST
                         (tcmsg 0 (word_of_int (hook_ifindex hook)) (opts_handle opts) parent (tc_filter_info (opts_priority opts)));
                 (ret, req) \<leftarrow> nlattr_add req (of_nat TCA_KIND) (Some (c_bytes ''bpf'')) 4;
                 if ret < 0 then Some ((ret, opts_p), w) else tc_converse env req opts w
               }
      | _ \<Rightarrow> Some ((- EINVAL, opts_p), w))"

subsection \<open>The request\<close>

lemma length_dec_digits: "n < 10 ^ Suc k \<Longrightarrow> length (dec_digits n) \<le> Suc k"
proof (induction k arbitrary: n)
  case 0
  then show ?case by (simp add: dec_digits.simps[of n])
next
  case (Suc k)
  have "n div 10 < 10 ^ Suc k" using Suc.prems by (simp add: less_mult_imp_div_less mult.commute)
  then show ?case using Suc.IH[of "n div 10"] by (subst dec_digits.simps) auto
qed

lemma length_filter_name:
  assumes "length name \<le> 15"
  shows "length (filter_name name i) \<le> 28"
proof -
  have "unat i < 10 ^ Suc 9" using unat_bound[of i] by simp
  from length_dec_digits[OF this] show ?thesis using assms by (simp add: filter_name_def)
qed

lemma length_c_bytes [simp]: "length (c_bytes s) = length s + 1"
  by (simp add: c_bytes_def)

lemma length_tcmsg [simp]: "length (tcmsg f i h p n) = 20"
  by (simp add: tcmsg_def)

definition attach_opts :: "int \<Rightarrow> string \<Rightarrow> (u16 \<times> u8 list) list" where
  "attach_opts fd s = [(6, le32 (word_of_int fd)), (7, c_bytes s), (8, le32 1)]"

definition tc_attach_body :: "int \<Rightarrow> u32 \<Rightarrow> u32 \<Rightarrow> u32 \<Rightarrow> int \<Rightarrow> string \<Rightarrow> u8 list" where
  "tc_attach_body ifindex handle priority parent fd s = tcmsg 0 (word_of_int ifindex) handle parent (tc_filter_info priority)
     @ stream [(1, c_bytes ''bpf''), (0x8002, stream (attach_opts fd s))]"

lemma align4_le:
  assumes "n \<le> 4 * k"
  shows "align4 n \<le> 4 * k"
proof -
  have "(n + 3) div 4 < k + 1" using assms by (intro less_mult_imp_div_less) simp
  then show ?thesis by (simp add: align4_def)
qed

lemma add_bytes:
  assumes "req_is hdr (body @ stream as) req" "d \<noteq> []" "length d \<le> 4 * k" "20 + length body + length (stream as) + 4 * k \<le> REQ_SIZE"
  shows "\<exists>req'. nlattr_add req t (Some d) (length d) = Some (0, req') \<and> req_is hdr (body @ stream (as @ [(t, d)])) req'"
  using nlattr_add_fits[OF assms(1), of d _ t] assms(2,4) align4_le[OF assms(3)] by (auto simp: align4_add4 stream_append)

lemma kind_request:
  assumes "length b = 20"
  obtains r0 r1 where "new_req (16 + 20) type flags b = Some r0" "nlattr_add r0 1 (Some (c_bytes ''bpf'')) 4 = Some (0, r1)"
    and "req_is (le16 type @ le16 flags @ replicate 8 0) (b @ stream [(1, c_bytes ''bpf'')]) r1"
proof -
  let ?hdr = "le16 type @ le16 flags @ replicate 8 (0 :: u8)"
  obtain r0 where r0: "new_req (16 + 20) type flags b = Some r0" "req_is ?hdr b r0" using new_req_is[of 20 b type flags] assms by auto
  then obtain r1 where "nlattr_add r0 1 (Some (c_bytes ''bpf'')) 4 = Some (0, r1)" "req_is ?hdr (b @ stream [(1, c_bytes ''bpf'')]) r1"
    using add_bytes[of ?hdr b "[]" r0 "c_bytes ''bpf''" 1 1] assms by (auto simp: c_bytes_def numeral_eq_Suc)
  with r0(1) that show thesis by blast
qed

lemma tc_attach_request_is:
  assumes info: "prog_info fd w = (Inr (name, i), w1)" and name: "length name \<le> 15"
  shows "\<exists>req. tc_attach_request prog_info ifindex handle priority parent flags fd w = Some (Inr req, w1)
    \<and> req_is (le16 RTM_NEWTFILTER @ le16 (NLM_F_REQUEST OR NLM_F_ACK OR NLM_F_CREATE OR NLM_F_ECHO OR flags) @ replicate 8 0)
        (tc_attach_body ifindex handle priority parent fd (filter_name name i)) req"
proof -
  let ?fl = "NLM_F_REQUEST OR NLM_F_ACK OR NLM_F_CREATE OR NLM_F_ECHO OR flags"
  let ?hdr = "le16 RTM_NEWTFILTER @ le16 ?fl @ replicate 8 (0 :: u8)" and ?s = "filter_name name i"
  define b where "b = tcmsg 0 (word_of_int ifindex) handle parent (tc_filter_info priority)"
  define k where "k = stream [(1, c_bytes ''bpf'')]"
  have lb: "length b = 20" "length k = 8" by (simp_all add: b_def k_def length_attr_bytes align4_def)
  have s: "length (c_bytes ?s) \<le> 32" "length ?s < 256" using length_filter_name[OF name, of i] by simp_all
  obtain r0 r1 where r0: "new_req (16 + 20) RTM_NEWTFILTER ?fl b = Some r0"
    and r1: "nlattr_add r0 1 (Some (c_bytes ''bpf'')) 4 = Some (0, r1)" "req_is ?hdr (b @ k) r1"
    using kind_request[OF lb(1), of RTM_NEWTFILTER ?fl] unfolding k_def by blast
  let ?n = "attr_bytes 0x8002 []"
  obtain r2 where r2: "nlattr_begin_nested r1 2 = Some (Some 44, r2)" "req_is ?hdr ((b @ k) @ ?n) r2"
    using begin_nested_fits[OF r1(2), of 2] lb by auto
  have ln: "length ((b @ k) @ ?n) = 32" using lb by (simp add: length_attr_bytes align4_def)
  let ?a1 = "[(6, le32 (word_of_int fd))] :: (u16 \<times> u8 list) list"
  obtain r3 where r3: "nlattr_add r2 6 (Some (le32 (word_of_int fd))) 4 = Some (0, r3)" "req_is ?hdr (((b @ k) @ ?n) @ stream ?a1) r3"
    using add_u32[of ?hdr "(b @ k) @ ?n" "[]" r2 6 "word_of_int fd"] r2(2) ln by auto
  let ?a2 = "?a1 @ [(7, c_bytes ?s)]"
  obtain r4 where r4: "nlattr_add r3 7 (Some (c_bytes ?s)) (length ?s + 1) = Some (0, r4)" "req_is ?hdr (((b @ k) @ ?n) @ stream ?a2) r4"
    using add_bytes[of ?hdr "(b @ k) @ ?n" ?a1 r3 "c_bytes ?s" 8 7] r3(2) ln s(1) length_stream_u32(1) by (auto simp: c_bytes_def)
  have l2: "length (stream ?a2) \<le> 44" using align4_le[of "length (c_bytes ?s)" 8] s(1) by (simp add: length_attr_bytes align4_def[of 4])
  obtain r5 where r5: "nlattr_add r4 8 (Some (le32 1)) 4 = Some (0, r5)" "req_is ?hdr (((b @ k) @ ?n) @ stream (attach_opts fd ?s)) r5"
    using add_u32[of ?hdr "(b @ k) @ ?n" ?a2 r4 8 1] r4(2) ln l2 by (auto simp: attach_opts_def)
  obtain r6 where r6: "nlattr_end_nested r5 44 = Some r6" "req_is ?hdr ((b @ k) @ attr_bytes 0x8002 (stream (attach_opts fd ?s))) r6"
    using end_nested_closes[of ?hdr "b @ k" "0x8002" "stream (attach_opts fd ?s)" r5] r5(2) stream_dvd lb by auto
  have "tc_add_fd_and_name prog_info r2 fd w = Some ((0, r4), w1)"
    using info r3(1) r4(1) s(2) by (simp add: tc_add_fd_and_name_def Let_def)
  then have "tc_attach_request prog_info ifindex handle priority parent flags fd w = Some (Inr r6, w1)"
    unfolding tc_attach_request_def b_def[symmetric] using r0 r1(1) r2(1) r5(1) r6(1) by (simp add: b_def)
  then show ?thesis using r6(2) by (auto simp: tc_attach_body_def b_def k_def)
qed

subsection \<open>The answer\<close>

text \<open>A message that describes a filter: its kind, its options with the id of the program, and anything else.\<close>

definition tells_filter :: "u8 list \<Rightarrow> u32 \<Rightarrow> u32 \<Rightarrow> u32 \<Rightarrow> bool" where
  "tells_filter body handle info prog \<longleftrightarrow> body_ok body \<and> (\<exists>ix par attrs opts. body = tcmsg 0 ix handle par info @ stream attrs
     \<and> (\<forall>(t, p) \<in> set attrs \<union> set opts. length p + 4 < 2 ^ 16) \<and> last_attr attrs TCA_KIND \<noteq> None
     \<and> last_attr attrs TCA_OPTIONS = Some (stream opts) \<and> last_attr opts TCA_BPF_ID = Some (le32 prog))"

definition noted :: "u32 \<Rightarrow> u32 \<Rightarrow> u32 \<Rightarrow> bpf_tc_opts \<Rightarrow> bpf_tc_opts" where
  "noted prog handle info opts = opts\<lparr>opts_prog_id := prog, opts_handle := handle, opts_priority := drop_bit 16 (tc_h_maj info)\<rparr>"

lemma get_tc_info_here:
  assumes buf: "buf = pre @ nlmsg t f s p body @ post" and tells: "tells_filter body handle info prog"
    and c: "cb_opts c = Some opts" "\<not> (f AND NLM_F_ECHO \<noteq> 0 \<and> cb_processed c)"
  shows "get_tc_info buf (length pre) c =
    Some (if f AND NLM_F_ECHO \<noteq> 0 then NL_NEXT else NL_DONE, \<lparr>cb_opts = Some (noted prog handle info opts), cb_processed = True\<rparr>)"
proof -
  obtain ix par as os where b: "body = tcmsg 0 ix handle par info @ stream as" and small: "\<forall>(t, p) \<in> set as. length p + 4 < 2 ^ 16"
      "\<forall>(t, p) \<in> set os. length p + 4 < 2 ^ 16" and kind: "last_attr as TCA_KIND \<noteq> None"
    and la: "last_attr as TCA_OPTIONS = Some (stream os)" "last_attr os TCA_BPF_ID = Some (le32 prog)" and ok: "body_ok body"
    using tells unfolding tells_filter_def ball_Un by blast
  obtain pre' where pre': "buf = pre' @ body @ post" "length pre' = length pre + 16" using nlmsg_at(6)[OF buf refl] by blast
  let ?m = "tcmsg 0 ix handle par info"
  have bs: "buf = (pre' @ ?m) @ stream as @ post" using pre'(1) b by simp
  have "sint (of_nat (16 + length body) - 36 :: u32) = int (length (stream as))" using body_ok_payload[OF ok, of 36] b by simp
  then obtain tb where tb: "libbpf_nla_parse buf TCA_MAX (length pre + 16 + 20) (sint (of_nat (16 + length body) - 36 :: u32)) None = Some (0, tb)"
      "\<forall>k \<le> TCA_MAX. case last_attr as k of None \<Rightarrow> tb ! k = None | Some p \<Rightarrow> \<exists>nla. tb ! k = Some nla \<and> attr_here buf nla p"
    using parse_whole[OF small(1) bs, of TCA_MAX] pre'(2) by (auto simp: add.assoc)
  obtain kd where kd: "tb ! TCA_KIND = Some kd" using tb(2)[rule_format, of TCA_KIND] kind by (auto split: option.splits)
  obtain nla where nla: "tb ! TCA_OPTIONS = Some nla" "attr_here buf nla (stream os)" using tb(2)[rule_format, of TCA_OPTIONS] la(1) by auto
  obtain tbb where tbb: "libbpf_nla_parse_nested buf TCA_BPF_MAX nla None = Some (0, tbb)"
      "\<forall>k \<le> TCA_BPF_MAX. case last_attr os k of None \<Rightarrow> tbb ! k = None | Some p \<Rightarrow> \<exists>nla. tbb ! k = Some nla \<and> attr_here buf nla p"
    using parse_nested_here[OF nla(2) small(2)] by blast
  obtain a where a: "tbb ! TCA_BPF_ID = Some a" "libbpf_nla_getattr_u32 buf a = Some prog"
    using tbb(2)[rule_format, of TCA_BPF_ID] la(2) getattr_here(1) by auto
  have h: "load32 buf (length pre + 16 + 8) = Some handle" "load32 buf (length pre + 16 + 16) = Some info"
    using load32_at[of "pre' @ [0, 0, 0, 0] @ le32 ix" "length pre + 16 + 8" handle "le32 par @ le32 info @ stream as @ post"]
      load32_at[of "pre' @ [0, 0, 0, 0] @ le32 ix @ le32 handle @ le32 par" "length pre + 16 + 16" info "stream as @ post"] pre'(2)
    unfolding bs tcmsg_def by simp_all
  have "tc_info_of buf (length pre + 16) tb (f AND NLM_F_ECHO \<noteq> 0) c =
      Some (if f AND NLM_F_ECHO \<noteq> 0 then NL_NEXT else NL_DONE, \<lparr>cb_opts = Some (noted prog handle info opts), cb_processed = True\<rparr>)"
    unfolding tc_info_of_def using c nla(1) tbb(1) a h by (simp add: noted_def)
  then show ?thesis
    unfolding get_tc_info_def using nlmsg_at(1,3)[OF buf refl] tb(1) kd by simp
qed

text \<open>The two answers: a filter and then an acknowledgement for \<open>bpf_tc_attach\<close>, a filter for \<open>bpf_tc_query\<close>.\<close>

definition ack_msg :: "u32 \<Rightarrow> u32 \<Rightarrow> u8 list \<Rightarrow> u8 list" where
  "ack_msg seq pid hdr = nlmsg NLMSG_ERROR 0x100 seq pid (le32 0 @ hdr)"

lemma run_ack:
  assumes "length hdr = 16"
  shows "run_datagrams fn pid seq [ack_msg seq pid hdr] c = Some (0, c)"
proof -
  let ?d = "ack_msg seq pid hdr" and ?b = "le32 0 @ hdr"
  have d: "?d = [] @ nlmsg NLMSG_ERROR 0x100 seq pid ?b @ []" by (simp add: ack_msg_def)
  have ok: "body_ok ?b" using assms by (simp add: body_ok_def)
  obtain pre' where "?d = pre' @ le32 0 @ hdr" "length pre' = 16" using nlmsg_at(6)[OF d refl] by auto
  then have "load32 ?d 16 = Some 0" using load32_at[of pre' 16 0 hdr] by simp
  then have "recv_msg fn pid seq ?d 0 False c = Some (Inr (False, c))"
    using nlmsg_at(1-5)[OF d refl] by (simp add: recv_msg_def)
  then have "recv_msgs fn pid seq ?d 0 (int (length ?d)) False c = Some (Next False, c)"
    using recv_msgs_here[OF d ok, of fn pid seq False c] assms by (simp add: length_nlmsg ack_msg_def recv_msgs_end)
  moreover have "?d \<noteq> []" by (simp add: ack_msg_def nlmsg_def le16_def)
  ultimately show ?thesis by simp
qed

lemma run_filter:
  assumes "tells_filter body handle info prog" "t \<noteq> NLMSG_ERROR" "t \<noteq> NLMSG_DONE" "cb_opts c = Some opts" "\<not> cb_processed c"
  shows "run_datagrams (Some get_tc_info) pid seq (nlmsg t f seq pid body # ds) c =
    (let c' = \<lparr>cb_opts = Some (noted prog handle info opts), cb_processed = True\<rparr>
     in if f AND NLM_F_ECHO \<noteq> 0 then run_datagrams (Some get_tc_info) pid seq ds c' else Some (0, c'))"
proof -
  let ?d = "nlmsg t f seq pid body" and ?c = "\<lparr>cb_opts = Some (noted prog handle info opts), cb_processed = True\<rparr>"
  have d: "?d = [] @ nlmsg t f seq pid body @ []" by simp
  have ok: "body_ok body" using assms(1) by (simp add: tells_filter_def)
  have "recv_msg (Some get_tc_info) pid seq ?d 0 False c = Some (Inl (if f AND NLM_F_ECHO \<noteq> 0 then Restart else Done 0, ?c))"
    using nlmsg_at(2-5)[OF d refl] get_tc_info_here[OF d assms(1,4)] assms(2,3,5) by (simp add: recv_msg_def)
  then have "recv_msgs (Some get_tc_info) pid seq ?d 0 (int (length ?d)) False c = Some (if f AND NLM_F_ECHO \<noteq> 0 then Restart else Done 0, ?c)"
    using recv_msgs_here[OF d ok, of "Some get_tc_info" pid seq False c] by (simp add: length_nlmsg)
  moreover have "?d \<noteq> []" by (simp add: nlmsg_def le16_def)
  ultimately show ?thesis by simp
qed

subsection \<open>Sockets\<close>

text \<open>On every path, errors included, the functions leave the open sockets as they found them.\<close>

context netlink_sockets
begin

lemma qdisc_modify_socks: "tc_qdisc_modify env hook cmd flags w = Some (r, w') \<Longrightarrow> socks w' = socks w"
  by (auto simp: tc_qdisc_modify_def Let_def elim!: bind_SomeE split: if_splits prod.splits dest!: send_recv_socks)

lemma detach_socks: "tc_detach env hook opts flush w = Some (r, w') \<Longrightarrow> socks w' = socks w"
  by (auto simp: tc_detach_def Let_def elim!: bind_SomeE split: option.splits if_splits prod.splits dest!: send_recv_socks)

lemma converse_socks: "tc_converse env req opts w = Some (r, w') \<Longrightarrow> socks w' = socks w"
  by (auto simp: tc_converse_def elim!: bind_SomeE dest!: send_recv_socks)

lemma tc_hook_socks:
  "bpf_tc_hook_create env hook w = Some (r, w') \<Longrightarrow> socks w' = socks w"
  "bpf_tc_hook_destroy env hook w = Some (r, w') \<Longrightarrow> socks w' = socks w"
  "bpf_tc_detach env hook opts w = Some (r, w') \<Longrightarrow> socks w' = socks w"
  by (auto simp: bpf_tc_hook_create_def bpf_tc_hook_destroy_def bpf_tc_detach_def tc_qdisc_create_excl_def tc_qdisc_delete_def
      split: option.splits if_splits dest!: qdisc_modify_socks detach_socks)

lemma tc_query_socks: "bpf_tc_query env hook opts w = Some (r, w') \<Longrightarrow> socks w' = socks w"
  by (auto simp: bpf_tc_query_def Let_def elim!: bind_SomeE split: option.splits if_splits prod.splits dest!: converse_socks)

end

subsection \<open>What attaching reports\<close>

definition attach_args_ok :: "bpf_tc_hook \<Rightarrow> bpf_tc_opts \<Rightarrow> bool" where
  "attach_args_ok hook opts \<longleftrightarrow> hook_valid hook \<and> opts_valid opts \<and> 0 < hook_ifindex hook \<and> opts_prog_fd opts \<noteq> 0 \<and> opts_prog_id opts = 0
     \<and> opts_priority opts \<le> 0xFFFF \<and> opts_flags opts AND NOT BPF_TC_F_REPLACE = 0"

definition attach_nlm_flags :: "bpf_tc_opts \<Rightarrow> u16" where
  "attach_nlm_flags opts = NLM_F_REQUEST OR NLM_F_ACK OR NLM_F_CREATE OR NLM_F_ECHO
     OR (if opts_flags opts AND BPF_TC_F_REPLACE \<noteq> 0 then NLM_F_REPLACE else NLM_F_EXCL)"

context netlink_talk
begin

lemma tc_attach_runs:
  assumes args: "attach_args_ok hook opts" and parent: "tc_get_tcm_parent (hook_attach_point hook) (hook_parent hook) = (0, parent)"
    and info: "prog_info (opts_prog_fd opts) w = (Inr (name, i), w1)" "length name \<le> 15" "socks w1 = socks w"
    and kernel: "\<And>pid seq. answer pid (nlmsg RTM_NEWTFILTER (attach_nlm_flags opts) seq 0
        (tc_attach_body (hook_ifindex hook) (opts_handle opts) (opts_priority opts) parent (opts_prog_fd opts) (filter_name name i)))
      = [nlmsg RTM_NEWTFILTER NLM_F_ECHO seq pid body, ack_msg seq pid (hdr pid seq)]"
    and told: "tells_filter body handle tcm_info prog" "\<And>pid seq. length (hdr pid seq) = 16"
  shows "\<exists>w'. bpf_tc_attach env prog_info (Some hook) (Some opts) w = Some ((0, Some (noted prog handle tcm_info opts)), w') \<and> socks w' = socks w"
proof -
  let ?fl = "if opts_flags opts AND BPF_TC_F_REPLACE \<noteq> 0 then NLM_F_REPLACE else NLM_F_EXCL"
  obtain req where req: "tc_attach_request prog_info (hook_ifindex hook) (opts_handle opts) (opts_priority opts) parent ?fl (opts_prog_fd opts) w = Some (Inr req, w1)"
      "req_is (le16 RTM_NEWTFILTER @ le16 (attach_nlm_flags opts) @ replicate 8 0)
        (tc_attach_body (hook_ifindex hook) (opts_handle opts) (opts_priority opts) parent (opts_prog_fd opts) (filter_name name i)) req"
    using tc_attach_request_is[where prog_info = prog_info, OF info(1,2)] unfolding attach_nlm_flags_def by blast
  let ?c = "\<lparr>cb_opts = Some opts, cb_processed = False\<rparr>" and ?c' = "\<lparr>cb_opts = Some (noted prog handle tcm_info opts), cb_processed = True\<rparr>"
  have "run_datagrams (Some get_tc_info) pid seq [nlmsg RTM_NEWTFILTER NLM_F_ECHO seq pid body, ack_msg seq pid (hdr pid seq)] ?c = Some (0, ?c')" for pid seq
    using run_filter[OF told(1), of RTM_NEWTFILTER ?c opts] run_ack[OF told(2)] by (simp add: Let_def del: run_datagrams.simps)
  then obtain w' where w': "libbpf_netlink_send_recv env req NETLINK_ROUTE (Some get_tc_info) ?c w1 = Some ((0, ?c'), w')" "socks w' = socks w1"
    using send_recv_runs[OF req(2), of "Some get_tc_info" ?c "(0, ?c')" NETLINK_ROUTE w1] kernel by auto
  have "tc_converse env req opts w1 = Some ((0, Some (noted prog handle tcm_info opts)), w')" using w'(1) by (simp add: tc_converse_def)
  then show ?thesis
    using args parent req(1) w'(2) info(3) unfolding bpf_tc_attach_def attach_args_ok_def by (simp add: Let_def not_less)
qed

text \<open>A query sends the handle and the priority and reports the filter it is told about.\<close>

lemma tc_query_runs:
  assumes args: "hook_valid hook" "opts_valid opts" "0 < hook_ifindex hook" "opts_flags opts = 0" "opts_prog_fd opts = 0" "opts_prog_id opts = 0"
      "opts_handle opts \<noteq> 0" "opts_priority opts \<noteq> 0" "opts_priority opts \<le> 0xFFFF"
    and parent: "tc_get_tcm_parent (hook_attach_point hook) (hook_parent hook) = (0, parent)"
    and kernel: "\<And>pid seq. answer pid (nlmsg RTM_GETTFILTER NLM_F_REQUEST seq 0 (tcmsg 0 (word_of_int (hook_ifindex hook)) (opts_handle opts) parent
        (tc_filter_info (opts_priority opts)) @ stream [(1, c_bytes ''bpf'')])) = [nlmsg RTM_NEWTFILTER 0 seq pid body]"
    and told: "tells_filter body handle tcm_info prog"
  shows "\<exists>w'. bpf_tc_query env (Some hook) (Some opts) w = Some ((0, Some (noted prog handle tcm_info opts)), w') \<and> socks w' = socks w"
proof -
  let ?b = "tcmsg 0 (word_of_int (hook_ifindex hook)) (opts_handle opts) parent (tc_filter_info (opts_priority opts))"
  obtain r0 r1 where r: "new_req (16 + 20) RTM_GETTFILTER NLM_F_REQUEST ?b = Some r0" "nlattr_add r0 1 (Some (c_bytes ''bpf'')) 4 = Some (0, r1)"
    and req: "req_is (le16 RTM_GETTFILTER @ le16 NLM_F_REQUEST @ replicate 8 0) (?b @ stream [(1, c_bytes ''bpf'')]) r1"
    using kind_request[of ?b RTM_GETTFILTER NLM_F_REQUEST] by auto
  let ?c = "\<lparr>cb_opts = Some opts, cb_processed = False\<rparr>" and ?c' = "\<lparr>cb_opts = Some (noted prog handle tcm_info opts), cb_processed = True\<rparr>"
  have "run_datagrams (Some get_tc_info) pid seq [nlmsg RTM_NEWTFILTER 0 seq pid body] ?c = Some (0, ?c')" for pid seq
    using run_filter[OF told, of RTM_NEWTFILTER ?c opts] by (simp add: Let_def del: run_datagrams.simps)
  then obtain w' where w': "libbpf_netlink_send_recv env r1 NETLINK_ROUTE (Some get_tc_info) ?c w = Some ((0, ?c'), w')" "socks w' = socks w"
    using send_recv_runs[OF req, of "Some get_tc_info" ?c "(0, ?c')" NETLINK_ROUTE w] kernel by auto
  then have "tc_converse env r1 opts w = Some ((0, Some (noted prog handle tcm_info opts)), w')" by (simp add: tc_converse_def)
  then show ?thesis using args parent r w'(2) unfolding bpf_tc_query_def by (simp add: Let_def not_less)
qed

end


definition w_filter :: "u8 list" where
  "w_filter = tcmsg 0 3 1 0xFFFFFFF2 0xC0000300 @ stream [(1, c_bytes ''bpf''), (2, stream [(11, le32 42)])]"

definition w_tc_answer :: "u32 \<Rightarrow> u8 list \<Rightarrow> u8 list list" where
  "w_tc_answer p m = (case load32 m 8 of None \<Rightarrow> [] | Some seq \<Rightarrow> [nlmsg RTM_NEWTFILTER NLM_F_ECHO seq p w_filter, ack_msg seq p (replicate 16 0)])"

lemma w_filter_told: "tells_filter w_filter 1 0xC0000300 42"
proof -
  have "last_attr [(1, c_bytes ''bpf''), (2, stream [(11, le32 42)])] TCA_KIND \<noteq> None"
    "last_attr [(1, c_bytes ''bpf''), (2, stream [(11, le32 42)])] TCA_OPTIONS = Some (stream [(11, le32 42)])"
    "last_attr [(11, le32 42)] TCA_BPF_ID = Some (le32 42)"
    by (simp_all add: last_attr_def type_nr_def)
  then show ?thesis unfolding tells_filter_def
    by (intro conjI exI[of _ 3] exI[of _ "0xFFFFFFF2"] exI[of _ "[(1, c_bytes ''bpf''), (2, stream [(11, le32 42)])]"] exI[of _ "[(11, le32 42)]"])
      (auto simp: w_filter_def body_ok_def length_attr_bytes align4_def)
qed


end
