(* ===== verification/Ringbuf.thy ===== *)
theory Ringbuf
  imports Nlattr
begin

text \<open>
  The ring buffers of \<open>libbpf/src/ringbuf.c\<close>: reading the records of a kernel ring (\<open>ringbuf_process_ring\<close>) and writing records into a user ring
  (\<open>user_ring_buffer__reserve\<close> and the commit).  The data pages are mapped twice in a row, so that an offset below twice the size denotes the
  byte at that offset modulo the size; an access beyond that is \<^const>\<open>None\<close>.  The positions are 64-bit words that only grow.  A sample is given by
  its offset.
\<close>

abbreviation (input) BPF_RINGBUF_BUSY_BIT :: u32 where "BPF_RINGBUF_BUSY_BIT \<equiv> 0x80000000"
abbreviation (input) BPF_RINGBUF_DISCARD_BIT :: u32 where "BPF_RINGBUF_DISCARD_BIT \<equiv> 0x40000000"
abbreviation (input) ENOSPC :: int where "ENOSPC \<equiv> 28"
abbreviation (input) INT_MAX :: int where "INT_MAX \<equiv> 0x7FFFFFFF"

record ring =
  ring_data :: "u8 list"
  consumer_pos :: u64
  producer_pos :: u64
  ring_mask :: u64

subsection \<open>Mapped memory\<close>

definition byte_at :: "u8 list \<Rightarrow> nat \<Rightarrow> u8" where
  "byte_at d i = d ! (i mod length d)"

definition mapped_bytes :: "u8 list \<Rightarrow> nat \<Rightarrow> nat \<Rightarrow> u8 list option" where
  "mapped_bytes d i n = (if i + n \<le> 2 * length d then Some (map (byte_at d) [i..<i + n]) else None)"

definition mapped32 :: "u8 list \<Rightarrow> nat \<Rightarrow> u32 option" where
  "mapped32 d i = do { bs \<leftarrow> mapped_bytes d i 4; load32 bs 0 }"

fun put_bytes :: "u8 list \<Rightarrow> nat \<Rightarrow> u8 list \<Rightarrow> u8 list" where
  "put_bytes d i [] = d"
| "put_bytes d i (b # bs) = put_bytes (d[i mod length d := b]) (Suc i) bs"

definition store_mapped :: "u8 list \<Rightarrow> nat \<Rightarrow> u8 list \<Rightarrow> u8 list option" where
  "store_mapped d i bs = (if i + length bs \<le> 2 * length d then Some (put_bytes d i bs) else None)"

subsection \<open>Reading\<close>

definition roundup_len :: "u32 \<Rightarrow> int" where
  "roundup_len len = (let len = push_bit 2 len; len = drop_bit 2 len; len = len + 8 in sint ((len + 7) div 8 * 8))"

text \<open>The loop over the records that are there when \<open>producer_pos\<close> is read.  The result is the value to return, if the function returns, the
  ring, the local variables \<open>cons_pos\<close>, \<open>got_new_data\<close> and \<open>cnt\<close>, and the context of the callback.\<close>

partial_function (option) process_records ::
  "('c \<Rightarrow> u8 list \<Rightarrow> int \<times> 'c) \<Rightarrow> u64 \<Rightarrow> ring \<Rightarrow> u64 \<Rightarrow> bool \<Rightarrow> int \<Rightarrow> 'c \<Rightarrow> (int option \<times> ring \<times> u64 \<times> bool \<times> int \<times> 'c) option" where
  "process_records sample_cb prod_pos r cons_pos got_new_data cnt ctx =
     (if cons_pos < prod_pos then do {
        let len_ptr = unat (cons_pos AND ring_mask r);
        len \<leftarrow> mapped32 (ring_data r) len_ptr;
        if len AND BPF_RINGBUF_BUSY_BIT \<noteq> 0 then Some (Some cnt, r, cons_pos, got_new_data, cnt, ctx)
        else
          let cons_pos = cons_pos + word_of_int (roundup_len len); r' = r\<lparr>consumer_pos := cons_pos\<rparr>
          in if len AND BPF_RINGBUF_DISCARD_BIT = 0 then do {
               sample \<leftarrow> mapped_bytes (ring_data r) (len_ptr + 8) (unat len);
               let (err, ctx) = sample_cb ctx sample;
               if err < 0 then Some (Some err, r', cons_pos, True, cnt, ctx)
               else process_records sample_cb prod_pos r' cons_pos True (cnt + 1) ctx
             }
             else process_records sample_cb prod_pos r' cons_pos True cnt ctx
      }
      else Some (None, r, cons_pos, got_new_data, cnt, ctx))"

text \<open>The outer loop.  The functions \<open>arrive\<close> are what producers do to the ring before the next times \<open>producer_pos\<close> is read.\<close>

partial_function (option) process_rounds ::
  "('c \<Rightarrow> u8 list \<Rightarrow> int \<times> 'c) \<Rightarrow> (ring \<Rightarrow> ring) list \<Rightarrow> ring \<Rightarrow> u64 \<Rightarrow> int \<Rightarrow> 'c \<Rightarrow> (int \<times> ring \<times> 'c) option" where
  "process_rounds sample_cb arrive r cons_pos cnt ctx = do {
     let r = (case arrive of [] \<Rightarrow> r | f # _ \<Rightarrow> f r);
     (ret, r, cons_pos, got_new_data, cnt, ctx) \<leftarrow> process_records sample_cb (producer_pos r) r cons_pos False cnt ctx;
     case ret of
       Some v \<Rightarrow> Some (v, r, ctx)
     | None \<Rightarrow> if got_new_data then process_rounds sample_cb (tl arrive) r cons_pos cnt ctx else Some (cnt, r, ctx)
   }"

definition ringbuf_process_ring ::
  "('c \<Rightarrow> u8 list \<Rightarrow> int \<times> 'c) \<Rightarrow> (ring \<Rightarrow> ring) list \<Rightarrow> ring \<Rightarrow> 'c \<Rightarrow> (int \<times> ring \<times> 'c) option" where
  "ringbuf_process_ring sample_cb arrive r ctx = process_rounds sample_cb arrive r (consumer_pos r) 0 ctx"

text \<open>The loops of \<open>ring_buffer__consume\<close> and \<open>ring_buffer__poll\<close> over rings with their callbacks; the result is clipped.\<close>

fun consume_rings :: "(('c \<Rightarrow> u8 list \<Rightarrow> int \<times> 'c) \<times> ring) list \<Rightarrow> int \<Rightarrow> 'c \<Rightarrow> (int \<times> ring list \<times> 'c) option" where
  "consume_rings [] res ctx = Some (if res > INT_MAX then INT_MAX else res, [], ctx)"
| "consume_rings ((cb, r) # rs) res ctx = do {
     (err, r, ctx) \<leftarrow> ringbuf_process_ring cb [] r ctx;
     if err < 0 then Some (err, r # map snd rs, ctx)
     else do { (ret, rs, ctx) \<leftarrow> consume_rings rs (res + err) ctx; Some (ret, r # rs, ctx) }
   }"

definition ring_buffer__consume :: "(('c \<Rightarrow> u8 list \<Rightarrow> int \<times> 'c) \<times> ring) list \<Rightarrow> 'c \<Rightarrow> (int \<times> ring list \<times> 'c) option" where
  "ring_buffer__consume rings ctx = consume_rings rings 0 ctx"

text \<open>\<open>epoll\<close> is the result of \<open>epoll_wait\<close>: an error, or the rings that have data.\<close>

fun poll_rings :: "('c \<Rightarrow> u8 list \<Rightarrow> int \<times> 'c) list \<Rightarrow> nat list \<Rightarrow> ring list \<Rightarrow> int \<Rightarrow> 'c \<Rightarrow> (int \<times> ring list \<times> 'c) option" where
  "poll_rings cbs [] rings res ctx = Some (if res > INT_MAX then INT_MAX else res, rings, ctx)"
| "poll_rings cbs (i # is) rings res ctx =
     (if i < length rings \<and> i < length cbs then do {
        (err, r, ctx) \<leftarrow> ringbuf_process_ring (cbs ! i) [] (rings ! i) ctx;
        if err < 0 then Some (err, rings[i := r], ctx) else poll_rings cbs is (rings[i := r]) (res + err) ctx
      }
      else None)"

definition ring_buffer__poll ::
  "('c \<Rightarrow> u8 list \<Rightarrow> int \<times> 'c) list \<Rightarrow> (int + nat list) \<Rightarrow> ring list \<Rightarrow> 'c \<Rightarrow> (int \<times> ring list \<times> 'c) option" where
  "ring_buffer__poll cbs epoll rings ctx = (case epoll of Inl e \<Rightarrow> Some (e, rings, ctx) | Inr ids \<Rightarrow> poll_rings cbs ids rings 0 ctx)"

subsection \<open>Writing\<close>

definition user_ring_buffer__reserve :: "ring \<Rightarrow> u32 \<Rightarrow> ((int + nat) \<times> ring) option" where
  "user_ring_buffer__reserve rb n =
     (if n AND (BPF_RINGBUF_BUSY_BIT OR BPF_RINGBUF_DISCARD_BIT) \<noteq> 0 then Some (Inl E2BIG, rb)
      else
        let cons_pos = consumer_pos rb; prod_pos = producer_pos rb;
            max_size = (ucast (ring_mask rb + 1) :: u32);
            avail_size = (ucast ((ucast max_size :: u64) - (prod_pos - cons_pos)) :: u32);
            total_size = (n + 8 + 7) div 8 * 8
        in if total_size > max_size then Some (Inl E2BIG, rb)
           else if avail_size < total_size then Some (Inl ENOSPC, rb)
           else do {
             data \<leftarrow> store_mapped (ring_data rb) (unat (prod_pos AND ring_mask rb)) (le32 (n OR BPF_RINGBUF_BUSY_BIT) @ le32 0);
             Some (Inr (unat ((prod_pos + 8) AND ring_mask rb)), rb\<lparr>ring_data := data, producer_pos := prod_pos + ucast total_size\<rparr>)
           })"

definition user_ringbuf_commit :: "ring \<Rightarrow> nat \<Rightarrow> bool \<Rightarrow> ring option" where
  "user_ringbuf_commit rb sample discard = do {
     let hdr_offset = ring_mask rb + 1 + of_nat sample - 8;
     let hdr = unat (hdr_offset AND ring_mask rb);
     len \<leftarrow> mapped32 (ring_data rb) hdr;
     let new_len = len AND NOT BPF_RINGBUF_BUSY_BIT;
     let new_len = (if discard then new_len OR BPF_RINGBUF_DISCARD_BIT else new_len);
     data \<leftarrow> store_mapped (ring_data rb) hdr (le32 new_len);
     Some (rb\<lparr>ring_data := data\<rparr>)
   }"

text \<open>Waiting for room.  \<open>rb_wait\<close> is \<open>epoll_wait\<close> with a timeout, during which the kernel may consume records; \<open>rb_clock\<close> is
  \<open>clock_gettime\<close>, seconds and nanoseconds.\<close>

record 'w rb_env =
  rb_wait :: "int \<Rightarrow> ring \<Rightarrow> 'w \<Rightarrow> (int \<times> ring) \<times> 'w"
  rb_clock :: "'w \<Rightarrow> (int + int \<times> int) \<times> 'w"

definition ns_elapsed_timespec :: "int \<times> int \<Rightarrow> int \<times> int \<Rightarrow> u64" where
  "ns_elapsed_timespec start end_time =
     (let start_ns = word_of_int (fst start) * 1000000000 + word_of_int (snd start);
          end_ns = word_of_int (fst end_time) * 1000000000 + word_of_int (snd end_time)
      in end_ns - start_ns)"

text \<open>The loop: what \<open>continue\<close> does in a \<open>do\<close> loop is to go on with the condition.  After the loop there is one more attempt.\<close>

partial_function (option) reserve_loop ::
  "'w rb_env \<Rightarrow> u32 \<Rightarrow> int \<Rightarrow> int \<times> int \<Rightarrow> int \<Rightarrow> ring \<Rightarrow> 'w \<Rightarrow> (((int + nat) \<times> ring) \<times> 'w) option" where
  "reserve_loop env n timeout_ms start ms_remaining rb w = do {
     (s, rb) \<leftarrow> user_ring_buffer__reserve rb n;
     if s \<noteq> Inl ENOSPC then Some ((s, rb), w)
     else
       let ((cnt, rb), w) = rb_wait env ms_remaining rb w
       in if cnt < 0 then Some ((Inl (- cnt), rb), w)
          else
            let (remaining, w) =
                  (if timeout_ms = -1 then (Inr ms_remaining, w)
                   else case rb_clock env w of
                          (Inl e, w) \<Rightarrow> (Inl e, w)
                        | (Inr now, w) \<Rightarrow> (Inr (timeout_ms - sint (ucast (ns_elapsed_timespec start now div 1000000) :: u32)), w))
            in case remaining of
                 Inl e \<Rightarrow> Some ((Inl e, rb), w)
               | Inr ms_remaining \<Rightarrow>
                   if ms_remaining > 0 then reserve_loop env n timeout_ms start ms_remaining rb w
                   else do { r \<leftarrow> user_ring_buffer__reserve rb n; Some (r, w) }
   }"

definition user_ring_buffer__reserve_blocking :: "'w rb_env \<Rightarrow> ring \<Rightarrow> u32 \<Rightarrow> int \<Rightarrow> 'w \<Rightarrow> (((int + nat) \<times> ring) \<times> 'w) option" where
  "user_ring_buffer__reserve_blocking env rb n timeout_ms w =
     (if timeout_ms < 0 \<and> timeout_ms \<noteq> -1 then Some ((Inl EINVAL, rb), w)
      else case (if timeout_ms \<noteq> -1 then rb_clock env w else (Inr (0, 0), w)) of
             (Inl e, w) \<Rightarrow> Some ((Inl e, rb), w)
           | (Inr start, w) \<Rightarrow> reserve_loop env n timeout_ms start timeout_ms rb w)"

definition user_ring_buffer__discard :: "ring \<Rightarrow> nat \<Rightarrow> ring option" where
  "user_ring_buffer__discard rb sample = user_ringbuf_commit rb sample True"

definition user_ring_buffer__submit :: "ring \<Rightarrow> nat \<Rightarrow> ring option" where
  "user_ring_buffer__submit rb sample = user_ringbuf_commit rb sample False"

subsection \<open>Bytes of a ring\<close>

lemma length_put_bytes [simp]: "length (put_bytes d p bs) = length d"
  by (induction d p bs rule: put_bytes.induct) simp_all

lemma at_put:
  assumes "lo \<le> q" "q < lo + length d" "lo \<le> p" "p + length bs \<le> lo + length d"
  shows "byte_at (put_bytes d p bs) q = (if p \<le> q \<and> q < p + length bs then bs ! (q - p) else byte_at d q)"
  using assms
proof (induction d p bs rule: put_bytes.induct)
  case (2 d i b bs)
  have "0 < length d" using "2.prems" by linarith
  then have "byte_at (d[i mod length d := b]) q = (if i mod length d = q mod length d then b else byte_at d q)" by (simp add: byte_at_def)
  moreover have "i mod length d = q mod length d \<longleftrightarrow> i = q" using mod_window[of lo i "length d" q] "2.prems" by auto
  ultimately show ?case using "2.IH" "2.prems" by (auto simp: nth_Cons' Suc_le_eq not_less_eq_eq)
qed auto

lemma put_bytes_mod: "p mod length d = q mod length d \<Longrightarrow> put_bytes d p bs = put_bytes d q bs"
proof (induction bs arbitrary: d p q)
  case (Cons b bs)
  then have "Suc p mod length d = Suc q mod length d" by (metis mod_Suc_eq)
  then have "put_bytes (d[q mod length d := b]) (Suc p) bs = put_bytes (d[q mod length d := b]) (Suc q) bs" by (intro Cons.IH) simp
  then show ?case by (simp add: Cons.prems)
qed simp

lemma at_mod: "map (byte_at d) [p mod length d..<p mod length d + n] = map (byte_at d) [p..<p + n]"
  by (rule nth_equalityI) (simp_all add: byte_at_def mod_add_left_eq)

lemma mapped_at:
  assumes "n \<le> length d" "0 < length d"
  shows "mapped_bytes d (p mod length d) n = Some (map (byte_at d) [p..<p + n])"
proof -
  have "p mod length d < length d" using assms(2) by simp
  then have "p mod length d + n \<le> 2 * length d" using assms(1) by linarith
  then show ?thesis unfolding mapped_bytes_def at_mod by simp
qed

lemma store_at_pos:
  assumes "length bs \<le> length d" "0 < length d"
  shows "store_mapped d (p mod length d) bs = Some (put_bytes d p bs)"
proof -
  have "p mod length d < length d" using assms(2) by simp
  then have "p mod length d + length bs \<le> 2 * length d" using assms(1) by linarith
  moreover have "put_bytes d (p mod length d) bs = put_bytes d p bs" by (rule put_bytes_mod) simp
  ultimately show ?thesis unfolding store_mapped_def by simp
qed

lemma unat_and_mask64: "unat ((x :: u64) AND mask k) = unat x mod 2 ^ k"
  by (simp only: take_bit_eq_mask[symmetric] unsigned_take_bit_eq) (simp add: take_bit_eq_mod)

subsection \<open>Records\<close>

type_synonym rec = "u8 list \<times> bool"

definition rec_size :: "nat \<Rightarrow> nat" where
  "rec_size n = (n + 15) div 8 * 8"

definition rec_hdr :: "u8 list \<Rightarrow> bool \<Rightarrow> u32" where
  "rec_hdr b disc = of_nat (length b) OR (if disc then BPF_RINGBUF_DISCARD_BIT else 0)"

definition rec_at :: "u8 list \<Rightarrow> nat \<Rightarrow> u8 list \<Rightarrow> u32 \<Rightarrow> bool" where
  "rec_at d pos b hdr \<longleftrightarrow> map (byte_at d) [pos..<pos + 4] = le32 hdr \<and> map (byte_at d) [pos + 8..<pos + 8 + length b] = b"

fun holds :: "u8 list \<Rightarrow> nat \<Rightarrow> rec list \<Rightarrow> bool" where
  "holds d pos [] \<longleftrightarrow> True"
| "holds d pos ((b, disc) # rs) \<longleftrightarrow> length b < 2 ^ 30 \<and> rec_size (length b) \<le> length d \<and> rec_at d pos b (rec_hdr b disc)
     \<and> holds d (pos + rec_size (length b)) rs"

definition rec_total :: "rec list \<Rightarrow> nat" where
  "rec_total rs = (\<Sum>(b, disc) \<leftarrow> rs. rec_size (length b))"

lemma rec_total_simps [simp]: "rec_total [] = 0" "rec_total ((b, disc) # rs) = rec_size (length b) + rec_total rs" "rec_total (rs @ rs') = rec_total rs + rec_total rs'"
  by (simp_all add: rec_total_def)

lemma rec_size_ge: "n + 8 \<le> rec_size n"
  unfolding rec_size_def by linarith

lemma small_bits:
  assumes "n < 2 ^ 30"
  shows "unat (of_nat n :: u32) = n" "bit (of_nat n :: u32) m \<Longrightarrow> m < 30"
proof -
  show u: "unat (of_nat n :: u32) = n" using assms by (simp add: unat_of_nat take_bit_nat_eq_self)
  have "take_bit 30 (of_nat n :: u32) = of_nat n"
    by (rule word_unat_eq_iff[THEN iffD2]) (use assms u in \<open>simp add: unsigned_take_bit_eq take_bit_nat_eq_self\<close>)
  then show "bit (of_nat n :: u32) m \<Longrightarrow> m < 30" by (metis bit_take_bit_iff)
qed

lemma flag_bits: "bit (BPF_RINGBUF_BUSY_BIT) m \<longleftrightarrow> m = 31" "bit (BPF_RINGBUF_DISCARD_BIT) m \<longleftrightarrow> m = 30"
proof -
  have w: "(0x80000000 :: u32) = push_bit 31 1" "(0x40000000 :: u32) = push_bit 30 1" by (simp_all add: push_bit_eq_mult)
  show "bit (BPF_RINGBUF_BUSY_BIT) m \<longleftrightarrow> m = 31" "bit (BPF_RINGBUF_DISCARD_BIT) m \<longleftrightarrow> m = 30"
    unfolding w by (auto simp only: bit_push_bit_iff bit_1_iff possible_bit_word) simp_all
qed

lemma flags_of_small:
  fixes w :: u32
  assumes "\<And>m. bit w m \<Longrightarrow> m < 30"
  shows "(w OR (if disc then BPF_RINGBUF_DISCARD_BIT else 0)) AND BPF_RINGBUF_BUSY_BIT = 0"
    "(w OR (if disc then BPF_RINGBUF_DISCARD_BIT else 0)) AND BPF_RINGBUF_DISCARD_BIT = 0 \<longleftrightarrow> \<not> disc"
    "drop_bit 2 (push_bit 2 (w OR (if disc then BPF_RINGBUF_DISCARD_BIT else 0))) = w"
proof -
  have d: "bit (if disc then BPF_RINGBUF_DISCARD_BIT else 0) m \<longleftrightarrow> disc \<and> m = 30" for m
  proof (cases disc)
    case True
    then show ?thesis by (simp only: if_True flag_bits simp_thms)
  qed simp
  have w: "\<not> bit w 31" "\<not> bit w 30" using assms by fastforce+
  have "\<not> bit ((w OR (if disc then BPF_RINGBUF_DISCARD_BIT else 0)) AND BPF_RINGBUF_BUSY_BIT) n" for n
    by (simp only: bit_and_iff bit_or_iff d flag_bits) (use w in auto)
  then show "(w OR (if disc then BPF_RINGBUF_DISCARD_BIT else 0)) AND BPF_RINGBUF_BUSY_BIT = 0" by (metis bit_word_eqI bit_0_eq bot_apply bot_bool_def)
  have "bit ((w OR (if disc then BPF_RINGBUF_DISCARD_BIT else 0)) AND BPF_RINGBUF_DISCARD_BIT) n \<longleftrightarrow> disc \<and> n = 30" for n
    by (simp only: bit_and_iff bit_or_iff d flag_bits) (use w in auto)
  then show "(w OR (if disc then BPF_RINGBUF_DISCARD_BIT else 0)) AND BPF_RINGBUF_DISCARD_BIT = 0 \<longleftrightarrow> \<not> disc"
    by (metis bit_word_eqI bit_0_eq bot_apply bot_bool_def)
  show "drop_bit 2 (push_bit 2 (w OR (if disc then BPF_RINGBUF_DISCARD_BIT else 0))) = w"
    by (rule bit_word_eqI) (use assms in \<open>auto simp: bit_drop_bit_eq bit_push_bit_iff bit_or_iff d dest: bit_imp_le_length\<close>)
qed

lemma rec_hdr_bits:
  assumes "length b < 2 ^ 30"
  shows "rec_hdr b disc AND BPF_RINGBUF_BUSY_BIT = 0" "rec_hdr b disc AND BPF_RINGBUF_DISCARD_BIT = 0 \<longleftrightarrow> \<not> disc"
    "drop_bit 2 (push_bit 2 (rec_hdr b disc)) = of_nat (length b)" "\<not> disc \<Longrightarrow> unat (rec_hdr b disc) = length b"
proof -
  note s = small_bits[OF assms]
  show "rec_hdr b disc AND BPF_RINGBUF_BUSY_BIT = 0" unfolding rec_hdr_def by (rule flags_of_small(1)[OF s(2)])
  show "rec_hdr b disc AND BPF_RINGBUF_DISCARD_BIT = 0 \<longleftrightarrow> \<not> disc" unfolding rec_hdr_def by (rule flags_of_small(2)[OF s(2)])
  show "drop_bit 2 (push_bit 2 (rec_hdr b disc)) = of_nat (length b)" unfolding rec_hdr_def by (rule flags_of_small(3)[OF s(2)])
  show "\<not> disc \<Longrightarrow> unat (rec_hdr b disc) = length b" by (simp add: rec_hdr_def s(1))
qed

lemma small_no_flags: "n < 2 ^ 30 \<Longrightarrow> (of_nat n :: u32) AND (BPF_RINGBUF_BUSY_BIT OR BPF_RINGBUF_DISCARD_BIT) = 0"
proof -
  assume n: "n < 2 ^ 30"
  define w :: u32 where "w = of_nat n"
  have w: "\<not> bit w 31" "\<not> bit w 30" using small_bits(2)[OF n] unfolding w_def by fastforce+
  have "\<not> bit (w AND (BPF_RINGBUF_BUSY_BIT OR BPF_RINGBUF_DISCARD_BIT)) m" for m
    by (simp only: bit_and_iff bit_or_iff flag_bits) (use w in auto)
  then show ?thesis unfolding w_def[symmetric] by (metis bit_word_eqI bit_0_eq bot_apply bot_bool_def)
qed

lemma rec_size_le: "rec_size n \<le> n + 15"
  by (simp add: rec_size_def)

lemma roundup_word:
  assumes "n < 2 ^ 30"
  shows "unat ((of_nat n + 8 + 7 :: u32) div 8 * 8) = rec_size n"
proof -
  have a: "unat (of_nat n + 8 + 7 :: u32) = n + 15"
    using assms by (simp add: unat_word_ariths small_bits(1) add.assoc)
  have "unat ((of_nat n + 8 + 7 :: u32) div 8) = (n + 15) div 8" unfolding unat_div_distrib a by simp
  moreover have "(n + 15) div 8 * 8 < 2 ^ 32" using assms rec_size_le[of n] by (simp add: rec_size_def)
  ultimately show ?thesis by (simp add: unat_word_ariths rec_size_def)
qed

lemma roundup_rec:
  assumes "length b < 2 ^ 30"
  shows "roundup_len (rec_hdr b disc) = int (rec_size (length b))"
proof -
  let ?w = "(of_nat (length b) + 8 + 7 :: u32) div 8 * 8" and ?n = "rec_size (length b)"
  have n: "?n < 2 ^ 31" using assms rec_size_le[of "length b"] by simp
  have "?w = of_nat ?n"
  proof (rule word_unat_eq_iff[THEN iffD2])
    show "unat ?w = unat (of_nat ?n :: u32)" unfolding roundup_word[OF assms] using n by (simp add: unat_of_nat take_bit_nat_eq_self)
  qed
  moreover have "sint (of_nat ?n :: u32) = int ?n" using n by (simp add: signed_of_nat signed_take_bit_int_eq_self)
  ultimately show ?thesis using rec_hdr_bits(3)[OF assms, of disc] by (simp only: roundup_len_def Let_def)
qed

subsection \<open>What is read\<close>

text \<open>The effect of reading a list of records: the error of a callback, the bytes consumed, the number of samples, and the context.\<close>

fun deliver :: "('c \<Rightarrow> u8 list \<Rightarrow> int \<times> 'c) \<Rightarrow> rec list \<Rightarrow> int \<Rightarrow> 'c \<Rightarrow> int option \<times> nat \<times> int \<times> 'c" where
  "deliver cb [] cnt ctx = (None, 0, cnt, ctx)"
| "deliver cb ((b, disc) # rs) cnt ctx =
     (let (err, ctx) = (if disc then (0, ctx) else cb ctx b)
      in if err < 0 then (Some err, rec_size (length b), cnt, ctx)
         else case deliver cb rs (if disc then cnt else cnt + 1) ctx of (ret, n, cnt, ctx) \<Rightarrow> (ret, rec_size (length b) + n, cnt, ctx))"

definition ring_ok :: "nat \<Rightarrow> ring \<Rightarrow> bool" where
  "ring_ok k r \<longleftrightarrow> length (ring_data r) = 2 ^ k \<and> ring_mask r = mask k \<and> 3 \<le> k \<and> k \<le> 31"

text \<open>The records from the consumer position on; \<open>busy\<close> tells whether a record follows that is not committed yet, with anything behind it.\<close>

definition stops :: "u8 list \<Rightarrow> u64 \<Rightarrow> nat \<Rightarrow> bool \<Rightarrow> bool" where
  "stops d prod_pos pos busy \<longleftrightarrow>
     (if busy then pos < unat prod_pos \<and> (\<exists>h. map (byte_at d) [pos..<pos + 4] = le32 h \<and> h AND BPF_RINGBUF_BUSY_BIT \<noteq> 0) else unat prod_pos = pos)"

definition contents :: "ring \<Rightarrow> rec list \<Rightarrow> bool \<Rightarrow> bool" where
  "contents r rs busy \<longleftrightarrow> holds (ring_data r) (unat (consumer_pos r)) rs
     \<and> stops (ring_data r) (producer_pos r) (unat (consumer_pos r) + rec_total rs) busy"

lemma mapped32_at:
  assumes "ring_ok k r" "map (byte_at (ring_data r)) [unat pos..<unat pos + 4] = le32 h"
  shows "mapped32 (ring_data r) (unat (pos AND ring_mask r)) = Some h"
proof -
  have len: "length (ring_data r) = 2 ^ k" "(4 :: nat) \<le> 2 ^ k"
    using assms(1) power_increasing[of 3 k "2 :: nat"] by (auto simp: ring_ok_def)
  then have "mapped_bytes (ring_data r) (unat (pos AND ring_mask r)) 4 = Some (le32 h)"
    using mapped_at[of 4 "ring_data r" "unat pos"] assms by (simp add: ring_ok_def unat_and_mask64)
  then show ?thesis using load32_at[of "[]" 0 h "[]"] by (simp add: mapped32_def)
qed

lemma unat_advance: "unat pos + n < 2 ^ 64 \<Longrightarrow> unat (pos + word_of_int (int n) :: u64) = unat pos + n"
  by (simp add: unat_word_ariths unat_of_nat take_bit_nat_eq_self)

text \<open>One record: its header, and its sample.\<close>

lemma read_record:
  assumes ok: "ring_ok k r" and c: "contents r ((b, disc) # rs) busy"
  shows "consumer_pos r < producer_pos r" "mapped32 (ring_data r) (unat (consumer_pos r AND ring_mask r)) = Some (rec_hdr b disc)"
    "mapped_bytes (ring_data r) (unat (consumer_pos r AND ring_mask r) + 8) (length b) = Some b"
    "contents (r\<lparr>consumer_pos := consumer_pos r + word_of_int (int (rec_size (length b)))\<rparr>) rs busy" "length b < 2 ^ 30"
proof -
  let ?p = "unat (consumer_pos r)" and ?d = "ring_data r" and ?n = "rec_size (length b)"
  have len: "length ?d = 2 ^ k" "0 < length ?d" and msk: "ring_mask r = mask k" using ok by (auto simp: ring_ok_def)
  have h: "length b < 2 ^ 30" "?n \<le> length ?d" "rec_at ?d ?p b (rec_hdr b disc)" "holds ?d (?p + ?n) rs" using c by (simp_all add: contents_def)
  then show "length b < 2 ^ 30" by simp
  have le: "?p + ?n \<le> unat (producer_pos r)" using c by (auto simp: contents_def stops_def split: if_splits)
  then show "consumer_pos r < producer_pos r" using rec_size_ge[of "length b"] by (simp add: word_less_nat_alt)
  show "mapped32 ?d (unat (consumer_pos r AND ring_mask r)) = Some (rec_hdr b disc)"
    using h(3) by (intro mapped32_at[OF ok]) (simp add: rec_at_def)
  have "mapped_bytes ?d (?p mod length ?d + 8) (length b) = Some (map (byte_at ?d) [?p mod length ?d + 8..<?p mod length ?d + 8 + length b])"
  proof -
    have "?p mod length ?d < length ?d" using len(2) by simp
    then have "?p mod length ?d + 8 + length b \<le> 2 * length ?d" using h(2) rec_size_ge[of "length b"] by linarith
    then show ?thesis by (simp add: mapped_bytes_def)
  qed
  moreover have "map (byte_at ?d) [?p mod length ?d + 8..<?p mod length ?d + 8 + length b] = map (byte_at ?d) [?p + 8..<?p + 8 + length b]"
    by (rule nth_equalityI) (simp_all add: byte_at_def add.assoc mod_add_left_eq)
  ultimately show "mapped_bytes ?d (unat (consumer_pos r AND ring_mask r) + 8) (length b) = Some b"
    using h(3) len(1) by (simp add: msk unat_and_mask64 rec_at_def)
  have "unat (consumer_pos r + word_of_int (int ?n)) = ?p + ?n"
    using le unat_bound[of "producer_pos r"] by (intro unat_advance) simp
  then show "contents (r\<lparr>consumer_pos := consumer_pos r + word_of_int (int ?n)\<rparr>) rs busy"
    using c h(4) by (simp add: contents_def add.assoc)
qed

lemma process_records_reads:
  assumes "ring_ok k r" "contents r rs busy"
  shows "process_records cb (producer_pos r) r (consumer_pos r) got cnt ctx =
    (case deliver cb rs cnt ctx of (ret, n, cnt', ctx') \<Rightarrow>
       let pos = consumer_pos r + of_nat n
       in Some (if ret = None \<and> busy then Some cnt' else ret, r\<lparr>consumer_pos := pos\<rparr>, pos, got \<or> rs \<noteq> [], cnt', ctx'))"
  using assms
proof (induction rs arbitrary: r got cnt ctx)
  case Nil
  show ?case
  proof (cases busy)
    case True
    then obtain h where h: "map (byte_at (ring_data r)) [unat (consumer_pos r)..<unat (consumer_pos r) + 4] = le32 h" "h AND BPF_RINGBUF_BUSY_BIT \<noteq> 0"
      "consumer_pos r < producer_pos r" using Nil.prems by (auto simp: contents_def stops_def word_less_nat_alt)
    then show ?thesis using mapped32_at[OF Nil.prems(1) h(1)] True by (subst process_records.simps) simp
  next
    case False
    then have "\<not> consumer_pos r < producer_pos r" using Nil.prems by (simp add: contents_def stops_def word_less_nat_alt)
    then show ?thesis using False by (subst process_records.simps) simp
  qed
next
  case (Cons a rs)
  obtain b disc where a: "a = (b, disc)" by (cases a)
  note rr = read_record[OF Cons.prems(1) Cons.prems(2)[unfolded a]]
  note bits = rec_hdr_bits[OF rr(5), of disc] roundup_rec[OF rr(5), of disc]
  let ?r = "r\<lparr>consumer_pos := consumer_pos r + word_of_int (int (rec_size (length b)))\<rparr>"
  have ok: "ring_ok k ?r" using Cons.prems(1) by (simp add: ring_ok_def)
  note IH = Cons.IH[OF ok rr(4)]
  show ?case
    using rr(1-3) bits IH by (subst process_records.simps) (auto simp: a Let_def add.assoc split: prod.splits)
qed

lemma deliver_all: "deliver cb rs cnt ctx = (None, n, cnt', ctx') \<Longrightarrow> n = rec_total rs"
proof (induction rs arbitrary: cnt ctx n)
  case (Cons a rs)
  obtain b disc where a: "a = (b, disc)" by (cases a)
  from Cons.prems show ?case unfolding a by (auto simp: Let_def split: prod.splits if_splits dest!: Cons.IH)
qed simp

lemma contents_advanced:
  assumes "contents r rs False"
  shows "contents (r\<lparr>consumer_pos := consumer_pos r + of_nat (rec_total rs)\<rparr>) [] False"
proof -
  have p: "unat (producer_pos r) = unat (consumer_pos r) + rec_total rs" using assms by (simp add: contents_def stops_def)
  then have "unat (consumer_pos r + word_of_int (int (rec_total rs))) = unat (consumer_pos r) + rec_total rs"
    using unat_bound[of "producer_pos r"] by (intro unat_advance) simp
  then show ?thesis using p by (simp add: contents_def stops_def)
qed

lemma process_ring_reads:
  assumes "ring_ok k r" "contents r rs busy"
  shows "ringbuf_process_ring cb [] r ctx = (case deliver cb rs 0 ctx of (ret, n, cnt, ctx') \<Rightarrow>
     Some (case ret of None \<Rightarrow> cnt | Some err \<Rightarrow> err, r\<lparr>consumer_pos := consumer_pos r + of_nat n\<rparr>, ctx'))"
proof -
  obtain ret n cnt ctx' where d: "deliver cb rs 0 ctx = (ret, n, cnt, ctx')" by (cases "deliver cb rs 0 ctx") auto
  let ?r = "r\<lparr>consumer_pos := consumer_pos r + of_nat n\<rparr>"
  note one = process_records_reads[OF assms, of cb False 0 ctx, unfolded d]
  show ?thesis
  proof (cases "ret = None \<and> \<not> busy \<and> rs \<noteq> []")
    case True
    then have "n = rec_total rs" using deliver_all[of cb rs 0 ctx n cnt ctx'] d by simp
    then have "contents ?r [] False" using contents_advanced assms(2) True by simp
    moreover have "ring_ok k ?r" using assms(1) by (simp add: ring_ok_def)
    ultimately have "process_records cb (producer_pos ?r) ?r (consumer_pos ?r) False cnt ctx' = Some (None, ?r, consumer_pos ?r, False, cnt, ctx')"
      using process_records_reads[of k ?r "[]" False cb False cnt ctx'] by (simp add: Let_def)
    then have two: "process_rounds cb [] ?r (consumer_pos ?r) cnt ctx' = Some (cnt, ?r, ctx')" by (subst process_rounds.simps) simp
    show ?thesis using True one two d by (simp add: ringbuf_process_ring_def Let_def) (subst process_rounds.simps, simp)
  next
    case False
    then show ?thesis using one d by (simp add: ringbuf_process_ring_def Let_def) (subst process_rounds.simps, auto)
  qed
qed

subsection \<open>What is written\<close>

lemma holds_append: "holds d pos (rs @ rs') \<longleftrightarrow> holds d pos rs \<and> holds d (pos + rec_total rs) rs'"
  by (induction d pos rs rule: holds.induct) (auto simp: add.assoc)

lemma holds_cong:
  assumes "length d = length d'" "\<And>q. pos \<le> q \<Longrightarrow> q < pos + rec_total rs \<Longrightarrow> byte_at d q = byte_at d' q"
  shows "holds d pos rs \<longleftrightarrow> holds d' pos rs"
  using assms
proof (induction rs arbitrary: pos)
  case (Cons a rs)
  obtain b disc where a: "a = (b, disc)" by (cases a)
  have m: "map (byte_at d) [pos..<pos + 4] = map (byte_at d') [pos..<pos + 4]"
    "map (byte_at d) [pos + 8..<pos + 8 + length b] = map (byte_at d') [pos + 8..<pos + 8 + length b]"
    using Cons.prems(2) rec_size_ge[of "length b"] by (auto simp: a)
  have IH: "holds d (pos + rec_size (length b)) rs \<longleftrightarrow> holds d' (pos + rec_size (length b)) rs"
    using Cons.prems by (intro Cons.IH) (simp_all add: a)
  show ?case by (simp only: a holds.simps rec_at_def m IH Cons.prems(1))
qed simp

lemma unat_ucast_small: "unat (w :: 'a::len word) < 2 ^ LENGTH('b) \<Longrightarrow> unat (ucast w :: 'b::len word) = unat w"
  by (simp add: unsigned_ucast_eq unsigned_take_bit_eq take_bit_nat_eq_self)

lemma reserve_eq:
  assumes ok: "ring_ok k r" and n: "n < 2 ^ 30" and used: "unat (consumer_pos r) \<le> unat (producer_pos r)"
    "unat (producer_pos r) - unat (consumer_pos r) \<le> 2 ^ k"
  shows "user_ring_buffer__reserve r (of_nat n) =
    (if rec_size n > 2 ^ k then Some (Inl E2BIG, r)
     else if 2 ^ k - (unat (producer_pos r) - unat (consumer_pos r)) < rec_size n then Some (Inl ENOSPC, r)
     else Some (Inr (unat ((producer_pos r + 8) AND ring_mask r)),
       r\<lparr>ring_data := put_bytes (ring_data r) (unat (producer_pos r)) (le32 (of_nat n OR BPF_RINGBUF_BUSY_BIT) @ le32 0),
         producer_pos := producer_pos r + of_nat (rec_size n)\<rparr>))"
proof -
  have k: "length (ring_data r) = 2 ^ k" "ring_mask r = mask k" "3 \<le> k" "k \<le> 31" using ok by (auto simp: ring_ok_def)
  have k32: "(2 :: nat) ^ k < 2 ^ 32" "(8 :: nat) \<le> 2 ^ k" using k power_strict_increasing[of k 32 "2 :: nat"] power_increasing[of 3 k "2 :: nat"] by auto
  define N where "N = (2 :: nat) ^ k"
  have two: "mask k + 1 = (of_nat N :: u64)" by (simp add: mask_eq_exp_minus_1 N_def)
  let ?max = "ucast (mask k + 1 :: u64) :: u32" and ?tot = "(of_nat n + 8 + 7 :: u32) div 8 * 8"
  let ?used = "unat (producer_pos r) - unat (consumer_pos r)"
  have u64: "unat (of_nat N :: u64) = N" using k32 by (simp add: unat_of_nat take_bit_nat_eq_self N_def[symmetric])
  have mx: "unat ?max = 2 ^ k" unfolding two using unat_ucast_small[of "of_nat N :: u64", where 'b = 32] u64 k32 by (simp add: N_def)
  have up: "unat (ucast ?max :: u64) = 2 ^ k" using unat_ucast_small[of ?max, where 'b = 64] mx k32 by simp
  have us: "unat (producer_pos r - consumer_pos r) = ?used" using used(1) by (simp add: unat_sub word_le_nat_alt)
  have "unat (ucast ?max - (producer_pos r - consumer_pos r) :: u64) = 2 ^ k - ?used"
    using used(2) up us by (simp add: unat_sub word_le_nat_alt)
  then have av: "unat (ucast (ucast ?max - (producer_pos r - consumer_pos r) :: u64) :: u32) = 2 ^ k - ?used"
    using unat_ucast_small[of "ucast ?max - (producer_pos r - consumer_pos r) :: u64", where 'b = 32] k32 by simp
  have flags: "(of_nat n :: u32) AND (BPF_RINGBUF_BUSY_BIT OR BPF_RINGBUF_DISCARD_BIT) = 0" by (rule small_no_flags[OF n])
  have tot: "unat ?tot = rec_size n" by (rule roundup_word[OF n])
  have "store_mapped (ring_data r) (unat (producer_pos r AND ring_mask r)) (le32 (of_nat n OR BPF_RINGBUF_BUSY_BIT) @ le32 0)
      = Some (put_bytes (ring_data r) (unat (producer_pos r)) (le32 (of_nat n OR BPF_RINGBUF_BUSY_BIT) @ le32 0))"
    using store_at_pos[of "le32 (of_nat n OR BPF_RINGBUF_BUSY_BIT) @ le32 0" "ring_data r" "unat (producer_pos r)"] k k32(2) by (simp add: unat_and_mask64)
  moreover have "ucast ?tot = (of_nat (rec_size n) :: u64)"
  proof (rule word_unat_eq_iff[THEN iffD2])
    have "rec_size n < 2 ^ 32" using n rec_size_le[of n] by simp
    then show "unat (ucast ?tot :: u64) = unat (of_nat (rec_size n) :: u64)"
      using unat_ucast_small[of ?tot, where 'b = 64] tot by (simp add: unat_of_nat take_bit_nat_eq_self)
  qed
  ultimately show ?thesis
    unfolding user_ring_buffer__reserve_def Let_def k(2) flags word_less_nat_alt av tot mx using used(1) by auto
qed

text \<open>An application that writes a record: it reserves room, fills in the sample and commits it.\<close>

definition write_rec :: "ring \<Rightarrow> rec \<Rightarrow> ring option" where
  "write_rec r a = do {
     (s, r) \<leftarrow> user_ring_buffer__reserve r (of_nat (length (fst a)));
     case s of
       Inl _ \<Rightarrow> None
     | Inr sample \<Rightarrow> do {
         d \<leftarrow> store_mapped (ring_data r) sample (fst a);
         if snd a then user_ring_buffer__discard (r\<lparr>ring_data := d\<rparr>) sample else user_ring_buffer__submit (r\<lparr>ring_data := d\<rparr>) sample
       }
   }"

lemma commit_place:
  assumes "ring_ok k r"
  shows "unat ((ring_mask r + 1 + of_nat ((p + 8) mod 2 ^ k) - 8) AND ring_mask r) = p mod 2 ^ k"
proof -
  have k: "ring_mask r = mask k" "3 \<le> k" "k \<le> 31" using assms by (auto simp: ring_ok_def)
  define N where "N = (2 :: nat) ^ k"
  have N: "8 \<le> N" "N < 2 ^ 32" using k power_strict_increasing[of k 32 "2 :: nat"] power_increasing[of 3 k "2 :: nat"] by (auto simp: N_def)
  define s where "s = (p + 8) mod N"
  have s: "s < N" using N by (simp add: s_def)
  have "ring_mask r + 1 + of_nat s - 8 = (of_nat (N + s - 8) :: u64)" using N by (simp add: k mask_eq_exp_minus_1 N_def of_nat_diff)
  moreover have small: "m < 2 ^ 33 \<Longrightarrow> unat (of_nat m :: u64) = m" for m by (simp add: unat_of_nat take_bit_nat_eq_self)
  have "unat (of_nat (N + s - 8) :: u64) = N + s - 8" by (rule small) (use N s in simp)
  ultimately have "unat ((ring_mask r + 1 + of_nat s - 8) AND ring_mask r) = (N + s - 8) mod N" by (simp only: k unat_and_mask64 N_def[symmetric])
  also have "N + s - 8 = (N - 8) + s" using N by simp
  also have "((N - 8) + s) mod N = ((N - 8) + (p + 8)) mod N" unfolding s_def by (simp add: mod_add_right_eq)
  also have "(N - 8) + (p + 8) = p + N" using N by simp
  finally show ?thesis by (simp add: s_def N_def)
qed

lemma clear_busy:
  assumes "n < 2 ^ 30"
  shows "(of_nat n OR BPF_RINGBUF_BUSY_BIT) AND NOT BPF_RINGBUF_BUSY_BIT = (of_nat n :: u32)"
proof -
  define w :: u32 where "w = of_nat n"
  have w: "\<not> bit w 31" using small_bits(2)[OF assms] unfolding w_def by fastforce
  have "bit ((w OR BPF_RINGBUF_BUSY_BIT) AND NOT BPF_RINGBUF_BUSY_BIT) m = bit w m" if "m < 32" for m
    using that by (simp only: bit_and_iff bit_or_iff bit_not_iff flag_bits possible_bit_word) (use w in auto)
  then show ?thesis unfolding w_def[symmetric] by (intro bit_word_eqI) simp
qed

lemma bytes_put_same: "length bs \<le> length d \<Longrightarrow> map (byte_at (put_bytes d p bs)) [p..<p + length bs] = bs"
  by (rule nth_equalityI) (simp_all add: at_put[of p])

lemma bytes_put_other:
  assumes "lo \<le> q" "q + m \<le> lo + length d" "lo \<le> p" "p + length bs \<le> lo + length d" "q + m \<le> p \<or> p + length bs \<le> q"
  shows "map (byte_at (put_bytes d p bs)) [q..<q + m] = map (byte_at d) [q..<q + m]"
  using assms at_put[of lo _ d p bs] by (intro map_cong) auto

text \<open>The bytes after the three stores: the header that is busy, the sample, the final header.\<close>

lemma three_stores:
  assumes n: "8 + length b \<le> m" "P + m \<le> C + length d" "C \<le> P"
    and d: "d1 = put_bytes d P (le32 x @ le32 0)" "d2 = put_bytes d1 (P + 8) b" "d3 = put_bytes d2 P (le32 h)"
  shows "map (byte_at d2) [P..<P + 4] = le32 x" "rec_at d3 P b h" "C \<le> q \<Longrightarrow> q < P \<Longrightarrow> byte_at d3 q = byte_at d q" "length d3 = length d"
proof -
  have l: "length d1 = length d" "length d2 = length d" "length d3 = length d" by (simp_all add: d)
  show "length d3 = length d" by (rule l)
  have w: "length (le32 x @ le32 0) = 8" by simp
  have b1: "map (byte_at d1) [P..<P + 8] = le32 x @ le32 0" using bytes_put_same[of "le32 x @ le32 0" d P] n by (simp add: d(1))
  have "map (byte_at d1) [P..<P + 4] = take 4 (map (byte_at d1) [P..<P + 8])" by (simp add: take_map)
  then have "map (byte_at d1) [P..<P + 4] = le32 x" unfolding b1 by simp
  then show "map (byte_at d2) [P..<P + 4] = le32 x"
    using bytes_put_other[of C P 4 d1 "P + 8" b] n l by (simp add: d(2))
  have "map (byte_at d3) [P..<P + 4] = le32 h" using bytes_put_same[of "le32 h" d2 P] n l by (simp add: d(3))
  moreover have "map (byte_at d3) [P + 8..<P + 8 + length b] = b"
    using bytes_put_other[of C "P + 8" "length b" d2 P "le32 h"] bytes_put_same[of b d1 "P + 8"] n l by (simp add: d(2,3))
  ultimately show "rec_at d3 P b h" by (simp add: rec_at_def)
  show "byte_at d3 q = byte_at d q" if "C \<le> q" "q < P"
  proof -
    have "byte_at d3 q = byte_at d2 q" unfolding d(3) by (subst at_put[of C]) (use that n l in simp_all)
    also have "\<dots> = byte_at d1 q" unfolding d(2) by (subst at_put[of C]) (use that n l in simp_all)
    also have "\<dots> = byte_at d q" unfolding d(1) by (subst at_put[of C]) (use that n w in simp_all)
    finally show ?thesis .
  qed
qed

lemma write_rec_ok:
  assumes ok: "ring_ok k r" and c: "contents r rs False" and n: "length b < 2 ^ 30"
    and fits: "rec_total rs + rec_size (length b) \<le> 2 ^ k" and pos: "unat (producer_pos r) + rec_size (length b) < 2 ^ 64"
  shows "\<exists>r'. write_rec r (b, disc) = Some r' \<and> ring_ok k r' \<and> contents r' (rs @ [(b, disc)]) False \<and> consumer_pos r' = consumer_pos r
    \<and> unat (producer_pos r') = unat (producer_pos r) + rec_size (length b)"
proof -
  define P where "P = unat (producer_pos r)"
  define C where "C = unat (consumer_pos r)"
  let ?d = "ring_data r" and ?m = "rec_size (length b)" and ?x = "of_nat (length b) OR BPF_RINGBUF_BUSY_BIT :: u32"
  have len: "length ?d = 2 ^ k" and msk: "ring_mask r = mask k" using ok by (auto simp: ring_ok_def)
  have PC: "P = C + rec_total rs" "holds ?d C rs" using c by (simp_all add: contents_def stops_def P_def C_def)
  have win: "8 + length b \<le> ?m" "P + ?m \<le> C + length ?d" "C \<le> P" using rec_size_ge[of "length b"] fits PC(1) len by simp_all
  define d1 where "d1 = put_bytes ?d P (le32 ?x @ le32 0)"
  define d2 where "d2 = put_bytes d1 (P + 8) b"
  define d3 where "d3 = put_bytes d2 P (le32 (rec_hdr b disc))"
  note st = three_stores[OF win d1_def d2_def d3_def]
  let ?r1 = "r\<lparr>ring_data := d1, producer_pos := producer_pos r + of_nat ?m\<rparr>" and ?s = "(P + 8) mod 2 ^ k"
  have "unat (producer_pos r + 8) = P + 8" using pos win(1) unat_advance[of "producer_pos r" 8] by (simp add: P_def)
  then have res: "user_ring_buffer__reserve r (of_nat (length b)) = Some (Inr ?s, ?r1)"
    using reserve_eq[OF ok n] PC fits by (simp add: P_def[symmetric] C_def[symmetric] d1_def msk unat_and_mask64)
  have fill: "store_mapped d1 ?s b = Some d2" using store_at_pos[of b d1 "P + 8"] win len by (simp add: d1_def d2_def)
  have ok2: "ring_ok k (?r1\<lparr>ring_data := d2\<rparr>)" using ok by (simp add: ring_ok_def d1_def d2_def)
  have hdr: "mapped32 d2 (P mod 2 ^ k) = Some ?x"
    using mapped_at[of 4 d2 P] st(1) win len load32_at[of "[]" 0 ?x "[]"] by (simp add: mapped32_def d1_def d2_def)
  have put: "store_mapped d2 (P mod 2 ^ k) (le32 (rec_hdr b disc)) = Some d3"
    using store_at_pos[of "le32 (rec_hdr b disc)" d2 P] win len by (simp add: d1_def d2_def d3_def)
  have com: "user_ringbuf_commit (?r1\<lparr>ring_data := d2\<rparr>) ?s disc = Some (?r1\<lparr>ring_data := d3\<rparr>)"
    using commit_place[OF ok2, of P] hdr put clear_busy[OF n] by (cases disc) (simp_all add: user_ringbuf_commit_def Let_def rec_hdr_def)
  have "write_rec r (b, disc) = Some (?r1\<lparr>ring_data := d3\<rparr>)"
    using res fill com by (cases disc) (simp_all add: write_rec_def user_ring_buffer__discard_def user_ring_buffer__submit_def)
  moreover have prod: "unat (producer_pos r + of_nat ?m) = P + ?m" using unat_advance[of "producer_pos r" ?m] pos by (simp add: P_def)
  moreover have "holds d3 C rs" using holds_cong[of d3 ?d C rs] st(3,4) PC by simp
  then have "holds d3 C (rs @ [(b, disc)])" using st(2,4) PC(1) n fits len by (simp add: holds_append)
  then have "contents (?r1\<lparr>ring_data := d3\<rparr>) (rs @ [(b, disc)]) False" using prod PC(1) by (simp add: contents_def stops_def C_def[symmetric] add.assoc)
  moreover have "ring_ok k (?r1\<lparr>ring_data := d3\<rparr>)" using ok st(4) by (simp add: ring_ok_def)
  ultimately show ?thesis by (intro exI[of _ "?r1\<lparr>ring_data := d3\<rparr>"]) (simp add: P_def)
qed

fun write_all :: "ring \<Rightarrow> rec list \<Rightarrow> ring option" where
  "write_all r [] = Some r"
| "write_all r (a # as) = do { r \<leftarrow> write_rec r a; write_all r as }"

lemma write_all_ok:
  assumes "ring_ok k r" "contents r rs False" "\<forall>a \<in> set as. length (fst a) < 2 ^ 30" "rec_total (rs @ as) \<le> 2 ^ k"
    "unat (producer_pos r) + rec_total as < 2 ^ 64"
  shows "\<exists>r'. write_all r as = Some r' \<and> ring_ok k r' \<and> contents r' (rs @ as) False \<and> consumer_pos r' = consumer_pos r"
  using assms
proof (induction as arbitrary: r rs)
  case (Cons a as)
  obtain b disc where a: "a = (b, disc)" by (cases a)
  obtain r1 where r1: "write_rec r (b, disc) = Some r1" "ring_ok k r1" "contents r1 (rs @ [(b, disc)]) False" "consumer_pos r1 = consumer_pos r"
      "unat (producer_pos r1) = unat (producer_pos r) + rec_size (length b)"
    using write_rec_ok[OF Cons.prems(1,2), of b disc] Cons.prems(3-5) by (auto simp: a)
  show ?case using Cons.IH[OF r1(2,3)] r1 Cons.prems(3-5) by (auto simp: a)
qed simp

text \<open>C28: What is written into a ring is read from it.  Records that fit into an empty ring, of any lengths and wherever in the ring they start,
  written one after the other with the functions of the user ring buffer, are all accepted; and \<open>ringbuf_process_ring\<close> then returns
  and has called the callback with exactly the samples that were submitted, in their order and without those discarded, up to the
  first error of the callback, has counted them, and has given exactly their room back.\<close>

theorem ringbuf_roundtrip:
  assumes "ring_ok k r" "contents r [] False" "\<forall>a \<in> set recs. length (fst a) < 2 ^ 30" "rec_total recs \<le> 2 ^ k"
    and "unat (producer_pos r) + rec_total recs < 2 ^ 64"
  shows "\<exists>r'. write_all r recs = Some r'
    \<and> ringbuf_process_ring cb [] r' ctx = (case deliver cb recs 0 ctx of (ret, n, cnt, ctx') \<Rightarrow>
        Some (case ret of None \<Rightarrow> cnt | Some err \<Rightarrow> err, r'\<lparr>consumer_pos := consumer_pos r + of_nat n\<rparr>, ctx'))"
proof -
  obtain r' where r': "write_all r recs = Some r'" "ring_ok k r'" "contents r' recs False" "consumer_pos r' = consumer_pos r"
    using write_all_ok[OF assms(1,2), of recs] assms(3-5) by auto
  then show ?thesis using process_ring_reads[OF r'(2,3), of cb ctx] by simp
qed

text \<open>A ring of 4096 bytes whose positions have almost come round, and a callback that keeps the samples.\<close>

definition w_ring :: ring where
  "w_ring = \<lparr>ring_data = replicate 4096 0, consumer_pos = 8184, producer_pos = 8184, ring_mask = 0xFFF\<rparr>"

theorem ringbuf_roundtrip_witness:
  "\<exists>r'. write_all w_ring [([1, 2, 3], False), ([4], True), ([5, 6], False)] = Some r'
    \<and> ringbuf_process_ring (\<lambda>log b. (0, log @ [b])) [] r' [] = Some (2, r'\<lparr>consumer_pos := 8184 + 48\<rparr>, [[1, 2, 3], [5, 6]])"
proof -
  have m: "(0xFFF :: u64) = mask 12" by (simp add: mask_eq_exp_minus_1)
  have "ring_ok 12 w_ring" "contents w_ring [] False" by (simp_all add: ring_ok_def w_ring_def m contents_def stops_def)
  from ringbuf_roundtrip[OF this, of "[([1, 2, 3], False), ([4], True), ([5, 6], False)]" "\<lambda>log b. (0, log @ [b])" "[]"]
  show ?thesis by (simp add: rec_size_def w_ring_def)
qed


end
