(* ===== verification/Spec2Isabelle.thy ===== *)
theory Spec2Isabelle
  imports Flow_Dump Flow_Race Stats_Print Btf_Raw_Proofs Rewrite_Helpers Loader_Proofs Bpffs Libxdp_Clean Libxdp_Compat Xsk_Faults Hashmap Netlink_Tc Ringbuf
begin

text \<open>
  Verification of an XDP program that classifies network flows with a decision tree, of the tools around
  it, and of the library code that attaches it.

  \<^bold>\<open>The program.\<close>  \<open>xdp_prog/xdp_prog_kern.c\<close> runs in the kernel for each received frame: it parses the frame,
  keeps a record per flow in the map \<open>xdp_flow_tracking\<close>, computes six features in fixed-point arithmetic,
  labels the flow with the decision tree in \<open>dt_map\<close>, and counts in \<open>accounting_map\<close>.  \<open>xdp_loader.c\<close> reads
  its options with \<open>common/common_params.c\<close>, attaches the program through libxdp
  (\<open>lib/xdp-tools/lib/libxdp/libxdp.c\<close>), which puts it behind a dispatcher that can run several programs, and
  pins the maps under \<open>/sys/fs/bpf\<close>.  \<open>dump_map_to_csv.c\<close> and \<open>xdp_stats.c\<close> open the pinned maps and print
  them.  libxdp in turn rests on libbpf, of which the type information queries, the
  netlink requests and the hash map are modelled.  The AF\_XDP sockets of libxdp, which the program's frames can be
  redirected to, are modelled beside them.

  \<^bold>\<open>Conventions.\<close>  Machine integers are words of their width.  An operation that may use memory that is not
  there yields \<^const>\<open>None\<close> in that case, so a theorem that the result is \<open>Some\<close> is a theorem of memory safety;
  errors of the code are values (negative integers, or a sum).  The kernel, the file system, libbpf's object
  loader and the C library's \<open>qsort\<close> are parameters: records of functions on an unspecified state of the
  world.  What their documentation promises is stated as a locale, and every locale is interpreted.

  \<^bold>\<open>The theories.\<close>
  \<^item> \<open>Xdp_Prelude\<close>: word and list lemmas, loads from a packet, byte order (\<open>bpf_endian.h\<close>), error numbers.
  \<^item> \<open>Fixed_Point\<close> (\<open>common_kern_user.h\<close>): conversions, arithmetic and logarithm of 48.16 fixed-point numbers; exact
    values, bounds, and where the code's product and logarithm are not what they should be.
  \<^item> \<open>Decision_Tree\<close> (\<open>common_kern_user.h\<close>, \<open>predict_dt\<close>): the loop over the node array never leaves an array; on an array
    that lays out an abstract tree it computes that tree's classification, and each tree that fits has a layout.
  \<^item> \<open>Bpf_Maps\<close>: the interface of BPF maps as locales, with a bounded hash map and an array as instances.
  \<^item> \<open>Xdp_Prog\<close> (\<open>xdp_prog_kern.c\<close>): parsing, statistics, features, accounting, the entry point.
  \<^item> \<open>Flow_Table\<close>: the program as a client of the map interface.  Over any sequence of frames the record of a flow
    is the fold of its own packets, which is then characterised field by field; verdicts, full tables,
    accounting.
  \<^item> \<open>Flow_Race\<close> (\<open>update_stats\<close>): any number of processors in \<open>update_stats\<close> for one flow, interleaved access by access.  What
    still holds of the record, that no processor waits for another, and that counts can be lost.
  \<^item> \<open>Parsing_Helpers\<close>, \<open>Rewrite_Helpers\<close> (\<open>common/parsing_helpers.h\<close>, \<open>rewrite_helpers.h\<close>, \<open>xdp_stats_kern.h\<close>): all parsers
    meet one contract (a locale), from which the safety of every pipeline of parsers follows; VLAN tags.
  \<^item> \<open>C_Strings\<close>, \<open>Comparators\<close>: the C library functions the user-space code calls, and the contract of
    \<open>qsort\<close> and of its comparison functions.
  \<^item> \<open>Params\<close> (\<open>common_params.c\<close>, \<open>common_defines.h\<close>): the option scanner, the option loop, the help text.
  \<^item> \<open>Btf\<close> (\<open>libbpf/src/btf.c\<close>, \<open>libxdp.c\<close>): type queries; \<open>btf__resolve_size\<close> ends on every input and is exact.
  \<^item> \<open>Btf_Raw\<close>, \<open>Btf_Raw_Proofs\<close> (\<open>libbpf/src/btf.c\<close>): type information as bytes, in either byte order.  Whatever bytes are parsed, what is
    accepted can be read; written in the other byte order and parsed again it is the same.
  \<^item> \<open>Xdp_Program\<close> (\<open>libxdp.c\<close>): a program's run configuration, its parsing from type information, printing, the order of
    programs.
  \<^item> \<open>Multiprog\<close> (\<open>libxdp.c\<close>, \<open>xdp-dispatcher.c.in\<close>): which programs a new dispatcher runs, its configuration, and the
    dispatcher itself.
  \<^item> \<open>Libxdp_Env\<close>, \<open>Libxdp\<close>, \<open>Libxdp_Proofs\<close> (\<open>libxdp.c\<close>): opening, loading and closing programs; generating,
    pinning, attaching and detaching dispatchers; descriptors and files are not leaked where it is shown.
  \<^item> \<open>Bpffs\<close>, \<open>Libxdp_Clean\<close> (\<open>libxdp.c\<close>): finding the BPF file system and taking the lock, with the static variables; removing
    the directories of dispatchers that are gone.
  \<^item> \<open>Libxdp_Compat\<close> (\<open>libxdp.c\<close>): the check whether the kernel supports dispatchers, test runs, pinning one program, accessors; what
    the check leaves behind.
  \<^item> \<open>Flow_Dump\<close> (\<open>dump_map_to_csv.c\<close>): the export ends and is complete on a table at rest.
  \<^item> \<open>User_Tools\<close>, \<open>Loader_Proofs\<close> (\<open>common_user_bpf_xdp.c\<close>, \<open>common_libbpf.c\<close>, \<open>xdp_loader.c\<close>, \<open>xdp_stats.c\<close>): the loader's
    command line, the option to unload, and the pinned files.
  \<^item> \<open>Stats_Print\<close> (\<open>xdp_stats.c\<close>, \<open>print_stats\<close>): double precision arithmetic as rounded rationals, and how far the printed
    throughput is from the exact one.
  \<^item> \<open>Xsk_Ring\<close> (\<open>headers/xdp/xsk.h\<close>): producer and consumer of an AF\_XDP ring as an interleaving of steps; the ring is
    a queue although its counters wrap around.
  \<^item> \<open>Xsk_Prog\<close>, \<open>Xsk\<close> (\<open>libxdp/xsk.c\<close>): memory regions, contexts and sockets as a heap of structures, and the program that serves
    them.  \<open>Xsk_Refs\<close> moves one reference through the operations, error exits included; \<open>Xsk_Api\<close> has the calls of an
    application as steps and shows that the counts stay exact, that a region in use is not deleted and that deleting
    a socket is safe; \<open>Xsk_Faults\<close> has the paths on which this fails.
  \<^item> \<open>Nlattr\<close>, \<open>Netlink\<close>, \<open>Netlink_Query\<close> (\<open>libbpf/src/nlattr.c\<close>, \<open>nlattr.h\<close>, \<open>netlink.c\<close>): netlink attributes are read safely and read back as they
    were written; the requests that attach a program and ask what is attached, with the loop that receives the answers.
  \<^item> \<open>Netlink_Tc\<close> (\<open>libbpf/src/netlink.c\<close>): the hooks of traffic control; what attaching a program there sends and reports.
  \<^item> \<open>Ringbuf\<close> (\<open>libbpf/src/ringbuf.c\<close>): the records of ring buffers; what is written is read, and a reservation without time limit
    waits only once.
  \<^item> \<open>Hashmap\<close> (\<open>libbpf/src/hashmap.c\<close>, \<open>hashmap.h\<close>): the map refines a finite function across rehashes.

  This theory joins the detector and the exporter.

  \<^bold>\<open>Loops and bounds.\<close>  \<open>predict_dt\<close> runs at most \<open>MAX_DT_DEPTH\<close> rounds and its model counts them down.  The retries
  of libxdp are bounded by \<open>MAX_RETRY\<close> in the code and in the model.  The option loop is a total function with a
  measure on the arguments left.  The exporter's loop, the loops that receive netlink messages and read ring buffers, and the walks along type references have no bound in
  the code; they are partial functions, and that they end is a theorem (on a table or ring at rest, on a kernel that
  answers, on well-founded types).  No fuel is used.

  \<^bold>\<open>Not modelled.\<close>  The variants of libxdp for static builds and for old versions of libbpf, and its messages.
  The attachment code uses the lookup of the BPF file system and the lock as services; their own model
  is separate.  Split BTF, and adding and deduplicating types.  The rest of libbpf and of
  xdp-tools (vendored; ELF loading, the other tools), and the Python scripts that train
  and upload the tree: the layout they produce is the hypothesis of the theorems about inference.
\<close>

section \<open>From packets to the exported table\<close>

lemma run_flow_None_iff: "run_flow tree evs old = Some rec \<Longrightarrow> rec = None \<longleftrightarrow> evs = [] \<and> old = None"
  by (induction evs arbitrary: old) (fastforce split: Option.bind_splits)+

lemma flow_events_Nil_iff: "flow_events k es = [] \<longleftrightarrow> k \<notin> event_keys es"
  by (induction es) (auto simp: flow_events_def split: option.splits)

lemma table_features:
  "table_ok (kh_ops n) dops st \<Longrightarrow> map_lookup (kh_ops n) (xdp_flow_tracking st) k = Some dp
   \<Longrightarrow> length (features dp) = MAX_FEATURES"
  by (auto simp: table_ok_def flow_ok_def counters_ok_def)



end
